(* ===== verification/Prelude.thy ===== *)
theory Prelude
  imports Main "HOL-Library.Word"
begin

text \<open>
  Vocabulary shared by every theory of the development: the machine integers of the Rust
  sources with their saturating and checked operations, byte strings, the strictly ascending
  lists that stand for boundary offsets and sequence numbers, and slices of a byte buffer.
\<close>

named_theorems rust_defs \<open>definitions of the standard-library operations the sources use\<close>
named_theorems seg_simps \<open>rewrite rules for slices of a buffer\<close>

type_synonym u8 = "8 word"
type_synonym u32 = "32 word"
type_synonym u64 = "64 word"
type_synonym i64 = "64 word"  \<comment> \<open>two's complement, read with \<open>sint\<close>\<close>
type_synonym i32 = "32 word"
type_synonym bytes = string   \<comment> \<open>a HOL \<open>char\<close> is one byte\<close>

section \<open>Saturating and checked arithmetic\<close>

definition sat_add :: "'a::len word \<Rightarrow> 'a word \<Rightarrow> 'a word" where
  [rust_defs]: "sat_add a b = (if unat a + unat b < 2 ^ LENGTH('a) then a + b else - 1)"

definition sat_sub :: "'a::len word \<Rightarrow> 'a word \<Rightarrow> 'a word" where
  [rust_defs]: "sat_sub a b = (if b \<le> a then a - b else 0)"

definition sat_mul :: "'a::len word \<Rightarrow> 'a word \<Rightarrow> 'a word" where
  [rust_defs]: "sat_mul a b = (if unat a * unat b < 2 ^ LENGTH('a) then a * b else - 1)"

definition checked_add :: "'a::len word \<Rightarrow> 'a word \<Rightarrow> 'a word option" where
  [rust_defs]: "checked_add a b = (if unat a + unat b < 2 ^ LENGTH('a) then Some (a + b) else None)"

lemma unat_max_word: "unat (- 1 :: 'a::len word) = 2 ^ LENGTH('a) - 1"
  by (simp add: unsigned_minus_1_eq_mask mask_eq_exp_minus_1)

lemma unat_sat_add: "unat (sat_add a b) = min (unat a + unat b) (2 ^ LENGTH('a) - 1)"
  for a b :: "'a::len word"
  by (auto simp: sat_add_def unat_max_word unat_word_ariths min_def)

lemma unat_sat_sub: "unat (sat_sub a b) = unat a - unat b"
  by (auto simp: sat_sub_def unat_sub word_le_nat_alt)

lemma unat_sat_mul: "unat (sat_mul a b) = min (unat a * unat b) (2 ^ LENGTH('a) - 1)"
  for a b :: "'a::len word"
  by (cases "unat a * unat b < 2 ^ LENGTH('a)")
    (simp_all add: sat_mul_def unat_max_word unat_word_ariths min_absorb1 min_absorb2)

lemma checked_add_Some:
  "checked_add a b = Some c \<longleftrightarrow> unat a + unat b < 2 ^ LENGTH('a) \<and> c = a + b"
  for a b :: "'a::len word"
  by (auto simp: checked_add_def)

lemma checked_add_unat: "checked_add a b = Some c \<Longrightarrow> unat c = unat a + unat b"
  by (auto simp: checked_add_Some unat_word_ariths)

section \<open>Strictly ascending lists\<close>

fun strictly_ascending :: "'a::linorder list \<Rightarrow> bool" where
  "strictly_ascending [] = True"
| "strictly_ascending [x] = True"
| "strictly_ascending (x # y # zs) = (x < y \<and> strictly_ascending (y # zs))"

lemma strictly_ascending_Cons:
  "strictly_ascending (x # xs) \<longleftrightarrow> (\<forall>y\<in>set xs. x < y) \<and> strictly_ascending xs"
proof (induction xs arbitrary: x)
  case Nil
  then show ?case by simp
next
  case (Cons y ys)
  then show ?case by (metis list.set_intros(1) list.set_intros(2) order_less_trans
        set_ConsD strictly_ascending.simps(3))
qed

lemma strictly_ascending_iff: "strictly_ascending xs \<longleftrightarrow> sorted_wrt (<) xs"
  by (induction xs) (auto simp: strictly_ascending_Cons)

lemma strictly_ascending_sorted_distinct:
  "strictly_ascending xs \<longleftrightarrow> sorted xs \<and> distinct xs"
  by (simp add: strictly_ascending_iff strict_sorted_iff)

lemma strictly_ascending_filter: "strictly_ascending xs \<Longrightarrow> strictly_ascending (filter P xs)"
  by (simp add: strictly_ascending_iff sorted_wrt_filter)

section \<open>Slices\<close>

text \<open>Rust's \<open>&content[a..b]\<close> for offsets that are in range and ordered.\<close>

definition seg :: "nat \<Rightarrow> nat \<Rightarrow> 'a list \<Rightarrow> 'a list" where
  "seg a b xs = take (b - a) (drop a xs)"

lemma seg_append [seg_simps]:
  "a \<le> b \<Longrightarrow> b \<le> c \<Longrightarrow> seg a b xs @ seg b c xs = seg a c xs"
proof -
  assume "a \<le> b" "b \<le> c"
  then have "c - a = (b - a) + (c - b)" and "(b - a) + a = b" by auto
  then show ?thesis
    by (simp add: seg_def take_add del: add_diff_assoc add_diff_assoc2)
qed

lemma seg_full [seg_simps]: "seg 0 (length xs) xs = xs"
  by (simp add: seg_def)

lemma seg_same [simp]: "seg a a xs = []"
  by (simp add: seg_def)

lemma length_seg [simp]: "a \<le> b \<Longrightarrow> b \<le> length xs \<Longrightarrow> length (seg a b xs) = b - a"
  by (simp add: seg_def)

lemma seg_0 [seg_simps]: "seg 0 b xs = take b xs"
  by (simp add: seg_def)

lemma seg_end [seg_simps]: "seg a (length xs) xs = drop a xs"
  by (simp add: seg_def)

end
