(* ===== verification/ShardPartition.thy ===== *)
theory ShardPartition
  imports Prelude
begin

text \<open>
  The pure partitioner of the backfill split, \<^verbatim>\<open>mechanism_a_partition_for_backfill\<close> of
  \<^verbatim>\<open>crates/factory-dispatcher/src/shard_manager.rs\<close>, with the well-formedness test on the record
  boundary offsets and the three checks the caller runs on its result.  Offsets and lengths are
  Rust's \<open>usize\<close>, here \<open>nat\<close>: every sum the code forms is a part of the content's length.
  The cap is the \<open>u64\<close> of the registry entry.
\<close>

section \<open>Definitions\<close>

record mechanism_a_backfill_partition =
  part_bytes :: bytes
  record_count :: nat
  part_oversized :: bool

definition record_boundary_offsets_are_well_formed :: "nat \<Rightarrow> nat list \<Rightarrow> bool" where
  "record_boundary_offsets_are_well_formed content_len offsets \<longleftrightarrow>
     strictly_ascending offsets \<and> (case offsets of [] \<Rightarrow> False | _ # _ \<Rightarrow> last offsets < content_len)"

text \<open>
  The loop over the records.  \<open>start\<close>, \<open>pbytes\<close> and \<open>precs\<close> are the loop's
  \<^verbatim>\<open>partition_start\<close>, \<^verbatim>\<open>partition_bytes\<close> and \<^verbatim>\<open>partition_records\<close>; the partitions are returned in the order
  in which the code pushes them, the one pushed after the loop last.
\<close>

fun partition_records_loop ::
  "bytes \<Rightarrow> u64 \<Rightarrow> nat \<Rightarrow> nat \<Rightarrow> nat \<Rightarrow> nat list \<Rightarrow> mechanism_a_backfill_partition list"
where
  "partition_records_loop content cap start pbytes precs [] =
     (if start < length content
      then [\<lparr>part_bytes = seg start (length content) content, record_count = precs,
             part_oversized = False\<rparr>]
      else [])"
| "partition_records_loop content cap start pbytes precs (rec_start # rest) =
     (let rec_end = (case rest of [] \<Rightarrow> length content | e # _ \<Rightarrow> e);
          rec_len = rec_end - rec_start in
      if rec_len > unat cap then
        (if start < rec_start
         then [\<lparr>part_bytes = seg start rec_start content, record_count = precs,
                part_oversized = False\<rparr>]
         else []) @
        [\<lparr>part_bytes = seg rec_start rec_end content, record_count = 1, part_oversized = True\<rparr>] @
        partition_records_loop content cap rec_end 0 0 rest
      else if precs > 0 \<and> pbytes + rec_len > unat cap then
        [\<lparr>part_bytes = seg start rec_start content, record_count = precs,
          part_oversized = False\<rparr>] @
        partition_records_loop content cap rec_start (0 + rec_len) (0 + 1) rest
      else partition_records_loop content cap start (pbytes + rec_len) (precs + 1) rest)"

definition mechanism_a_partition_for_backfill ::
  "bytes \<Rightarrow> nat list \<Rightarrow> u64 \<Rightarrow> mechanism_a_backfill_partition list"
where
  "mechanism_a_partition_for_backfill content offsets cap =
     (if offsets = [] \<or> \<not> record_boundary_offsets_are_well_formed (length content) offsets then
        (if content = [] then []
         else [\<lparr>part_bytes = content, record_count = 1,
                part_oversized = length content > unat cap\<rparr>])
      else
        let preamble_bytes = hd offsets;
            first_record_end = (case tl offsets of [] \<Rightarrow> length content | e # _ \<Rightarrow> e);
            first_record_bytes = first_record_end - hd offsets;
            preamble = seg 0 (hd offsets) content in
        if preamble_bytes = 0 then partition_records_loop content cap 0 0 0 offsets
        else if preamble_bytes > unat cap then
          \<lparr>part_bytes = preamble, record_count = 0, part_oversized = True\<rparr> #
          partition_records_loop content cap (hd offsets) 0 0 offsets
        else if preamble_bytes + first_record_bytes > unat cap then
          \<lparr>part_bytes = preamble, record_count = 0, part_oversized = False\<rparr> #
          partition_records_loop content cap (hd offsets) 0 0 offsets
        else partition_records_loop content cap 0 preamble_bytes 0 offsets)"

definition mechanism_a_verify_backfill_content_preserved ::
  "bytes \<Rightarrow> mechanism_a_backfill_partition list \<Rightarrow> bool" where
  "mechanism_a_verify_backfill_content_preserved original_content partitions \<longleftrightarrow>
     concat (map part_bytes partitions) = original_content"

definition mechanism_a_verify_backfill_record_counts_preserved ::
  "nat \<Rightarrow> mechanism_a_backfill_partition list \<Rightarrow> bool" where
  "mechanism_a_verify_backfill_record_counts_preserved original_record_count partitions \<longleftrightarrow>
     sum_list (map record_count partitions) = original_record_count"

definition mechanism_a_verify_backfill_per_shard_cap_preserved ::
  "mechanism_a_backfill_partition list \<Rightarrow> u64 \<Rightarrow> bool" where
  "mechanism_a_verify_backfill_per_shard_cap_preserved partitions cap \<longleftrightarrow>
     list_all (\<lambda>p. part_oversized p \<or> length (part_bytes p) \<le> unat cap) partitions"

section \<open>Well-formed offsets\<close>

lemma well_formed_iff:
  "record_boundary_offsets_are_well_formed n offs \<longleftrightarrow>
     offs \<noteq> [] \<and> strictly_ascending offs \<and> (\<forall>x\<in>set offs. x < n)"
proof (cases offs)
  case Nil
  then show ?thesis by (simp add: record_boundary_offsets_are_well_formed_def)
next
  case (Cons a as)
  have le_last: "strictly_ascending offs \<Longrightarrow> x \<in> set offs \<Longrightarrow> x \<le> last offs" for x
    by (induction offs arbitrary: x)
      (auto simp: strictly_ascending_Cons split: if_splits intro: less_imp_le)
  have ne: "offs \<noteq> []" using Cons by simp
  have "strictly_ascending offs \<Longrightarrow> last offs < n \<longleftrightarrow> (\<forall>x\<in>set offs. x < n)"
    by (meson ne le_last last_in_set le_less_trans)
  moreover have "record_boundary_offsets_are_well_formed n offs \<longleftrightarrow>
      strictly_ascending offs \<and> last offs < n"
    using Cons by (simp add: record_boundary_offsets_are_well_formed_def)
  ultimately show ?thesis using ne by blast
qed

text \<open>
  The loop's entry condition on the remaining offsets: each still lies at or after the running
  partition's start, they ascend, and they stay in range.
\<close>

definition pending :: "nat \<Rightarrow> bytes \<Rightarrow> nat list \<Rightarrow> bool" where
  "pending start content offs \<longleftrightarrow>
     start \<le> length content \<and> strictly_ascending offs \<and> (\<forall>x\<in>set offs. start \<le> x \<and> x < length content)"

abbreviation next_boundary :: "bytes \<Rightarrow> nat list \<Rightarrow> nat" where
  "next_boundary content rest \<equiv> (case rest of [] \<Rightarrow> length content | e # _ \<Rightarrow> e)"

lemma pending_ConsD:
  assumes "pending start content (r # rest)"
  shows "start \<le> r" "r < next_boundary content rest" "next_boundary content rest \<le> length content"
    "pending start content rest" "pending r content rest"
    "pending (next_boundary content rest) content rest"
  using assms by (cases rest; force simp: pending_def strictly_ascending_Cons)+

lemma well_formed_pending:
  "record_boundary_offsets_are_well_formed (length c) offs \<Longrightarrow>
     pending 0 c offs \<and> pending (hd offs) c offs \<and> hd offs < length c"
  by (cases offs) (auto simp: well_formed_iff pending_def strictly_ascending_Cons)

section \<open>The loop\<close>

definition loop_inv :: "bytes \<Rightarrow> u64 \<Rightarrow> nat \<Rightarrow> nat \<Rightarrow> nat \<Rightarrow> nat list \<Rightarrow> bool" where
  "loop_inv c cap start pb pr offs \<longleftrightarrow>
     pending start c offs \<and> pb = next_boundary c offs - start \<and> pb \<le> unat cap \<and>
     (pr > 0 \<longrightarrow> start < next_boundary c offs) \<and>
     (pr = 0 \<longrightarrow> pb = 0 \<or> (case offs of [] \<Rightarrow> False
        | r # rest \<Rightarrow> pb + (next_boundary c rest - r) \<le> unat cap))"

lemma loop_inv_fresh:
  assumes "loop_inv c cap start pb pr (r # rest)"
  shows "loop_inv c cap (next_boundary c rest) 0 0 rest"
  using assms pending_ConsD[of start c r rest] by (simp add: loop_inv_def)

lemma loop_inv_flush:
  assumes "loop_inv c cap start pb pr (r # rest)" "next_boundary c rest - r \<le> unat cap"
  shows "loop_inv c cap r (next_boundary c rest - r) 1 rest"
  using assms pending_ConsD[of start c r rest] by (simp add: loop_inv_def)

lemma loop_inv_extend:
  assumes "loop_inv c cap start pb pr (r # rest)" "next_boundary c rest - r \<le> unat cap"
    "\<not> (pr > 0 \<and> pb + (next_boundary c rest - r) > unat cap)"
  shows "loop_inv c cap start (pb + (next_boundary c rest - r)) (pr + 1) rest"
  using assms pending_ConsD[of start c r rest] by (auto simp: loop_inv_def)

lemmas loop_inv_steps = loop_inv_fresh loop_inv_flush loop_inv_extend

lemma loop_inv_ConsD:
  assumes "loop_inv c cap start pb pr (r # rest)"
  shows "start \<le> r" "r < next_boundary c rest" "next_boundary c rest \<le> length c"
    "pr > 0 \<Longrightarrow> start < r" "pb = r - start" "pb \<le> unat cap"
    "\<not> next_boundary c rest - r \<le> unat cap \<Longrightarrow> pr = 0 \<Longrightarrow> start = r"
  using assms pending_ConsD[of start c r rest] by (auto simp: loop_inv_def)

text \<open>Rule for a property of the loop: one obligation per branch, the invariant supplied.\<close>

lemma loop_induct [consumes 1, case_names finish oversized flush extend]:
  assumes inv: "loop_inv c cap start pb pr offs"
    and finish: "\<And>start pb pr. loop_inv c cap start pb pr [] \<Longrightarrow> P start pb pr []"
    and oversized: "\<And>start pb pr r rest. loop_inv c cap start pb pr (r # rest) \<Longrightarrow>
        \<not> next_boundary c rest - r \<le> unat cap \<Longrightarrow> P (next_boundary c rest) 0 0 rest \<Longrightarrow>
        P start pb pr (r # rest)"
    and flush: "\<And>start pb pr r rest. loop_inv c cap start pb pr (r # rest) \<Longrightarrow>
        next_boundary c rest - r \<le> unat cap \<Longrightarrow> pr > 0 \<and> pb + (next_boundary c rest - r) > unat cap \<Longrightarrow>
        P r (next_boundary c rest - r) 1 rest \<Longrightarrow> P start pb pr (r # rest)"
    and extend: "\<And>start pb pr r rest. loop_inv c cap start pb pr (r # rest) \<Longrightarrow>
        next_boundary c rest - r \<le> unat cap \<Longrightarrow>
        \<not> (pr > 0 \<and> pb + (next_boundary c rest - r) > unat cap) \<Longrightarrow>
        P start (pb + (next_boundary c rest - r)) (pr + 1) rest \<Longrightarrow> P start pb pr (r # rest)"
  shows "P start pb pr offs"
  using inv
proof (induction offs arbitrary: start pb pr)
  case Nil
  then show ?case by (rule finish)
next
  case (Cons r rest)
  note inv = Cons.prems
  show ?case
  proof (cases "next_boundary c rest - r \<le> unat cap")
    case False
    show ?thesis by (rule oversized[OF inv False Cons.IH[OF loop_inv_fresh[OF inv]]])
  next
    case fits: True
    show ?thesis
    proof (cases "pr > 0 \<and> pb + (next_boundary c rest - r) > unat cap")
      case True
      show ?thesis by (rule flush[OF inv fits True Cons.IH[OF loop_inv_flush[OF inv fits]]])
    next
      case False
      show ?thesis
        by (rule extend[OF inv fits False Cons.IH[OF loop_inv_extend[OF inv fits False]]])
    qed
  qed
qed

lemma loop_content:
  "loop_inv c cap start pb pr offs \<Longrightarrow>
     concat (map part_bytes (partition_records_loop c cap start pb pr offs)) = seg start (length c) c"
proof (induction rule: loop_induct)
  case (finish start pb pr)
  then show ?case by (auto simp: loop_inv_def pending_def)
next
  case (oversized start pb pr r rest)
  then show ?case
    using loop_inv_ConsD[OF oversized(1)] by (auto simp: Let_def seg_append)
next
  case (flush start pb pr r rest)
  then show ?case
    using loop_inv_ConsD[OF flush(1)] by (auto simp: Let_def seg_append)
next
  case (extend start pb pr r rest)
  then show ?case by (auto simp: Let_def)
qed

lemma loop_counts:
  "loop_inv c cap start pb pr offs \<Longrightarrow>
     sum_list (map record_count (partition_records_loop c cap start pb pr offs)) = pr + length offs"
proof (induction rule: loop_induct)
  case (finish start pb pr)
  then show ?case by (auto simp: loop_inv_def)
next
  case (oversized start pb pr r rest)
  then show ?case using loop_inv_ConsD[OF oversized(1)] by (cases "pr = 0") (auto simp: Let_def)
qed (auto simp: Let_def)

text \<open>Every partition is non-empty, is over the cap exactly when flagged, and a flagged one is a
  single record.\<close>

definition good_partition :: "u64 \<Rightarrow> mechanism_a_backfill_partition \<Rightarrow> bool" where
  "good_partition cap p \<longleftrightarrow> part_bytes p \<noteq> [] \<and>
     (part_oversized p \<longleftrightarrow> length (part_bytes p) > unat cap) \<and> (part_oversized p \<longrightarrow> record_count p \<le> 1)"

lemma good_partition_seg:
  "a < b \<Longrightarrow> b \<le> length c \<Longrightarrow> o' = (b - a > unat cap) \<Longrightarrow> (o' \<longrightarrow> n \<le> 1) \<Longrightarrow>
     good_partition cap \<lparr>part_bytes = seg a b c, record_count = n, part_oversized = o'\<rparr>"
  by (auto simp: good_partition_def simp flip: length_greater_0_conv)

lemma loop_good:
  "loop_inv c cap start pb pr offs \<Longrightarrow>
     list_all (good_partition cap) (partition_records_loop c cap start pb pr offs)"
proof (induction rule: loop_induct)
  case (finish start pb pr)
  then show ?case by (auto simp: loop_inv_def intro!: good_partition_seg)
next
  case (oversized start pb pr r rest)
  then show ?case
    using loop_inv_ConsD[OF oversized(1)] by (auto simp: Let_def intro!: good_partition_seg)
next
  case (flush start pb pr r rest)
  then show ?case
    using loop_inv_ConsD[OF flush(1)] by (auto simp: Let_def intro!: good_partition_seg)
qed (auto simp: Let_def)

text \<open>After the preamble no partition is without a record.\<close>

lemma loop_has_records:
  "loop_inv c cap start pb pr offs \<Longrightarrow> offs \<noteq> [] \<or> pr > 0 \<or> start = length c \<Longrightarrow>
     list_all (\<lambda>p. record_count p > 0) (partition_records_loop c cap start pb pr offs)"
proof (induction rule: loop_induct)
  case (oversized start pb pr r rest)
  then show ?case
    using loop_inv_ConsD[OF oversized(1)] by (cases rest; cases "pr = 0") (auto simp: Let_def)
qed (auto simp: Let_def)

section \<open>The partitioner\<close>

text \<open>
  With well-formed offsets the result is an optional preamble partition (no record) followed by
  the loop's, from an entry state that satisfies the loop invariant.
\<close>

lemma partition_shape:
  assumes wf: "record_boundary_offsets_are_well_formed (length c) offs"
  obtains
    (loop) pb where "mechanism_a_partition_for_backfill c offs cap = partition_records_loop c cap 0 pb 0 offs"
      "loop_inv c cap 0 pb 0 offs"
  | (preamble) "mechanism_a_partition_for_backfill c offs cap =
        \<lparr>part_bytes = seg 0 (hd offs) c, record_count = 0, part_oversized = hd offs > unat cap\<rparr> #
        partition_records_loop c cap (hd offs) 0 0 offs"
      "loop_inv c cap (hd offs) 0 0 offs" "0 < hd offs" "hd offs \<le> length c"
proof (cases offs)
  case Nil
  with wf show ?thesis by (simp add: well_formed_iff)
next
  case (Cons r rest)
  note pend = well_formed_pending[OF wf]
  have inv: "loop_inv c cap r 0 0 offs"
    using pend Cons by (simp add: loop_inv_def)
  consider "r = 0" | "0 < r" "unat cap < r \<or> unat cap < r + (next_boundary c rest - r)"
    | "0 < r" "r \<le> unat cap" "r + (next_boundary c rest - r) \<le> unat cap"
    by linarith
  then show ?thesis
  proof cases
    case 1
    then show ?thesis
      using wf inv Cons by (intro loop[of 0]) (auto simp: mechanism_a_partition_for_backfill_def Let_def)
  next
    case 2
    then show ?thesis
      using wf inv pend Cons
      by (intro preamble) (auto simp: mechanism_a_partition_for_backfill_def Let_def)
  next
    case 3
    then show ?thesis
      using wf pend Cons
      by (intro loop[of r]) (auto simp: mechanism_a_partition_for_backfill_def Let_def loop_inv_def)
  qed
qed

lemma partition_ill_formed:
  "offs = [] \<or> \<not> record_boundary_offsets_are_well_formed (length c) offs \<Longrightarrow>
     mechanism_a_partition_for_backfill c offs cap =
       (if c = [] then [] else [\<lparr>part_bytes = c, record_count = 1, part_oversized = length c > unat cap\<rparr>])"
  by (auto simp: mechanism_a_partition_for_backfill_def)

lemma partition_content:
  "concat (map part_bytes (mechanism_a_partition_for_backfill c offs cap)) = c"
proof (cases "record_boundary_offsets_are_well_formed (length c) offs")
  case True
  then show ?thesis
    by (cases rule: partition_shape[of c offs cap]) (auto simp: loop_content seg_simps seg_append)
qed (auto simp: partition_ill_formed)

lemma partition_good:
  "list_all (good_partition cap) (mechanism_a_partition_for_backfill c offs cap)"
proof (cases "record_boundary_offsets_are_well_formed (length c) offs")
  case True
  then show ?thesis
    by (cases rule: partition_shape[of c offs cap])
      (auto simp: loop_good intro!: good_partition_seg)
qed (auto simp: partition_ill_formed good_partition_def)

lemma partition_counts:
  "record_boundary_offsets_are_well_formed (length c) offs \<Longrightarrow>
     sum_list (map record_count (mechanism_a_partition_for_backfill c offs cap)) = length offs"
  by (cases rule: partition_shape[of c offs cap]) (auto simp: loop_counts)

lemma partition_tl_has_records:
  assumes wf: "record_boundary_offsets_are_well_formed (length c) offs"
  shows "list_all (\<lambda>p. record_count p > 0) (tl (mechanism_a_partition_for_backfill c offs cap))"
proof (rule partition_shape[OF wf, of cap])
  fix pb
  assume 1: "mechanism_a_partition_for_backfill c offs cap = partition_records_loop c cap 0 pb 0 offs"
    "loop_inv c cap 0 pb 0 offs"
  have "list_all (\<lambda>p. record_count p > 0) (partition_records_loop c cap 0 pb 0 offs)"
    using 1(2) wf by (intro loop_has_records) (auto simp: well_formed_iff)
  then show ?thesis
    using 1(1) by (cases "partition_records_loop c cap 0 pb 0 offs") auto
next
  assume "mechanism_a_partition_for_backfill c offs cap =
      \<lparr>part_bytes = seg 0 (hd offs) c, record_count = 0, part_oversized = hd offs > unat cap\<rparr> #
      partition_records_loop c cap (hd offs) 0 0 offs" "loop_inv c cap (hd offs) 0 0 offs"
  then show ?thesis
    using wf by (auto simp: well_formed_iff intro!: loop_has_records)
qed

section \<open>Properties\<close>

text \<open>
  Claim C5.  The partitioner loses and duplicates no byte, whatever offsets it is given:
  concatenating the partitions in order gives the monolithic content back.  (Ill-formed offsets
  take the fallback branch, so no hypothesis is needed.)
\<close>

theorem partition_preserves_content:
  "mechanism_a_verify_backfill_content_preserved content
     (mechanism_a_partition_for_backfill content offsets cap)"
  by (simp add: mechanism_a_verify_backfill_content_preserved_def partition_content)


lemma sample_oversized:
  "\<lparr>part_bytes = ''A1'', record_count = 1, part_oversized = True\<rparr>
     \<in> set (mechanism_a_partition_for_backfill ''preA1A2B'' [3, 5, 7] 1)"
  by code_simp


text \<open>
  For well-formed boundaries no record is lost: the record counts of the partitions add
  up to the number of boundaries, and only the first partition can be without a record (the
  preamble before the first boundary).
\<close>

theorem partition_preserves_record_counts:
  assumes "record_boundary_offsets_are_well_formed (length content) offsets"
  shows "mechanism_a_verify_backfill_record_counts_preserved (length offsets)
           (mechanism_a_partition_for_backfill content offsets cap) \<and>
         list_all (\<lambda>p. record_count p > 0) (tl (mechanism_a_partition_for_backfill content offsets cap))"
  using assms by (auto simp: mechanism_a_verify_backfill_record_counts_preserved_def
      partition_counts partition_tl_has_records)

theorem partition_preserves_record_counts_witness:
  "record_boundary_offsets_are_well_formed (length ''preA1A2B'') [3, 5, 7] \<and>
   mechanism_a_verify_backfill_record_counts_preserved (length [3, 5, 7 :: nat])
     (mechanism_a_partition_for_backfill ''preA1A2B'' [3, 5, 7] 4)"
proof -
  have wf: "record_boundary_offsets_are_well_formed (length ''preA1A2B'') [3, 5, 7]"
    by (simp add: record_boundary_offsets_are_well_formed_def)
  from partition_preserves_record_counts[OF wf, of 4] wf show ?thesis by blast
qed

end
