(* ===== verification/RustStr.thy ===== *)
theory RustStr
  imports Prelude
begin

text \<open>
  The operations of Rust's \<open>str\<close>, \<open>[u8]\<close> and \<open>char\<close> that the sources use, on byte strings.
  A Rust \<open>&str\<close> is its UTF-8 bytes; ASCII tests on characters are tests on bytes, because no
  byte of a multi-byte sequence is below 128.
\<close>

section \<open>Bytes and characters\<close>

abbreviation nl :: char where "nl \<equiv> CHR 0x0A"
abbreviation cr :: char where "cr \<equiv> CHR 0x0D"

abbreviation byte :: "char \<Rightarrow> nat" where "byte c \<equiv> of_char c"

definition is_ascii_digit :: "char \<Rightarrow> bool" where
  [rust_defs]: "is_ascii_digit c \<longleftrightarrow> 48 \<le> byte c \<and> byte c \<le> 57"

definition is_ascii_lowercase :: "char \<Rightarrow> bool" where
  [rust_defs]: "is_ascii_lowercase c \<longleftrightarrow> 97 \<le> byte c \<and> byte c \<le> 122"

definition is_ascii_alphabetic :: "char \<Rightarrow> bool" where
  [rust_defs]: "is_ascii_alphabetic c \<longleftrightarrow> is_ascii_lowercase c \<or> 65 \<le> byte c \<and> byte c \<le> 90"

definition is_ascii_alphanumeric :: "char \<Rightarrow> bool" where
  [rust_defs]: "is_ascii_alphanumeric c \<longleftrightarrow> is_ascii_alphabetic c \<or> is_ascii_digit c"

section \<open>Prefixes, suffixes and searching\<close>

definition starts_with :: "'a list \<Rightarrow> 'a list \<Rightarrow> bool" where
  "starts_with p s \<longleftrightarrow> take (length p) s = p"

definition ends_with :: "'a list \<Rightarrow> 'a list \<Rightarrow> bool" where
  "ends_with p s \<longleftrightarrow> length p \<le> length s \<and> drop (length s - length p) s = p"

definition strip_prefix :: "'a list \<Rightarrow> 'a list \<Rightarrow> 'a list option" where
  "strip_prefix p s = (if starts_with p s then Some (drop (length p) s) else None)"

definition strip_suffix :: "'a list \<Rightarrow> 'a list \<Rightarrow> 'a list option" where
  "strip_suffix p s = (if ends_with p s then Some (take (length s - length p) s) else None)"

fun find_sub :: "'a list \<Rightarrow> 'a list \<Rightarrow> nat option" where
  "find_sub p s = (if starts_with p s then Some 0
     else case s of [] \<Rightarrow> None | _ # s' \<Rightarrow> map_option Suc (find_sub p s'))"

declare find_sub.simps [simp del]

definition contains :: "'a list \<Rightarrow> 'a list \<Rightarrow> bool" where
  "contains p s \<longleftrightarrow> find_sub p s \<noteq> None"

fun rfind_char :: "'a \<Rightarrow> 'a list \<Rightarrow> nat option" where
  "rfind_char c [] = None"
| "rfind_char c (x # xs) = (case rfind_char c xs of Some i \<Rightarrow> Some (Suc i)
     | None \<Rightarrow> if x = c then Some 0 else None)"

lemma starts_with_append [simp]: "starts_with p (p @ s)"
  by (simp add: starts_with_def)

lemma starts_with_Nil [simp]: "starts_with [] s"
  by (simp add: starts_with_def)

lemma starts_with_iff: "starts_with p s \<longleftrightarrow> (\<exists>t. s = p @ t)"
  by (metis append_eq_conv_conj append_take_drop_id starts_with_def)

lemma starts_with_Cons [simp]:
  "starts_with (a # p) [] = False" "starts_with (a # p) (b # s) \<longleftrightarrow> a = b \<and> starts_with p s"
  by (auto simp: starts_with_def)

lemma ends_with_iff: "ends_with p s \<longleftrightarrow> (\<exists>t. s = t @ p)"
  by (auto simp: ends_with_def) (metis append_take_drop_id)

lemma strip_prefix_Some: "strip_prefix p s = Some t \<longleftrightarrow> s = p @ t"
  by (auto simp: strip_prefix_def starts_with_iff)

lemma strip_suffix_Some: "strip_suffix p s = Some t \<longleftrightarrow> s = t @ p"
  by (auto simp: strip_suffix_def ends_with_iff)

lemma strip_prefix_None: "strip_prefix p s = None \<longleftrightarrow> \<not> starts_with p s"
  by (simp add: strip_prefix_def)

lemma contains_iff: "contains p s \<longleftrightarrow> (\<exists>a b. s = a @ p @ b)"
proof (induction s)
  case Nil
  then show ?case by (simp add: contains_def find_sub.simps starts_with_iff)
next
  case (Cons c s)
  have step: "contains p (c # s) \<longleftrightarrow> starts_with p (c # s) \<or> contains p s"
    by (simp add: contains_def find_sub.simps[of p "c # s"])
  show ?case
    unfolding step Cons.IH starts_with_iff by (metis Cons_eq_append_conv append_Cons)
qed

lemma contains_infix: "contains p (a @ p @ b)"
  by (auto simp: contains_iff)

section \<open>Lines\<close>

text \<open>\<open>split_inclusive('\n')\<close>: each piece keeps its newline; the last may have none.\<close>

fun split_inclusive :: "string \<Rightarrow> string list" where
  "split_inclusive [] = []"
| "split_inclusive (c # s) =
     (if c = nl then [c] # split_inclusive s
      else case split_inclusive s of [] \<Rightarrow> [[c]] | l # ls \<Rightarrow> (c # l) # ls)"

text \<open>\<open>str::lines\<close> drops the newline of each piece, and a carriage return just before it.\<close>

definition chomp :: "string \<Rightarrow> string" where
  "chomp l = (case strip_suffix [nl] l of None \<Rightarrow> l
     | Some l' \<Rightarrow> (case strip_suffix [cr] l' of None \<Rightarrow> l' | Some l'' \<Rightarrow> l''))"

definition str_lines :: "string \<Rightarrow> string list" where
  "str_lines s = map chomp (split_inclusive s)"

text \<open>\<open>trim_end_matches(c)\<close> drops every trailing \<open>c\<close>.\<close>

definition trim_end_char :: "char \<Rightarrow> string \<Rightarrow> string" where
  "trim_end_char c s = rev (dropWhile (\<lambda>x. x = c) (rev s))"

lemma concat_split_inclusive [simp]: "concat (split_inclusive s) = s"
  by (induction s) (auto split: list.splits)

lemma split_inclusive_nonempty: "l \<in> set (split_inclusive s) \<Longrightarrow> l \<noteq> []"
  by (induction s arbitrary: l) (auto split: list.splits if_splits)

section \<open>Decimal numbers\<close>

fun show_nat :: "nat \<Rightarrow> string" where
  "show_nat n = (if n < 10 then [char_of (48 + n)] else show_nat (n div 10) @ [char_of (48 + n mod 10)])"

declare show_nat.simps [simp del]

text \<open>Rust's \<open>{:04}\<close> and \<open>{:03}\<close>: padded with zeros to at least that width.\<close>

definition pad_zeros :: "nat \<Rightarrow> nat \<Rightarrow> string" where
  "pad_zeros w n = replicate (w - length (show_nat n)) (CHR ''0'') @ show_nat n"

definition digits_value :: "string \<Rightarrow> nat" where
  "digits_value s = foldl (\<lambda>a c. 10 * a + (byte c - 48)) 0 s"

text \<open>\<open>str::parse::<u32>()\<close> on a string already known to be ASCII digits.\<close>

definition parse_u32 :: "string \<Rightarrow> u32 option" where
  "parse_u32 s = (if s \<noteq> [] \<and> list_all is_ascii_digit s \<and> digits_value s < 2 ^ 32
     then Some (of_nat (digits_value s)) else None)"

lemma show_nat_digits: "list_all is_ascii_digit (show_nat n)"
proof (induction n rule: show_nat.induct)
  case (1 n)
  then show ?case by (subst show_nat.simps) (auto simp: is_ascii_digit_def[of "char_of _"])
qed

lemma show_nat_nonempty [simp]: "show_nat n \<noteq> []"
  by (subst show_nat.simps) simp

lemma digits_value_snoc [simp]: "digits_value (s @ [c]) = 10 * digits_value s + (byte c - 48)"
  by (simp add: digits_value_def)

lemma digits_value_show_nat [simp]: "digits_value (show_nat n) = n"
proof (induction n rule: show_nat.induct)
  case (1 n)
  show ?case
  proof (cases "n < 10")
    case True
    then show ?thesis by (subst show_nat.simps) (simp add: digits_value_def)
  next
    case False
    with 1 show ?thesis by (subst show_nat.simps) (simp add: mult_div_mod_eq)
  qed
qed

lemma digits_value_zeros [simp]: "digits_value (replicate k (CHR ''0'') @ s) = digits_value s"
  by (induction k) (auto simp: digits_value_def)

lemma digits_value_pad_zeros [simp]: "digits_value (pad_zeros w n) = n"
  by (simp add: pad_zeros_def)

lemma pad_zeros_digits: "list_all is_ascii_digit (pad_zeros w n)"
  by (auto simp: pad_zeros_def show_nat_digits list_all_iff is_ascii_digit_def
      dest: show_nat_digits[unfolded list_all_iff is_ascii_digit_def, rule_format])

lemma length_pad_zeros: "w \<le> length (pad_zeros w n)"
  by (simp add: pad_zeros_def)

lemma pad_zeros_inj: "pad_zeros w m = pad_zeros w n \<Longrightarrow> m = n"
  by (metis digits_value_pad_zeros)

lemma parse_u32_pad_zeros: "parse_u32 (pad_zeros w (unat (n :: u32))) = Some n"
proof -
  have "pad_zeros w (unat n) \<noteq> []" by (simp add: pad_zeros_def)
  moreover have "unat n < 2 ^ 32" using unsigned_less[of n, where ?'a = nat] by simp
  ultimately show ?thesis by (simp add: parse_u32_def pad_zeros_digits)
qed

section \<open>UTF-8\<close>

definition is_cont :: "char \<Rightarrow> bool" where
  "is_cont c \<longleftrightarrow> 128 \<le> byte c \<and> byte c \<le> 191"

text \<open>\<open>std::str::from_utf8\<close> succeeds: no overlong form, no surrogate, nothing past U+10FFFF.\<close>

fun utf8_valid :: "string \<Rightarrow> bool" where
  "utf8_valid [] = True"
| "utf8_valid (a # s) =
     (if byte a < 128 then utf8_valid s
      else if 194 \<le> byte a \<and> byte a \<le> 223 then
        (case s of b # s' \<Rightarrow> is_cont b \<and> utf8_valid s' | _ \<Rightarrow> False)
      else if 224 \<le> byte a \<and> byte a \<le> 239 then
        (case s of b # c # s' \<Rightarrow> is_cont b \<and> is_cont c \<and> (byte a = 224 \<longrightarrow> 160 \<le> byte b) \<and>
           (byte a = 237 \<longrightarrow> byte b \<le> 159) \<and> utf8_valid s' | _ \<Rightarrow> False)
      else if 240 \<le> byte a \<and> byte a \<le> 244 then
        (case s of b # c # d # s' \<Rightarrow> is_cont b \<and> is_cont c \<and> is_cont d \<and> (byte a = 240 \<longrightarrow> 144 \<le> byte b) \<and>
           (byte a = 244 \<longrightarrow> byte b \<le> 143) \<and> utf8_valid s' | _ \<Rightarrow> False)
      else False)"

end
