(* ===== verification/ShardBoundary.thy ===== *)
theory ShardBoundary
  imports RustStr ShardPartition "HOL-Library.Multiset"
begin

text \<open>
  The record-boundary oracle of the backfill split: the \<^verbatim>\<open>mechanism_a_record_boundary_offsets\<close>
  family of \<^verbatim>\<open>shard_manager.rs\<close>.  \<open>ua\<close> stands for the Unicode tables of the standard library:
  \<open>ua s\<close> says that the text \<open>s\<close>, which begins with a non-ASCII character, begins with one that
  \<open>char::is_alphanumeric\<close> accepts.
\<close>

section \<open>Definitions\<close>

definition line_anchored_marker_offsets :: "bytes \<Rightarrow> bytes \<Rightarrow> nat list" where
  "line_anchored_marker_offsets content marker =
     (if marker = [] then []
      else filter (\<lambda>idx. (idx = 0 \<or> content ! (idx - 1) = nl) \<and> starts_with marker (drop idx content))
             [0..<length content])"

definition heading_line :: "bytes \<Rightarrow> nat \<Rightarrow> nat \<Rightarrow> bytes" where
  "heading_line content marker_offset marker_len =
     takeWhile (\<lambda>b. b \<noteq> nl) (drop (marker_offset + marker_len) content)"

text \<open>\<open>.chars().next().is_none_or(|c| !c.is_alphanumeric() && c != '_')\<close>\<close>

definition no_word_char :: "(string \<Rightarrow> bool) \<Rightarrow> string \<Rightarrow> bool" where
  "no_word_char ua s \<longleftrightarrow> (case s of [] \<Rightarrow> True
     | c # _ \<Rightarrow> if byte c < 128 then \<not> is_ascii_alphanumeric c \<and> c \<noteq> CHR ''_'' else \<not> ua s)"

definition digit_prefix_len :: "string \<Rightarrow> nat" where
  "digit_prefix_len s = length (takeWhile is_ascii_digit s)"

definition is_id_tagged_lesson_heading :: "(string \<Rightarrow> bool) \<Rightarrow> string \<Rightarrow> bool" where
  "is_id_tagged_lesson_heading ua heading =
     (case strip_prefix ''L-'' heading of None \<Rightarrow> False | Some rest \<Rightarrow>
        let tag_len = length (takeWhile is_ascii_alphanumeric rest) in
        if tag_len = 0 then False
        else case strip_prefix ''-'' (drop tag_len rest) of None \<Rightarrow> False | Some after_dash \<Rightarrow>
          let digit_len = digit_prefix_len after_dash in
          if digit_len = 0 then False else no_word_char ua (drop digit_len after_dash))"

definition is_lesson_record_heading :: "(string \<Rightarrow> bool) \<Rightarrow> bytes \<Rightarrow> bool" where
  "is_lesson_record_heading ua heading \<longleftrightarrow> utf8_valid heading \<and> is_id_tagged_lesson_heading ua heading"

definition is_digit_tagged_paren_marker :: "string \<Rightarrow> string \<Rightarrow> bool" where
  "is_digit_tagged_paren_marker heading prefix =
     (case strip_prefix prefix heading of None \<Rightarrow> False | Some rest \<Rightarrow>
        let digit_len = digit_prefix_len rest in
        digit_len > 0 \<and> starts_with '')'' (drop digit_len rest))"

definition is_lesson_h2_record_heading :: "(string \<Rightarrow> bool) \<Rightarrow> bytes \<Rightarrow> bool" where
  "is_lesson_h2_record_heading ua heading \<longleftrightarrow> utf8_valid heading \<and>
     (is_id_tagged_lesson_heading ua heading \<or>
      is_digit_tagged_paren_marker heading ''LESSON (D-'' \<or>
      is_digit_tagged_paren_marker heading ''RECURRENCE NOTE (D-'')"

definition is_pass_fix_burst_heading :: "(string \<Rightarrow> bool) \<Rightarrow> bytes \<Rightarrow> bool" where
  "is_pass_fix_burst_heading ua heading \<longleftrightarrow> utf8_valid heading \<and>
     (case strip_prefix ''Pass-'' heading of None \<Rightarrow> False | Some rest \<Rightarrow>
        let digit_len = digit_prefix_len rest in
        if digit_len = 0 then False
        else case strip_prefix '' Fix Burst'' (drop digit_len rest) of None \<Rightarrow> False
          | Some after_burst \<Rightarrow> no_word_char ua after_burst)"

definition decision_log_subclause_suffix_len :: "bytes \<Rightarrow> nat" where
  "decision_log_subclause_suffix_len after_digits =
     (case strip_prefix ''('' after_digits of
        Some inner \<Rightarrow>
          let inner_len = length (takeWhile (\<lambda>b. is_ascii_lowercase b \<or> is_ascii_digit b \<or> b = CHR ''/'') inner) in
          if inner_len > 0 \<and> inner_len < length inner \<and> inner ! inner_len = CHR '')''
          then 1 + inner_len + 1 else 0
      | None \<Rightarrow>
        (case strip_prefix ''-'' after_digits of
           Some inner \<Rightarrow>
             let alpha_len = length (takeWhile is_ascii_alphabetic inner) in
             if alpha_len > 0 then 1 + alpha_len else 0
         | None \<Rightarrow> 0))"

definition is_decision_log_row_marker :: "bytes \<Rightarrow> nat \<Rightarrow> bool" where
  "is_decision_log_row_marker content marker_offset =
     (let rest = drop (marker_offset + length ''| D-'') content;
          digit_len = digit_prefix_len rest in
      if digit_len = 0 then False
      else let after_digits = drop digit_len rest;
               suffix_len = decision_log_subclause_suffix_len after_digits in
           starts_with '' |'' (drop suffix_len after_digits))"

definition decision_log_record_boundary_offsets :: "bytes \<Rightarrow> nat list" where
  "decision_log_record_boundary_offsets content =
     filter (is_decision_log_row_marker content) (line_anchored_marker_offsets content ''| D-'')"

definition is_known_mechanism_a_artifact_stem :: "string \<Rightarrow> bool" where
  "is_known_mechanism_a_artifact_stem stem \<longleftrightarrow>
     stem \<in> {''decision-log'', ''burst-log'', ''lessons'', ''session-checkpoints''}"

definition mechanism_a_record_boundary_offsets :: "(string \<Rightarrow> bool) \<Rightarrow> string \<Rightarrow> bytes \<Rightarrow> nat list" where
  "mechanism_a_record_boundary_offsets ua artifact_stem content =
     (if artifact_stem = ''decision-log'' then decision_log_record_boundary_offsets content
      else if artifact_stem = ''burst-log'' then
        sort (line_anchored_marker_offsets content ''## '' @
          filter (\<lambda>offset. is_pass_fix_burst_heading ua (heading_line content offset (length ''### '')))
            (line_anchored_marker_offsets content ''### ''))
      else if artifact_stem = ''lessons'' then
        sort (filter (\<lambda>offset. is_lesson_h2_record_heading ua (heading_line content offset (length ''## '')))
            (line_anchored_marker_offsets content ''## '') @
          filter (\<lambda>offset. is_lesson_record_heading ua (heading_line content offset (length ''### '')))
            (line_anchored_marker_offsets content ''### ''))
      else if artifact_stem = ''session-checkpoints'' then line_anchored_marker_offsets content ''## ''
      else [])"

section \<open>Every detected boundary set is well-formed\<close>

lemma set_line_anchored:
  "set (line_anchored_marker_offsets content marker) =
     {i. marker \<noteq> [] \<and> i < length content \<and> (i = 0 \<or> content ! (i - 1) = nl) \<and>
         starts_with marker (drop i content)}"
  by (auto simp: line_anchored_marker_offsets_def)

lemma ascending_line_anchored [simp]:
  "strictly_ascending (line_anchored_marker_offsets content marker)"
  by (auto simp: line_anchored_marker_offsets_def strictly_ascending_iff sorted_wrt_filter)

lemma h2_h3_disjoint:
  "set (line_anchored_marker_offsets content ''## '') \<inter>
   set (line_anchored_marker_offsets content ''### '') = {}"
  by (auto simp: set_line_anchored starts_with_iff)

lemma ascending_sort_append:
  assumes "strictly_ascending xs" "strictly_ascending ys" "set xs \<inter> set ys = {}"
  shows "strictly_ascending (sort (xs @ ys :: nat list))"
  using assms by (simp add: strictly_ascending_sorted_distinct)

lemma ascending_boundaries:
  "strictly_ascending (mechanism_a_record_boundary_offsets ua stem content)"
proof -
  have "strictly_ascending (sort (filter P (line_anchored_marker_offsets content ''## '') @
      filter Q (line_anchored_marker_offsets content ''### '')))" for P Q
    using h2_h3_disjoint[of content]
    by (intro ascending_sort_append) (auto intro: strictly_ascending_filter)
  from this[of "\<lambda>_. True"] this show ?thesis
    by (simp add: mechanism_a_record_boundary_offsets_def decision_log_record_boundary_offsets_def
        strictly_ascending_filter)
qed

lemma boundary_line_start:
  assumes "x \<in> set (mechanism_a_record_boundary_offsets ua stem content)"
  shows "x < length content" "x = 0 \<or> content ! (x - 1) = nl"
  using assms
  by (auto simp: mechanism_a_record_boundary_offsets_def decision_log_record_boundary_offsets_def
      set_line_anchored split: if_splits)

text \<open>
  Whatever the artifact and its bytes, the boundary oracle returns either nothing or
  offsets that pass the code's own well-formedness test: strictly ascending (the merged H2 and H3
  headings of \<^verbatim>\<open>burst-log\<close> and \<^verbatim>\<open>lessons\<close> never collide), in bounds, and each at the start of a line.
\<close>

theorem detected_boundaries_well_formed:
  "mechanism_a_record_boundary_offsets ua stem content = [] \<or>
   record_boundary_offsets_are_well_formed (length content)
     (mechanism_a_record_boundary_offsets ua stem content) \<and>
   list_all (\<lambda>x. x = 0 \<or> content ! (x - 1) = nl) (mechanism_a_record_boundary_offsets ua stem content)"
  by (auto simp: well_formed_iff ascending_boundaries list_all_iff simp del: One_nat_def
      dest: boundary_line_start)

end
