(* ===== verification/ShardTriggers.thy ===== *)
theory ShardTriggers
  imports Prelude
begin

text \<open>
  The size and item-count triggers of \<^verbatim>\<open>shard_manager.rs\<close>, on machine words: sizes are \<open>u64\<close>,
  net deltas are \<open>i64\<close> in two's complement.
\<close>

section \<open>Definitions\<close>

datatype tool_kind = Write | Edit | MultiEdit

definition tool_kind_from_name :: "string \<Rightarrow> tool_kind option" where
  "tool_kind_from_name tool_name =
     (if tool_name = ''Write'' then Some Write
      else if tool_name = ''Edit'' then Some Edit
      else if tool_name = ''MultiEdit'' then Some MultiEdit
      else None)"

record edit_delta =
  old_len_bytes :: u64
  new_len_bytes :: u64

definition projected_size_write :: "u64 \<Rightarrow> u64" where
  "projected_size_write content_len_bytes = content_len_bytes"

definition projected_size_edit :: "u64 \<Rightarrow> i64 \<Rightarrow> u64" where
  "projected_size_edit current_shard_bytes net_delta_bytes =
     (if 0 \<le> sint net_delta_bytes then sat_add current_shard_bytes net_delta_bytes
      else sat_sub current_shard_bytes (- net_delta_bytes))"

definition net_delta_bytes_for_edit :: "u64 \<Rightarrow> u64 \<Rightarrow> i64" where
  "net_delta_bytes_for_edit old_len new_len = new_len - old_len"

definition net_delta_bytes_for_multi_edit :: "edit_delta list \<Rightarrow> i64" where
  "net_delta_bytes_for_multi_edit edits =
     sum_list (map (\<lambda>e. net_delta_bytes_for_edit (old_len_bytes e) (new_len_bytes e)) edits)"

definition size_trigger_fires :: "u64 \<Rightarrow> u64 \<Rightarrow> bool" where
  "size_trigger_fires projected_size cap \<longleftrightarrow> projected_size > cap"

definition item_count_trigger_fires :: "u64 \<Rightarrow> u64 \<Rightarrow> bool" where
  "item_count_trigger_fires current_item_count n \<longleftrightarrow> sat_add current_item_count 1 > n"

section \<open>Signed deltas\<close>

lemma sint_of_int_small:
  "- (2 ^ 63) \<le> k \<Longrightarrow> k < 2 ^ 63 \<Longrightarrow> sint (of_int k :: i64) = k"
  by (subst sint_sbintrunc') (simp add: signed_take_bit_int_eq_self)

lemma sint_bounds: "- (2 ^ 63) \<le> sint (d :: i64)" "sint d < 2 ^ 63"
  using sint_ge[of d] sint_lt[of d] by simp_all

lemma unat_nonneg_i64: "0 \<le> sint (d :: i64) \<Longrightarrow> int (unat d) = sint d"
  using sint_bounds[of d] uint_sint[of d] take_bit_int_eq_self[of "sint d" 64] by simp

lemma unat_minus_neg_i64:
  assumes "sint (d :: i64) < 0" shows "int (unat (- d)) = - sint d"
proof -
  have "- d = of_int (- sint d)" by simp
  then have "uint (- d) = take_bit LENGTH(64) (- sint d)" by (metis uint_word_of_int_eq)
  then have "uint (- d) = take_bit 64 (- sint d)" by simp
  also have "\<dots> = - sint d"
    using assms sint_bounds[of d] by (intro take_bit_int_eq_self) auto
  finally show ?thesis by simp
qed

text \<open>An \<open>i64\<close> added to a \<open>u64\<close> size: the exact sum, cut off at 0 and at \<open>u64::MAX\<close>.\<close>

lemma projected_size_edit_clamps:
  "int (unat (projected_size_edit cur d)) = max 0 (min (2 ^ 64 - 1) (int (unat cur) + sint d))"
proof (cases "0 \<le> sint d")
  case True
  then have "int (unat (projected_size_edit cur d)) = int (min (unat cur + unat d) (2 ^ 64 - 1))"
    by (simp add: projected_size_edit_def unat_sat_add)
  also have "\<dots> = min (int (unat cur) + sint d) (2 ^ 64 - 1)"
    using unat_nonneg_i64[OF True] by (simp add: of_nat_min)
  finally show ?thesis using True by (simp add: max_def min_def)
next
  case False
  then have "int (unat (projected_size_edit cur d)) = int (unat cur - unat (- d))"
    by (simp add: projected_size_edit_def unat_sat_sub)
  also have "\<dots> = max 0 (int (unat cur) + sint d)"
    using unat_minus_neg_i64[of d] False by linarith
  finally show ?thesis
    using False unsigned_less[of cur, where ?'a = int] by (simp add: max_def min_def)
qed

abbreviation delta_of :: "edit_delta \<Rightarrow> int" where
  "delta_of e \<equiv> uint (new_len_bytes e) - uint (old_len_bytes e)"

lemma net_delta_multi_of_int:
  "net_delta_bytes_for_multi_edit edits = of_int (sum_list (map delta_of edits))"
  by (induction edits)
    (simp_all add: net_delta_bytes_for_multi_edit_def net_delta_bytes_for_edit_def)

lemma net_delta_single: "net_delta_bytes_for_edit a b = net_delta_bytes_for_multi_edit [\<lparr>old_len_bytes = a, new_len_bytes = b\<rparr>]"
  by (simp add: net_delta_bytes_for_multi_edit_def)

lemma item_count_trigger_iff:
  "item_count_trigger_fires c n \<longleftrightarrow> unat n \<le> unat c \<and> n \<noteq> - 1"
proof -
  have "unat n < 2 ^ 64" "unat c < 2 ^ 64"
    using unsigned_less[of n, where ?'a = nat] unsigned_less[of c, where ?'a = nat] by simp_all
  moreover have "n = - 1 \<longleftrightarrow> unat n = 2 ^ 64 - 1"
    using unat_max_word[where ?'a = 64] by (simp add: word_unat_eq_iff)
  ultimately show ?thesis
    by (auto simp: item_count_trigger_fires_def word_less_nat_alt unat_sat_add min_def)
qed

section \<open>Properties\<close>

text \<open>
  The projected size of an \<^verbatim>\<open>Edit\<close> or \<^verbatim>\<open>MultiEdit\<close> is the exact integer size after the
  edits, cut off at 0 and \<open>u64::MAX\<close>: as long as the total length of the replaced texts and that of
  the replacements are below \<open>2^63\<close>, no \<open>i64\<close> wrap-around of a single delta or of their sum reaches
  the size trigger.
\<close>

theorem projected_multi_edit_exact:
  assumes "sum_list (map (\<lambda>e. uint (old_len_bytes e)) edits) < 2 ^ 63"
    and "sum_list (map (\<lambda>e. uint (new_len_bytes e)) edits) < 2 ^ 63"
  shows "size_trigger_fires (projected_size_edit cur (net_delta_bytes_for_multi_edit edits)) cap \<longleftrightarrow>
     uint cap < max 0 (min (2 ^ 64 - 1) (uint cur +
       sum_list (map (\<lambda>e. uint (new_len_bytes e)) edits) - sum_list (map (\<lambda>e. uint (old_len_bytes e)) edits)))"
proof -
  let ?new = "sum_list (map (\<lambda>e. uint (new_len_bytes e)) edits)"
  let ?old = "sum_list (map (\<lambda>e. uint (old_len_bytes e)) edits)"
  have sum: "sum_list (map delta_of edits) = ?new - ?old"
    by (rule sum_list_subtractf)
  have "0 \<le> ?new" "0 \<le> ?old" by (auto intro!: sum_list_nonneg)
  then have "sint (net_delta_bytes_for_multi_edit edits) = ?new - ?old"
    using assms unfolding net_delta_multi_of_int sum by (intro sint_of_int_small) auto
  then have "uint (projected_size_edit cur (net_delta_bytes_for_multi_edit edits)) =
      max 0 (min (2 ^ 64 - 1) (uint cur + ?new - ?old))"
    using projected_size_edit_clamps[of cur "net_delta_bytes_for_multi_edit edits"]
    by (simp only: of_nat_unat add_diff_eq)
  then show ?thesis by (simp only: size_trigger_fires_def word_less_def)
qed

theorem projected_multi_edit_exact_witness:
  "size_trigger_fires (projected_size_edit 10 (net_delta_bytes_for_multi_edit
     [\<lparr>old_len_bytes = 4, new_len_bytes = 9\<rparr>, \<lparr>old_len_bytes = 7, new_len_bytes = 1\<rparr>])) 8"
  using projected_multi_edit_exact[of
      "[\<lparr>old_len_bytes = 4, new_len_bytes = 9\<rparr>, \<lparr>old_len_bytes = 7, new_len_bytes = 1\<rparr>]" 10 8]
  by simp

end
