(* ===== verification/F64.thy ===== *)
theory F64
  imports Complex_Main Prelude
begin

text \<open>
  The part of Rust's \<open>f64\<close> (IEEE 754 binary64, round to nearest, ties to even) that the
  shard-cap formula uses: conversion from \<open>u64\<close>, division, \<open>floor\<close>, comparison and the
  saturating cast back to \<open>u64\<close>.  A finite non-zero value is the rational it denotes.
\<close>

datatype f64 = F64_NaN | F64_Inf bool | F64_Zero bool | F64_Fin rat
  \<comment> \<open>the \<open>bool\<close> is the sign, true for negative\<close>

section \<open>Rounding\<close>

definition pow2 :: "int \<Rightarrow> rat" where
  "pow2 k = (if 0 \<le> k then 2 ^ nat k else 1 / 2 ^ nat (- k))"

fun ilog2 :: "nat \<Rightarrow> nat" where
  "ilog2 m = (if m \<le> 1 then 0 else Suc (ilog2 (m div 2)))"

declare ilog2.simps [simp del]

definition floor_log2 :: "rat \<Rightarrow> int" where
  "floor_log2 a = (case quotient_of a of (p, q) \<Rightarrow>
     let k = int (ilog2 (nat p)) - int (ilog2 (nat q)) in if pow2 k \<le> a then k else k - 1)"

definition round_half_even :: "rat \<Rightarrow> int" where
  "round_half_even m = (let f = \<lfloor>m\<rfloor>; d = m - of_int f in
     if d < 1 / 2 then f else if 1 / 2 < d then f + 1 else if even f then f else f + 1)"

definition ulp_of :: "rat \<Rightarrow> rat" where
  "ulp_of a = pow2 (max (floor_log2 a) (- 1022) - 52)"

definition round_f64 :: "rat \<Rightarrow> f64" where
  "round_f64 x =
     (if x = 0 then F64_Zero False
      else let a = \<bar>x\<bar>; v = of_int (round_half_even (a / ulp_of a)) * ulp_of a in
        if 2 ^ 1024 \<le> v then F64_Inf (x < 0)
        else if v = 0 then F64_Zero (x < 0)
        else F64_Fin (if x < 0 then - v else v))"

section \<open>Operations\<close>

fun f64_is_finite :: "f64 \<Rightarrow> bool" where
  "f64_is_finite F64_NaN = False"
| "f64_is_finite (F64_Inf _) = False"
| "f64_is_finite _ = True"

text \<open>\<open>x <= 0.0\<close>; false for NaN.\<close>

fun f64_le_zero :: "f64 \<Rightarrow> bool" where
  "f64_le_zero F64_NaN = False"
| "f64_le_zero (F64_Inf neg) = neg"
| "f64_le_zero (F64_Zero _) = True"
| "f64_le_zero (F64_Fin r) = (r \<le> 0)"

fun f64_neg :: "f64 \<Rightarrow> bool" where
  "f64_neg F64_NaN = False"
| "f64_neg (F64_Inf neg) = neg"
| "f64_neg (F64_Zero neg) = neg"
| "f64_neg (F64_Fin r) = (r < 0)"

fun f64_div :: "f64 \<Rightarrow> f64 \<Rightarrow> f64" where
  "f64_div F64_NaN _ = F64_NaN"
| "f64_div _ F64_NaN = F64_NaN"
| "f64_div (F64_Inf _) (F64_Inf _) = F64_NaN"
| "f64_div (F64_Inf s) y = F64_Inf (s \<noteq> f64_neg y)"
| "f64_div x (F64_Inf s) = F64_Zero (f64_neg x \<noteq> s)"
| "f64_div (F64_Zero _) (F64_Zero _) = F64_NaN"
| "f64_div (F64_Zero s) y = F64_Zero (s \<noteq> f64_neg y)"
| "f64_div x (F64_Zero s) = F64_Inf (f64_neg x \<noteq> s)"
| "f64_div (F64_Fin a) (F64_Fin b) = round_f64 (a / b)"

fun f64_floor :: "f64 \<Rightarrow> f64" where
  "f64_floor (F64_Fin r) = (if \<lfloor>r\<rfloor> = 0 then F64_Zero False else F64_Fin (of_int \<lfloor>r\<rfloor>))"
| "f64_floor x = x"

definition f64_of_u64 :: "u64 \<Rightarrow> f64" where
  "f64_of_u64 w = round_f64 (of_nat (unat w))"

text \<open>Rust's \<open>as u64\<close>: NaN and negatives go to 0, too large values to \<open>u64::MAX\<close>.\<close>

fun f64_to_u64 :: "f64 \<Rightarrow> u64" where
  "f64_to_u64 F64_NaN = 0"
| "f64_to_u64 (F64_Inf neg) = (if neg then 0 else - 1)"
| "f64_to_u64 (F64_Zero _) = 0"
| "f64_to_u64 (F64_Fin r) = (if r \<le> 0 then 0 else if 2 ^ 64 \<le> r then - 1 else of_int \<lfloor>r\<rfloor>)"

text \<open>\<open>x >= u64::MAX as f64\<close>, and \<open>u64::MAX as f64\<close> is \<open>2^64\<close>.\<close>

fun f64_ge_u64_max :: "f64 \<Rightarrow> bool" where
  "f64_ge_u64_max F64_NaN = False"
| "f64_ge_u64_max (F64_Inf neg) = (\<not> neg)"
| "f64_ge_u64_max (F64_Zero _) = False"
| "f64_ge_u64_max (F64_Fin r) = (2 ^ 64 \<le> r)"

section \<open>Rounding error\<close>

lemma pow2_pos [simp]: "0 < pow2 k"
  by (simp add: pow2_def)

lemma pow2_nonneg [simp]: "0 \<le> pow2 k"
  by (simp add: pow2_def)

lemma pow2_powi: "pow2 k = 2 powi k"
  by (simp add: pow2_def power_int_def power_one_over inverse_eq_divide)

lemma pow2_diff: "pow2 (k - j) = pow2 k / pow2 j"
  unfolding pow2_powi by (rule power_int_diff) simp

lemma pow2_of_nat: "pow2 (int n) = 2 ^ n"
  by (simp add: pow2_def)

lemma ilog2_bounds: "0 < m \<Longrightarrow> 2 ^ ilog2 m \<le> m \<and> m < 2 ^ (ilog2 m + 1)"
proof (induction m rule: ilog2.induct)
  case (1 m)
  show ?case
  proof (cases "m \<le> 1")
    case True
    then have "ilog2 m = 0" by (subst ilog2.simps) simp
    with True 1(2) show ?thesis by simp
  next
    case False
    then have rec: "ilog2 m = Suc (ilog2 (m div 2))" by (subst ilog2.simps) simp
    define k where "k = ilog2 (m div 2)"
    have "2 ^ k \<le> m div 2" "m div 2 < 2 ^ (k + 1)"
      using 1(1)[OF False] False by (auto simp: k_def)
    then have "2 * 2 ^ k \<le> m" "m < 2 * 2 ^ (k + 1)" by linarith+
    then show ?thesis by (simp add: rec k_def)
  qed
qed

lemma floor_log2_le:
  assumes "0 < a"
  shows "pow2 (floor_log2 a) \<le> a"
proof -
  obtain p q where pq: "quotient_of a = (p, q)" by (cases "quotient_of a")
  have q: "0 < q" using quotient_of_denom_pos[OF pq] .
  have a: "a = of_int p / of_int q" using quotient_of_div[OF pq] .
  with assms q have p: "0 < p" by (simp add: zero_less_divide_iff)
  define lp lq where "lp = ilog2 (nat p)" and "lq = ilog2 (nat q)"
  have "2 ^ lp \<le> nat p" "nat q < 2 ^ (lq + 1)"
    using p q ilog2_bounds[of "nat p"] ilog2_bounds[of "nat q"] by (auto simp: lp_def lq_def)
  then have lp: "(2::int) ^ lp \<le> p" and lq: "q < (2::int) ^ (lq + 1)"
    using p q by (auto simp: le_nat_iff nat_less_iff)
  have "pow2 (int lp - int lq - 1) = 2 ^ lp / 2 ^ (lq + 1)"
    using pow2_diff[of "int lp" "int (lq + 1)"] unfolding pow2_of_nat by (simp add: algebra_simps)
  also have "\<dots> \<le> of_int p / of_int q"
  proof (rule frac_le)
    show "(2::rat) ^ lp \<le> of_int p" using lp by (metis of_int_le_iff of_int_numeral of_int_power)
    show "of_int q \<le> (2::rat) ^ (lq + 1)"
      using lq by (metis less_imp_le of_int_le_iff of_int_numeral of_int_power)
  qed (use p q in auto)
  finally show ?thesis
    using a pq by (auto simp: floor_log2_def Let_def lp_def lq_def)
qed

lemma round_half_even_le: "of_int (round_half_even m) \<le> m + 1 / 2"
  by (auto simp: round_half_even_def Let_def) linarith+

lemma round_f64_upper:
  assumes "0 < x" "pow2 (- 1022) \<le> x" "round_f64 x = F64_Fin v"
  shows "v \<le> x * (1 + 1 / 2 ^ 53)"
proof -
  have "pow2 (max (floor_log2 x) (- 1022)) \<le> x"
    using assms floor_log2_le[of x] by (auto simp: max_def)
  then have ulp: "ulp_of x \<le> x / 2 ^ 52" "0 < ulp_of x"
    by (auto simp: ulp_of_def pow2_diff pow2_def[of 52] divide_right_mono)
  have "v = of_int (round_half_even (x / ulp_of x)) * ulp_of x"
    using assms by (auto simp: round_f64_def Let_def split: if_splits)
  also have "\<dots> \<le> (x / ulp_of x + 1 / 2) * ulp_of x"
    using ulp(2) round_half_even_le[of "x / ulp_of x"] by (intro mult_right_mono) auto
  also have "\<dots> = x + ulp_of x / 2" using ulp(2) by (simp add: field_simps)
  also have "\<dots> \<le> x + x / 2 ^ 52 / 2" using ulp(1) by simp
  finally show ?thesis by (simp add: field_simps)
qed

end
