(* ===== verification/RustPath.thy ===== *)
theory RustPath
  imports RustStr
begin

text \<open>
  \<open>std::path\<close> on Unix.  Rust compares, joins and walks paths by their components, so a path is
  its component list: a leading root, a leading current-directory component of a relative path,
  and the normal and parent components.  Repeated separators and inner \<open>.\<close> components
  disappear when a string is read, as they do in \<open>Path::components\<close>.
\<close>

datatype component = RootDir | CurDir | ParentDir | Normal string

type_synonym path = "component list"

section \<open>Reading a path\<close>

fun split_slash :: "string \<Rightarrow> string list" where
  "split_slash [] = [[]]"
| "split_slash (c # s) = (if c = CHR ''/'' then [] # split_slash s
     else case split_slash s of [] \<Rightarrow> [[c]] | l # ls \<Rightarrow> (c # l) # ls)"

definition read_component :: "string \<Rightarrow> component list" where
  "read_component s = (if s = [] \<or> s = ''.'' then [] else if s = ''..'' then [ParentDir] else [Normal s])"

definition path_of :: "string \<Rightarrow> path" where
  "path_of s = (if starts_with ''/'' s then [RootDir]
       else if hd (split_slash s) = ''.'' then [CurDir] else []) @
     concat (map read_component (split_slash s))"

section \<open>Operations\<close>

definition is_absolute :: "path \<Rightarrow> bool" where
  "is_absolute p \<longleftrightarrow> (case p of RootDir # _ \<Rightarrow> True | _ \<Rightarrow> False)"

text \<open>\<open>Path::file_name\<close>: none when the path ends in \<open>..\<close> or is a root.\<close>

definition file_name :: "path \<Rightarrow> string option" where
  "file_name p = (if p = [] then None else case last p of Normal s \<Rightarrow> Some s | _ \<Rightarrow> None)"

definition parent :: "path \<Rightarrow> path option" where
  "parent p = (if p = [] then None else case last p of RootDir \<Rightarrow> None | _ \<Rightarrow> Some (butlast p))"

definition join :: "path \<Rightarrow> path \<Rightarrow> path" where
  "join p q = (if is_absolute q then q
     else if p = [] then q else p @ (case q of CurDir # q' \<Rightarrow> q' | _ \<Rightarrow> q))"

text \<open>Joining a single file name, the common case.\<close>

abbreviation join_name :: "path \<Rightarrow> string \<Rightarrow> path" where
  "join_name p n \<equiv> join p (path_of n)"

definition path_starts_with :: "path \<Rightarrow> path \<Rightarrow> bool" where
  "path_starts_with p pre \<longleftrightarrow> starts_with pre p"

text \<open>\<open>Path::file_stem\<close>: the file name up to its last dot, the whole name if that is its first byte.\<close>

definition stem_of_name :: "string \<Rightarrow> string" where
  "stem_of_name n = (case rfind_char (CHR ''.'') n of None \<Rightarrow> n | Some i \<Rightarrow> if i = 0 then n else take i n)"

definition file_stem :: "path \<Rightarrow> string option" where
  "file_stem p = map_option stem_of_name (file_name p)"

section \<open>Plain file names\<close>

text \<open>A name without a separator that is neither empty nor a dot name reads as one component.\<close>

definition plain_name :: "string \<Rightarrow> bool" where
  "plain_name n \<longleftrightarrow> n \<noteq> [] \<and> CHR ''/'' \<notin> set n \<and> n \<noteq> ''.'' \<and> n \<noteq> ''..''"

lemma split_slash_plain: "CHR ''/'' \<notin> set n \<Longrightarrow> split_slash n = [n]"
  by (induction n) auto

lemma path_of_plain [simp]: "plain_name n \<Longrightarrow> path_of n = [Normal n]"
  by (cases n) (auto simp: plain_name_def path_of_def split_slash_plain read_component_def)

lemma join_plain [simp]: "plain_name n \<Longrightarrow> join_name p n = p @ [Normal n]"
  by (simp add: join_def is_absolute_def)

lemma join_Normal [simp]: "join p [Normal n] = p @ [Normal n]"
  by (simp add: join_def is_absolute_def)

lemma file_name_snoc [simp]: "file_name (p @ [Normal n]) = Some n"
  by (simp add: file_name_def)

lemma parent_snoc [simp]: "parent (p @ [Normal n]) = Some p"
  by (simp add: parent_def)

lemma file_name_Some: "file_name p = Some n \<longleftrightarrow> p \<noteq> [] \<and> last p = Normal n"
  by (auto simp: file_name_def split: component.splits)

lemma file_name_decomp: "file_name p = Some n \<Longrightarrow> p = butlast p @ [Normal n]"
  by (metis append_butlast_last_id file_name_Some)

lemma length_parent: "parent p = Some q \<Longrightarrow> length q < length p"
  by (auto simp: parent_def split: if_splits component.splits)

end
