(* ===== verification/RustFs.thy ===== *)
theory RustFs
  imports RustPath "HOL-Library.AList"
begin

text \<open>
  The file system the sources call through \<open>std::fs\<close>, as an explicit state.  A world holds the
  directory tree (an association list from paths to nodes), the process id and nonces that go into
  temporary names, and a fault schedule: every system call that can fail takes the next entry of
  the schedule, and an entry \<open>Some f\<close> makes it fail with no effect, except that a failing
  \<open>write_all\<close> may leave a prefix of its data.  A scheduled fault is an I/O error of the device or
  a refused permission, of kind \<open>OtherIo\<close>: \<open>NotFound\<close> and \<open>AlreadyExists\<close> are only reported when
  the tree says so.  An empty schedule means no more faults.  A process
  that dies between two calls is a schedule that fails every later call, so a statement for all
  schedules covers crashes.  Parent directories are taken as named, without symbolic links on the
  way; a link in the last component is followed as the kernel does, at most forty times.
\<close>

section \<open>The world\<close>

datatype io_kind = NotFound | AlreadyExists | InvalidData | FileTooLarge | OtherIo

datatype node = File bytes | Symlink path | Directory | Special
  \<comment> \<open>\<open>Special\<close>: a FIFO, socket or device, of length 0\<close>

datatype fault = Fault nat  \<comment> \<open>how many bytes a failing write leaves\<close>

record world =
  nodes :: "(path \<times> node) list"
  faults :: "fault option list"
  nonces :: "u64 list"
  pid :: nat

definition look :: "world \<Rightarrow> path \<Rightarrow> node option" where
  "look w p = map_of (nodes w) p"

definition put :: "path \<Rightarrow> node \<Rightarrow> world \<Rightarrow> world" where
  "put p n w = w\<lparr>nodes := AList.update p n (nodes w)\<rparr>"

definition del :: "path \<Rightarrow> world \<Rightarrow> world" where
  "del p w = w\<lparr>nodes := AList.delete p (nodes w)\<rparr>"

definition next_fault :: "world \<Rightarrow> fault option \<times> world" where
  "next_fault w = (case faults w of [] \<Rightarrow> (None, w) | f # fs \<Rightarrow> (f, w\<lparr>faults := fs\<rparr>))"

text \<open>Run a call unless the schedule fails it.\<close>

definition syscall :: "(world \<Rightarrow> (io_kind + 'a) \<times> world) \<Rightarrow> world \<Rightarrow> (io_kind + 'a) \<times> world" where
  "syscall f w = (case next_fault w of (Some (Fault _), w') \<Rightarrow> (Inl OtherIo, w') | (None, w') \<Rightarrow> f w')"

section \<open>Lookup\<close>

definition parent_or :: "path \<Rightarrow> path \<Rightarrow> path" where
  "parent_or d p = (case parent p of None \<Rightarrow> d | Some q \<Rightarrow> q)"

fun resolve_link :: "nat \<Rightarrow> world \<Rightarrow> path \<Rightarrow> io_kind + path" where
  "resolve_link 0 w p = Inl OtherIo"
| "resolve_link (Suc k) w p = (case look w p of
     Some (Symlink t) \<Rightarrow> resolve_link k w (join (parent_or [] p) t) | _ \<Rightarrow> Inr p)"

text \<open>The node an ancestor walk meets first; \<open>[]\<close> is the current directory.\<close>

function closest_ancestor :: "world \<Rightarrow> path \<Rightarrow> node option" where
  "closest_ancestor w p = (case parent p of None \<Rightarrow> None
     | Some q \<Rightarrow> if q = [] then Some Directory
         else (case look w q of None \<Rightarrow> closest_ancestor w q | Some n \<Rightarrow> Some n))"
  by pat_completeness auto
termination
  by (relation "measure (\<lambda>(w, p). length p)") (auto simp: length_parent)

declare closest_ancestor.simps [simp del]

text \<open>The error of a missing name: ENOTDIR when an ancestor is no directory.\<close>

definition missing_error :: "world \<Rightarrow> path \<Rightarrow> io_kind" where
  "missing_error w p = (case closest_ancestor w p of
     Some Directory \<Rightarrow> NotFound | None \<Rightarrow> NotFound | Some _ \<Rightarrow> OtherIo)"

definition get_node :: "world \<Rightarrow> path \<Rightarrow> io_kind + node" where
  "get_node w p = (case look w p of None \<Rightarrow> Inl (missing_error w p) | Some n \<Rightarrow> Inr n)"

definition get_node_follow :: "world \<Rightarrow> path \<Rightarrow> io_kind + node" where
  "get_node_follow w p = (case resolve_link 41 w p of Inl k \<Rightarrow> Inl k | Inr q \<Rightarrow> get_node w q)"

fun node_len :: "node \<Rightarrow> nat" where
  "node_len (File c) = length c"
| "node_len (Symlink _) = 1"
| "node_len Directory = 1"
| "node_len Special = 0"
  \<comment> \<open>for links and directories only non-zero lengths occur, and only zero tests are made\<close>

section \<open>System calls\<close>

definition fs_symlink_metadata :: "path \<Rightarrow> world \<Rightarrow> (io_kind + node) \<times> world" where
  "fs_symlink_metadata p = syscall (\<lambda>w. (get_node w p, w))"

definition fs_metadata :: "path \<Rightarrow> world \<Rightarrow> (io_kind + node) \<times> world" where
  "fs_metadata p = syscall (\<lambda>w. (get_node_follow w p, w))"

definition fs_read :: "path \<Rightarrow> world \<Rightarrow> (io_kind + bytes) \<times> world" where
  "fs_read p = syscall (\<lambda>w. (case get_node_follow w p of
     Inl k \<Rightarrow> Inl k | Inr (File c) \<Rightarrow> Inr c | Inr _ \<Rightarrow> Inl OtherIo, w))"

definition fs_read_to_string :: "path \<Rightarrow> world \<Rightarrow> (io_kind + string) \<times> world" where
  "fs_read_to_string p w = (case fs_read p w of (Inl k, w) \<Rightarrow> (Inl k, w)
     | (Inr c, w) \<Rightarrow> (if utf8_valid c then Inr c else Inl InvalidData, w))"

text \<open>A new name can only appear in a directory that exists.\<close>

definition dir_present :: "world \<Rightarrow> path \<Rightarrow> bool" where
  "dir_present w p \<longleftrightarrow> parent p = Some [] \<or> look w (parent_or [] p) = Some Directory"

text \<open>\<open>OpenOptions::new().write(true).create_new(true).open(p)\<close>\<close>

definition fs_create_new :: "path \<Rightarrow> world \<Rightarrow> (io_kind + unit) \<times> world" where
  "fs_create_new p = syscall (\<lambda>w.
     if look w p \<noteq> None then (Inl AlreadyExists, w)
     else if dir_present w p then (Inr (), put p (File []) w)
     else (Inl (missing_error w p), w))"

text \<open>\<open>File::create\<close>: follows a link, truncates what is there; returns the file it opened.\<close>

definition fs_create :: "path \<Rightarrow> world \<Rightarrow> (io_kind + path) \<times> world" where
  "fs_create p = syscall (\<lambda>w. case resolve_link 41 w p of Inl k \<Rightarrow> (Inl k, w)
     | Inr q \<Rightarrow>
        if look w q = Some Directory then (Inl OtherIo, w)
        else if look w q = Some Special then (Inr q, w)
        else if look w q = None \<and> \<not> dir_present w q then (Inl (missing_error w q), w)
        else (Inr q, put q (File []) w))"

text \<open>\<open>write_all\<close> on a freshly created (empty) file: a fault leaves a prefix.\<close>

definition fs_write_all :: "path \<Rightarrow> bytes \<Rightarrow> world \<Rightarrow> (io_kind + unit) \<times> world" where
  "fs_write_all p c w = (case next_fault w of
     (Some (Fault m), w') \<Rightarrow>
       (Inl OtherIo, if look w' p = Some Special then w' else put p (File (take m c)) w')
   | (None, w') \<Rightarrow> (Inr (), if look w' p = Some Special then w' else put p (File c) w'))"

definition fs_sync_all :: "world \<Rightarrow> (io_kind + unit) \<times> world" where
  "fs_sync_all = syscall (\<lambda>w. (Inr (), w))"

definition fs_remove_file :: "path \<Rightarrow> world \<Rightarrow> (io_kind + unit) \<times> world" where
  "fs_remove_file p = syscall (\<lambda>w. case look w p of
     None \<Rightarrow> (Inl (missing_error w p), w)
   | Some Directory \<Rightarrow> (Inl OtherIo, w)
   | Some _ \<Rightarrow> (Inr (), del p w))"

text \<open>\<open>hard_link\<close> fails when the new name exists; the two names share their content from then on,
  but every caller removes the first name at once.\<close>

definition fs_hard_link :: "path \<Rightarrow> path \<Rightarrow> world \<Rightarrow> (io_kind + unit) \<times> world" where
  "fs_hard_link src dst = syscall (\<lambda>w. case look w src of
     None \<Rightarrow> (Inl (missing_error w src), w)
   | Some n \<Rightarrow> (if look w dst \<noteq> None then (Inl AlreadyExists, w)
       else if \<not> dir_present w dst then (Inl (missing_error w dst), w)
       else if n = Directory then (Inl OtherIo, w) else (Inr (), put dst n w)))"

definition fs_rename :: "path \<Rightarrow> path \<Rightarrow> world \<Rightarrow> (io_kind + unit) \<times> world" where
  "fs_rename src dst = syscall (\<lambda>w. case look w src of
     None \<Rightarrow> (Inl (missing_error w src), w)
   | Some n \<Rightarrow> (if \<not> dir_present w dst then (Inl (missing_error w dst), w)
       else if look w dst = Some Directory \<or> n = Directory then (Inl OtherIo, w)
       else (Inr (), put dst n (del src w))))"

text \<open>\<open>create_dir_all\<close>: every missing ancestor, outermost first.\<close>

fun make_dirs :: "path \<Rightarrow> path \<Rightarrow> world \<Rightarrow> (io_kind + unit) \<times> world" where
  "make_dirs done [] w = (Inr (), w)"
| "make_dirs done (c # cs) w = (let p = done @ [c] in
     case look w p of
       None \<Rightarrow> make_dirs p cs (if c = RootDir then w else put p Directory w)
     | Some Directory \<Rightarrow> make_dirs p cs w
     | Some _ \<Rightarrow> (Inl OtherIo, w))"

definition fs_create_dir_all :: "path \<Rightarrow> world \<Rightarrow> (io_kind + unit) \<times> world" where
  "fs_create_dir_all p = syscall (make_dirs [] p)"

text \<open>\<open>read_dir\<close>: the file names directly below, in the tree's own order.\<close>

definition child_name :: "path \<Rightarrow> path \<Rightarrow> string option" where
  "child_name d p = (if p \<noteq> [] \<and> butlast p = d then file_name p else None)"

definition fs_read_dir :: "path \<Rightarrow> world \<Rightarrow> (io_kind + string list) \<times> world" where
  "fs_read_dir d = syscall (\<lambda>w.
     if look w d = Some Directory
     then (Inr (List.map_filter (child_name d) (map fst (nodes w))), w)
     else (Inl (case look w d of None \<Rightarrow> missing_error w d | Some _ \<Rightarrow> OtherIo), w))"

section \<open>Effects of the calls\<close>

lemma look_put [simp]: "look (put p n w) q = (if q = p then Some n else look w q)"
  by (simp add: look_def put_def update_conv')

lemma look_del [simp]: "look (del p w) q = (if q = p then None else look w q)"
  by (simp add: look_def del_def delete_conv')

lemma put_del_fields [simp]:
  "faults (put p n w) = faults w" "faults (del p w) = faults w"
  "pid (put p n w) = pid w" "pid (del p w) = pid w"
  "nonces (put p n w) = nonces w" "nonces (del p w) = nonces w"
  by (simp_all add: put_def del_def)

lemma look_faults [simp]: "look (w\<lparr>faults := fs\<rparr>) p = look w p" "look (w\<lparr>nonces := ns\<rparr>) p = look w p"
  by (simp_all add: look_def)

text \<open>\<open>frame S w w'\<close>: only paths in \<open>S\<close> may differ.\<close>

definition frame :: "path set \<Rightarrow> world \<Rightarrow> world \<Rightarrow> bool" where
  "frame S w w' \<longleftrightarrow> (\<forall>q. q \<notin> S \<longrightarrow> look w' q = look w q) \<and> pid w' = pid w"

lemma frame_refl [simp, intro]: "frame S w w"
  by (simp add: frame_def)

lemma frame_trans [trans]: "frame S w w' \<Longrightarrow> frame S w' w'' \<Longrightarrow> frame S w w''"
  by (simp add: frame_def)

lemma frame_mono: "frame S w w' \<Longrightarrow> S \<subseteq> T \<Longrightarrow> frame T w w'"
  by (auto simp: frame_def)

lemma frame_step: "frame S w w' \<Longrightarrow> frame T w' w'' \<Longrightarrow> S \<subseteq> U \<Longrightarrow> T \<subseteq> U \<Longrightarrow> frame U w w''"
  by (meson frame_mono frame_trans)

lemma frame_look: "frame S w w' \<Longrightarrow> q \<notin> S \<Longrightarrow> look w' q = look w q"
  by (simp add: frame_def)

lemma frame_pid: "frame S w w' \<Longrightarrow> pid w' = pid w"
  by (simp add: frame_def)

lemma next_fault_frame: "next_fault w = (f, w') \<Longrightarrow> frame {} w w'"
  by (auto simp: next_fault_def frame_def split: list.splits)

lemma next_fault_none [simp]: "faults w = [] \<Longrightarrow> next_fault w = (None, w)"
  by (simp add: next_fault_def)

lemma syscall_fault_free [simp]: "faults w = [] \<Longrightarrow> syscall f w = f w"
  by (simp add: syscall_def)

text \<open>A call either fails by schedule and changes nothing or runs in an equal tree.\<close>

lemma syscall_cases:
  assumes "syscall f w = (r, w')"
  obtains (fault) "r = Inl OtherIo" "frame {} w w'"
  | (runs) v where "frame {} w v" "f v = (r, w')"
  using assms next_fault_frame[of w]
  by (auto simp: syscall_def split: prod.splits option.splits fault.splits)

lemma frame_empty_look: "frame {} w w' \<Longrightarrow> look w' = look w"
  by (auto simp: frame_def)

lemma resolve_link_cong: "look v = look w \<Longrightarrow> resolve_link k v p = resolve_link k w p"
  by (induction k arbitrary: p) (auto split: option.splits node.splits)

lemma closest_ancestor_cong: "look v = look w \<Longrightarrow> closest_ancestor v p = closest_ancestor w p"
proof (induction w p rule: closest_ancestor.induct)
  case (1 w p)
  show ?case
    using 1 by (subst (1 2) closest_ancestor.simps) (auto split: option.splits)
qed

lemma look_cong:
  assumes "look v = look w"
  shows "get_node v p = get_node w p" "get_node_follow v p = get_node_follow w p"
    "missing_error v p = missing_error w p" "dir_present v p = dir_present w p"
proof -
  show m: "missing_error v p = missing_error w p" for p
    by (simp add: missing_error_def closest_ancestor_cong[OF assms])
  show g: "get_node v p = get_node w p" for p
    by (simp add: get_node_def m assms split: option.splits)
  show "get_node_follow v p = get_node_follow w p"
    by (simp add: get_node_follow_def g resolve_link_cong[OF assms] split: sum.splits)
  show "dir_present v p = dir_present w p"
    by (simp add: dir_present_def assms)
qed

lemma resolve_link_plain: "(\<And>t. look w p \<noteq> Some (Symlink t)) \<Longrightarrow> resolve_link (Suc k) w p = Inr p"
  by (auto split: option.splits node.splits)

lemma get_node_follow_plain:
  "(\<And>t. look w p \<noteq> Some (Symlink t)) \<Longrightarrow> get_node_follow w p = get_node w p"
  by (simp add: get_node_follow_def resolve_link_plain eval_nat_numeral del: resolve_link.simps)

subsection \<open>Calls that only read\<close>

lemma fs_symlink_metadata_frame: "fs_symlink_metadata p w = (r, w') \<Longrightarrow> frame {} w w'"
  by (auto simp: fs_symlink_metadata_def elim!: syscall_cases)

lemma fs_metadata_frame: "fs_metadata p w = (r, w') \<Longrightarrow> frame {} w w'"
  by (auto simp: fs_metadata_def elim!: syscall_cases)

lemma fs_read_frame: "fs_read p w = (r, w') \<Longrightarrow> frame {} w w'"
  by (auto simp: fs_read_def elim!: syscall_cases)

lemma fs_read_to_string_frame: "fs_read_to_string p w = (r, w') \<Longrightarrow> frame {} w w'"
  by (auto simp: fs_read_to_string_def split: prod.splits sum.splits dest: fs_read_frame)

lemma fs_read_dir_frame: "fs_read_dir p w = (r, w') \<Longrightarrow> frame {} w w'"
  by (auto simp: fs_read_dir_def elim!: syscall_cases split: if_splits)

lemma fs_sync_all_frame: "fs_sync_all w = (r, w') \<Longrightarrow> frame {} w w'"
  by (auto simp: fs_sync_all_def elim!: syscall_cases)

lemmas fs_read_frames = fs_symlink_metadata_frame fs_metadata_frame fs_read_frame
  fs_read_to_string_frame fs_read_dir_frame fs_sync_all_frame

text \<open>A successful read of a path that is no link returns the content of the file there.\<close>

lemma fs_read_content:
  assumes "fs_read p w = (Inr c, w')" "\<And>t. look w p \<noteq> Some (Symlink t)"
  shows "look w p = Some (File c)"
proof -
  obtain v where "frame {} w v" and
    "(case get_node_follow v p of Inl k \<Rightarrow> Inl k | Inr (File c) \<Rightarrow> Inr c | Inr _ \<Rightarrow> Inl OtherIo) =
       (Inr c :: io_kind + bytes)"
    using assms(1) by (auto simp: fs_read_def elim!: syscall_cases)
  then show ?thesis
    using look_cong(2)[of v w p] assms(2)
    by (auto simp: frame_empty_look get_node_follow_plain get_node_def
        split: sum.splits node.splits option.splits)
qed

subsection \<open>Calls that change the tree\<close>

lemma fs_create_new_spec:
  assumes "fs_create_new p w = (r, w')"
  shows "frame {p} w w'"
    "r = Inr () \<Longrightarrow> look w p = None \<and> look w' p = Some (File [])"
    "r = Inl k \<Longrightarrow> look w' p = look w p"
  using assms unfolding fs_create_new_def
  by (auto elim!: syscall_cases simp: frame_def split: if_splits)

lemma fs_write_all_spec:
  assumes "fs_write_all p c w = (r, w')"
  shows "frame {p} w w'"
    "r = Inr () \<Longrightarrow> look w p \<noteq> Some Special \<Longrightarrow> look w' p = Some (File c)"
  using assms next_fault_frame[of w]
  by (auto simp: fs_write_all_def frame_def split: prod.splits option.splits fault.splits if_splits)

lemma fs_remove_file_spec:
  assumes "fs_remove_file p w = (r, w')"
  shows "frame {p} w w'" "r = Inr () \<Longrightarrow> look w' p = None" "r = Inl k \<Longrightarrow> look w' p = look w p"
  using assms unfolding fs_remove_file_def
  by (auto elim!: syscall_cases simp: frame_def split: option.splits node.splits)

lemma fs_hard_link_spec:
  assumes "fs_hard_link src dst w = (r, w')"
  shows "frame {dst} w w'"
    "r = Inr () \<Longrightarrow> look w dst = None \<and> look w src \<noteq> None \<and> look w' dst = look w src"
    "r = Inl k \<Longrightarrow> look w' dst = look w dst"
  using assms unfolding fs_hard_link_def
  by (auto elim!: syscall_cases simp: frame_def split: option.splits if_splits)

lemma fs_rename_spec:
  assumes "fs_rename src dst w = (r, w')" "src \<noteq> dst"
  shows "frame {src, dst} w w'"
    "r = Inr () \<Longrightarrow> look w src \<noteq> None \<and> look w' dst = look w src \<and> look w' src = None"
    "r = Inl k \<Longrightarrow> look w' = look w"
  using assms unfolding fs_rename_def
  by (auto elim!: syscall_cases simp: frame_def split: option.splits if_splits)

text \<open>On a name that is no link, \<open>File::create\<close> opens that name and touches nothing else.\<close>

lemma fs_create_spec:
  assumes "fs_create p w = (r, w')" "\<And>t. look w p \<noteq> Some (Symlink t)"
  shows "frame {p} w w'"
    "r = Inr q \<Longrightarrow> q = p \<and> look w' p = Some (if look w p = Some Special then Special else File [])"
proof -
  have res: "resolve_link 41 v p = Inr p" if "frame {} w v" for v
    using resolve_link_plain[OF assms(2), of 40] resolve_link_cong[OF frame_empty_look[OF that]]
    by (simp add: eval_nat_numeral del: resolve_link.simps)
  show "frame {p} w w'"
    and "r = Inr q \<Longrightarrow> q = p \<and> look w' p = Some (if look w p = Some Special then Special else File [])"
    using assms(1) unfolding fs_create_def
    by (auto elim!: syscall_cases simp: res frame_def split: if_splits)
qed

section \<open>Nothing but files appears\<close>

text \<open>Every path keeps its node, loses it, or becomes a regular file: no new link or device.\<close>

definition tame :: "world \<Rightarrow> world \<Rightarrow> bool" where
  "tame w w' \<longleftrightarrow> (\<forall>q. look w' q = look w q \<or> look w' q = None \<or> (\<exists>c. look w' q = Some (File c))) \<and> pid w' = pid w"

definition not_planted :: "world \<Rightarrow> path \<Rightarrow> bool" where
  "not_planted w t \<longleftrightarrow> (\<forall>l. look w t \<noteq> Some (Symlink l)) \<and> look w t \<noteq> Some Special"

lemma tame_refl [simp, intro]: "tame w w"
  by (simp add: tame_def)

lemma tame_trans [trans]: "tame w v \<Longrightarrow> tame v u \<Longrightarrow> tame w u"
  by (auto simp: tame_def) metis+

lemma frame_tame: "frame {} w v \<Longrightarrow> tame w v"
  by (simp add: tame_def frame_def)

lemma tame_pid: "tame w v \<Longrightarrow> pid v = pid w"
  by (simp add: tame_def)

lemma tame_not_planted: "tame w v \<Longrightarrow> not_planted w t \<Longrightarrow> not_planted v t"
  by (auto simp: tame_def not_planted_def) (metis node.distinct option.distinct option.inject)+

lemma frame_one_tame: "frame {p} w v \<Longrightarrow> look v p = None \<or> (\<exists>c. look v p = Some (File c)) \<or> look v p = look w p \<Longrightarrow>
    tame w v"
  unfolding tame_def frame_def by (metis singletonD)

lemma fs_create_tame:
  assumes "fs_create p w = (r, w')" "not_planted w p"
  shows "tame w w'"
proof -
  have nl: "\<And>t. look w p \<noteq> Some (Symlink t)" using assms(2) by (simp add: not_planted_def)
  have sp: "look w p \<noteq> Some Special" using assms(2) by (simp add: not_planted_def)
  note s = fs_create_spec[OF assms(1) nl]
  have res: "resolve_link 41 v p = Inr p" if "frame {} w v" for v
    using resolve_link_plain[OF nl, of 40] resolve_link_cong[OF frame_empty_look[OF that]]
    by (simp add: eval_nat_numeral del: resolve_link.simps)
  have "look w' p = look w p \<or> look w' p = Some (File [])"
    using assms(1) unfolding fs_create_def
    by (auto elim!: syscall_cases simp: res frame_empty_look split: if_splits)
  then show ?thesis using frame_one_tame[OF s(1)] by auto
qed

lemma fs_write_all_tame: "fs_write_all p c w = (r, w') \<Longrightarrow> tame w w'"
proof -
  assume run: "fs_write_all p c w = (r, w')"
  obtain f v where v: "next_fault w = (f, v)" by fastforce
  have "w' = v \<or> (\<exists>d. w' = put p (File d) v)"
    using run v by (auto simp: fs_write_all_def split: option.splits fault.splits if_splits)
  moreover have "tame w v" using frame_tame[OF next_fault_frame[OF v]] .
  moreover have "tame v (put p (File d) v)" for d by (simp add: tame_def)
  ultimately show ?thesis using tame_trans by blast
qed

lemma fs_remove_file_tame: "fs_remove_file p w = (r, w') \<Longrightarrow> tame w w'"
  using fs_remove_file_spec[of p w r w'] by (cases r) (auto intro: frame_one_tame)

lemma remove_tame: "tame w (snd (fs_remove_file p w))"
  by (metis fs_remove_file_tame prod.collapse)

lemma fs_rename_tame:
  assumes "fs_rename src dst w = (r, w')" "src \<noteq> dst" "look w src = Some (File c)"
  shows "tame w w'"
proof -
  note s = fs_rename_spec[OF assms(1,2)]
  show ?thesis
  proof (cases r)
    case (Inl k)
    then show ?thesis using s(3) frame_pid[OF s(1)] by (simp add: tame_def)
  next
    case (Inr u)
    have "look w' dst = Some (File c)" "look w' src = None" using s(2) Inr assms(3) by simp_all
    then show ?thesis using s(1) unfolding tame_def frame_def by (metis empty_iff insert_iff)
  qed
qed

lemma fs_read_tames:
  "fs_symlink_metadata p w = (a, w1) \<Longrightarrow> tame w w1" "fs_metadata p w = (b, w2) \<Longrightarrow> tame w w2"
  "fs_read p w = (c, w3) \<Longrightarrow> tame w w3" "fs_read_to_string p w = (d, w4) \<Longrightarrow> tame w w4"
  "fs_read_dir p w = (e, w5) \<Longrightarrow> tame w w5"
  by (blast intro: frame_tame dest: fs_read_frames)+

text \<open>Only missing directories may have appeared.\<close>

definition only_dirs :: "world \<Rightarrow> world \<Rightarrow> bool" where
  "only_dirs w w' \<longleftrightarrow> (\<forall>p. look w' p = look w p \<or> look w p = None \<and> look w' p = Some Directory)"

lemma only_dirs_refl: "only_dirs w w"
  by (simp add: only_dirs_def)

lemma only_dirs_trans: "only_dirs w v \<Longrightarrow> only_dirs v u \<Longrightarrow> only_dirs w u"
  unfolding only_dirs_def by metis

lemma make_dirs_spec: "make_dirs p cs w = (r, w') \<Longrightarrow> only_dirs w w'"
proof (induction cs arbitrary: p w)
  case (Cons c cs)
  let ?p = "p @ [c]" and ?v = "if c = RootDir then w else put (p @ [c]) Directory w"
  consider "look w ?p = None" | "look w ?p = Some Directory" | "w' = w"
    using Cons.prems by (auto simp: Let_def split: option.splits node.splits)
  then show ?case
  proof cases
    case 1
    then have "make_dirs ?p cs ?v = (r, w')" using Cons.prems by (simp add: Let_def)
    moreover have "only_dirs w ?v" using 1 by (simp add: only_dirs_def)
    ultimately show ?thesis using Cons.IH only_dirs_trans by blast
  next
    case 2
    then show ?thesis using Cons by (simp add: Let_def)
  qed (simp add: only_dirs_refl)
qed (simp add: only_dirs_refl)

lemma frame_only_dirs: "frame {} w w' \<Longrightarrow> only_dirs w w'"
  by (simp add: only_dirs_def frame_empty_look)

lemma create_dir_all_spec: "fs_create_dir_all p w = (r, w') \<Longrightarrow> only_dirs w w'"
  unfolding fs_create_dir_all_def
  by (erule syscall_cases) (auto intro: frame_only_dirs only_dirs_trans make_dirs_spec)

lemma fs_read_to_string_result:
  assumes "fs_read_to_string p w = (r, w')"
  shows "frame {} w w'" "r = Inr c \<Longrightarrow> get_node_follow w p = Inr (File c) \<and> utf8_valid c"
    "r = Inl NotFound \<Longrightarrow> get_node_follow w p = Inl NotFound"
proof -
  obtain a v where a: "fs_read p w = (a, v)" by fastforce
  show "frame {} w w'" using fs_read_to_string_frame[OF assms] .
  have "a = Inr d \<Longrightarrow> get_node_follow w p = Inr (File d)" "a = Inl NotFound \<Longrightarrow> get_node_follow w p = Inl NotFound" for d
    using a by (auto simp: fs_read_def look_cong(2)[OF frame_empty_look] elim!: syscall_cases
        split: sum.splits node.splits)
  then show "r = Inr c \<Longrightarrow> get_node_follow w p = Inr (File c) \<and> utf8_valid c"
    "r = Inl NotFound \<Longrightarrow> get_node_follow w p = Inl NotFound"
    using assms a by (auto simp: fs_read_to_string_def split: sum.splits if_splits)
qed

lemma fs_read_to_string_file:
  assumes "fs_read_to_string p w = (Inr c, w')" "look w p = Some (File d)"
  shows "c = d"
  using fs_read_to_string_result(2)[OF assms(1)] assms(2) by (auto simp: get_node_follow_plain get_node_def)

end
