(* ===== verification/ShardConfig.thy ===== *)
theory ShardConfig
  imports F64 RustFs
begin

text \<open>
  The shard registry of \<^verbatim>\<open>shard_manager.rs\<close>: its entries, the cap formula, the validation run at
  entry-match time, and the lookup of the entry for a target path.
\<close>

section \<open>Types\<close>

datatype shard_shape = Flat | FrontmatterChangelogArray

record cap_formula_inputs =
  cf_practical_fuel_ceiling :: u64
  cf_worst_case_fuel_per_byte :: f64
  cf_max_single_record_bytes :: u64
  cf_safety_margin :: u64

record shard_entry =
  artifact_stem :: string
  artifact_path :: string
  practical_fuel_ceiling :: u64
  worst_case_fuel_per_byte :: f64
  max_single_record_bytes :: u64
  safety_margin :: u64
  shard_cap_bytes :: u64
  entry_shape :: "shard_shape option"
  entry_n :: "u64 option"
  entry_low_water_mark :: "i64 option"

definition entry_cap_formula_inputs :: "shard_entry \<Rightarrow> cap_formula_inputs" where
  "entry_cap_formula_inputs e =
     \<lparr>cf_practical_fuel_ceiling = practical_fuel_ceiling e,
      cf_worst_case_fuel_per_byte = worst_case_fuel_per_byte e,
      cf_max_single_record_bytes = max_single_record_bytes e,
      cf_safety_margin = safety_margin e\<rparr>"

type_synonym shard_registry = "shard_entry list"

text \<open>The error values carry what the messages interpolate.\<close>

datatype shard_config_error =
    ConfigIo io_kind
  | ConfigToml
  | MissingShape string
  | EmptyArtifactPath string string
  | InvalidArtifactStem string
  | InvalidLowWaterMark string u64 i64
  | CapExceedsFormulaCeiling string u64 u64
  | InvalidWorstCaseFuelPerByte string f64
  | MissingN string
  | FormulaCeilingSaturated string u64 f64
  | ZeroItemCountThreshold string
  | DuplicateArtifactStem string

section \<open>The cap formula\<close>

definition compute_shard_cap_bytes :: "cap_formula_inputs \<Rightarrow> u64" where
  "compute_shard_cap_bytes inputs =
     (let fuel_budget_bytes = f64_floor (f64_div (f64_of_u64 (cf_practical_fuel_ceiling inputs))
                                (cf_worst_case_fuel_per_byte inputs)) in
      sat_sub (sat_sub (f64_to_u64 fuel_budget_bytes) (cf_max_single_record_bytes inputs))
        (cf_safety_margin inputs))"

definition effective_shard_cap_bytes :: "u64 list \<Rightarrow> u64" where
  "effective_shard_cap_bytes per_validator_caps =
     (case per_validator_caps of [] \<Rightarrow> - 1 | c # cs \<Rightarrow> fold min cs c)"

section \<open>Validation\<close>

definition validate_low_water_mark :: "string \<Rightarrow> u64 \<Rightarrow> i64 \<Rightarrow> shard_config_error + bool" where
  "validate_low_water_mark stem n low_water_mark =
     (if sint low_water_mark < 0 \<or> sint low_water_mark \<ge> uint n
      then Inl (InvalidLowWaterMark stem n low_water_mark)
      else Inr (low_water_mark > n div 2))"

definition resolved_low_water_mark :: "u64 \<Rightarrow> i64 option \<Rightarrow> u64" where
  "resolved_low_water_mark n low_water_mark = (case low_water_mark of Some v \<Rightarrow> v | None \<Rightarrow> n div 2)"

text \<open>The item-count part of \<^verbatim>\<open>validate_entry\<close>; the advisory it may log changes nothing.\<close>

definition validate_changelog_shape :: "shard_entry \<Rightarrow> shard_config_error + unit" where
  "validate_changelog_shape e =
     (case entry_n e of None \<Rightarrow> Inl (MissingN (artifact_stem e))
      | Some n \<Rightarrow>
          if n = 0 then Inl (ZeroItemCountThreshold (artifact_stem e))
          else (case entry_low_water_mark e of None \<Rightarrow> Inr ()
            | Some lwm \<Rightarrow> (case validate_low_water_mark (artifact_stem e) n lwm of
                Inl err \<Rightarrow> Inl err | Inr fires_advisory \<Rightarrow> Inr ())))"

definition validate_entry :: "shard_entry \<Rightarrow> shard_config_error + unit" where
  "validate_entry e =
     (let stem = artifact_stem e; rate = worst_case_fuel_per_byte e in
      case entry_shape e of None \<Rightarrow> Inl (MissingShape stem)
      | Some shp \<Rightarrow>
      if \<not> list_ex (\<lambda>c. c \<noteq> CurDir) (path_of (artifact_path e))
      then Inl (EmptyArtifactPath stem (artifact_path e))
      else if CHR ''/'' \<in> set stem \<or> CHR 0x5C \<in> set stem \<or> contains ''..'' stem \<or> CHR 0x00 \<in> set stem
      then Inl (InvalidArtifactStem stem)
      else if \<not> f64_is_finite rate \<or> f64_le_zero rate
      then Inl (InvalidWorstCaseFuelPerByte stem rate)
      else let raw_ceiling_division = f64_div (f64_of_u64 (practical_fuel_ceiling e)) rate in
      if \<not> f64_is_finite raw_ceiling_division \<or> f64_ge_u64_max raw_ceiling_division
      then Inl (FormulaCeilingSaturated stem (practical_fuel_ceiling e) rate)
      else let computed_ceiling = compute_shard_cap_bytes (entry_cap_formula_inputs e) in
      if shard_cap_bytes e > computed_ceiling
      then Inl (CapExceedsFormulaCeiling stem (shard_cap_bytes e) computed_ceiling)
      else if shp = FrontmatterChangelogArray then validate_changelog_shape e
      else Inr ())"

section \<open>Matching a target path\<close>

definition path_falls_under_or_equals :: "path \<Rightarrow> path \<Rightarrow> bool" where
  "path_falls_under_or_equals target_path registered_path =
     (let target = filter (\<lambda>c. c \<noteq> CurDir) target_path;
          registered = filter (\<lambda>c. c \<noteq> CurDir) registered_path in
      if list_ex (\<lambda>c. c = ParentDir) (target @ registered) then False
      else let suffix_match = ends_with registered target;
               prefix_match = length registered < length target \<and> starts_with registered target in
           suffix_match \<or> prefix_match)"

definition entry_matches :: "path \<Rightarrow> string \<Rightarrow> shard_entry \<Rightarrow> bool" where
  "entry_matches target_path stem e \<longleftrightarrow> artifact_stem e = stem \<and>
     path_falls_under_or_equals target_path (path_of (artifact_path e))"

definition find_matching_entry ::
  "shard_registry \<Rightarrow> path \<Rightarrow> shard_config_error + shard_entry option" where
  "find_matching_entry registry target_path =
     (case file_stem target_path of None \<Rightarrow> Inr None
      | Some stem \<Rightarrow>
          (case filter (entry_matches target_path stem) registry of
             [] \<Rightarrow> Inr None
           | [first] \<Rightarrow> Inr (Some first)
           | _ \<Rightarrow> Inl (DuplicateArtifactStem stem)))"

section \<open>Facts the other components use\<close>

lemma validate_entry_OkD:
  assumes "validate_entry e = Inr ()"
  shows "\<exists>shp. entry_shape e = Some shp"
    "CHR ''/'' \<notin> set (artifact_stem e)" "\<not> contains ''..'' (artifact_stem e)"
    "f64_is_finite (worst_case_fuel_per_byte e)" "\<not> f64_le_zero (worst_case_fuel_per_byte e)"
    "f64_is_finite (f64_div (f64_of_u64 (practical_fuel_ceiling e)) (worst_case_fuel_per_byte e))"
    "\<not> f64_ge_u64_max (f64_div (f64_of_u64 (practical_fuel_ceiling e)) (worst_case_fuel_per_byte e))"
    "shard_cap_bytes e \<le> compute_shard_cap_bytes (entry_cap_formula_inputs e)"
    "entry_shape e = Some FrontmatterChangelogArray \<Longrightarrow> validate_changelog_shape e = Inr ()"
  using assms
  by (auto simp: validate_entry_def Let_def not_le split: option.splits if_splits)

lemma find_matching_entry_Some:
  assumes "find_matching_entry registry p = Inr (Some e)"
  shows "file_stem p = Some (artifact_stem e)" "e \<in> set registry"
    "path_falls_under_or_equals p (path_of (artifact_path e))"
proof -
  obtain stem where stem: "file_stem p = Some stem"
    and f: "filter (entry_matches p stem) registry = [e]"
    using assms by (auto simp: find_matching_entry_def split: option.splits list.splits)
  from f have "e \<in> set (filter (entry_matches p stem) registry)" by simp
  then show "file_stem p = Some (artifact_stem e)" "e \<in> set registry"
    "path_falls_under_or_equals p (path_of (artifact_path e))"
    using stem by (auto simp: entry_matches_def)
qed

lemma unat_compute_shard_cap_bytes:
  "unat (compute_shard_cap_bytes inputs) =
     unat (f64_to_u64 (f64_floor (f64_div (f64_of_u64 (cf_practical_fuel_ceiling inputs))
       (cf_worst_case_fuel_per_byte inputs)))) -
     unat (cf_max_single_record_bytes inputs) - unat (cf_safety_margin inputs)"
  by (simp add: compute_shard_cap_bytes_def Let_def unat_sat_sub)

lemma unat_of_int_u64: "0 \<le> k \<Longrightarrow> k < 2 ^ 64 \<Longrightarrow> unat (of_int k :: u64) = nat k"
  by (simp add: unat_eq_nat_uint uint_word_of_int_eq take_bit_int_eq_self)

lemma unat_f64_to_u64_floor:
  assumes "0 < v" "v < 2 ^ 64"
  shows "rat_of_nat (unat (f64_to_u64 (f64_floor (F64_Fin v)))) = of_int \<lfloor>v\<rfloor>"
proof (cases "\<lfloor>v\<rfloor> = 0")
  case True
  then show ?thesis by simp
next
  case False
  moreover have "0 \<le> \<lfloor>v\<rfloor>" using assms(1) by simp
  ultimately have fl: "0 < \<lfloor>v\<rfloor>" by linarith
  have lt: "of_int \<lfloor>v\<rfloor> < (2 ^ 64 :: rat)" by (rule le_less_trans[OF of_int_floor_le assms(2)])
  then have "\<lfloor>v\<rfloor> < 2 ^ 64" by (metis of_int_less_iff of_int_numeral of_int_power)
  then have "unat (of_int \<lfloor>v\<rfloor> :: u64) = nat \<lfloor>v\<rfloor>" using fl by (intro unat_of_int_u64) auto
  moreover have "f64_to_u64 (f64_floor (F64_Fin v)) = of_int \<lfloor>v\<rfloor>"
    using fl False lt by (simp del: of_int_floor_cancel)
  ultimately show ?thesis using fl by (simp only: of_nat_nat less_imp_le)
qed

section \<open>The fuel budget of a validated entry\<close>

text \<open>A rounded quotient of at least one comes from an argument in the normal range.\<close>

lemma pow2_mono: "k \<le> j \<Longrightarrow> pow2 k \<le> pow2 j"
  unfolding pow2_powi by (rule power_int_increasing) simp_all

lemma round_f64_ge_one_normal:
  assumes "0 < x" "round_f64 x = F64_Fin v" "1 \<le> v"
  shows "pow2 (- 1022) \<le> x"
proof (rule ccontr)
  assume "\<not> pow2 (- 1022) \<le> x"
  then have small: "x < pow2 (- 1022)" by simp
  then have "floor_log2 x \<le> - 1022"
    using floor_log2_le[OF assms(1)] pow2_mono[of "- 1022" "floor_log2 x"] by linarith
  then have ulp: "ulp_of x = pow2 (- 1074)" by (simp add: ulp_of_def)
  have "v = of_int (round_half_even (x / ulp_of x)) * ulp_of x"
    using assms by (auto simp: round_f64_def Let_def split: if_splits)
  also have "\<dots> \<le> (x / ulp_of x + 1 / 2) * ulp_of x"
    using round_half_even_le[of "x / ulp_of x"] by (intro mult_right_mono) (auto simp: ulp)
  also have "\<dots> = x + ulp_of x / 2"
  proof -
    have "ulp_of x \<noteq> 0" by (metis pow2_pos order_less_irrefl ulp)
    then show ?thesis by (simp add: field_simps)
  qed
  also have "\<dots> < pow2 (- 1) + pow2 (- 1) / 2"
    using small pow2_mono[of "- 1022" "- 1"] pow2_mono[of "- 1074" "- 1"] by (simp add: ulp)
  also have "\<dots> < 1" by (simp add: pow2_def)
  finally show False using assms(3) by simp
qed

lemma round_f64_nat_upper:
  assumes "0 < n" "round_f64 (rat_of_nat n) = F64_Fin x"
  shows "x \<le> rat_of_nat n * (1 + 1 / 2 ^ 53)"
proof (rule round_f64_upper[OF _ _ assms(2)])
  have "pow2 (- 1022) \<le> pow2 0" by (rule pow2_mono) simp
  also have "\<dots> \<le> rat_of_nat n" using assms(1) by (simp add: pow2_def)
  finally show "pow2 (- 1022) \<le> rat_of_nat n" .
qed (use assms in simp)

lemma f64_rate_cases:
  "f64_is_finite x \<Longrightarrow> \<not> f64_le_zero x \<Longrightarrow> \<exists>r>0. x = F64_Fin r"
  by (cases x) auto

lemma round_f64_pos:
  assumes "round_f64 x = F64_Fin v" "0 < x" shows "0 < v"
proof -
  have "0 \<le> x / ulp_of x" using assms(2) pow2_pos by (simp add: ulp_of_def less_imp_le)
  then have "0 \<le> \<lfloor>x / ulp_of x\<rfloor>" by simp
  then have "0 \<le> round_half_even (x / ulp_of x)" by (simp add: round_half_even_def Let_def)
  then have "0 \<le> of_int (round_half_even (x / ulp_of x)) * ulp_of x"
    using pow2_pos by (simp add: ulp_of_def less_imp_le)
  moreover have "v = of_int (round_half_even (x / ulp_of x)) * ulp_of x" "v \<noteq> 0"
    using assms by (auto simp: round_f64_def Let_def split: if_splits)
  ultimately show ?thesis by (metis order_le_imp_less_or_eq)
qed

lemma cap_formula_upper:
  assumes rate: "cf_worst_case_fuel_per_byte i = F64_Fin r" "0 < r"
    and div: "f64_div (f64_of_u64 (cf_practical_fuel_ceiling i)) (F64_Fin r) = F64_Fin v" "v < 2 ^ 64" "0 < v"
    and pos: "0 < unat (compute_shard_cap_bytes i)"
  shows "rat_of_nat (unat (compute_shard_cap_bytes i) + unat (cf_max_single_record_bytes i) +
      unat (cf_safety_margin i)) * r \<le> rat_of_nat (unat (cf_practical_fuel_ceiling i)) * (1 + 1 / 2 ^ 53)\<^sup>2"
proof -
  let ?c = "cf_practical_fuel_ceiling i"
  let ?total = "unat (compute_shard_cap_bytes i) + unat (cf_max_single_record_bytes i) +
    unat (cf_safety_margin i)"
  from div(1) obtain x where x: "f64_of_u64 ?c = F64_Fin x" and v: "round_f64 (x / r) = F64_Fin v"
    by (cases "f64_of_u64 ?c") (auto split: if_splits)
  have c: "0 < unat ?c"
    using x by (cases "unat ?c = 0") (auto simp: f64_of_u64_def round_f64_def)
  have xpos: "0 < x"
    using x c by (metis f64_of_u64_def of_nat_0_less_iff round_f64_pos)
  have "?total = unat (f64_to_u64 (f64_floor (F64_Fin v)))"
    using pos rate div(1) by (simp add: unat_compute_shard_cap_bytes)
  then have total: "rat_of_nat ?total = of_int \<lfloor>v\<rfloor>"
    using unat_f64_to_u64_floor[OF div(3,2)] by simp
  have one: "1 \<le> v"
  proof -
    have "0 < rat_of_nat ?total" using pos by (simp only: of_nat_0_less_iff)
    then have "1 \<le> \<lfloor>v\<rfloor>" unfolding total by simp
    then show ?thesis by (simp add: le_floor_iff)
  qed
  have "rat_of_nat ?total \<le> v" unfolding total by (rule of_int_floor_le)
  also have "\<dots> \<le> x / r * (1 + 1 / 2 ^ 53)"
    using xpos rate(2) v one by (intro round_f64_upper round_f64_ge_one_normal[of _ v]) auto
  finally have "rat_of_nat ?total * r \<le> x * (1 + 1 / 2 ^ 53)"
    using rate(2) by (simp add: field_simps)
  also have "\<dots> \<le> rat_of_nat (unat ?c) * (1 + 1 / 2 ^ 53) * (1 + 1 / 2 ^ 53)"
    using round_f64_nat_upper[OF c, of x] x by (intro mult_right_mono) (auto simp: f64_of_u64_def)
  finally show ?thesis by (simp add: power2_eq_square mult.assoc)
qed

lemma validated_division:
  assumes ok: "validate_entry e = Inr ()" and r: "worst_case_fuel_per_byte e = F64_Fin r" "0 < r"
  shows "(\<exists>v. 0 < v \<and> v < 2 ^ 64 \<and> f64_div (f64_of_u64 (practical_fuel_ceiling e)) (F64_Fin r) = F64_Fin v) \<or>
    compute_shard_cap_bytes (entry_cap_formula_inputs e) = 0"
proof -
  let ?d = "f64_div (f64_of_u64 (practical_fuel_ceiling e)) (F64_Fin r)"
  have d: "f64_is_finite ?d" "\<not> f64_ge_u64_max ?d"
    using validate_entry_OkD(6,7)[OF ok] r by auto
  show ?thesis
  proof (cases ?d)
    case (F64_Zero s)
    then show ?thesis
      using r by (simp add: compute_shard_cap_bytes_def entry_cap_formula_inputs_def sat_sub_def Let_def)
  next
    case (F64_Fin v)
    show ?thesis
    proof (cases "0 < v")
      case True
      with F64_Fin d show ?thesis by auto
    next
      case False
      with F64_Fin have "f64_to_u64 (f64_floor ?d) = 0" by simp
      with r show ?thesis
        by (simp add: compute_shard_cap_bytes_def entry_cap_formula_inputs_def sat_sub_def Let_def)
    qed
  qed (use d in auto)
qed

section \<open>Properties\<close>

text \<open>
  A configuration entry that passes validation cannot declare a cap its validators'
  fuel cannot pay for: a non-zero cap, together with the reserved record and margin, costs at most
  the practical fuel ceiling, up to the two roundings of the \<open>f64\<close> formula (one for the
  conversion of the ceiling, one for the division).
\<close>

theorem validated_cap_within_fuel_budget:
  assumes "validate_entry e = Inr ()" and "0 < shard_cap_bytes e"
  shows "\<exists>rate > 0. worst_case_fuel_per_byte e = F64_Fin rate \<and>
     rat_of_nat (unat (shard_cap_bytes e) + unat (max_single_record_bytes e) + unat (safety_margin e)) * rate
       \<le> rat_of_nat (unat (practical_fuel_ceiling e)) * (1 + 1 / 2 ^ 53)\<^sup>2"
proof -
  let ?i = "entry_cap_formula_inputs e"
  obtain r where r: "worst_case_fuel_per_byte e = F64_Fin r" "0 < r"
    using f64_rate_cases validate_entry_OkD(4,5)[OF assms(1)] by blast
  have le: "unat (shard_cap_bytes e) \<le> unat (compute_shard_cap_bytes ?i)"
    using validate_entry_OkD(8)[OF assms(1)] by (simp add: word_le_nat_alt)
  have pos: "0 < unat (compute_shard_cap_bytes ?i)"
    using le assms(2) by (simp add: word_less_nat_alt)
  then obtain v where v: "0 < v" "v < 2 ^ 64"
    "f64_div (f64_of_u64 (practical_fuel_ceiling e)) (F64_Fin r) = F64_Fin v"
    using validated_division[OF assms(1) r] by auto
  have "rat_of_nat (unat (shard_cap_bytes e) + unat (max_single_record_bytes e) + unat (safety_margin e)) * r
      \<le> rat_of_nat (unat (compute_shard_cap_bytes ?i) + unat (max_single_record_bytes e) +
          unat (safety_margin e)) * r"
    using le r(2) by (intro mult_right_mono of_nat_mono) auto
  also have "\<dots> \<le> rat_of_nat (unat (practical_fuel_ceiling e)) * (1 + 1 / 2 ^ 53)\<^sup>2"
    using cap_formula_upper[of ?i r v] r v pos by (simp add: entry_cap_formula_inputs_def)
  finally show ?thesis using r by blast
qed

definition sample_entry :: shard_entry where
  "sample_entry = \<lparr>artifact_stem = ''burst-log'', artifact_path = ''.factory/burst-log.md'',
     practical_fuel_ceiling = 100, worst_case_fuel_per_byte = F64_Fin 4,
     max_single_record_bytes = 5, safety_margin = 5, shard_cap_bytes = 12,
     entry_shape = Some Flat, entry_n = None, entry_low_water_mark = None\<rparr>"

lemma sample_eval:
  "path_of ''.factory/burst-log.md'' = [Normal ''.factory'', Normal ''burst-log.md'']"
  "contains ''..'' ''burst-log'' = False"
  "f64_div (f64_of_u64 100) (F64_Fin 4) = F64_Fin 25"
  by code_simp+

lemma sample_entry_valid: "validate_entry sample_entry = Inr ()"
  by (simp add: validate_entry_def sample_entry_def sample_eval compute_shard_cap_bytes_def
      entry_cap_formula_inputs_def sat_sub_def)

theorem validated_cap_within_fuel_budget_witness:
  "validate_entry sample_entry = Inr () \<and> 0 < shard_cap_bytes sample_entry \<and>
   (\<exists>rate > 0. worst_case_fuel_per_byte sample_entry = F64_Fin rate \<and>
     rat_of_nat (unat (shard_cap_bytes sample_entry) + unat (max_single_record_bytes sample_entry) +
       unat (safety_margin sample_entry)) * rate
       \<le> rat_of_nat (unat (practical_fuel_ceiling sample_entry)) * (1 + 1 / 2 ^ 53)\<^sup>2)"
proof -
  have pos: "0 < shard_cap_bytes sample_entry" by (simp add: sample_entry_def)
  show ?thesis
    using validated_cap_within_fuel_budget[OF sample_entry_valid pos] sample_entry_valid pos by blast
qed

text \<open>
  Entry lookup never resolves an ambiguity by position: it answers with an entry exactly
  when that entry is the only one whose stem and path both match the target, with nothing exactly
  when none matches, and with the duplicate error otherwise.
\<close>

theorem find_matching_entry_unique:
  "find_matching_entry registry p =
     (case file_stem p of None \<Rightarrow> Inr None
      | Some stem \<Rightarrow>
          let n = length (filter (entry_matches p stem) registry) in
          if n = 0 then Inr None
          else if n = 1 then Inr (Some (THE e. e \<in> set registry \<and> entry_matches p stem e))
          else Inl (DuplicateArtifactStem stem))"
proof (cases "file_stem p")
  case None
  then show ?thesis by (simp add: find_matching_entry_def)
next
  case (Some stem)
  let ?f = "filter (entry_matches p stem) registry"
  consider "?f = []" | e where "?f = [e]" | a b es where "?f = a # b # es"
    by (cases ?f rule: remdups_adj.cases) auto
  then show ?thesis
  proof cases
    case (2 e)
    then have "set ?f = {e}" by simp
    then have "(THE x. x \<in> set registry \<and> entry_matches p stem x) = e"
      by (intro the_equality) auto
    with 2 Some show ?thesis by (simp add: find_matching_entry_def)
  qed (use Some in \<open>simp_all add: find_matching_entry_def\<close>)
qed

end
