(* ===== verification/ShardIo.thy ===== *)
theory ShardIo
  imports RustFs
begin

text \<open>
  The write primitives under the shard lifecycle: the missing-file test of \<^verbatim>\<open>shard_manager.rs\<close>, the
  atomic replace of \<^verbatim>\<open>last-amended-migrate/src/atomic_write.rs\<close>, and the exclusive create
  (stage, then publish by hard link).  Each primitive is followed by what it promises under every
  fault schedule.
\<close>

section \<open>Missing or unreadable\<close>

function closest_existing_ancestor_is_directory_or_absent :: "path \<Rightarrow> world \<Rightarrow> bool \<times> world" where
  "closest_existing_ancestor_is_directory_or_absent p w =
     (case parent p of None \<Rightarrow> (True, w)
      | Some candidate \<Rightarrow>
          if candidate = [] then (True, w)
          else (case fs_metadata candidate w of
              (Inr meta, w') \<Rightarrow> (meta = Directory, w')
            | (Inl NotFound, w') \<Rightarrow> closest_existing_ancestor_is_directory_or_absent candidate w'
            | (Inl _, w') \<Rightarrow> (False, w')))"
  by pat_completeness auto
termination
  by (relation "measure (\<lambda>(p, w). length p)") (auto simp: length_parent)

declare closest_existing_ancestor_is_directory_or_absent.simps [simp del]

definition is_genuinely_missing :: "io_kind \<Rightarrow> path \<Rightarrow> world \<Rightarrow> bool \<times> world" where
  "is_genuinely_missing err p w =
     (if err \<noteq> NotFound then (False, w) else closest_existing_ancestor_is_directory_or_absent p w)"

section \<open>Atomic replace\<close>

definition atomic_tmp_path :: "nat \<Rightarrow> path \<Rightarrow> path" where
  "atomic_tmp_path process p =
     (let par = parent_or [CurDir] p;
          basename = (case file_name p of Some n \<Rightarrow> n | None \<Rightarrow> ''last-amended-migrate-output'') in
      join_name par (''.'' @ basename @ ''.tmp-'' @ show_nat process))"

definition write_and_sync_temp :: "path \<Rightarrow> bytes \<Rightarrow> world \<Rightarrow> (io_kind + unit) \<times> world" where
  "write_and_sync_temp tmp_path content w =
     (case fs_create tmp_path w of
        (Inl e, w) \<Rightarrow> (Inl e, w)
      | (Inr file, w) \<Rightarrow>
          (case fs_write_all file content w of
             (Inl e, w) \<Rightarrow> (Inl e, w)
           | (Inr _, w) \<Rightarrow> fs_sync_all w))"

text \<open>The copied permissions and the directory fsync are best-effort and change no modelled state.\<close>

definition write_atomic :: "path \<Rightarrow> bytes \<Rightarrow> world \<Rightarrow> (io_kind + unit) \<times> world" where
  "write_atomic p content w =
     (let tmp_path = atomic_tmp_path (pid w) p in
      case write_and_sync_temp tmp_path content w of
        (Inl e, w) \<Rightarrow> (Inl e, snd (fs_remove_file tmp_path w))
      | (Inr _, w) \<Rightarrow>
          (case fs_rename tmp_path p w of
             (Inl e, w) \<Rightarrow> (Inl e, snd (fs_remove_file tmp_path w))
           | (Inr _, w) \<Rightarrow> (Inr (), w)))"

section \<open>Exclusive create\<close>

datatype stage_error = StageTempPathOccupied io_kind | StageIo io_kind
datatype publish_error = PublishDestinationOccupied | PublishIo io_kind
datatype write_exclusive_error = TempPathOccupied io_kind | DestinationOccupied | WriteIo io_kind

fun write_exclusive_of_stage :: "stage_error \<Rightarrow> write_exclusive_error" where
  "write_exclusive_of_stage (StageTempPathOccupied e) = TempPathOccupied e"
| "write_exclusive_of_stage (StageIo e) = WriteIo e"

fun write_exclusive_of_publish :: "publish_error \<Rightarrow> write_exclusive_error" where
  "write_exclusive_of_publish PublishDestinationOccupied = DestinationOccupied"
| "write_exclusive_of_publish (PublishIo e) = WriteIo e"

text \<open>\<open>{nonce:016x}\<close>\<close>

definition hex_digit :: "nat \<Rightarrow> char" where
  "hex_digit d = (if d < 10 then char_of (48 + d) else char_of (87 + d))"

definition hex16 :: "u64 \<Rightarrow> string" where
  "hex16 n = map (\<lambda>i. hex_digit (unat n div 16 ^ (15 - i) mod 16)) [0..<16]"

definition stage_tmp_path :: "nat \<Rightarrow> path \<Rightarrow> u64 \<Rightarrow> path" where
  "stage_tmp_path process final_path nonce =
     (let par = parent_or [CurDir] final_path;
          basename = (case file_name final_path of Some n \<Rightarrow> n | None \<Rightarrow> ''shard'') in
      join_name par (''.'' @ basename @ ''.tmp-'' @ show_nat process @ ''-'' @ hex16 nonce))"

text \<open>The nonce is drawn from the world: time, a counter and an address in the code.\<close>

definition random_nonce :: "world \<Rightarrow> u64 \<times> world" where
  "random_nonce w = (case nonces w of [] \<Rightarrow> (0, w) | n # ns \<Rightarrow> (n, w\<lparr>nonces := ns\<rparr>))"

definition stage_temp_file_with_nonce ::
  "path \<Rightarrow> bytes \<Rightarrow> u64 \<Rightarrow> world \<Rightarrow> (stage_error + path) \<times> world" where
  "stage_temp_file_with_nonce final_path content nonce w =
     (let tmp_path = stage_tmp_path (pid w) final_path nonce in
      case fs_create_new tmp_path w of
        (Inl AlreadyExists, w) \<Rightarrow> (Inl (StageTempPathOccupied AlreadyExists), w)
      | (Inl e, w) \<Rightarrow> (Inl (StageIo e), w)
      | (Inr _, w) \<Rightarrow>
          (case (case fs_write_all tmp_path content w of
                   (Inl e, w) \<Rightarrow> (Inl e, w) | (Inr _, w) \<Rightarrow> fs_sync_all w) of
             (Inl e, w) \<Rightarrow> (Inl (StageIo e), snd (fs_remove_file tmp_path w))
           | (Inr _, w) \<Rightarrow> (Inr tmp_path, w)))"

definition stage_temp_file :: "path \<Rightarrow> bytes \<Rightarrow> world \<Rightarrow> (stage_error + path) \<times> world" where
  "stage_temp_file final_path content w =
     (case random_nonce w of (nonce, w) \<Rightarrow> stage_temp_file_with_nonce final_path content nonce w)"

definition publish_staged_temp_file :: "path \<Rightarrow> path \<Rightarrow> world \<Rightarrow> (publish_error + unit) \<times> world" where
  "publish_staged_temp_file tmp_path final_path w =
     (case fs_hard_link tmp_path final_path w of (link_result, w) \<Rightarrow>
        let w = snd (fs_remove_file tmp_path w) in
        (case link_result of
           Inr _ \<Rightarrow> (Inr (), w)
         | Inl AlreadyExists \<Rightarrow> (Inl PublishDestinationOccupied, w)
         | Inl e \<Rightarrow> (Inl (PublishIo e), w)))"

definition write_exclusive :: "path \<Rightarrow> bytes \<Rightarrow> world \<Rightarrow> (write_exclusive_error + unit) \<times> world" where
  "write_exclusive p content w =
     (case stage_temp_file p content w of
        (Inl e, w) \<Rightarrow> (Inl (write_exclusive_of_stage e), w)
      | (Inr tmp_path, w) \<Rightarrow>
          (case publish_staged_temp_file tmp_path p w of
             (Inl e, w) \<Rightarrow> (Inl (write_exclusive_of_publish e), w)
           | (Inr _, w) \<Rightarrow> (Inr (), w)))"

section \<open>Promises\<close>

lemma closest_existing_ancestor_frame:
  "closest_existing_ancestor_is_directory_or_absent p w = (r, w') \<Longrightarrow> frame {} w w'"
proof (induction p w arbitrary: r w' rule: closest_existing_ancestor_is_directory_or_absent.induct)
  case (1 p w)
  note step = 1(2)[unfolded closest_existing_ancestor_is_directory_or_absent.simps[of p w]]
  show ?case
  proof (cases "parent p = None \<or> parent p = Some []")
    case True
    then show ?thesis using step by auto
  next
    case False
    then obtain q where q: "parent p = Some q" "q \<noteq> []" by auto
    obtain m w1 where meta: "fs_metadata q w = (m, w1)" by fastforce
    note f = fs_metadata_frame[OF meta]
    show ?thesis
    proof (cases "m = Inl NotFound")
      case True
      then have "closest_existing_ancestor_is_directory_or_absent q w1 = (r, w')"
        using step q meta by simp
      with 1(1)[OF q(1) q(2)] meta True have "frame {} w1 w'" by auto
      with f show ?thesis by (rule frame_trans)
    next
      case False
      then have "w' = w1"
        using step q meta by (auto split: sum.splits io_kind.splits)
      with f show ?thesis by simp
    qed
  qed
qed

lemma is_genuinely_missing_frame: "is_genuinely_missing e p w = (r, w') \<Longrightarrow> frame {} w w'"
  by (auto simp: is_genuinely_missing_def dest: closest_existing_ancestor_frame split: if_splits)

lemma remove_frame: "frame {p} w (snd (fs_remove_file p w))"
  by (metis fs_remove_file_spec(1) prod.collapse)

text \<open>
  The temporary path is used by nobody else: it is not the target and holds no symbolic link.
\<close>

definition tmp_ok :: "world \<Rightarrow> path \<Rightarrow> path \<Rightarrow> bool" where
  "tmp_ok w t p \<longleftrightarrow> t \<noteq> p \<and> (\<forall>l. look w t \<noteq> Some (Symlink l)) \<and> look w t \<noteq> Some Special"

lemma write_and_sync_temp_spec:
  assumes run: "write_and_sync_temp t c w = (r, w')" and ok: "tmp_ok w t p"
  shows "frame {t} w w'" "r = Inr () \<Longrightarrow> look w' t = Some (File c)"
proof -
  obtain rc w1 where c1: "fs_create t w = (rc, w1)" by fastforce
  have nl: "\<And>l. look w t \<noteq> Some (Symlink l)" using ok by (auto simp: tmp_ok_def)
  note spec = fs_create_spec[OF c1 nl]
  have "frame {t} w w' \<and> (r = Inr () \<longrightarrow> look w' t = Some (File c))"
  proof (cases rc)
    case (Inl e)
    then show ?thesis using run c1 spec(1) by (auto simp: write_and_sync_temp_def)
  next
    case (Inr q)
    then have q: "rc = Inr t" "look w1 t \<noteq> Some Special"
      using spec(2) ok by (auto simp: tmp_ok_def)
    obtain rw w2 where c2: "fs_write_all t c w1 = (rw, w2)" by fastforce
    note spec2 = fs_write_all_spec[OF c2]
    have f2: "frame {t} w w2" using spec(1) spec2(1) by (rule frame_trans)
    show ?thesis
    proof (cases rw)
      case (Inl e)
      then show ?thesis using run c1 c2 q(1) f2 by (auto simp: write_and_sync_temp_def)
    next
      case (Inr u)
      then have c3: "fs_sync_all w2 = (r, w')"
        using run c1 c2 q(1) by (simp add: write_and_sync_temp_def)
      note f3 = fs_sync_all_frame[OF c3]
      have "frame {t} w w'" by (rule frame_step[OF f2 f3]) auto
      moreover have "look w' t = Some (File c)"
        using spec2(2) Inr q(2) by (simp add: frame_empty_look[OF f3])
      ultimately show ?thesis by blast
    qed
  qed
  then show "frame {t} w w'" "r = Inr () \<Longrightarrow> look w' t = Some (File c)" by simp_all
qed

text \<open>The atomic replace: on success the target holds exactly the new content, on failure it is
  untouched; only the temporary name besides it can change.\<close>

lemma write_atomic_spec:
  assumes run: "write_atomic p c w = (r, w')" and ok: "tmp_ok w (atomic_tmp_path (pid w) p) p"
  shows "frame {p, atomic_tmp_path (pid w) p} w w'"
    "look w' p = (case r of Inr _ \<Rightarrow> Some (File c) | Inl _ \<Rightarrow> look w p)"
proof -
  let ?t = "atomic_tmp_path (pid w) p"
  have tp: "p \<notin> {?t}" "?t \<noteq> p" using ok by (auto simp: tmp_ok_def)
  obtain r1 w1 where c1: "write_and_sync_temp ?t c w = (r1, w1)" by fastforce
  note s1 = write_and_sync_temp_spec[OF c1 ok]
  have "frame {p, ?t} w w' \<and> look w' p = (case r of Inr _ \<Rightarrow> Some (File c) | Inl _ \<Rightarrow> look w p)"
  proof (cases r1)
    case (Inl e)
    then have r: "r = Inl e" "w' = snd (fs_remove_file ?t w1)"
      using run c1 by (simp_all add: write_atomic_def Let_def)
    have "frame {?t} w w'" unfolding r by (rule frame_trans[OF s1(1) remove_frame])
    then show ?thesis using r(1) tp(1) frame_look frame_mono by fastforce
  next
    case (Inr u)
    obtain r2 w2 where c2: "fs_rename ?t p w1 = (r2, w2)" by fastforce
    note s2 = fs_rename_spec[OF c2 tp(2)]
    have p1: "look w1 p = look w p" using frame_look[OF s1(1) tp(1)] .
    show ?thesis
    proof (cases r2)
      case (Inl e)
      then have r: "r = Inl e" "w' = snd (fs_remove_file ?t w2)"
        using run c1 c2 Inr by (simp_all add: write_atomic_def Let_def)
      have "frame {p, ?t} w w2" by (rule frame_step[OF s1(1) s2(1)]) auto
      then have "frame {p, ?t} w w'" unfolding r by (rule frame_step[OF _ remove_frame]) auto
      moreover have "look w' p = look w2 p" unfolding r using frame_look[OF remove_frame tp(1)] .
      ultimately show ?thesis using s2(3)[OF Inl] r(1) p1 by simp
    next
      case (Inr u)
      then have r: "r = Inr ()" "w' = w2"
        using run c1 c2 \<open>r1 = Inr _\<close> by (simp_all add: write_atomic_def Let_def)
      have "frame {p, ?t} w w'" unfolding r by (rule frame_step[OF s1(1) s2(1)]) auto
      then show ?thesis using s2(2) Inr s1(2) \<open>r1 = Inr _\<close> r by simp
    qed
  qed
  then show "frame {p, ?t} w w'" "look w' p = (case r of Inr _ \<Rightarrow> Some (File c) | Inl _ \<Rightarrow> look w p)"
    by simp_all
qed

text \<open>Names a staging write may create next to its target.\<close>

definition stage_names :: "nat \<Rightarrow> path \<Rightarrow> path set" where
  "stage_names process p = range (stage_tmp_path process p)"

lemma random_nonce_frame: "random_nonce w = (n, w') \<Longrightarrow> frame {} w w'"
  by (auto simp: random_nonce_def frame_def split: list.splits)

lemma stage_with_nonce_spec:
  assumes run: "stage_temp_file_with_nonce p c nonce w = (r, w')"
  defines "t \<equiv> stage_tmp_path (pid w) p nonce"
  shows "frame {t} w w'" "r = Inr q \<Longrightarrow> q = t \<and> look w' t = Some (File c) \<and> look w t = None"
proof -
  obtain r1 w1 where c1: "fs_create_new t w = (r1, w1)" by fastforce
  note s1 = fs_create_new_spec[OF c1]
  have "frame {t} w w' \<and> (\<forall>q. r = Inr q \<longrightarrow> q = t \<and> look w' t = Some (File c) \<and> look w t = None)"
  proof (cases r1)
    case (Inl e)
    then have "isl r" "w' = w1"
      using run c1 by (auto simp: stage_temp_file_with_nonce_def Let_def t_def split: io_kind.splits)
    then show ?thesis using s1(1) by auto
  next
    case (Inr u)
    then have created: "look w t = None" "look w1 t = Some (File [])" using s1(2) by simp_all
    obtain r2 w2 where c2: "fs_write_all t c w1 = (r2, w2)" by fastforce
    note s2 = fs_write_all_spec[OF c2]
    have f2: "frame {t} w w2" using s1(1) s2(1) by (rule frame_trans)
    show ?thesis
    proof (cases r2)
      case (Inl e)
      then have "isl r" "w' = snd (fs_remove_file t w2)"
        using run c1 c2 Inr by (auto simp: stage_temp_file_with_nonce_def Let_def t_def)
      then show ?thesis using frame_trans[OF f2 remove_frame] by auto
    next
      case (Inr u)
      obtain r3 w3 where c3: "fs_sync_all w2 = (r3, w3)" by fastforce
      note f3 = fs_sync_all_frame[OF c3]
      have fr3: "frame {t} w w3" by (rule frame_step[OF f2 f3]) auto
      show ?thesis
      proof (cases r3)
        case (Inl e)
        then have "isl r" "w' = snd (fs_remove_file t w3)"
          using run c1 c2 c3 Inr \<open>r1 = Inr _\<close>
          by (auto simp: stage_temp_file_with_nonce_def Let_def t_def)
        then show ?thesis using frame_trans[OF fr3 remove_frame] by auto
      next
        case (Inr u')
        then have "r = Inr t" "w' = w3"
          using run c1 c2 c3 \<open>r2 = Inr _\<close> \<open>r1 = Inr _\<close>
          by (auto simp: stage_temp_file_with_nonce_def Let_def t_def)
        then show ?thesis
          using fr3 s2(2) \<open>r2 = Inr _\<close> created by (simp add: frame_empty_look[OF f3])
      qed
    qed
  qed
  then show "frame {t} w w'" "r = Inr q \<Longrightarrow> q = t \<and> look w' t = Some (File c) \<and> look w t = None"
    by simp_all
qed

lemma stage_temp_file_spec:
  assumes run: "stage_temp_file p c w = (r, w')"
  shows "frame (stage_names (pid w) p) w w'"
    "r = Inr t \<Longrightarrow> t \<in> stage_names (pid w) p \<and> look w' t = Some (File c) \<and> look w t = None"
proof -
  obtain nonce w0 where n: "random_nonce w = (nonce, w0)" by fastforce
  note f0 = random_nonce_frame[OF n]
  have run0: "stage_temp_file_with_nonce p c nonce w0 = (r, w')"
    using run n by (simp add: stage_temp_file_def)
  note s = stage_with_nonce_spec[OF run0, unfolded frame_pid[OF f0] frame_empty_look[OF f0]]
  have "{stage_tmp_path (pid w) p nonce} \<subseteq> stage_names (pid w) p" by (simp add: stage_names_def)
  then show "frame (stage_names (pid w) p) w w'"
    using frame_step[OF f0 s(1)] by simp
  show "r = Inr t \<Longrightarrow> t \<in> stage_names (pid w) p \<and> look w' t = Some (File c) \<and> look w t = None"
    using s(2)[of t] by (auto simp: stage_names_def)
qed

lemma publish_staged_spec:
  assumes run: "publish_staged_temp_file t p w = (r, w')" and tp: "t \<noteq> p" and src: "look w t = Some (File c)"
  shows "frame {t, p} w w'"
    "r = Inr () \<Longrightarrow> look w p = None \<and> look w' p = Some (File c)"
    "r = Inl e \<Longrightarrow> look w' p = look w p"
proof -
  obtain r1 w1 where c1: "fs_hard_link t p w = (r1, w1)" by fastforce
  note s1 = fs_hard_link_spec[OF c1]
  have w': "w' = snd (fs_remove_file t w1)" and rr: "isl r \<longleftrightarrow> isl r1"
    using run by (auto simp: publish_staged_temp_file_def c1 Let_def split: sum.splits io_kind.splits)
  have keep: "look w' p = look w1 p" unfolding w' using frame_look[OF remove_frame, of p t w1] tp by simp
  show "frame {t, p} w w'" unfolding w' by (rule frame_step[OF s1(1) remove_frame]) auto
  show "r = Inr () \<Longrightarrow> look w p = None \<and> look w' p = Some (File c)"
    using s1(2) keep rr src by (cases r1) simp_all
  show "r = Inl e \<Longrightarrow> look w' p = look w p"
    using s1(3) keep rr by (cases r1) simp_all
qed

text \<open>The exclusive create never touches an existing target and is all-or-nothing.\<close>

lemma write_exclusive_spec:
  assumes run: "write_exclusive p c w = (r, w')" and sep: "p \<notin> stage_names (pid w) p"
  shows "frame (insert p (stage_names (pid w) p)) w w'"
    "r = Inr () \<Longrightarrow> look w p = None \<and> look w' p = Some (File c)"
    "r = Inl e \<Longrightarrow> look w' p = look w p"
proof -
  obtain r1 w1 where c1: "stage_temp_file p c w = (r1, w1)" by fastforce
  note s1 = stage_temp_file_spec[OF c1]
  have keep: "look w1 p = look w p" using s1(1) sep by (rule frame_look)
  have "frame (insert p (stage_names (pid w) p)) w w' \<and>
      (r = Inr () \<longrightarrow> look w p = None \<and> look w' p = Some (File c)) \<and>
      (\<forall>e. r = Inl e \<longrightarrow> look w' p = look w p)"
  proof (cases r1)
    case (Inl e)
    then have "isl r" "w' = w1" using run c1 by (auto simp: write_exclusive_def)
    then show ?thesis using frame_mono[OF s1(1)] keep by auto
  next
    case (Inr t)
    obtain r2 w2 where c2: "publish_staged_temp_file t p w1 = (r2, w2)" by fastforce
    have t: "t \<in> stage_names (pid w) p" "look w1 t = Some (File c)" using s1(2)[OF Inr] by auto
    then have "t \<noteq> p" using sep by auto
    note s2 = publish_staged_spec[OF c2 this t(2)]
    have f: "frame (insert p (stage_names (pid w) p)) w w2"
      by (rule frame_step[OF s1(1) s2(1)]) (use t(1) in auto)
    show ?thesis
    proof (cases r2)
      case (Inl e)
      then have "isl r" "w' = w2" using run c1 c2 Inr by (auto simp: write_exclusive_def)
      then show ?thesis using f s2(3)[OF Inl] keep by auto
    next
      case (Inr u)
      then have "r = Inr ()" "w' = w2" using run c1 c2 \<open>r1 = Inr t\<close> by (auto simp: write_exclusive_def)
      then show ?thesis using f s2(2) Inr keep by simp
    qed
  qed
  then show "frame (insert p (stage_names (pid w) p)) w w'"
    "r = Inr () \<Longrightarrow> look w p = None \<and> look w' p = Some (File c)"
    "r = Inl e \<Longrightarrow> look w' p = look w p" by simp_all
qed

end
