(* ===== verification/ShardRoll.thy ===== *)
theory ShardRoll
  imports ShardConfig ShardIo
begin

text \<open>
  The shard roll of \<^verbatim>\<open>shard_manager.rs\<close>: seal the canonical content under the next sequence number,
  truncate the canonical file, publish the index row.  \<^verbatim>\<open>execute_roll\<close> and everything it calls.
  The TOML codec and the clock are parameters (\<open>shard_env\<close>): \<open>toml::to_string\<close> and
  \<open>toml::from_str\<close> on the index type, and \<open>Utc::now\<close> as the string that is recorded.
\<close>

section \<open>The index\<close>

record shard_index_entry =
  seq :: u32
  shard_path :: string
  sealed_at :: string
  bytes_at_seal :: u64
  sealed_retroactively :: bool
  oversized_record :: bool
  is_preamble_shard :: bool
  records :: u32

record backfill_manifest =
  original_bytes :: u64
  original_sha256 :: string
  final_bytes :: u64
  final_sha256 :: string

record shard_index =
  schema_version :: u32
  ix_artifact_stem :: string
  current_shard :: string
  ix_shard_cap_bytes :: u64
  ix_max_single_record_bytes :: u64
  ix_safety_margin_bytes :: u64
  ix_practical_fuel_ceiling :: u64
  ix_worst_case_fuel_per_byte :: f64
  retention_count :: u32
  manifest_of :: "backfill_manifest option"
  shards :: "shard_index_entry list"

record shard_env =
  toml_to :: "shard_index \<Rightarrow> string option"
  toml_from :: "string \<Rightarrow> shard_index option"
  utc_now :: string

text \<open>The errors, with the I/O kind of their source.\<close>

datatype shard_roll_error =
    SealWriteFailed string io_kind
  | TruncateFailedAfterSeal string string io_kind
  | IndexPublishFailedAfterTruncate string string io_kind
  | BackstopProbeFailed string path io_kind
  | SealedShardAlreadyExists string string
  | CanonicalPathIsSymlink string path

section \<open>Names\<close>

definition stem_from_canonical_path :: "path \<Rightarrow> string" where
  "stem_from_canonical_path canonical_path =
     (case file_stem canonical_path of Some s \<Rightarrow> s | None \<Rightarrow> [])"

definition stem_from_sealed_path :: "path \<Rightarrow> string" where
  "stem_from_sealed_path sealed_path =
     (let name = (case file_name sealed_path of Some n \<Rightarrow> n | None \<Rightarrow> []);
          without_md = (case file_stem (path_of name) of Some s \<Rightarrow> s | None \<Rightarrow> name) in
      case file_stem (path_of without_md) of Some s \<Rightarrow> s | None \<Rightarrow> without_md)"

fun reattribute_roll_error :: "shard_roll_error \<Rightarrow> string \<Rightarrow> string \<Rightarrow> shard_roll_error" where
  "reattribute_roll_error (SealWriteFailed _ source) stem sealed = SealWriteFailed stem source"
| "reattribute_roll_error (TruncateFailedAfterSeal _ _ source) stem sealed =
     TruncateFailedAfterSeal stem sealed source"
| "reattribute_roll_error (IndexPublishFailedAfterTruncate _ _ source) stem sealed =
     IndexPublishFailedAfterTruncate stem sealed source"
| "reattribute_roll_error (BackstopProbeFailed a b c) stem sealed = BackstopProbeFailed a b c"
| "reattribute_roll_error (SealedShardAlreadyExists _ _) stem sealed = SealedShardAlreadyExists stem sealed"
| "reattribute_roll_error (CanonicalPathIsSymlink a b) stem sealed = CanonicalPathIsSymlink a b"

definition shard_sibling_path :: "path \<Rightarrow> string \<Rightarrow> path" where
  "shard_sibling_path canonical_path filename =
     (case parent canonical_path of Some dir \<Rightarrow> join_name dir filename | None \<Rightarrow> path_of filename)"

definition shard_index_path_for :: "path \<Rightarrow> string \<Rightarrow> path" where
  "shard_index_path_for canonical_path stem = shard_sibling_path canonical_path (stem @ ''.shard-index.toml'')"

definition sealed_name :: "string \<Rightarrow> u32 \<Rightarrow> string" where
  "sealed_name stem n = stem @ ''.'' @ pad_zeros 4 (unat n) @ ''.md''"

section \<open>Reading the index and the canonical file\<close>

definition load_shard_index :: "shard_env \<Rightarrow> path \<Rightarrow> world \<Rightarrow> (io_kind + shard_index option) \<times> world" where
  "load_shard_index env index_path w =
     (case fs_read_to_string index_path w of
        (Inr text, w) \<Rightarrow>
          (case toml_from env text of None \<Rightarrow> (Inl OtherIo, w) | Some index \<Rightarrow> (Inr (Some index), w))
      | (Inl e, w) \<Rightarrow>
          (case is_genuinely_missing e index_path w of (missing, w) \<Rightarrow>
             if missing then (Inr None, w) else (Inl e, w)))"

definition max_seq :: "shard_index_entry list \<Rightarrow> u32" where
  "max_seq entries = fold max (map seq entries) 0"

definition next_seal_seq :: "shard_env \<Rightarrow> path \<Rightarrow> world \<Rightarrow> (io_kind + u32) \<times> world" where
  "next_seal_seq env index_path w =
     (case load_shard_index env index_path w of
        (Inl e, w) \<Rightarrow> (Inl e, w)
      | (Inr (Some index), w) \<Rightarrow>
          (case checked_add (max_seq (shards index)) 1 of None \<Rightarrow> (Inl OtherIo, w) | Some n \<Rightarrow> (Inr n, w))
      | (Inr None, w) \<Rightarrow> (Inr 1, w))"

definition reject_canonical_symlink ::
  "string \<Rightarrow> path \<Rightarrow> world \<Rightarrow> (shard_roll_error + unit) \<times> world" where
  "reject_canonical_symlink stem canonical_path w =
     (case fs_symlink_metadata canonical_path w of
        (Inr (Symlink _), w) \<Rightarrow> (Inl (CanonicalPathIsSymlink stem canonical_path), w)
      | (_, w) \<Rightarrow> (Inr (), w))"

definition read_canonical_content :: "path \<Rightarrow> world \<Rightarrow> (io_kind + bytes) \<times> world" where
  "read_canonical_content canonical_path w =
     (case fs_read canonical_path w of
        (Inr content, w) \<Rightarrow> (Inr content, w)
      | (Inl e, w) \<Rightarrow>
          (case is_genuinely_missing e canonical_path w of (missing, w) \<Rightarrow>
             if missing then (Inr [], w) else (Inl e, w)))"

section \<open>Publishing a sealed shard\<close>

text \<open>\<open>open\<close> with \<open>O_NOFOLLOW | O_NONBLOCK\<close>, then \<open>fstat\<close>.\<close>

definition fs_open_nofollow :: "path \<Rightarrow> world \<Rightarrow> (io_kind + node) \<times> world" where
  "fs_open_nofollow p = syscall (\<lambda>w. (case get_node w p of
     Inl k \<Rightarrow> Inl k | Inr (Symlink _) \<Rightarrow> Inl OtherIo | Inr n \<Rightarrow> Inr n, w))"

definition reclaim_identity_still_safe :: "path \<Rightarrow> world \<Rightarrow> bool \<times> world" where
  "reclaim_identity_still_safe p w =
     (case fs_open_nofollow p w of
        (Inl _, w) \<Rightarrow> (False, w)
      | (Inr n, w) \<Rightarrow>
          (case syscall (\<lambda>w. (Inr n, w)) w of
             (Inl _, w) \<Rightarrow> (False, w)
           | (Inr meta, w) \<Rightarrow> ((case meta of File c \<Rightarrow> c = [] | _ \<Rightarrow> False), w)))"

definition publish_sealed_shard :: "path \<Rightarrow> bytes \<Rightarrow> world \<Rightarrow> (shard_roll_error + unit) \<times> world" where
  "publish_sealed_shard sealed_path content w =
     (let stem = stem_from_sealed_path sealed_path;
          seal_failed = (\<lambda>source. Inl (SealWriteFailed stem source));
          already_exists_err = Inl (SealedShardAlreadyExists stem
            (case file_name sealed_path of Some n \<Rightarrow> n | None \<Rightarrow> [])) in
      case write_exclusive sealed_path content w of
        (Inr _, w) \<Rightarrow> (Inr (), w)
      | (Inl (TempPathOccupied source), w) \<Rightarrow> (seal_failed source, w)
      | (Inl (WriteIo source), w) \<Rightarrow> (seal_failed source, w)
      | (Inl DestinationOccupied, w) \<Rightarrow>
          (case fs_symlink_metadata sealed_path w of (meta, w) \<Rightarrow>
             let is_zero_byte = (case meta of Inl _ \<Rightarrow> False
                   | Inr n \<Rightarrow> (case n of Symlink _ \<Rightarrow> False | _ \<Rightarrow> node_len n = 0)) in
             if \<not> is_zero_byte then (already_exists_err, w)
             else (case stage_temp_file sealed_path content w of
                 (Inl (StageTempPathOccupied source), w) \<Rightarrow> (seal_failed source, w)
               | (Inl (StageIo source), w) \<Rightarrow> (seal_failed source, w)
               | (Inr staged_tmp_path, w) \<Rightarrow>
                   (case reclaim_identity_still_safe sealed_path w of (safe, w) \<Rightarrow>
                      if \<not> safe then (already_exists_err, snd (fs_remove_file staged_tmp_path w))
                      else (case fs_remove_file sealed_path w of
                          (Inl _, w) \<Rightarrow> (already_exists_err, snd (fs_remove_file staged_tmp_path w))
                        | (Inr _, w) \<Rightarrow>
                            (case publish_staged_temp_file staged_tmp_path sealed_path w of
                               (Inr _, w) \<Rightarrow> (Inr (), w)
                             | (Inl PublishDestinationOccupied, w) \<Rightarrow> (already_exists_err, w)
                             | (Inl (PublishIo source), w) \<Rightarrow> (seal_failed source, w)))))))"

section \<open>Truncating and publishing the index\<close>

definition truncate_canonical_to_empty :: "path \<Rightarrow> world \<Rightarrow> (shard_roll_error + unit) \<times> world" where
  "truncate_canonical_to_empty canonical_path w =
     (case write_atomic canonical_path [] w of
        (Inl e, w) \<Rightarrow> (Inl (TruncateFailedAfterSeal (stem_from_canonical_path canonical_path) [] e), w)
      | (Inr _, w) \<Rightarrow> (Inr (), w))"

definition default_retention_count :: u32 where
  "default_retention_count = 10"

definition fresh_shard_index :: "shard_entry \<Rightarrow> shard_index" where
  "fresh_shard_index e =
     \<lparr>schema_version = 1, ix_artifact_stem = artifact_stem e, current_shard = artifact_path e,
      ix_shard_cap_bytes = shard_cap_bytes e, ix_max_single_record_bytes = max_single_record_bytes e,
      ix_safety_margin_bytes = safety_margin e, ix_practical_fuel_ceiling = practical_fuel_ceiling e,
      ix_worst_case_fuel_per_byte = worst_case_fuel_per_byte e,
      retention_count = default_retention_count, manifest_of = None, shards = []\<rparr>"

definition publish_shard_index_update ::
  "shard_env \<Rightarrow> path \<Rightarrow> shard_entry \<Rightarrow> shard_index_entry \<Rightarrow> world \<Rightarrow> (shard_roll_error + shard_index) \<times> world"
where
  "publish_shard_index_update env index_path e new_shard_entry w =
     (let to_error = (\<lambda>source. Inl (IndexPublishFailedAfterTruncate (artifact_stem e)
            (shard_path new_shard_entry) source)) in
      case load_shard_index env index_path w of
        (Inl source, w) \<Rightarrow> (to_error source, w)
      | (Inr loaded, w) \<Rightarrow>
          let index0 = (case loaded of Some i \<Rightarrow> i | None \<Rightarrow> fresh_shard_index e);
              index = index0\<lparr>shards := shards index0 @ [new_shard_entry]\<rparr> in
          (case toml_to env index of
             None \<Rightarrow> (to_error OtherIo, w)
           | Some serialized \<Rightarrow>
               (case write_atomic index_path serialized w of
                  (Inl source, w) \<Rightarrow> (to_error source, w)
                | (Inr _, w) \<Rightarrow> (Inr index, w))))"

section \<open>The roll\<close>

definition roll_entry :: "shard_env \<Rightarrow> u32 \<Rightarrow> string \<Rightarrow> nat \<Rightarrow> bool \<Rightarrow> shard_index_entry" where
  "roll_entry env n filename len retro =
     \<lparr>seq = n, shard_path = filename, sealed_at = utc_now env, bytes_at_seal = of_nat len,
      sealed_retroactively = retro, oversized_record = False, is_preamble_shard = False, records = 0\<rparr>"

definition execute_roll ::
  "shard_env \<Rightarrow> shard_entry \<Rightarrow> path \<Rightarrow> bool \<Rightarrow> world \<Rightarrow> (shard_roll_error + shard_index_entry option) \<times> world"
where
  "execute_roll env e canonical_path retro w =
     (let stem = artifact_stem e in
      case reject_canonical_symlink stem canonical_path w of
        (Inl err, w) \<Rightarrow> (Inl err, w)
      | (Inr _, w) \<Rightarrow>
     (case read_canonical_content canonical_path w of
        (Inl source, w) \<Rightarrow> (Inl (SealWriteFailed stem source), w)
      | (Inr content, w) \<Rightarrow>
      if content = [] then (Inr None, w)
      else
     (let index_path = shard_index_path_for canonical_path stem in
      case next_seal_seq env index_path w of
        (Inl source, w) \<Rightarrow> (Inl (SealWriteFailed stem source), w)
      | (Inr next_seq, w) \<Rightarrow>
     (let sealed_filename = sealed_name stem next_seq;
          sealed_path = shard_sibling_path canonical_path sealed_filename;
          reattribute = (\<lambda>err. Inl (reattribute_roll_error err stem sealed_filename)) in
      case publish_sealed_shard sealed_path content w of
        (Inl err, w) \<Rightarrow> (reattribute err, w)
      | (Inr _, w) \<Rightarrow>
     (case truncate_canonical_to_empty canonical_path w of
        (Inl err, w) \<Rightarrow> (reattribute err, w)
      | (Inr _, w) \<Rightarrow>
     (let new_entry = roll_entry env next_seq sealed_filename (length content) retro in
      case publish_shard_index_update env index_path e new_entry w of
        (Inl err, w) \<Rightarrow> (reattribute err, w)
      | (Inr _, w) \<Rightarrow> (Inr (Some new_entry), w)))))))"

end
