(* ===== verification/ShardNames.thy ===== *)
theory ShardNames
  imports ShardRoll
begin

text \<open>
  The file names the shard lifecycle uses in one directory are pairwise different: the canonical
  file, its index, its sealed shards, and the temporary names next to each of them.  Everything
  follows from the stem a name has before its last dot and from the characters it ends in.
\<close>

section \<open>Stems\<close>

lemma rfind_char_None: "c \<notin> set s \<Longrightarrow> rfind_char c s = None"
  by (induction s) auto

lemma rfind_char_append_dot: "c \<notin> set b \<Longrightarrow> rfind_char c (a @ c # b) = Some (length a)"
  by (induction a) (auto simp: rfind_char_None split: option.splits)

lemma stem_of_name_ext: "a \<noteq> [] \<Longrightarrow> CHR ''.'' \<notin> set b \<Longrightarrow> stem_of_name (a @ CHR ''.'' # b) = a"
  by (simp add: stem_of_name_def rfind_char_append_dot)

lemma length_stem_of_name: "length (stem_of_name n) \<le> length n"
  by (auto simp: stem_of_name_def split: option.splits)

section \<open>Digits in names\<close>

lemma digit_not_special:
  assumes "is_ascii_digit c" shows "c \<noteq> CHR ''.''" "c \<noteq> CHR ''/''" "c \<noteq> CHR ''-''" "c \<noteq> CHR ''d''" "c \<noteq> CHR ''l''"
  using assms by (auto simp: is_ascii_digit_def)

lemma set_pad_zeros: "c \<in> set (pad_zeros w n) \<Longrightarrow> is_ascii_digit c"
  using pad_zeros_digits by (auto simp: list_all_iff)

lemma set_show_nat: "c \<in> set (show_nat n) \<Longrightarrow> is_ascii_digit c"
  using show_nat_digits by (auto simp: list_all_iff)

lemma hex_digit_range: "d < 16 \<Longrightarrow> byte (hex_digit d) = (if d < 10 then 48 + d else 87 + d)"
  by (auto simp: hex_digit_def)

lemma set_hex16: "c \<in> set (hex16 n) \<Longrightarrow>
    c \<noteq> CHR ''.'' \<and> c \<noteq> CHR ''/'' \<and> c \<noteq> CHR ''m'' \<and> c \<noteq> CHR ''l''"
proof -
  assume "c \<in> set (hex16 n)"
  then obtain i where "c = hex_digit (unat n div 16 ^ (15 - i) mod 16)" by (auto simp: hex16_def)
  then obtain d where d: "d < 16" "c = hex_digit d" using mod_less_divisor[of 16] by fastforce
  then have "byte c = (if d < 10 then 48 + d else 87 + d)" by (simp add: hex_digit_range)
  with d(1) show ?thesis by (auto split: if_splits)
qed

lemma length_hex16 [simp]: "length (hex16 n) = 16"
  by (simp add: hex16_def)

section \<open>The names\<close>

definition index_name :: "string \<Rightarrow> string" where
  "index_name stem = stem @ ''.shard-index.toml''"

definition atomic_tmp_name :: "nat \<Rightarrow> string \<Rightarrow> string" where
  "atomic_tmp_name process n = ''.'' @ n @ ''.tmp-'' @ show_nat process"

definition stage_tmp_name :: "nat \<Rightarrow> string \<Rightarrow> u64 \<Rightarrow> string" where
  "stage_tmp_name process n nonce = ''.'' @ n @ ''.tmp-'' @ show_nat process @ ''-'' @ hex16 nonce"

lemma stem_atomic_tmp: "stem_of_name (atomic_tmp_name process n) = ''.'' @ n"
proof -
  have "CHR ''.'' \<notin> set (''tmp-'' @ show_nat process)" by (auto dest: set_show_nat digit_not_special)
  from stem_of_name_ext[OF _ this, of "''.'' @ n"] show ?thesis by (simp add: atomic_tmp_name_def)
qed

lemma stem_stage_tmp: "stem_of_name (stage_tmp_name process n nonce) = ''.'' @ n"
proof -
  have "CHR ''.'' \<notin> set (''tmp-'' @ show_nat process @ ''-'' @ hex16 nonce)"
    using set_hex16[of "CHR ''.''" nonce] by (auto dest: set_show_nat digit_not_special)
  from stem_of_name_ext[OF _ this, of "''.'' @ n"] show ?thesis by (simp add: stage_tmp_name_def)
qed

lemma stem_sealed: "stem_of_name (sealed_name stem n) = stem @ ''.'' @ pad_zeros 4 (unat n)"
  using stem_of_name_ext[of "stem @ ''.'' @ pad_zeros 4 (unat n)" "''md''"] by (simp add: sealed_name_def)

lemma stem_index: "stem_of_name (index_name stem) = stem @ ''.shard-index''"
  using stem_of_name_ext[of "stem @ ''.shard-index''" "''toml''"] by (simp add: index_name_def)

lemma sealed_name_inj: "sealed_name stem m = sealed_name stem n \<Longrightarrow> m = n"
  by (auto simp: sealed_name_def word_unat_eq_iff dest: pad_zeros_inj)

lemma last_sealed: "last (sealed_name stem n) = CHR ''d''"
  by (simp add: sealed_name_def)

lemma last_index: "last (index_name stem) = CHR ''l''"
  by (simp add: index_name_def)

lemma last_atomic_tmp: "is_ascii_digit (last (atomic_tmp_name process n))"
proof -
  have "last (atomic_tmp_name process n) = last (show_nat process)" by (simp add: atomic_tmp_name_def)
  then show ?thesis using set_show_nat[of "last (show_nat process)" process] by simp
qed

lemma rev_stage_tmp:
  "rev (stage_tmp_name process n nonce) ! 0 \<in> set (hex16 nonce)"
  "rev (stage_tmp_name process n nonce) ! 1 \<in> set (hex16 nonce)"
proof -
  have h: "rev (stage_tmp_name process n nonce) = rev (hex16 nonce) @ rev (''.'' @ n @ ''.tmp-'' @ show_nat process @ ''-'')"
    by (simp add: stage_tmp_name_def)
  have "rev (hex16 nonce) ! i \<in> set (hex16 nonce)" if "i < 16" for i
    using that nth_mem[of i "rev (hex16 nonce)"] by simp
  then show "rev (stage_tmp_name process n nonce) ! 0 \<in> set (hex16 nonce)"
    "rev (stage_tmp_name process n nonce) ! 1 \<in> set (hex16 nonce)"
    unfolding h by (simp_all add: nth_append del: set_rev)
qed

section \<open>Differences\<close>

lemma stem_neq: "stem_of_name a \<noteq> stem_of_name b \<Longrightarrow> a \<noteq> b" by blast

lemma sealed_neq_index: "sealed_name stem n \<noteq> index_name stem'"
  using last_sealed[of stem n] last_index[of stem'] by auto

lemma atomic_tmp_neq_self: "atomic_tmp_name process n \<noteq> n"
  by (rule stem_neq) (use length_stem_of_name[of n] in \<open>auto simp: stem_atomic_tmp dest: arg_cong[where f = length]\<close>)

lemma atomic_tmp_neq_sealed: "atomic_tmp_name process n \<noteq> sealed_name stem k"
  using last_sealed[of stem k] last_atomic_tmp[of process n] digit_not_special by metis

lemma atomic_tmp_neq_index: "atomic_tmp_name process n \<noteq> index_name stem"
  using last_index[of stem] last_atomic_tmp[of process n] digit_not_special by metis

lemma atomic_tmp_inj: "atomic_tmp_name process m = atomic_tmp_name process n \<Longrightarrow> m = n"
  by (simp add: atomic_tmp_name_def)

lemma atomic_tmp_neq_stage: "m \<noteq> n \<Longrightarrow> atomic_tmp_name process m \<noteq> stage_tmp_name process n nonce"
  by (rule stem_neq) (simp add: stem_atomic_tmp stem_stage_tmp)

lemma stage_neq_sealed: "stage_tmp_name process n nonce \<noteq> sealed_name stem k"
proof
  assume "stage_tmp_name process n nonce = sealed_name stem k"
  moreover have "rev (sealed_name stem k) ! 1 = CHR ''m''" by (simp add: sealed_name_def)
  ultimately show False using rev_stage_tmp(2)[of process n nonce] set_hex16 by metis
qed

lemma stage_neq_index: "stage_tmp_name process n nonce \<noteq> index_name stem"
proof
  assume "stage_tmp_name process n nonce = index_name stem"
  moreover have "rev (index_name stem) ! 0 = CHR ''l''" by (simp add: index_name_def)
  ultimately show False using rev_stage_tmp(1)[of process n nonce] set_hex16 by metis
qed

text \<open>The canonical name is known by its stem only.\<close>

lemma canonical_neq:
  assumes "stem_of_name cname = stem"
  shows "cname \<noteq> sealed_name stem n" "cname \<noteq> index_name stem"
    "cname \<noteq> atomic_tmp_name process (index_name stem)"
    "cname \<noteq> stage_tmp_name process (sealed_name stem n) nonce"
proof -
  have longer: "cname \<noteq> x" if "length stem < length (stem_of_name x)" for x
    using that assms by auto
  show "cname \<noteq> sealed_name stem n" by (rule longer) (simp add: stem_sealed)
  show "cname \<noteq> index_name stem" by (rule longer) (simp add: stem_index)
  show "cname \<noteq> atomic_tmp_name process (index_name stem)"
    by (rule longer) (simp add: stem_atomic_tmp index_name_def)
  show "cname \<noteq> stage_tmp_name process (sealed_name stem n) nonce"
    by (rule longer) (simp add: stem_stage_tmp sealed_name_def)
qed

section \<open>Paths\<close>

definition noslash :: "string \<Rightarrow> bool" where "noslash s \<longleftrightarrow> CHR ''/'' \<notin> set s"

lemma plain_sealed: "noslash stem \<Longrightarrow> plain_name (sealed_name stem n)"
  by (auto simp: plain_name_def sealed_name_def noslash_def append_eq_Cons_conv dest: set_pad_zeros digit_not_special)

lemma plain_index: "noslash stem \<Longrightarrow> plain_name (index_name stem)"
  by (auto simp: plain_name_def index_name_def noslash_def append_eq_Cons_conv)

lemma plain_atomic_tmp: "noslash n \<Longrightarrow> plain_name (atomic_tmp_name process n)"
  by (auto simp: plain_name_def atomic_tmp_name_def noslash_def append_eq_Cons_conv
      dest: set_show_nat digit_not_special)

lemma plain_stage_tmp: "noslash n \<Longrightarrow> plain_name (stage_tmp_name process n nonce)"
  using set_hex16[of "CHR ''/''" nonce]
  by (auto simp: plain_name_def stage_tmp_name_def noslash_def append_eq_Cons_conv
      dest: set_show_nat digit_not_special)

lemma noslash_sealed: "noslash stem \<Longrightarrow> noslash (sealed_name stem n)"
  using plain_sealed by (auto simp: plain_name_def noslash_def)

lemma noslash_index: "noslash stem \<Longrightarrow> noslash (index_name stem)"
  using plain_index by (auto simp: plain_name_def noslash_def)

text \<open>A canonical path: a plain name in a directory, with the artifact's stem.\<close>

definition canonical_path_of :: "path \<Rightarrow> string \<Rightarrow> path \<Rightarrow> string \<Rightarrow> bool" where
  "canonical_path_of dir cname p stem \<longleftrightarrow> p = dir @ [Normal cname] \<and> noslash cname \<and> stem_of_name cname = stem \<and> noslash stem"

lemma sibling_sealed: "canonical_path_of dir cname p stem \<Longrightarrow>
    shard_sibling_path p (sealed_name stem n) = dir @ [Normal (sealed_name stem n)]"
  by (simp add: canonical_path_of_def shard_sibling_path_def plain_sealed)

lemma sibling_index: "canonical_path_of dir cname p stem \<Longrightarrow>
    shard_index_path_for p stem = dir @ [Normal (index_name stem)]"
  using plain_index[of stem]
  by (simp add: canonical_path_of_def shard_index_path_for_def shard_sibling_path_def index_name_def)

lemma atomic_tmp_path_eq:
  "noslash n \<Longrightarrow> atomic_tmp_path process (dir @ [Normal n]) = dir @ [Normal (atomic_tmp_name process n)]"
  using plain_atomic_tmp[of n process]
  by (simp add: atomic_tmp_path_def parent_or_def atomic_tmp_name_def)

lemma stage_names_eq:
  "noslash n \<Longrightarrow> stage_names process (dir @ [Normal n]) = (\<lambda>k. dir @ [Normal (stage_tmp_name process n k)]) ` UNIV"
  using plain_stage_tmp[of n process]
  by (simp add: stage_names_def stage_tmp_path_def parent_or_def stage_tmp_name_def)

end
