(* ===== verification/ShardRollSafety.thy ===== *)
theory ShardRollSafety
  imports ShardRoll ShardNames
begin

text \<open>
  What the shard roll guarantees under every fault schedule.  The interface
  \<open>write_once_publisher\<close> is the contract of the two exclusive writers; both are instances of it.
  The theorems: no byte of the canonical file is lost by any failure, each error tells exactly
  which of the three steps (seal, truncate, index) took effect, sealed shards are written once,
  and a published sequence number is larger than every earlier one.
\<close>

section \<open>Exclusive writers\<close>

text \<open>
  A target is vacant when the writer may fill it.  A success fills a vacant target with exactly
  the content; a failure leaves the target as it was or at least vacant.
\<close>

locale write_once_publisher =
  fixes publish :: "path \<Rightarrow> bytes \<Rightarrow> world \<Rightarrow> ('e + unit) \<times> world"
    and vacant :: "node option \<Rightarrow> bool"
  assumes publish_frame: "publish p c w = (r, w') \<Longrightarrow> p \<notin> stage_names (pid w) p \<Longrightarrow>
      frame (insert p (stage_names (pid w) p)) w w'"
    and publish_ok: "publish p c w = (Inr u, w') \<Longrightarrow> p \<notin> stage_names (pid w) p \<Longrightarrow>
      vacant (look w p) \<and> look w' p = Some (File c)"
    and publish_err: "publish p c w = (Inl e, w') \<Longrightarrow> p \<notin> stage_names (pid w) p \<Longrightarrow>
      look w' p = look w p \<or> vacant (look w p) \<and> vacant (look w' p)"
begin

text \<open>An occupied target is never touched, whatever is written where.\<close>

lemma occupied_kept:
  assumes run: "publish p c w = (r, w')" and sep: "p \<notin> stage_names (pid w) p"
    and occ: "\<not> vacant (look w q)" and q: "q \<notin> stage_names (pid w) p"
  shows "look w' q = look w q"
proof (cases "q = p")
  case True
  then show ?thesis using publish_ok publish_err run sep occ by (cases r) blast+
next
  case False
  then show ?thesis using publish_frame[OF run sep] q by (simp add: frame_look)
qed

lemma occupied_refused:
  assumes "publish p c w = (r, w')" "p \<notin> stage_names (pid w) p" "\<not> vacant (look w p)"
  shows "isl r"
proof (cases r)
  case (Inr u)
  then show ?thesis using publish_ok assms by blast
qed simp

fun publish_all :: "(path \<times> bytes) list \<Rightarrow> world \<Rightarrow> world" where
  "publish_all [] w = w"
| "publish_all ((p, c) # rest) w = publish_all rest (snd (publish p c w))"

lemma publish_all_keeps:
  assumes "\<not> vacant (look w q)"
    and "\<forall>(p, c) \<in> set attempts. p \<notin> stage_names (pid w) p \<and> q \<notin> stage_names (pid w) p"
  shows "look (publish_all attempts w) q = look w q"
  using assms
proof (induction attempts arbitrary: w)
  case Nil
  then show ?case by simp
next
  case (Cons a attempts)
  obtain p c where a: "a = (p, c)" by fastforce
  obtain r w1 where run: "publish p c w = (r, w1)" by fastforce
  have sep: "p \<notin> stage_names (pid w) p" "q \<notin> stage_names (pid w) p" using Cons.prems a by auto
  have "look w1 q = look w q" using occupied_kept[OF run sep(1) Cons.prems(1) sep(2)] .
  moreover have "pid w1 = pid w" using frame_pid[OF publish_frame[OF run sep(1)]] .
  ultimately show ?case using Cons.IH[of w1] Cons.prems a run by auto
qed

end

interpretation exclusive: write_once_publisher write_exclusive "\<lambda>n. n = None"
  by unfold_locales (auto dest: write_exclusive_spec)

definition shard_vacant :: "node option \<Rightarrow> bool" where
  "shard_vacant n \<longleftrightarrow> n = None \<or> n = Some (File [])"

lemma reclaim_spec:
  assumes "reclaim_identity_still_safe p w = (b, w')"
  shows "frame {} w w'" "b \<Longrightarrow> look w p = Some (File [])"
proof -
  obtain r w1 where c1: "fs_open_nofollow p w = (r, w1)" by fastforce
  have f1: "frame {} w w1" using c1 by (auto simp: fs_open_nofollow_def elim!: syscall_cases)
  have r: "r = Inr n \<Longrightarrow> look w p = Some n" for n
    using c1 by (auto simp: fs_open_nofollow_def get_node_def frame_empty_look
        elim!: syscall_cases split: option.splits sum.splits node.splits)
  have "frame {} w w' \<and> (b \<longrightarrow> look w p = Some (File []))"
  proof (cases r)
    case (Inl e)
    then show ?thesis using assms c1 f1 by (auto simp: reclaim_identity_still_safe_def)
  next
    case (Inr n)
    obtain m w2 where c2: "syscall (\<lambda>w. (Inr n :: io_kind + node, w)) w1 = (m, w2)" by fastforce
    have f2: "frame {} w1 w2" using c2 by (auto elim!: syscall_cases)
    have m: "m = Inr n' \<Longrightarrow> n' = n" for n' using c2 by (auto elim!: syscall_cases)
    have "w' = w2" "b \<longrightarrow> m = Inr (File [])"
      using assms c1 c2 Inr by (auto simp: reclaim_identity_still_safe_def split: sum.splits node.splits)
    then show ?thesis using frame_trans[OF f1 f2] m r Inr by blast
  qed
  then show "frame {} w w'" "b \<Longrightarrow> look w p = Some (File [])" by simp_all
qed

text \<open>The reclaim of a zero-byte leftover, after its replacement has been staged at \<open>t\<close>.\<close>

lemma reclaim_publish_spec:
  assumes t: "t \<noteq> p" "look w t = Some (File c)" and z: "look w p = Some (File [])"
    and rm: "fs_remove_file p w = (Inr u, w1)" and pub: "publish_staged_temp_file t p w1 = (r, w')"
  shows "frame {t, p} w w'" "r = Inr () \<Longrightarrow> look w' p = Some (File c)" "r = Inl e \<Longrightarrow> look w' p = None"
proof -
  note s = fs_remove_file_spec[OF rm]
  have "look w1 t = Some (File c)" using t frame_look[OF s(1), of t] by simp
  note s2 = publish_staged_spec[OF pub t(1) this]
  show "frame {t, p} w w'" by (rule frame_step[OF s(1) s2(1)]) auto
  show "r = Inr () \<Longrightarrow> look w' p = Some (File c)" using s2(2) by simp
  show "r = Inl e \<Longrightarrow> look w' p = None" using s2(3) s(2) by simp
qed

lemma publish_sealed_shard_spec:
  assumes run: "publish_sealed_shard p c w = (r, w')" and sep: "p \<notin> stage_names (pid w) p"
  shows "frame (insert p (stage_names (pid w) p)) w w' \<and>
    (case r of Inr _ \<Rightarrow> shard_vacant (look w p) \<and> look w' p = Some (File c)
     | Inl _ \<Rightarrow> look w' p = look w p \<or> look w p = Some (File []) \<and> look w' p = None)"
    (is "frame ?S w w' \<and> ?res r w'")
proof -
  obtain r1 w1 where c1: "write_exclusive p c w = (r1, w1)" by fastforce
  note s1 = write_exclusive_spec[OF c1 sep]
  show ?thesis
  proof (cases r1)
    case (Inr u)
    then have "r = Inr ()" "w' = w1" using run c1 by (auto simp: publish_sealed_shard_def)
    then show ?thesis using s1 Inr by (simp add: shard_vacant_def)
  next
    case (Inl e1)
    note p1 = s1(3)[OF Inl]
    show ?thesis
    proof (cases "e1 = DestinationOccupied")
      case False
      then have "isl r" "w' = w1"
        using run c1 Inl by (auto simp: publish_sealed_shard_def Let_def split: write_exclusive_error.splits)
      then show ?thesis using s1(1) p1 by (auto simp: isl_def)
    next
      case True
      obtain meta w2 where c2: "fs_symlink_metadata p w1 = (meta, w2)" by fastforce
      note f2 = fs_symlink_metadata_frame[OF c2]
      let ?zero = "case meta of Inl _ \<Rightarrow> False
         | Inr n \<Rightarrow> (case n of Symlink _ \<Rightarrow> False | _ \<Rightarrow> node_len n = 0)"
      have f02: "frame ?S w w2" by (rule frame_step[OF s1(1) f2]) auto
      have p2: "look w2 p = look w p" "pid w2 = pid w"
        using p1 frame_empty_look[OF f2] frame_pid[OF f02] by simp_all
      show ?thesis
      proof (cases ?zero)
        case False
        then have "isl r" "w' = w2"
          using run c1 c2 Inl True by (auto simp: publish_sealed_shard_def Let_def)
        then show ?thesis using f02 p2 by (auto simp: isl_def)
      next
        case zero: True
        obtain st w3 where c3: "stage_temp_file p c w2 = (st, w3)" by fastforce
        note s3 = stage_temp_file_spec[OF c3, unfolded p2(2)]
        have f03: "frame ?S w w3" by (rule frame_step[OF f02 s3(1)]) auto
        have p3: "look w3 p = look w p" using frame_look[OF s3(1) sep] p2(1) by simp
        show ?thesis
        proof (cases st)
          case (Inl se)
          then have "isl r" "w' = w3"
            using run c1 c2 c3 \<open>r1 = Inl e1\<close> True zero
            by (auto simp: publish_sealed_shard_def Let_def split: stage_error.splits)
          then show ?thesis using f03 p3 by (auto simp: isl_def)
        next
          case (Inr t)
          have t: "t \<in> stage_names (pid w) p" "look w3 t = Some (File c)" using s3(2)[OF Inr] by auto
          then have tp: "t \<noteq> p" "p \<notin> {t}" "{t} \<subseteq> ?S" using sep by auto
          obtain b w4 where c4: "reclaim_identity_still_safe p w3 = (b, w4)" by fastforce
          note s4 = reclaim_spec[OF c4]
          have f04: "frame ?S w w4" by (rule frame_step[OF f03 s4(1)]) auto
          note p4 = frame_empty_look[OF s4(1)]
          let ?run = "publish_sealed_shard p c w"
          have drop: "frame ?S w (snd (fs_remove_file t v)) \<and> look (snd (fs_remove_file t v)) p = look v p"
            if "frame ?S w v" for v
            using frame_step[OF that remove_frame subset_refl tp(3)] frame_look[OF remove_frame tp(2)] by blast
          show ?thesis
          proof (cases b)
            case False
            then have "isl r" "w' = snd (fs_remove_file t w4)"
              using run c1 c2 c3 c4 \<open>r1 = Inl e1\<close> \<open>e1 = _\<close> zero Inr
              by (auto simp: publish_sealed_shard_def Let_def)
            then show ?thesis using drop[OF f04] p4 p3 by (auto simp: isl_def)
          next
            case safe: True
            obtain rm w5 where c5: "fs_remove_file p w4 = (rm, w5)" by fastforce
            note s5 = fs_remove_file_spec[OF c5]
            have f05: "frame ?S w w5" by (rule frame_step[OF f04 s5(1)]) auto
            have z: "look w p = Some (File [])" using s4(2)[OF safe] p3 by simp
            show ?thesis
            proof (cases rm)
              case (Inl re)
              then have "isl r" "w' = snd (fs_remove_file t w5)"
                using run c1 c2 c3 c4 c5 \<open>r1 = Inl e1\<close> \<open>e1 = _\<close> zero \<open>st = Inr t\<close> safe
                by (auto simp: publish_sealed_shard_def Let_def)
              then show ?thesis using drop[OF f05] s5(3)[OF Inl] p4 p3 by (auto simp: isl_def)
            next
              case (Inr u)
              obtain pr w6 where c6: "publish_staged_temp_file t p w5 = (pr, w6)" by fastforce
              have "isl r \<longleftrightarrow> isl pr" "w' = w6"
                using run c1 c2 c3 c4 c5 c6 \<open>r1 = Inl e1\<close> \<open>e1 = _\<close> zero \<open>st = Inr t\<close> safe Inr
                by (auto simp: publish_sealed_shard_def Let_def split: sum.splits publish_error.splits)
              moreover note s6 = reclaim_publish_spec[OF tp(1) _ _ c5[unfolded Inr] c6, of c]
              have "frame {t, p} w4 w6" using s6(1) t(2) s4(2)[OF safe] p4 by simp
              then have "frame ?S w w6" by (rule frame_step[OF f04]) (use tp in auto)
              ultimately show ?thesis
                using z s6(2,3) t(2) s4(2)[OF safe] p4 by (cases pr; cases r) (auto simp: shard_vacant_def)
            qed
          qed
        qed
      qed
    qed
  qed
qed

interpretation sealed: write_once_publisher publish_sealed_shard shard_vacant
proof unfold_locales
  fix p c w r w'
  assume "publish_sealed_shard p c w = (r, w')" "p \<notin> stage_names (pid w) p"
  from publish_sealed_shard_spec[OF this]
  show "frame (insert p (stage_names (pid w) p)) w w'" by blast
next
  fix p c w u w'
  assume "publish_sealed_shard p c w = (Inr u, w')" "p \<notin> stage_names (pid w) p"
  from publish_sealed_shard_spec[OF this]
  show "shard_vacant (look w p) \<and> look w' p = Some (File c)" by simp
next
  fix p c w e w'
  assume "publish_sealed_shard p c w = (Inl e, w')" "p \<notin> stage_names (pid w) p"
  from publish_sealed_shard_spec[OF this]
  show "look w' p = look w p \<or> shard_vacant (look w p) \<and> shard_vacant (look w' p)"
    by (auto simp: shard_vacant_def)
qed

end
