(* ===== verification/ShardRollOutcome.thy ===== *)
theory ShardRollOutcome
  imports ShardRollSafety
begin

text \<open>
  The outcome of \<^verbatim>\<open>execute_roll\<close> under every fault schedule, read off the file tree: what each
  success and each error means for the canonical file, the sealed shard and the index.
\<close>

section \<open>The setting of a roll\<close>

abbreviation child :: "path \<Rightarrow> string \<Rightarrow> path" where
  "child dir n \<equiv> dir @ [Normal n]"

abbreviation index_in :: "path \<Rightarrow> shard_entry \<Rightarrow> path" where
  "index_in dir e \<equiv> child dir (index_name (artifact_stem e))"

abbreviation sealed_in :: "path \<Rightarrow> shard_entry \<Rightarrow> u32 \<Rightarrow> path" where
  "sealed_in dir e n \<equiv> child dir (sealed_name (artifact_stem e) n)"

text \<open>
  The canonical file has the artifact's stem, the index is no symbolic link, and the two
  predictable temporary names of the atomic replaces hold no link or device.
\<close>

definition roll_setting :: "world \<Rightarrow> path \<Rightarrow> string \<Rightarrow> shard_entry \<Rightarrow> path \<Rightarrow> bool" where
  "roll_setting w dir cname e p \<longleftrightarrow> canonical_path_of dir cname p (artifact_stem e) \<and>
     (\<forall>l. look w (index_in dir e) \<noteq> Some (Symlink l)) \<and>
     not_planted w (child dir (atomic_tmp_name (pid w) cname)) \<and>
     not_planted w (child dir (atomic_tmp_name (pid w) (index_name (artifact_stem e))))"

lemma roll_setting_path: "roll_setting w dir cname e p \<Longrightarrow> p = child dir cname"
  by (simp add: roll_setting_def canonical_path_of_def)

lemma roll_setting_names:
  assumes "roll_setting w dir cname e p"
  shows "shard_index_path_for p (artifact_stem e) = index_in dir e"
    "shard_sibling_path p (sealed_name (artifact_stem e) n) = sealed_in dir e n"
    "atomic_tmp_path process p = child dir (atomic_tmp_name process cname)"
    "atomic_tmp_path process (index_in dir e) = child dir (atomic_tmp_name process (index_name (artifact_stem e)))"
    "stage_names process (sealed_in dir e n) =
       range (\<lambda>k. child dir (stage_tmp_name process (sealed_name (artifact_stem e) n) k))"
  using assms
  by (auto simp: roll_setting_def sibling_index sibling_sealed)
    (auto simp: canonical_path_of_def atomic_tmp_path_eq stage_names_eq noslash_index noslash_sealed)

lemma roll_setting_cname:
  assumes "roll_setting w dir cname e p"
  shows "cname \<noteq> sealed_name (artifact_stem e) n" "cname \<noteq> index_name (artifact_stem e)"
    "cname \<noteq> atomic_tmp_name process (index_name (artifact_stem e))"
    "cname \<noteq> stage_tmp_name process (sealed_name (artifact_stem e) n) k"
    "atomic_tmp_name process cname \<noteq> stage_tmp_name process (sealed_name (artifact_stem e) n) k"
    "atomic_tmp_name process cname \<noteq> atomic_tmp_name process (index_name (artifact_stem e))"
proof -
  have stem: "stem_of_name cname = artifact_stem e"
    using assms by (simp add: roll_setting_def canonical_path_of_def)
  note c = canonical_neq[OF stem]
  show "cname \<noteq> sealed_name (artifact_stem e) n" "cname \<noteq> index_name (artifact_stem e)"
    "cname \<noteq> atomic_tmp_name process (index_name (artifact_stem e))"
    "cname \<noteq> stage_tmp_name process (sealed_name (artifact_stem e) n) k" by (rule c)+
  show "atomic_tmp_name process cname \<noteq> stage_tmp_name process (sealed_name (artifact_stem e) n) k"
    by (rule atomic_tmp_neq_stage) (rule c)
  show "atomic_tmp_name process cname \<noteq> atomic_tmp_name process (index_name (artifact_stem e))"
    using c(2) by (blast dest: atomic_tmp_inj)
qed

lemmas name_neq =
  sealed_neq_index sealed_neq_index[symmetric]
  atomic_tmp_neq_self atomic_tmp_neq_self[symmetric]
  atomic_tmp_neq_sealed atomic_tmp_neq_sealed[symmetric]
  atomic_tmp_neq_index atomic_tmp_neq_index[symmetric]
  stage_neq_sealed stage_neq_sealed[symmetric] stage_neq_index stage_neq_index[symmetric]

lemma tmp_ok_at: "not_planted w (child dir t) \<Longrightarrow> frame S w v \<Longrightarrow> child dir t \<notin> S \<Longrightarrow> t \<noteq> n \<Longrightarrow>
    tmp_ok v (child dir t) (child dir n)"
  by (simp add: tmp_ok_def not_planted_def frame_look)

section \<open>The steps\<close>

text \<open>The index as the code reads it.\<close>

definition stored_index :: "shard_env \<Rightarrow> world \<Rightarrow> path \<Rightarrow> shard_index option" where
  "stored_index env w idx = (case get_node_follow w idx of
     Inr (File t) \<Rightarrow> if utf8_valid t then toml_from env t else None | _ \<Rightarrow> None)"

definition index_absent :: "world \<Rightarrow> path \<Rightarrow> bool" where
  "index_absent w idx \<longleftrightarrow> get_node_follow w idx = Inl NotFound"

lemma stored_index_frame: "frame {} w v \<Longrightarrow> stored_index env v idx = stored_index env w idx"
  "frame {} w v \<Longrightarrow> index_absent v idx = index_absent w idx"
  by (simp_all add: stored_index_def index_absent_def look_cong(2)[OF frame_empty_look])

lemma fs_read_result:
  assumes "fs_read p w = (r, w')"
  shows "r = Inr c \<Longrightarrow> get_node_follow w p = Inr (File c)"
    "r = Inl NotFound \<Longrightarrow> get_node_follow w p = Inl NotFound"
  using assms
  by (auto simp: fs_read_def look_cong(2)[OF frame_empty_look] elim!: syscall_cases
      split: sum.splits node.splits)

lemma load_shard_index_spec:
  assumes "load_shard_index env idx w = (r, w')"
  shows "frame {} w w'" "r = Inr (Some i) \<Longrightarrow> stored_index env w idx = Some i"
    "r = Inr None \<Longrightarrow> index_absent w idx"
proof -
  obtain t w1 where c1: "fs_read idx w = (t, w1)" by fastforce
  note f1 = fs_read_frame[OF c1] and res = fs_read_result[OF c1]
  have "frame {} w w' \<and> (\<forall>i. r = Inr (Some i) \<longrightarrow> stored_index env w idx = Some i) \<and>
      (r = Inr None \<longrightarrow> index_absent w idx)"
  proof (cases t)
    case (Inr c)
    then have "w' = w1" "r = (if utf8_valid c then case toml_from env c of None \<Rightarrow> Inl OtherIo
          | Some i \<Rightarrow> Inr (Some i) else Inl InvalidData)"
      using assms c1 by (auto simp: load_shard_index_def fs_read_to_string_def is_genuinely_missing_def
          split: option.splits if_splits)
    then show ?thesis using f1 res(1)[OF Inr] by (auto simp: stored_index_def split: option.splits if_splits)
  next
    case (Inl e)
    obtain m w2 where c2: "is_genuinely_missing e idx w1 = (m, w2)" by fastforce
    have "w' = w2" "r = (if m then Inr None else Inl e)"
      using assms c1 c2 Inl by (auto simp: load_shard_index_def fs_read_to_string_def split: if_splits)
    moreover have "m \<Longrightarrow> e = NotFound" using c2 by (auto simp: is_genuinely_missing_def split: if_splits)
    ultimately show ?thesis
      using frame_trans[OF f1 is_genuinely_missing_frame[OF c2]] res(2) Inl
      by (auto simp: index_absent_def split: if_splits)
  qed
  then show "frame {} w w'" "r = Inr (Some i) \<Longrightarrow> stored_index env w idx = Some i"
    "r = Inr None \<Longrightarrow> index_absent w idx" by simp_all
qed

lemma max_seq_ge: "x \<in> set es \<Longrightarrow> seq x \<le> max_seq es"
proof -
  have "fold max xs a \<ge> a \<and> (\<forall>y\<in>set xs. y \<le> fold max xs a)" for xs :: "u32 list" and a
    by (induction xs arbitrary: a) (auto intro: order_trans[OF max.cobounded2] order_trans[OF max.cobounded1])
  then show "x \<in> set es \<Longrightarrow> seq x \<le> max_seq es" by (auto simp: max_seq_def)
qed

lemma next_seal_seq_spec:
  assumes "next_seal_seq env idx w = (r, w')"
  shows "frame {} w w'"
    "r = Inr n \<Longrightarrow> (case stored_index env w idx of Some i \<Rightarrow> unat n = unat (max_seq (shards i)) + 1
       | None \<Rightarrow> index_absent w idx \<and> n = 1)"
proof -
  obtain l w1 where c1: "load_shard_index env idx w = (l, w1)" by fastforce
  note s = load_shard_index_spec[OF c1]
  show "frame {} w w'"
    using assms c1 s(1) by (auto simp: next_seal_seq_def split: sum.splits option.splits)
  have "stored_index env w idx = None" if "index_absent w idx"
    using that by (simp add: stored_index_def index_absent_def)
  then show "r = Inr n \<Longrightarrow> (case stored_index env w idx of Some i \<Rightarrow> unat n = unat (max_seq (shards i)) + 1
       | None \<Rightarrow> index_absent w idx \<and> n = 1)"
    using assms c1 s(2,3)
    by (auto simp: next_seal_seq_def dest!: checked_add_unat split: sum.splits option.splits)
qed

lemma reject_canonical_symlink_spec:
  assumes "reject_canonical_symlink stem p w = (r, w')"
  shows "frame {} w w'" "r = Inl err \<Longrightarrow> err = CanonicalPathIsSymlink stem p \<and> (\<exists>t. look w p = Some (Symlink t))"
proof -
  obtain m w1 where c1: "fs_symlink_metadata p w = (m, w1)" by fastforce
  note f = fs_symlink_metadata_frame[OF c1]
  have m: "m = Inr n \<Longrightarrow> look w p = Some n" for n
    using c1 by (auto simp: fs_symlink_metadata_def get_node_def frame_empty_look elim!: syscall_cases
        split: option.splits)
  show "frame {} w w'" "r = Inl err \<Longrightarrow> err = CanonicalPathIsSymlink stem p \<and> (\<exists>t. look w p = Some (Symlink t))"
    using assms c1 f m by (auto simp: reject_canonical_symlink_def split: sum.splits node.splits)
qed

lemma read_canonical_content_spec:
  assumes "read_canonical_content p w = (r, w')"
  shows "frame {} w w'" "r = Inr c \<Longrightarrow> look w p = Some (File d) \<Longrightarrow> c = d"
proof -
  obtain t w1 where c1: "fs_read p w = (t, w1)" by fastforce
  note f1 = fs_read_frame[OF c1] and res = fs_read_result[OF c1]
  have "frame {} w w' \<and> (\<forall>c d. r = Inr c \<longrightarrow> look w p = Some (File d) \<longrightarrow> c = d)"
  proof (cases t)
    case (Inr x)
    then have "w' = w1" "r = Inr x" using assms c1 by (auto simp: read_canonical_content_def)
    then show ?thesis using f1 res(1)[OF Inr] by (auto simp: get_node_follow_plain get_node_def)
  next
    case (Inl e)
    obtain m w2 where c2: "is_genuinely_missing e p w1 = (m, w2)" by fastforce
    have "w' = w2" "r = (if m then Inr [] else Inl e)"
      using assms c1 c2 Inl by (auto simp: read_canonical_content_def split: if_splits)
    moreover have "m \<Longrightarrow> e = NotFound" using c2 by (auto simp: is_genuinely_missing_def split: if_splits)
    ultimately show ?thesis
      using frame_trans[OF f1 is_genuinely_missing_frame[OF c2]] res(2) Inl
      by (auto simp: get_node_follow_plain get_node_def split: if_splits)
  qed
  then show "frame {} w w'" "r = Inr c \<Longrightarrow> look w p = Some (File d) \<Longrightarrow> c = d" by simp_all
qed

lemma truncate_spec:
  assumes "truncate_canonical_to_empty p w = (r, w')" "tmp_ok w (atomic_tmp_path (pid w) p) p"
  shows "frame {p, atomic_tmp_path (pid w) p} w w'"
    "r = Inr u \<Longrightarrow> look w' p = Some (File [])"
    "r = Inl err \<Longrightarrow> look w' p = look w p \<and> (\<exists>s k. err = TruncateFailedAfterSeal s [] k)"
proof -
  obtain a w1 where c: "write_atomic p [] w = (a, w1)" by fastforce
  note s = write_atomic_spec[OF c assms(2)]
  have "w' = w1" using assms(1) c by (auto simp: truncate_canonical_to_empty_def split: sum.splits)
  then show "frame {p, atomic_tmp_path (pid w) p} w w'"
    "r = Inr u \<Longrightarrow> look w' p = Some (File [])"
    "r = Inl err \<Longrightarrow> look w' p = look w p \<and> (\<exists>s k. err = TruncateFailedAfterSeal s [] k)"
    using s assms(1) c by (auto simp: truncate_canonical_to_empty_def split: sum.splits)
qed

text \<open>The index a publish starts from.\<close>

definition base_index :: "shard_env \<Rightarrow> world \<Rightarrow> path \<Rightarrow> shard_entry \<Rightarrow> shard_index" where
  "base_index env w idx e = (case stored_index env w idx of Some i \<Rightarrow> i | None \<Rightarrow> fresh_shard_index e)"

definition with_entry :: "shard_index \<Rightarrow> shard_index_entry \<Rightarrow> shard_index" where
  "with_entry i x = i\<lparr>shards := shards i @ [x]\<rparr>"

lemma publish_index_spec:
  assumes run: "publish_shard_index_update env idx e x w = (r, w')"
    and ok: "tmp_ok w (atomic_tmp_path (pid w) idx) idx"
  shows "frame {idx, atomic_tmp_path (pid w) idx} w w'"
    "r = Inr j \<Longrightarrow> j = with_entry (base_index env w idx e) x \<and>
       (stored_index env w idx = None \<longrightarrow> index_absent w idx) \<and>
       (\<exists>t. toml_to env j = Some t \<and> look w' idx = Some (File t))"
    "r = Inl err \<Longrightarrow> look w' idx = look w idx \<and>
       (\<exists>k. err = IndexPublishFailedAfterTruncate (artifact_stem e) (shard_path x) k)"
proof -
  let ?t = "atomic_tmp_path (pid w) idx"
  obtain l w1 where c1: "load_shard_index env idx w = (l, w1)" by fastforce
  note s1 = load_shard_index_spec[OF c1]
  note eq1 = frame_empty_look[OF s1(1)]
  have main: "frame {idx, ?t} w w' \<and>
     (\<forall>j. r = Inr j \<longrightarrow> j = with_entry (base_index env w idx e) x \<and>
       (stored_index env w idx = None \<longrightarrow> index_absent w idx) \<and>
       (\<exists>t. toml_to env j = Some t \<and> look w' idx = Some (File t))) \<and>
     (\<forall>err. r = Inl err \<longrightarrow> look w' idx = look w idx \<and>
       (\<exists>k. err = IndexPublishFailedAfterTruncate (artifact_stem e) (shard_path x) k))"
  proof (cases l)
    case (Inl source)
    then have "w' = w1" "r = Inl (IndexPublishFailedAfterTruncate (artifact_stem e) (shard_path x) source)"
      using run c1 by (auto simp: publish_shard_index_update_def Let_def)
    then show ?thesis using frame_mono[OF s1(1)] eq1 by simp
  next
    case (Inr loaded)
    let ?j = "with_entry (case loaded of Some i \<Rightarrow> i | None \<Rightarrow> fresh_shard_index e) x"
    have absent: "stored_index env w idx = None" if "index_absent w idx"
      using that by (simp add: stored_index_def index_absent_def)
    have j: "?j = with_entry (base_index env w idx e) x"
      and a: "stored_index env w idx = None \<longrightarrow> index_absent w idx"
      using s1(2,3) Inr absent by (cases loaded; auto simp: base_index_def split: option.splits)+
    show ?thesis
    proof (cases "toml_to env ?j")
      case None
      then have "w' = w1" "r = Inl (IndexPublishFailedAfterTruncate (artifact_stem e) (shard_path x) OtherIo)"
        using run c1 Inr by (auto simp: publish_shard_index_update_def Let_def with_entry_def)
      then show ?thesis using frame_mono[OF s1(1)] eq1 by simp
    next
      case (Some t)
      obtain a w2 where c2: "write_atomic idx t w1 = (a, w2)" by fastforce
      have "tmp_ok w1 (atomic_tmp_path (pid w1) idx) idx"
        using ok eq1 frame_pid[OF s1(1)] by (simp add: tmp_ok_def)
      note s2 = write_atomic_spec[OF c2 this, unfolded frame_pid[OF s1(1)] eq1]
      have f: "frame {idx, ?t} w w2" by (rule frame_step[OF s1(1) s2(1)]) auto
      have "w' = w2" "r = (case a of Inl source \<Rightarrow>
           Inl (IndexPublishFailedAfterTruncate (artifact_stem e) (shard_path x) source) | Inr _ \<Rightarrow> Inr ?j)"
        using run c1 c2 Inr Some
        by (auto simp: publish_shard_index_update_def Let_def with_entry_def split: sum.splits)
      then show ?thesis using f s2(2) Some j a by (auto split: sum.splits)
    qed
  qed
  show "frame {idx, ?t} w w'" using main by blast
  show "r = Inr j \<Longrightarrow> j = with_entry (base_index env w idx e) x \<and>
       (stored_index env w idx = None \<longrightarrow> index_absent w idx) \<and>
       (\<exists>t. toml_to env j = Some t \<and> look w' idx = Some (File t))" using main by blast
  show "r = Inl err \<Longrightarrow> look w' idx = look w idx \<and>
       (\<exists>k. err = IndexPublishFailedAfterTruncate (artifact_stem e) (shard_path x) k)" using main by blast
qed

section \<open>The roll\<close>

definition next_seq_ok :: "shard_env \<Rightarrow> world \<Rightarrow> path \<Rightarrow> u32 \<Rightarrow> bool" where
  "next_seq_ok env w idx n \<longleftrightarrow> (case stored_index env w idx of
     Some i \<Rightarrow> unat n = unat (max_seq (shards i)) + 1 | None \<Rightarrow> look w idx = None \<and> n = 1)"

lemma next_seq_fresh:
  assumes "next_seq_ok env w idx n" "y \<in> set (shards (base_index env w idx e))"
  shows "seq y < n"
proof -
  obtain i where i: "stored_index env w idx = Some i" "base_index env w idx e = i"
    using assms by (auto simp: base_index_def fresh_shard_index_def split: option.splits)
  then have "unat n = unat (max_seq (shards i)) + 1" using assms(1) by (simp add: next_seq_ok_def)
  moreover have "unat (seq y) \<le> unat (max_seq (shards i))"
    using max_seq_ge[of y "shards i"] assms(2) i by (simp add: word_le_nat_alt)
  ultimately show ?thesis by (simp add: word_less_nat_alt)
qed

text \<open>What may change: the canonical file, the index, one sealed shard, and temporary names.\<close>

definition roll_files :: "path \<Rightarrow> string \<Rightarrow> shard_entry \<Rightarrow> nat \<Rightarrow> u32 \<Rightarrow> path set" where
  "roll_files dir cname e process n =
     {child dir cname, index_in dir e, sealed_in dir e n, child dir (atomic_tmp_name process cname),
      child dir (atomic_tmp_name process (index_name (artifact_stem e)))} \<union>
     range (\<lambda>k. child dir (stage_tmp_name process (sealed_name (artifact_stem e) n) k))"

text \<open>
  The reading of each result, for a roll of content \<open>c\<close> under number \<open>n\<close> from the tree of
  \<open>w\<close> to the tree of \<open>w'\<close>.
\<close>

definition roll_error_outcome ::
  "shard_entry \<Rightarrow> path \<Rightarrow> string \<Rightarrow> bytes \<Rightarrow> u32 \<Rightarrow> shard_roll_error \<Rightarrow> world \<Rightarrow> bool"
where
  "roll_error_outcome e dir cname c n err w' \<longleftrightarrow>
     (let canonical = look w' (child dir cname); sealed = look w' (sealed_in dir e n);
          name = sealed_name (artifact_stem e) n in
      case err of
        SealWriteFailed s _ \<Rightarrow> s = artifact_stem e \<and> canonical = Some (File c)
      | SealedShardAlreadyExists s f \<Rightarrow> s = artifact_stem e \<and> f = name \<and> canonical = Some (File c)
      | TruncateFailedAfterSeal s f _ \<Rightarrow> s = artifact_stem e \<and> f = name \<and>
          canonical = Some (File c) \<and> sealed = Some (File c)
      | IndexPublishFailedAfterTruncate s f _ \<Rightarrow> s = artifact_stem e \<and> f = name \<and>
          canonical = Some (File []) \<and> sealed = Some (File c)
      | _ \<Rightarrow> False)"

fun after_seal :: "shard_roll_error \<Rightarrow> bool" where
  "after_seal (TruncateFailedAfterSeal _ _ _) = True"
| "after_seal (IndexPublishFailedAfterTruncate _ _ _) = True"
| "after_seal _ = False"

definition roll_outcome ::
  "shard_env \<Rightarrow> shard_entry \<Rightarrow> path \<Rightarrow> string \<Rightarrow> bytes \<Rightarrow> bool \<Rightarrow> u32 \<Rightarrow>
   shard_roll_error + shard_index_entry option \<Rightarrow> world \<Rightarrow> world \<Rightarrow> bool"
where
  "roll_outcome env e dir cname c retro n r w w' \<longleftrightarrow>
     (case r of
        Inr None \<Rightarrow> c = [] \<and> look w' = look w
      | Inr (Some x) \<Rightarrow> c \<noteq> [] \<and> next_seq_ok env w (index_in dir e) n \<and>
          shard_vacant (look w (sealed_in dir e n)) \<and>
          x = roll_entry env n (sealed_name (artifact_stem e) n) (length c) retro \<and>
          look w' (child dir cname) = Some (File []) \<and> look w' (sealed_in dir e n) = Some (File c) \<and>
          (\<exists>t. toml_to env (with_entry (base_index env w (index_in dir e) e) x) = Some t \<and>
               look w' (index_in dir e) = Some (File t))
      | Inl err \<Rightarrow> look w' (index_in dir e) = look w (index_in dir e) \<and>
          roll_error_outcome e dir cname c n err w' \<and>
          (after_seal err \<longrightarrow> c \<noteq> [] \<and> next_seq_ok env w (index_in dir e) n))"

lemma stored_index_plain:
  assumes "\<forall>l. look w idx \<noteq> Some (Symlink l)"
  shows "stored_index env w idx = (case look w idx of
      Some (File t) \<Rightarrow> if utf8_valid t then toml_from env t else None | _ \<Rightarrow> None)"
    "index_absent w idx \<Longrightarrow> look w idx = None"
  using assms
  by (auto simp: stored_index_def index_absent_def get_node_follow_plain get_node_def split: option.splits)

lemma base_index_same:
  assumes "look v idx = look w idx" "\<forall>l. look w idx \<noteq> Some (Symlink l)"
  shows "base_index env v idx e = base_index env w idx e"
  using assms by (simp add: base_index_def stored_index_plain)

lemma reattribute_seal:
  assumes run: "publish_sealed_shard p c w = (Inl err, w')"
  shows "(\<exists>s k. err = SealWriteFailed s k) \<or> (\<exists>s f. err = SealedShardAlreadyExists s f)"
  using assms
  by (auto simp: publish_sealed_shard_def Let_def
      split: prod.splits sum.splits if_splits write_exclusive_error.splits stage_error.splits
        publish_error.splits)

lemma roll_outcome_core:
  assumes run: "execute_roll env e p retro w = (r, w')"
    and setting: "roll_setting w dir cname e p" and here: "look w p = Some (File c)"
  shows "\<exists>n. frame (roll_files dir cname e (pid w) n) w w' \<and>
    roll_outcome env e dir cname c retro n r w w' \<and>
    (\<not> shard_vacant (look w (sealed_in dir e n)) \<longrightarrow> look w' (sealed_in dir e n) = look w (sealed_in dir e n))"
proof -
  let ?stem = "artifact_stem e" and ?idx = "index_in dir e"
  let ?tc = "child dir (atomic_tmp_name (pid w) cname)"
  let ?ti = "child dir (atomic_tmp_name (pid w) (index_name (artifact_stem e)))"
  note names = roll_setting_names[OF setting] and neq = roll_setting_cname[OF setting] roll_setting_cname[OF setting, symmetric] name_neq
  note path = roll_setting_path[OF setting]
  note tmp_name = names(3)[unfolded path]
  have plain: "\<forall>l. look w ?idx \<noteq> Some (Symlink l)" "not_planted w ?tc" "not_planted w ?ti"
    using setting by (simp_all add: roll_setting_def)
  note defs = execute_roll_def Let_def names(1,2)
  obtain r1 w1 where c1: "reject_canonical_symlink ?stem p w = (r1, w1)" by fastforce
  note s1 = reject_canonical_symlink_spec[OF c1]
  have r1: "r1 = Inr ()" using s1(2) here by (cases r1) auto
  obtain r2 w2 where c2: "read_canonical_content p w1 = (r2, w2)" by fastforce
  note s2 = read_canonical_content_spec[OF c2]
  have f2: "frame {} w w2" using frame_trans[OF s1(1) s2(1)] .
  show ?thesis
  proof (cases r2)
    case (Inl k)
    then have "w' = w2" "r = Inl (SealWriteFailed ?stem k)" using run c1 c2 r1 by (simp_all add: defs)
    then show ?thesis using frame_mono[OF f2] here frame_empty_look[OF f2] path
      by (simp add: roll_outcome_def roll_error_outcome_def)
  next
    case (Inr c')
    then have c': "c' = c" using s2(2) here frame_empty_look[OF s1(1)] by simp
    show ?thesis
    proof (cases "c = []")
      case True
      then have "w' = w2" "r = Inr None" using run c1 c2 r1 Inr c' by (simp_all add: defs)
      then show ?thesis using frame_mono[OF f2] True frame_empty_look[OF f2]
        by (simp add: roll_outcome_def)
    next
      case ne: False
      obtain r3 w3 where c3: "next_seal_seq env ?idx w2 = (r3, w3)" by fastforce
      note s3 = next_seal_seq_spec[OF c3]
      have f3: "frame {} w w3" using frame_trans[OF f2 s3(1)] .
      note eq3 = frame_empty_look[OF f3]
      show ?thesis
      proof (cases r3)
        case (Inl k)
        then have "w' = w3" "r = Inl (SealWriteFailed ?stem k)"
          using run c1 c2 r1 \<open>r2 = Inr c'\<close> c' ne c3 by (simp_all add: defs)
        then show ?thesis using frame_mono[OF f3] here eq3 path
          by (simp add: roll_outcome_def roll_error_outcome_def)
      next
        case (Inr n)
        have seq_ok: "next_seq_ok env w ?idx n"
          using s3(2)[OF Inr] stored_index_plain(2)[OF plain(1)]
          by (auto simp: next_seq_ok_def stored_index_frame[OF f2] split: option.splits)
        let ?sp = "sealed_in dir e n" and ?name = "sealed_name ?stem n"
        let ?S = "roll_files dir cname e (pid w) n"
        obtain r4 w4 where c4: "publish_sealed_shard ?sp c w3 = (r4, w4)" by fastforce
        have sep: "?sp \<notin> stage_names (pid w3) ?sp" unfolding names by (auto simp: neq)
        note s4 = publish_sealed_shard_spec[OF c4 sep, unfolded frame_pid[OF f3] names eq3]
        have occ: "\<not> shard_vacant (look w ?sp) \<Longrightarrow> look w4 ?sp = look w ?sp"
          using sealed.occupied_kept[OF c4 sep _ sep] eq3 by simp
        let ?A = "insert ?sp (range (\<lambda>k. child dir (stage_tmp_name (pid w) ?name k)))"
        have A: "?A \<subseteq> ?S" by (auto simp: roll_files_def)
        have f4: "frame ?A w w4" by (rule frame_step[OF f3 conjunct1[OF s4]]) auto
        have ti: "atomic_tmp_name (pid w) (index_name ?stem) \<noteq> stage_tmp_name (pid w) ?name k" for k
          by (rule atomic_tmp_neq_stage) (simp add: neq)
        have offA: "p \<notin> ?A" "?idx \<notin> ?A" "?tc \<notin> ?A" "?ti \<notin> ?A"
          by (auto simp: path neq ti)
        have keep4: "look w4 p = Some (File c)" "look w4 ?idx = look w ?idx"
          using frame_look[OF f4] offA here by simp_all
        show ?thesis
        proof (cases r4)
          case (Inl err)
          then have "w' = w4" "r = Inl (reattribute_roll_error err ?stem ?name)"
            using run c1 c2 r1 \<open>r2 = Inr c'\<close> c' ne c3 \<open>r3 = Inr n\<close> c4 by (simp_all add: defs)
          then show ?thesis
            using frame_mono[OF f4 A] keep4 path occ reattribute_seal[OF c4[unfolded Inl]]
            by (intro exI[of _ n]) (auto simp: roll_outcome_def roll_error_outcome_def)
        next
          case (Inr u)
          then have sealed4: "look w4 ?sp = Some (File c)" "shard_vacant (look w ?sp)"
            using s4 by simp_all
          obtain r5 w5 where c5: "truncate_canonical_to_empty p w4 = (r5, w5)" by fastforce
          have pid4: "pid w4 = pid w" using frame_pid[OF f4] .
          have "tmp_ok w4 (atomic_tmp_path (pid w4) p) p"
            unfolding path tmp_name pid4 using tmp_ok_at[OF plain(2) f4 offA(3)] by (simp add: neq)
          note s5 = truncate_spec[OF c5 this, unfolded path tmp_name pid4]
          let ?B = "{child dir cname, ?tc}"
          have B: "?B \<subseteq> ?S" "?sp \<notin> ?B" "?idx \<notin> ?B" "?ti \<notin> ?B" by (auto simp: roll_files_def neq)
          have f5: "frame (?A \<union> ?B) w w5" by (rule frame_step[OF f4 s5(1)]) auto
          have keep5: "look w5 ?sp = Some (File c)" "look w5 ?idx = look w ?idx"
            using frame_look[OF s5(1)] B sealed4 keep4 by simp_all
          have AB: "?A \<union> ?B \<subseteq> ?S" "?ti \<notin> ?A \<union> ?B" using A B offA by blast+
          show ?thesis
          proof (cases r5)
            case (Inl err)
            then obtain s k where err: "err = TruncateFailedAfterSeal s [] k" using s5(3) by blast
            have "w' = w5" "r = Inl (reattribute_roll_error err ?stem ?name)"
              using run c1 c2 r1 \<open>r2 = Inr c'\<close> c' ne c3 \<open>r3 = Inr n\<close> c4 \<open>r4 = Inr u\<close> c5 Inl
              by (simp_all add: defs)
            then show ?thesis
              using frame_mono[OF f5 AB(1)] keep5 s5(3)[OF Inl] sealed4(2) ne seq_ok keep4(1) err path
              by (intro exI[of _ n]) (auto simp: roll_outcome_def roll_error_outcome_def)
          next
            case (Inr u5)
            let ?x = "roll_entry env n ?name (length c) retro"
            obtain r6 w6 where c6: "publish_shard_index_update env ?idx e ?x w5 = (r6, w6)" by fastforce
            have pid5: "pid w5 = pid w" using frame_pid[OF f5] .
            have "tmp_ok w5 (atomic_tmp_path (pid w5) ?idx) ?idx"
              unfolding names pid5 using tmp_ok_at[OF plain(3) f5 AB(2)] by (simp add: neq)
            note s6 = publish_index_spec[OF c6 this, unfolded names pid5]
            let ?C = "{?idx, ?ti}"
            have C: "?C \<subseteq> ?S" "?sp \<notin> ?C" "child dir cname \<notin> ?C" by (auto simp: roll_files_def neq)
            have f6: "frame ?S w w6" by (rule frame_step[OF f5 s6(1) AB(1) C(1)])
            have keep6: "look w6 ?sp = Some (File c)" "look w6 (child dir cname) = Some (File [])"
              using frame_look[OF s6(1)] C keep5 s5(2)[OF Inr] by simp_all
            have base: "base_index env w5 ?idx e = base_index env w ?idx e"
              by (rule base_index_same[OF keep5(2) plain(1)])
            have res: "w' = w6" "r = (case r6 of Inl err \<Rightarrow> Inl (reattribute_roll_error err ?stem ?name)
                | Inr _ \<Rightarrow> Inr (Some ?x))"
              using run c1 c2 r1 \<open>r2 = Inr c'\<close> c' ne c3 \<open>r3 = Inr n\<close> c4 \<open>r4 = Inr u\<close> c5 Inr c6
              by (auto simp: defs split: sum.splits)
            show ?thesis
            proof (cases r6)
              case (Inl err)
              then show ?thesis
                using res f6 keep6 s6(3)[OF Inl] keep5(2) sealed4(2) ne seq_ok
                by (intro exI[of _ n]) (auto simp: roll_outcome_def roll_error_outcome_def roll_entry_def)
            next
              case (Inr j)
              then show ?thesis
                using res f6 keep6 s6(2)[OF Inr] base ne seq_ok sealed4
                by (intro exI[of _ n]) (auto simp: roll_outcome_def)
            qed
          qed
        qed
      qed
    qed
  qed
qed

end
