(* ===== verification/ShardRollLive.thy ===== *)
theory ShardRollLive
  imports ShardRollOutcome
begin

text \<open>
  Without faults the writers succeed, and so does a roll of a non-empty canonical file whose next
  shard name is free: the safety statements are not kept by refusing to act.
\<close>

section \<open>The writers\<close>

definition dir_ok :: "world \<Rightarrow> path \<Rightarrow> bool" where
  "dir_ok w dir \<longleftrightarrow> dir = [] \<or> look w dir = Some Directory"

lemma dir_present_child [simp]: "dir_present w (child dir n) \<longleftrightarrow> dir_ok w dir"
  by (auto simp: dir_present_def dir_ok_def parent_or_def)

lemma dir_ok_put [simp]: "dir_ok (put (child dir n) x w) dir = dir_ok w dir"
  "dir_ok (del (child dir n) w) dir = dir_ok w dir"
  by (simp_all add: dir_ok_def)

lemma dir_ok_frame: "frame S w w' \<Longrightarrow> (\<And>q. q \<in> S \<Longrightarrow> \<exists>n. q = child dir n) \<Longrightarrow> dir_ok w' dir = dir_ok w dir"
proof -
  assume f: "frame S w w'" and S: "\<And>q. q \<in> S \<Longrightarrow> \<exists>n. q = child dir n"
  have "dir \<notin> S" using S by fastforce
  with f show ?thesis by (simp add: dir_ok_def frame_look)
qed

lemma resolve_plain: "\<forall>t. look w p \<noteq> Some (Symlink t) \<Longrightarrow> resolve_link 41 w p = Inr p"
  using resolve_link_plain[of w p 40] by (simp add: eval_nat_numeral del: resolve_link.simps)

lemma write_atomic_succeeds:
  assumes calm: "faults w = []" and dir: "dir_ok w dir"
    and tmp: "atomic_tmp_path (pid w) (child dir n) = child dir t" "t \<noteq> n"
    and free: "not_planted w (child dir t)" "look w (child dir t) \<noteq> Some Directory"
    and target: "look w (child dir n) \<noteq> Some Directory"
  obtains w' where "write_atomic (child dir n) c w = (Inr (), w')" "faults w' = []"
proof -
  have res: "resolve_link 41 w (child dir t) = Inr (child dir t)"
    using free(1) by (simp add: resolve_plain not_planted_def)
  have "fs_create (child dir t) w = (Inr (child dir t), put (child dir t) (File []) w)"
    using calm dir free res by (simp add: fs_create_def not_planted_def)
  then show ?thesis
    using that calm dir tmp target
    by (simp add: write_atomic_def Let_def write_and_sync_temp_def fs_write_all_def fs_sync_all_def fs_rename_def)
qed

lemma stage_succeeds:
  assumes calm: "faults w = []" and dir: "dir_ok w dir"
    and free: "\<And>k. \<exists>t. stage_tmp_path (pid w) p k = child dir t \<and> look w (child dir t) = None"
  obtains t w' where "stage_temp_file p c w = (Inr t, w')" "faults w' = []"
proof -
  obtain k w0 where n: "random_nonce w = (k, w0)" by fastforce
  have w0: "faults w0 = []" "pid w0 = pid w" "look w0 = look w"
    using n calm by (auto simp: random_nonce_def fun_eq_iff split: list.splits)
  have d0: "dir_ok w0 dir" using dir by (simp add: dir_ok_def w0(3))
  obtain t where t: "stage_tmp_path (pid w) p k = child dir t" "look w (child dir t) = None"
    using free by blast
  then show ?thesis
    using that n w0 d0
    by (simp add: stage_temp_file_def stage_temp_file_with_nonce_def Let_def fs_create_new_def fs_write_all_def fs_sync_all_def)
qed

lemma publish_succeeds:
  assumes calm: "faults w = []" and dir: "dir_ok w dir" and p: "p = child dir n" and vacant: "look w p = None"
    and sep: "p \<notin> stage_names (pid w) p"
    and free: "\<And>k. \<exists>t. stage_tmp_path (pid w) p k = child dir t \<and> look w (child dir t) = None"
  obtains w' where "publish_sealed_shard p c w = (Inr (), w')" "faults w' = []"
proof -
  obtain t w1 where c1: "stage_temp_file p c w = (Inr t, w1)" and calm1: "faults w1 = []"
    using stage_succeeds[OF calm dir free] by metis
  note s1 = stage_temp_file_spec[OF c1]
  have t: "look w1 t = Some (File c)" using s1(2) by blast
  have p1: "look w1 p = None" using frame_look[OF s1(1) sep] vacant by simp
  have "\<exists>m. q = child dir m" if "q \<in> stage_names (pid w) p" for q
    using that free by (fastforce simp: stage_names_def)
  then have d1: "dir_ok w1 dir" using dir_ok_frame[OF s1(1)] dir by blast
  have "fs_hard_link t p w1 = (Inr (), put p (File c) w1)"
    using calm1 t p1 d1 by (simp add: fs_hard_link_def p)
  moreover have "faults (snd (fs_remove_file t (put p (File c) w1))) = []"
    using calm1 by (simp add: fs_remove_file_def split: option.splits node.splits)
  ultimately show ?thesis
    using that c1 by (simp add: publish_sealed_shard_def write_exclusive_def publish_staged_temp_file_def Let_def)
qed

section \<open>The reads\<close>

lemma get_follow_ok: "\<forall>t. look w p \<noteq> Some (Symlink t) \<Longrightarrow> get_node_follow w p = get_node w p"
  using get_node_follow_plain by blast

lemma missing_dir_ok: "dir_ok w dir \<Longrightarrow> missing_error w (child dir n) = NotFound"
  by (auto simp: missing_error_def closest_ancestor.simps dir_ok_def)

lemma genuinely_missing_ok:
  assumes "faults w = []" "dir_ok w dir"
  shows "is_genuinely_missing NotFound (child dir n) w = (True, w)"
  using assms
  by (auto simp: is_genuinely_missing_def closest_existing_ancestor_is_directory_or_absent.simps
      dir_ok_def fs_metadata_def get_follow_ok get_node_def)

lemma load_index_calm:
  assumes calm: "faults w = []" and dir: "dir_ok w dir"
    and plain: "\<forall>l. look w (child dir n) \<noteq> Some (Symlink l)"
    and ok: "stored_index env w (child dir n) \<noteq> None \<or> look w (child dir n) = None"
  shows "load_shard_index env (child dir n) w = (Inr (stored_index env w (child dir n)), w)"
proof (cases "look w (child dir n)")
  case None
  then show ?thesis
    using assms genuinely_missing_ok[OF calm dir]
    by (simp add: load_shard_index_def fs_read_to_string_def fs_read_def get_follow_ok get_node_def
        missing_dir_ok stored_index_plain(1))
next
  case (Some x)
  then obtain t where t: "x = File t" "utf8_valid t" "toml_from env t \<noteq> None"
    using ok plain by (auto simp: stored_index_plain split: node.splits if_splits)
  then show ?thesis
    using Some assms
    by (auto simp: load_shard_index_def fs_read_to_string_def fs_read_def get_follow_ok get_node_def
        stored_index_plain(1) split: option.splits)
qed

section \<open>The roll\<close>

text \<open>Room for a roll under number \<open>n\<close>: every name it needs is free, and the index can be encoded.\<close>

definition roll_room :: "shard_env \<Rightarrow> world \<Rightarrow> path \<Rightarrow> string \<Rightarrow> shard_entry \<Rightarrow> bytes \<Rightarrow> bool \<Rightarrow> u32 \<Rightarrow> bool" where
  "roll_room env w dir cname e c retro n \<longleftrightarrow>
     dir_ok w dir \<and> next_seq_ok env w (index_in dir e) n \<and> look w (sealed_in dir e n) = None \<and>
     (\<forall>k. look w (child dir (stage_tmp_name (pid w) (sealed_name (artifact_stem e) n) k)) = None) \<and>
     look w (child dir (atomic_tmp_name (pid w) cname)) \<noteq> Some Directory \<and>
     look w (child dir (atomic_tmp_name (pid w) (index_name (artifact_stem e)))) \<noteq> Some Directory \<and>
     toml_to env (with_entry (base_index env w (index_in dir e) e)
       (roll_entry env n (sealed_name (artifact_stem e) n) (length c) retro)) \<noteq> None"

lemma stage_path_eq: "noslash n \<Longrightarrow> stage_tmp_path process (child dir n) k = child dir (stage_tmp_name process n k)"
  using plain_stage_tmp[of n process k] by (simp add: stage_tmp_path_def parent_or_def stage_tmp_name_def)

lemma next_seal_seq_calm:
  assumes calm: "faults w = []" and dir: "dir_ok w dir"
    and plain: "\<forall>l. look w (child dir m) \<noteq> Some (Symlink l)" and ok: "next_seq_ok env w (child dir m) n"
  shows "next_seal_seq env (child dir m) w = (Inr n, w)"
proof -
  have ok': "stored_index env w (child dir m) \<noteq> None \<or> look w (child dir m) = None"
    using ok by (auto simp: next_seq_ok_def split: option.splits)
  show ?thesis
  proof (cases "stored_index env w (child dir m)")
    case None
    then show ?thesis
      using ok load_index_calm[OF calm dir plain ok'] by (simp add: next_seal_seq_def next_seq_ok_def)
  next
    case (Some i)
    have lt: "unat n < 2 ^ LENGTH(32)" by (rule unsigned_less)
    have "unat n = unat (max_seq (shards i)) + 1" using ok Some by (simp add: next_seq_ok_def)
    moreover from this have "n = max_seq (shards i) + 1" and "unat (max_seq (shards i)) + 1 < 2 ^ 32"
      using lt by (simp_all add: word_unat_eq_iff unat_word_ariths)
    ultimately show ?thesis
      using Some load_index_calm[OF calm dir plain ok'] by (simp add: next_seal_seq_def checked_add_def)
  qed
qed

lemma truncate_calm:
  assumes "faults w = []" "dir_ok w dir" "noslash cname"
    and "not_planted w (child dir (atomic_tmp_name (pid w) cname))"
    and "look w (child dir (atomic_tmp_name (pid w) cname)) \<noteq> Some Directory"
    and "look w (child dir cname) \<noteq> Some Directory"
  obtains w' where "truncate_canonical_to_empty (child dir cname) w = (Inr (), w')" "faults w' = []"
proof -
  obtain w' where "write_atomic (child dir cname) [] w = (Inr (), w')" "faults w' = []"
    by (rule write_atomic_succeeds[OF assms(1,2) atomic_tmp_path_eq[OF assms(3)] atomic_tmp_neq_self assms(4-6)])
  then show ?thesis using that by (simp add: truncate_canonical_to_empty_def)
qed

lemma publish_index_calm:
  assumes "faults w = []" "dir_ok w dir" "noslash m"
    and plain: "\<forall>l. look w (child dir m) \<noteq> Some (Symlink l)"
    and ok: "stored_index env w (child dir m) \<noteq> None \<or> look w (child dir m) = None"
    and tmp: "not_planted w (child dir (atomic_tmp_name (pid w) m))"
    "look w (child dir (atomic_tmp_name (pid w) m)) \<noteq> Some Directory"
    and enc: "toml_to env (with_entry (base_index env w (child dir m) e) x) \<noteq> None"
  shows "\<exists>j w'. publish_shard_index_update env (child dir m) e x w = (Inr j, w') \<and> faults w' = []"
proof -
  obtain t where t: "toml_to env (with_entry (base_index env w (child dir m) e) x) = Some t" using enc by blast
  have "look w (child dir m) \<noteq> Some Directory"
    using ok plain by (auto simp: stored_index_plain)
  then obtain w' where "write_atomic (child dir m) t w = (Inr (), w')" "faults w' = []"
    by (rule write_atomic_succeeds[OF assms(1,2) atomic_tmp_path_eq[OF assms(3)] atomic_tmp_neq_self tmp])
  then show ?thesis
    using load_index_calm[OF assms(1,2) plain ok] t
    by (auto simp: publish_shard_index_update_def Let_def with_entry_def base_index_def
        split: option.splits)
qed

lemma roll_succeeds_core:
  assumes calm: "faults w = []" and setting: "roll_setting w dir cname e p"
    and here: "look w p = Some (File c)" "c \<noteq> []" and room: "roll_room env w dir cname e c retro n"
  shows "\<exists>x w'. execute_roll env e p retro w = (Inr (Some x), w')"
proof -
  let ?stem = "artifact_stem e" and ?idx = "index_in dir e" and ?sp = "sealed_in dir e n"
  note names = roll_setting_names[OF setting] and path = roll_setting_path[OF setting]
  note neq = roll_setting_cname[OF setting] roll_setting_cname[OF setting, symmetric] name_neq
  have slash: "noslash cname" "noslash ?stem"
    using setting by (simp_all add: roll_setting_def canonical_path_of_def)
  have plain: "\<forall>l. look w ?idx \<noteq> Some (Symlink l)"
    "not_planted w (child dir (atomic_tmp_name (pid w) cname))"
    "not_planted w (child dir (atomic_tmp_name (pid w) (index_name ?stem)))"
    using setting by (simp_all add: roll_setting_def)
  have dir: "dir_ok w dir" and seq: "next_seq_ok env w ?idx n" and vac: "look w ?sp = None"
    using room by (simp_all add: roll_room_def)
  have c1: "reject_canonical_symlink ?stem p w = (Inr (), w)"
    using calm here by (simp add: reject_canonical_symlink_def fs_symlink_metadata_def get_node_def)
  have c2: "read_canonical_content p w = (Inr c, w)"
    using calm here by (simp add: read_canonical_content_def fs_read_def get_follow_ok get_node_def)
  have c3: "next_seal_seq env ?idx w = (Inr n, w)" by (rule next_seal_seq_calm[OF calm dir plain(1) seq])
  have sep: "?sp \<notin> stage_names (pid w) ?sp" unfolding names by (auto simp: neq)
  have "\<exists>t. stage_tmp_path (pid w) ?sp k = child dir t \<and> look w (child dir t) = None" for k
    using room slash by (simp add: roll_room_def stage_path_eq noslash_sealed)
  from publish_succeeds[OF calm dir refl vac sep this, of c]
  obtain w1 where c4: "publish_sealed_shard ?sp c w = (Inr (), w1)" and calm1: "faults w1 = []" by metis
  let ?A = "insert ?sp (range (\<lambda>k. child dir (stage_tmp_name (pid w) (sealed_name ?stem n) k)))"
  have f1: "frame ?A w w1" using sealed.publish_frame[OF c4 sep] unfolding names .
  have ti: "atomic_tmp_name (pid w) (index_name ?stem) \<noteq> stage_tmp_name (pid w) (sealed_name ?stem n) k" for k
    by (rule atomic_tmp_neq_stage) (simp add: neq)
  have off: "child dir cname \<notin> ?A" "?idx \<notin> ?A" "child dir (atomic_tmp_name (pid w) cname) \<notin> ?A"
    "child dir (atomic_tmp_name (pid w) (index_name ?stem)) \<notin> ?A"
    by (auto simp: neq ti)
  have d1: "dir_ok w1 dir" using dir_ok_frame[OF f1] dir by auto
  note l1 = frame_look[OF f1 off(1)] frame_look[OF f1 off(2)] frame_look[OF f1 off(3)] frame_look[OF f1 off(4)]
  note pid1 = frame_pid[OF f1]
  obtain w2 where c5: "truncate_canonical_to_empty (child dir cname) w1 = (Inr (), w2)" and calm2: "faults w2 = []"
    by (rule truncate_calm[OF calm1 d1 slash(1)])
      (use plain(2) room here(1) l1 pid1 path in \<open>simp_all add: not_planted_def roll_room_def\<close>)
  have "tmp_ok w1 (atomic_tmp_path (pid w1) (child dir cname)) (child dir cname)"
    using plain(2) l1 slash pid1 by (simp add: tmp_ok_def atomic_tmp_path_eq not_planted_def neq)
  note f2 = truncate_spec(1)[OF c5 this, unfolded pid1 atomic_tmp_path_eq[OF slash(1)]]
  let ?B = "{child dir cname, child dir (atomic_tmp_name (pid w) cname)}"
  have offB: "?idx \<notin> ?B" "child dir (atomic_tmp_name (pid w) (index_name ?stem)) \<notin> ?B" by (simp_all add: neq)
  have d2: "dir_ok w2 dir" using dir_ok_frame[OF f2] d1 by blast
  have l2: "look w2 ?idx = look w ?idx" "pid w2 = pid w"
    "look w2 (child dir (atomic_tmp_name (pid w) (index_name ?stem))) =
     look w (child dir (atomic_tmp_name (pid w) (index_name ?stem)))"
    using frame_look[OF f2] offB l1 frame_pid[OF f2] pid1 by simp_all
  have st: "stored_index env w2 ?idx = stored_index env w ?idx"
    using plain(1) l2(1) by (simp add: stored_index_plain(1))
  have "\<exists>j w'. publish_shard_index_update env ?idx e (roll_entry env n (sealed_name ?stem n) (length c) retro) w2 = (Inr j, w') \<and> faults w' = []"
  proof (rule publish_index_calm[OF calm2 d2 noslash_index[OF slash(2)]])
    show "stored_index env w2 ?idx \<noteq> None \<or> look w2 ?idx = None"
      using seq st l2(1) by (auto simp: next_seq_ok_def split: option.splits)
    show "toml_to env (with_entry (base_index env w2 ?idx e)
        (roll_entry env n (sealed_name ?stem n) (length c) retro)) \<noteq> None"
      using room base_index_same[OF l2(1) plain(1)] by (simp add: roll_room_def)
  qed (use plain room l2 in \<open>simp_all add: not_planted_def roll_room_def\<close>)
  then obtain j w3 where c6: "publish_shard_index_update env ?idx e
      (roll_entry env n (sealed_name ?stem n) (length c) retro) w2 = (Inr j, w3)" by blast
  show ?thesis
    using c1 c2 c3 c4 c5 c6 here(2) by (simp add: execute_roll_def Let_def names(1,2) path[symmetric])
qed

end
