(* ===== verification/ShardRollClaims.thy ===== *)
theory ShardRollClaims
  imports ShardRollLive
begin

text \<open>
  The guarantees of the roll: nothing is lost, sealed shards are written once, every error says
  what happened, and a success appends one row with a fresh number.
\<close>

section \<open>An example\<close>

definition sample_dir :: path where "sample_dir = [RootDir, Normal ''f'']"

definition sample_canonical :: path where "sample_canonical = child sample_dir ''burst-log.md''"

definition sample_row :: "u32 \<Rightarrow> string \<Rightarrow> u64 \<Rightarrow> shard_index_entry" where
  "sample_row n f len = \<lparr>seq = n, shard_path = f, sealed_at = ''now'', bytes_at_seal = len,
     sealed_retroactively = False, oversized_record = False, is_preamble_shard = False, records = 0\<rparr>"

definition sample_index :: shard_index where
  "sample_index = (fresh_shard_index sample_entry)\<lparr>shards := [sample_row 1 ''burst-log.0001.md'' 3]\<rparr>"

definition sample_index2 :: shard_index where
  "sample_index2 = (fresh_shard_index sample_entry)\<lparr>shards :=
     [sample_row 1 ''burst-log.0001.md'' 3, sample_row 2 ''burst-log.0002.md'' 3]\<rparr>"

definition sample_env :: shard_env where
  "sample_env = \<lparr>toml_to = \<lambda>i. Some (if length (shards i) = 1 then ''s'' else ''ss''),
     toml_from = \<lambda>t. Some (if t = ''s'' then sample_index else sample_index2), utc_now = ''now''\<rparr>"

definition sample_world :: "fault option list \<Rightarrow> bytes \<Rightarrow> world" where
  "sample_world fs c = \<lparr>nodes = [(sample_dir, Directory), (sample_canonical, File c),
       (child sample_dir ''burst-log.0001.md'', File ''old''),
       (child sample_dir ''burst-log.shard-index.toml'', File ''s'')],
     faults = fs, nonces = [], pid = 7\<rparr>"

lemma sample_stem: "stem_of_name ''burst-log.md'' = ''burst-log''" by code_simp

lemma sample_names: "index_name ''burst-log'' = ''burst-log.shard-index.toml''"
  "sealed_name ''burst-log'' 1 = ''burst-log.0001.md''"
  "sealed_name ''burst-log'' 2 = ''burst-log.0002.md''"
  "atomic_tmp_name 7 ''burst-log.md'' = ''.burst-log.md.tmp-7''"
  "atomic_tmp_name 7 (index_name ''burst-log'') = ''.burst-log.shard-index.toml.tmp-7''"
  "atomic_tmp_name 7 ''burst-log.shard-index.toml'' = ''.burst-log.shard-index.toml.tmp-7''"
  by code_simp+

lemma sample_setting:
  "roll_setting (sample_world fs c) sample_dir ''burst-log.md'' sample_entry sample_canonical"
  by (simp add: roll_setting_def canonical_path_of_def sample_canonical_def sample_entry_def noslash_def
      sample_stem not_planted_def look_def sample_world_def sample_names sample_dir_def)

lemma sample_here: "look (sample_world fs c) sample_canonical = Some (File c)"
  by (simp add: look_def sample_world_def sample_canonical_def sample_dir_def)

lemma sample_index_path: "shard_index_path_for sample_canonical ''burst-log'' = child sample_dir ''burst-log.shard-index.toml''"
  unfolding sample_canonical_def shard_index_path_for_def shard_sibling_path_def by (simp add: plain_name_def)

lemma sample_sealed_path: "shard_sibling_path sample_canonical ''burst-log.0002.md'' = child sample_dir ''burst-log.0002.md''"
  unfolding sample_canonical_def sample_names  shard_sibling_path_def by (simp add: plain_name_def)

lemma sample_tmp_path: "atomic_tmp_path 7 sample_canonical = child sample_dir ''.burst-log.md.tmp-7''" by code_simp

lemma hex16_0: "hex16 0 = ''0000000000000000''"
proof -
  have "char_of (48::nat) = CHR ''0''" by code_simp
  then have "hex16 0 = replicate 16 CHR ''0''" by (simp add: hex16_def hex_digit_def map_replicate_const)
  also have "\<dots> = ''0000000000000000''" by code_simp
  finally show ?thesis .
qed

lemma sample_show_pid: "show_nat 7 = ''7''" by code_simp

lemma sample_stage_path: "stage_tmp_path 7 [RootDir, Normal ''f'', Normal ''burst-log.0002.md''] 0 = child [RootDir, Normal ''f''] ''.burst-log.0002.md.tmp-7-0000000000000000''"
  by (simp add: stage_tmp_path_def parent_or_def parent_def file_name_def hex16_0 sample_show_pid plain_name_def)

lemma sample_entry_stem: "artifact_stem sample_entry = ''burst-log''" by (simp add: sample_entry_def)

lemma sample_utf8: "utf8_valid ''s''" by code_simp

lemma sample_reject: "reject_canonical_symlink st sample_canonical (sample_world (None # fs) c) = (Inr (), sample_world fs c)"
  by (simp add: reject_canonical_symlink_def fs_symlink_metadata_def syscall_def next_fault_def sample_world_def get_node_def look_def sample_canonical_def sample_dir_def)

lemma sample_read: "read_canonical_content sample_canonical (sample_world (None # fs) c) = (Inr c, sample_world fs c)"
  by (simp add: read_canonical_content_def fs_read_def syscall_def next_fault_def sample_world_def get_node_follow_plain get_node_def look_def sample_canonical_def sample_dir_def)

lemma sample_next_seq: "next_seal_seq sample_env (child sample_dir ''burst-log.shard-index.toml'') (sample_world (None # fs) c) = (Inr 2, sample_world fs c)"
  by (simp add: next_seal_seq_def load_shard_index_def fs_read_to_string_def sample_utf8 fs_read_def syscall_def next_fault_def sample_world_def get_node_follow_plain get_node_def look_def sample_canonical_def sample_dir_def sample_env_def sample_index_def max_seq_def sample_row_def checked_add_def)

definition sealed_world :: "fault option list \<Rightarrow> bytes \<Rightarrow> world" where
  "sealed_world fs c = put (child sample_dir ''burst-log.0002.md'') (File c) (sample_world fs c)"

lemma sealed_world_fields: "faults (sealed_world fs c) = fs" "pid (sealed_world fs c) = 7" by (simp_all add: sealed_world_def sample_world_def)

lemma sample_publish: "publish_sealed_shard (child sample_dir ''burst-log.0002.md'') c (sample_world (None # None # None # None # None # fs) c) = (Inr (), sealed_world fs c)"
  by (simp add: publish_sealed_shard_def Let_def write_exclusive_def stage_temp_file_def random_nonce_def stage_temp_file_with_nonce_def sample_stage_path fs_create_new_def
    syscall_def next_fault_def sample_world_def get_node_def look_def sample_canonical_def sample_dir_def dir_present_def parent_or_def parent_def fs_write_all_def fs_sync_all_def publish_staged_temp_file_def
    put_def del_def fs_hard_link_def fs_remove_file_def sealed_world_def)

lemma sample_truncate_fault: "truncate_canonical_to_empty sample_canonical (sealed_world (Some (Fault 0) # fs) c) =
   (Inl (TruncateFailedAfterSeal ''burst-log'' [] OtherIo), snd (fs_remove_file (child sample_dir ''.burst-log.md.tmp-7'') (sealed_world fs c)))"
proof -
  have "stem_from_canonical_path sample_canonical = ''burst-log''" by code_simp
  moreover have "(sealed_world (Some (Fault 0) # fs) c)\<lparr>faults := fs\<rparr> = sealed_world fs c"
    by (simp add: sealed_world_def put_def sample_world_def)
  ultimately show ?thesis
  by (simp add: truncate_canonical_to_empty_def write_atomic_def Let_def sealed_world_fields sample_tmp_path write_and_sync_temp_def fs_create_def syscall_def next_fault_def)
qed

lemma sample_truncate_fails: "fst (execute_roll sample_env sample_entry sample_canonical False
     (sample_world (replicate 8 None @ [Some (Fault 0)]) ''abc'')) =
   Inl (TruncateFailedAfterSeal ''burst-log'' ''burst-log.0002.md'' OtherIo)"
  by (simp add: execute_roll_def sample_entry_stem sample_index_path sample_reject sample_read sample_next_seq sample_sealed_path Let_def sample_publish sample_truncate_fault sample_names eval_nat_numeral)

section \<open>Nothing is lost\<close>

text \<open>
  Claim C1.  Whatever the file system does to it (any fault schedule, a crash included), a roll keeps
  every byte of the canonical file: afterwards the canonical file still holds all of its content,
  or it is empty and a sealed shard next to it holds exactly that content.
\<close>

theorem roll_loses_no_byte:
  assumes run: "execute_roll env e p retro w = (r, w')"
    and setting: "roll_setting w dir cname e p" and here: "look w p = Some (File c)"
  shows "look w' p = Some (File c) \<or>
    look w' p = Some (File []) \<and> (\<exists>n. look w' (sealed_in dir e n) = Some (File c))"
proof -
  obtain n where "roll_outcome env e dir cname c retro n r w w'"
    using roll_outcome_core[OF assms] by blast
  then show ?thesis
    using here roll_setting_path[OF setting]
    by (auto simp: roll_outcome_def roll_error_outcome_def Let_def
        split: sum.splits option.splits shard_roll_error.splits)
qed

theorem roll_loses_no_byte_witness:
  "let w' = snd (execute_roll sample_env sample_entry sample_canonical False
       (sample_world [None, None, None, None, Some (Fault 1)] ''abc'')) in
   look w' sample_canonical = Some (File ''abc'') \<or>
   look w' sample_canonical = Some (File []) \<and> (\<exists>n. look w' (sealed_in sample_dir sample_entry n) = Some (File ''abc''))"
  unfolding Let_def
  by (rule roll_loses_no_byte[OF prod.collapse[symmetric] sample_setting sample_here])

definition roll_temporary :: "world \<Rightarrow> path \<Rightarrow> string \<Rightarrow> shard_entry \<Rightarrow> path \<Rightarrow> bool" where
  "roll_temporary w dir cname e q \<longleftrightarrow>
     (\<exists>name. q = child dir name \<and> (name = atomic_tmp_name (pid w) cname \<or>
        name = atomic_tmp_name (pid w) (index_name (artifact_stem e)) \<or>
        (\<exists>n k. name = stage_tmp_name (pid w) (sealed_name (artifact_stem e) n) k)))"

text \<open>
  Claim C4.  Sealed shards are written once: under any fault schedule, a roll leaves every sealed shard
  that already has content, and every other file that is not the canonical file, the index, or a
  temporary name of this process, exactly as it was.
\<close>

theorem roll_write_once:
  assumes run: "execute_roll env e p retro w = (r, w')"
    and setting: "roll_setting w dir cname e p" and here: "look w p = Some (File c)"
    and q: "q \<noteq> p" "q \<noteq> index_in dir e" "\<not> roll_temporary w dir cname e q"
    and occ: "\<not> shard_vacant (look w q) \<or> (\<forall>n. q \<noteq> sealed_in dir e n)"
  shows "look w' q = look w q"
proof -
  obtain n where f: "frame (roll_files dir cname e (pid w) n) w w'"
    and kept: "\<not> shard_vacant (look w (sealed_in dir e n)) \<longrightarrow>
      look w' (sealed_in dir e n) = look w (sealed_in dir e n)"
    using roll_outcome_core[OF run setting here] by blast
  show ?thesis
  proof (cases "q = sealed_in dir e n")
    case True
    then show ?thesis using kept occ by blast
  next
    case False
    then have "q \<notin> roll_files dir cname e (pid w) n"
      using q roll_setting_path[OF setting] by (auto simp: roll_files_def roll_temporary_def)
    with f show ?thesis by (rule frame_look)
  qed
qed

lemma sample_not_temporary: "\<not> roll_temporary (sample_world fs c) sample_dir ''burst-log.md'' sample_entry
    (child sample_dir ''burst-log.0001.md'')"
  by (auto simp: roll_temporary_def atomic_tmp_name_def stage_tmp_name_def)

theorem roll_write_once_witness:
  "look (snd (execute_roll sample_env sample_entry sample_canonical False (sample_world [None] ''abc'')))
     (child sample_dir ''burst-log.0001.md'') = Some (File ''old'')"
proof -
  let ?w = "sample_world [None] ''abc''" and ?q = "child sample_dir ''burst-log.0001.md''"
  have l: "look ?w ?q = Some (File ''old'')"
    by (simp add: look_def sample_world_def sample_canonical_def sample_dir_def)
  have q: "?q \<noteq> sample_canonical" "?q \<noteq> index_in sample_dir sample_entry"
    by (simp_all add: sample_canonical_def sample_entry_def sample_names)
  have "\<not> shard_vacant (look ?w ?q) \<or> (\<forall>n. ?q \<noteq> sealed_in sample_dir sample_entry n)"
    unfolding l by (simp add: shard_vacant_def)
  from roll_write_once[OF prod.collapse[symmetric] sample_setting sample_here q sample_not_temporary this]
  show ?thesis by (simp add: l)
qed

section \<open>What an error means\<close>

text \<open>
  Claim C2.  The error of a failed roll says exactly how far it got, for every fault schedule.
  A seal failure or an occupied shard name: the canonical file is intact.  E-SHD-006: the
  canonical file is intact and the named shard is a copy of it.  E-SHD-007: the canonical file is
  empty and the named shard holds its content.  No failure changes the index, each error names
  the entry's stem and the shard, and no other error occurs on a regular file.
\<close>

theorem roll_error_meaning:
  assumes run: "execute_roll env e p retro w = (Inl err, w')"
    and setting: "roll_setting w dir cname e p" and here: "look w p = Some (File c)"
  shows "look w' (index_in dir e) = look w (index_in dir e) \<and>
    (case err of
       SealWriteFailed s _ \<Rightarrow> s = artifact_stem e \<and> look w' p = Some (File c)
     | SealedShardAlreadyExists s f \<Rightarrow> s = artifact_stem e \<and> look w' p = Some (File c) \<and>
         (\<exists>n. f = sealed_name s n)
     | TruncateFailedAfterSeal s f _ \<Rightarrow> s = artifact_stem e \<and> look w' p = Some (File c) \<and>
         look w' (child dir f) = Some (File c)
     | IndexPublishFailedAfterTruncate s f _ \<Rightarrow> s = artifact_stem e \<and> look w' p = Some (File []) \<and>
         look w' (child dir f) = Some (File c)
     | _ \<Rightarrow> False)"
proof -
  obtain n where "roll_outcome env e dir cname c retro n (Inl err) w w'"
    using roll_outcome_core[OF assms] by blast
  then show ?thesis
    using roll_setting_path[OF setting]
    by (auto simp: roll_outcome_def roll_error_outcome_def Let_def split: shard_roll_error.splits)
qed

theorem roll_error_meaning_witness:
  "\<exists>w'. execute_roll sample_env sample_entry sample_canonical False
       (sample_world (replicate 8 None @ [Some (Fault 0)]) ''abc'') =
     (Inl (TruncateFailedAfterSeal ''burst-log'' ''burst-log.0002.md'' OtherIo), w') \<and>
   look w' sample_canonical = Some (File ''abc'') \<and>
   look w' (child sample_dir ''burst-log.0002.md'') = Some (File ''abc'')"
proof -
  obtain w' where run: "execute_roll sample_env sample_entry sample_canonical False
       (sample_world (replicate 8 None @ [Some (Fault 0)]) ''abc'') =
     (Inl (TruncateFailedAfterSeal ''burst-log'' ''burst-log.0002.md'' OtherIo), w')"
    using sample_truncate_fails by (metis prod.collapse)
  from roll_error_meaning[OF this sample_setting sample_here] run show ?thesis by auto
qed

section \<open>What a success means\<close>

text \<open>
  Claim C3.  A roll that reports a new entry has sealed exactly the canonical content under the
  entry's name, emptied the canonical file, and stored an index that is the old one with that
  entry appended; the entry's number is larger than every number in the old index, so ascending
  numbers stay ascending.  The index codec is assumed to read back what it wrote.
\<close>

theorem roll_success_meaning:
  assumes run: "execute_roll env e p retro w = (Inr (Some x), w')"
    and setting: "roll_setting w dir cname e p" and here: "look w p = Some (File c)"
    and old: "old = base_index env w (index_in dir e) e" and new: "new = with_entry old x"
    and codec: "\<forall>t. toml_to env new = Some t \<longrightarrow> utf8_valid t \<and> toml_from env t = Some new"
  shows "look w' (child dir (shard_path x)) = Some (File c) \<and> look w' p = Some (File []) \<and>
    stored_index env w' (index_in dir e) = Some new \<and> bytes_at_seal x = of_nat (length c) \<and>
    shard_path x = sealed_name (artifact_stem e) (seq x) \<and>
    (\<forall>y \<in> set (shards old). seq y < seq x) \<and>
    (strictly_ascending (map seq (shards old)) \<longrightarrow> strictly_ascending (map seq (shards new)))"
proof -
  let ?idx = "index_in dir e"
  obtain n where out: "roll_outcome env e dir cname c retro n (Inr (Some x)) w w'"
    using roll_outcome_core[OF run setting here] by blast
  then obtain t where x: "x = roll_entry env n (sealed_name (artifact_stem e) n) (length c) retro"
    and seq: "next_seq_ok env w ?idx n" and t: "toml_to env new = Some t" "look w' ?idx = Some (File t)"
    and files: "look w' p = Some (File [])" "look w' (sealed_in dir e n) = Some (File c)"
    using roll_setting_path[OF setting] by (auto simp: roll_outcome_def old new)
  have "stored_index env w' ?idx = Some new"
    using t codec by (simp add: stored_index_plain)
  moreover have fresh: "\<forall>y \<in> set (shards old). seq y < n"
    using next_seq_fresh[OF seq] by (simp add: old)
  moreover have "strictly_ascending (map seq (shards old)) \<longrightarrow> strictly_ascending (map seq (shards new))"
    using fresh by (auto simp: new with_entry_def strictly_ascending_iff sorted_wrt_append x roll_entry_def)
  ultimately show ?thesis using files by (simp add: x roll_entry_def)
qed

lemma sample_stored: "stored_index sample_env (sample_world fs c) (index_in sample_dir sample_entry) = Some sample_index"
proof -
  have l: "look (sample_world fs c) (index_in sample_dir sample_entry) = Some (File ''s'')"
    by (simp add: sample_entry_stem sample_names look_def sample_world_def sample_canonical_def sample_dir_def)
  show ?thesis unfolding stored_index_plain(1)[of "sample_world fs c", unfolded l, simplified]
    by (simp add: l sample_utf8 sample_env_def stored_index_plain)
qed

lemma sample_new_index: "length c = 3 \<Longrightarrow> with_entry (base_index sample_env (sample_world fs c) (index_in sample_dir sample_entry) sample_entry)
    (roll_entry sample_env 2 ''burst-log.0002.md'' (length c) False) = sample_index2"
proof -
  have "utc_now sample_env = ''now''" by (simp add: sample_env_def)
  then show "length c = 3 \<Longrightarrow> ?thesis"
    by (simp add: base_index_def sample_stored with_entry_def sample_index_def sample_index2_def roll_entry_def
        sample_row_def)
qed

lemma sample_room: "roll_room sample_env (sample_world [] ''abc'') sample_dir ''burst-log.md'' sample_entry ''abc'' False 2"
proof -
  have "next_seq_ok sample_env (sample_world [] ''abc'') (index_in sample_dir sample_entry) 2"
    by (simp add: next_seq_ok_def sample_stored sample_index_def sample_row_def max_seq_def)
  then show ?thesis
    by (auto simp: roll_room_def dir_ok_def sample_entry_stem sample_names look_def sample_world_def
        sample_canonical_def stage_tmp_name_def sample_dir_def sample_env_def)
qed

text \<open>
  Claim C7.  A roll acts when it can: without faults, with the next shard name free and the
  index readable, the roll of a non-empty canonical file succeeds with a new entry.
\<close>

theorem roll_succeeds:
  assumes "faults w = []" "roll_setting w dir cname e p" "look w p = Some (File c)" "c \<noteq> []"
    and "roll_room env w dir cname e c retro n"
  shows "\<exists>x w'. execute_roll env e p retro w = (Inr (Some x), w')"
  using assms by (rule roll_succeeds_core)

theorem roll_succeeds_witness:
  "\<exists>x w'. execute_roll sample_env sample_entry sample_canonical False (sample_world [] ''abc'') =
     (Inr (Some x), w')"
proof -
  have "faults (sample_world [] ''abc'') = []" by (simp add: sample_world_def)
  from roll_succeeds[OF this sample_setting sample_here _ sample_room] show ?thesis by simp
qed

theorem roll_success_meaning_witness:
  "\<exists>x w'. execute_roll sample_env sample_entry sample_canonical False (sample_world [] ''abc'') =
     (Inr (Some x), w') \<and> look w' sample_canonical = Some (File []) \<and> seq x = 2 \<and>
     look w' (child sample_dir ''burst-log.0002.md'') = Some (File ''abc'') \<and>
     stored_index sample_env w' (index_in sample_dir sample_entry) = Some sample_index2"
proof -
  let ?w = "sample_world [] ''abc''" and ?i = "index_in sample_dir sample_entry"
  have calm: "faults ?w = []" by (simp add: sample_world_def)
  obtain x w' where run: "execute_roll sample_env sample_entry sample_canonical False ?w = (Inr (Some x), w')"
    using roll_succeeds_core[OF calm sample_setting sample_here _ sample_room] by auto
  obtain n where out: "roll_outcome sample_env sample_entry sample_dir ''burst-log.md'' ''abc'' False n
      (Inr (Some x)) ?w w'"
    using roll_outcome_core[OF run sample_setting sample_here] by blast
  then have "unat n = 2"
    by (simp add: roll_outcome_def next_seq_ok_def sample_stored sample_index_def sample_row_def max_seq_def)
  then have n: "n = 2" by (simp add: word_unat_eq_iff)
  have x: "x = roll_entry sample_env 2 ''burst-log.0002.md'' (length ''abc'') False"
    using out by (simp add: roll_outcome_def n sample_entry_stem sample_names)
  have idx: "with_entry (base_index sample_env ?w ?i sample_entry) x = sample_index2"
    unfolding x by (rule sample_new_index) simp
  have "\<forall>t. toml_to sample_env sample_index2 = Some t \<longrightarrow> utf8_valid t \<and> toml_from sample_env t = Some sample_index2"
  proof -
    have "utf8_valid ''ss''" by code_simp
    then show ?thesis by (simp add: sample_env_def sample_index2_def)
  qed
  from roll_success_meaning[OF run sample_setting sample_here refl idx[symmetric] this] run x
  show ?thesis by (auto simp: roll_entry_def)
qed

end
