(* ===== verification/ShardHeal.thy ===== *)
theory ShardHeal
  imports ShardRollOutcome
begin

text \<open>
  Recovery after an interrupted roll: finding shards the index does not know, resuming a roll that
  stopped between seal and truncate, and adding the missing index rows.  Directory entries are
  read one call at a time, so the schedule can fail any of them.
\<close>

section \<open>Candidates\<close>

text \<open>The number in a file name of the form \<^verbatim>\<open><stem>.<at least four digits>.md\<close>.\<close>

definition candidate_seq :: "string \<Rightarrow> string \<Rightarrow> u32 option" where
  "candidate_seq stem name =
     (case strip_prefix (stem @ ''.'') name of None \<Rightarrow> None
      | Some rest \<Rightarrow>
          (case strip_suffix ''.md'' rest of None \<Rightarrow> None
           | Some seq_str \<Rightarrow>
               if length seq_str < 4 \<or> \<not> list_all is_ascii_digit seq_str then None
               else parse_u32 seq_str))"

definition fs_dir_next :: "world \<Rightarrow> (io_kind + unit) \<times> world" where
  "fs_dir_next = syscall (\<lambda>w. (Inr (), w))"

definition indexed_seqs :: "shard_index option \<Rightarrow> u32 list" where
  "indexed_seqs index = (case index of None \<Rightarrow> [] | Some i \<Rightarrow> map seq (shards i))"

fun plausible_scan :: "path \<Rightarrow> string \<Rightarrow> u32 list \<Rightarrow> string list \<Rightarrow> world \<Rightarrow> (io_kind + bool) \<times> world" where
  "plausible_scan dir stem indexed [] w = (Inr False, w)"
| "plausible_scan dir stem indexed (name # rest) w =
     (case fs_dir_next w of
        (Inl e, w) \<Rightarrow> (Inl e, w)
      | (Inr _, w) \<Rightarrow>
          (case candidate_seq stem name of
             None \<Rightarrow> plausible_scan dir stem indexed rest w
           | Some n \<Rightarrow>
               if n \<in> set indexed then plausible_scan dir stem indexed rest w
               else (case fs_symlink_metadata (dir @ [Normal name]) w of (meta, w) \<Rightarrow>
                 if (case meta of Inl _ \<Rightarrow> False | Inr m \<Rightarrow> node_len m = 0)
                 then plausible_scan dir stem indexed rest w
                 else (Inr True, w))))"

definition self_heal_recovery_plausible ::
  "shard_env \<Rightarrow> shard_entry \<Rightarrow> path \<Rightarrow> world \<Rightarrow> (io_kind + bool) \<times> world"
where
  "self_heal_recovery_plausible env e canonical_path w =
     (let index_path = shard_index_path_for canonical_path (artifact_stem e) in
      case load_shard_index env index_path w of
        (Inl k, w) \<Rightarrow> (Inl k, w)
      | (Inr index, w) \<Rightarrow>
          let dir = parent_or [CurDir] canonical_path in
          (case fs_read_dir dir w of
             (Inl k, w) \<Rightarrow> (case is_genuinely_missing k dir w of (missing, w) \<Rightarrow>
               if missing then (Inr False, w) else (Inl k, w))
           | (Inr names, w) \<Rightarrow> plausible_scan dir (artifact_stem e) (indexed_seqs index) names w))"

section \<open>Resuming from the truncate\<close>

definition healed_entry :: "shard_env \<Rightarrow> shard_entry \<Rightarrow> u32 \<Rightarrow> string \<Rightarrow> u64 \<Rightarrow> shard_index_entry" where
  "healed_entry env e n filename len =
     \<lparr>seq = n, shard_path = filename, sealed_at = utc_now env, bytes_at_seal = len,
      sealed_retroactively = (len > shard_cap_bytes e), oversized_record = False,
      is_preamble_shard = False, records = 0\<rparr>"

definition self_heal_resume_from_truncate ::
  "shard_env \<Rightarrow> shard_entry \<Rightarrow> path \<Rightarrow> world \<Rightarrow> (shard_roll_error + shard_index_entry option) \<times> world"
where
  "self_heal_resume_from_truncate env e canonical_path w =
     (let stem = artifact_stem e in
      case reject_canonical_symlink stem canonical_path w of
        (Inl err, w) \<Rightarrow> (Inl err, w)
      | (Inr _, w) \<Rightarrow>
     (let index_path = shard_index_path_for canonical_path stem in
      case next_seal_seq env index_path w of
        (Inl source, w) \<Rightarrow> (Inl (SealWriteFailed stem source), w)
      | (Inr next_seq, w) \<Rightarrow>
     (let sealed_filename = sealed_name stem next_seq;
          sealed_path = shard_sibling_path canonical_path sealed_filename;
          failed = (\<lambda>source. Inl (TruncateFailedAfterSeal stem sealed_filename source)) in
      case fs_read sealed_path w of
        (Inl k, w) \<Rightarrow> (case is_genuinely_missing k sealed_path w of (missing, w) \<Rightarrow>
          if missing then (Inr None, w) else (failed k, w))
      | (Inr sealed_bytes, w) \<Rightarrow>
      if sealed_bytes = [] then (Inr None, w)
      else
     (case fs_read canonical_path w of
        (Inl k, w) \<Rightarrow> (case is_genuinely_missing k canonical_path w of (missing, w) \<Rightarrow>
          if missing then (Inr None, w) else (failed k, w))
      | (Inr current_bytes, w) \<Rightarrow>
      if sealed_bytes \<noteq> current_bytes then (Inr None, w)
      else
     (case truncate_canonical_to_empty canonical_path w of
        (Inl err, w) \<Rightarrow> (Inl (reattribute_roll_error err stem sealed_filename), w)
      | (Inr _, w) \<Rightarrow>
     (let new_entry = healed_entry env e next_seq sealed_filename (of_nat (length sealed_bytes)) in
      case publish_shard_index_update env index_path e new_entry w of
        (Inl err, w) \<Rightarrow> (Inl (reattribute_roll_error err stem sealed_filename), w)
      | (Inr _, w) \<Rightarrow> (Inr (Some new_entry), w)))))))"

section \<open>Adding missing index rows\<close>

fun reconcile_scan ::
  "path \<Rightarrow> string \<Rightarrow> u32 list \<Rightarrow> string list \<Rightarrow> world \<Rightarrow> (io_kind + (u32 \<times> string \<times> u64) list) \<times> world"
where
  "reconcile_scan dir stem indexed [] w = (Inr [], w)"
| "reconcile_scan dir stem indexed (name # rest) w =
     (case fs_dir_next w of
        (Inl e, w) \<Rightarrow> (Inl e, w)
      | (Inr _, w) \<Rightarrow>
          (case candidate_seq stem name of
             None \<Rightarrow> reconcile_scan dir stem indexed rest w
           | Some n \<Rightarrow>
               if n \<in> set indexed then reconcile_scan dir stem indexed rest w
               else (case fs_symlink_metadata (dir @ [Normal name]) w of
                   (Inl e, w) \<Rightarrow> (Inl e, w)
                 | (Inr m, w) \<Rightarrow>
                     if node_len m = 0 then reconcile_scan dir stem indexed rest w
                     else (case reconcile_scan dir stem indexed rest w of
                         (Inl e, w) \<Rightarrow> (Inl e, w)
                       | (Inr rows, w) \<Rightarrow> (Inr ((n, name, of_nat (node_len m)) # rows), w)))))"

fun reconcile_append ::
  "shard_env \<Rightarrow> path \<Rightarrow> shard_entry \<Rightarrow> (u32 \<times> string \<times> u64) list \<Rightarrow> world \<Rightarrow>
   (shard_roll_error + shard_index_entry list) \<times> world"
where
  "reconcile_append env index_path e [] w = (Inr [], w)"
| "reconcile_append env index_path e ((n, filename, len) # rows) w =
     (let new_entry = healed_entry env e n filename len in
      case publish_shard_index_update env index_path e new_entry w of
        (Inl err, w) \<Rightarrow> (Inl (reattribute_roll_error err (artifact_stem e) filename), w)
      | (Inr _, w) \<Rightarrow>
          (case reconcile_append env index_path e rows w of
             (Inl err, w) \<Rightarrow> (Inl err, w)
           | (Inr appended, w) \<Rightarrow> (Inr (new_entry # appended), w)))"

definition self_heal_reconcile_missing_index_entries ::
  "shard_env \<Rightarrow> shard_entry \<Rightarrow> path \<Rightarrow> world \<Rightarrow> (shard_roll_error + shard_index_entry list) \<times> world"
where
  "self_heal_reconcile_missing_index_entries env e canonical_path w =
     (let index_path = shard_index_path_for canonical_path (artifact_stem e);
          to_error = (\<lambda>source. Inl (IndexPublishFailedAfterTruncate (artifact_stem e) [] source)) in
      case load_shard_index env index_path w of
        (Inl k, w) \<Rightarrow> (to_error k, w)
      | (Inr index, w) \<Rightarrow>
          let dir = parent_or [CurDir] canonical_path in
          (case fs_read_dir dir w of
             (Inl k, w) \<Rightarrow> (to_error k, w)
           | (Inr names, w) \<Rightarrow>
               (case reconcile_scan dir (artifact_stem e) (indexed_seqs index) names w of
                  (Inl k, w) \<Rightarrow> (to_error k, w)
                | (Inr unindexed, w) \<Rightarrow>
                    reconcile_append env index_path e (sort_key fst unindexed) w)))"

section \<open>The wired sequence\<close>

definition run_self_heal_if_plausible ::
  "shard_env \<Rightarrow> shard_entry \<Rightarrow> path \<Rightarrow> world \<Rightarrow> (shard_roll_error + unit) \<times> world"
where
  "run_self_heal_if_plausible env e canonical_path w =
     (case self_heal_recovery_plausible env e canonical_path w of
        (Inl source, w) \<Rightarrow> (Inl (SealWriteFailed (artifact_stem e) source), w)
      | (Inr plausible, w) \<Rightarrow>
          if \<not> plausible then (Inr (), w)
          else (case self_heal_resume_from_truncate env e canonical_path w of
              (Inl err, w) \<Rightarrow> (Inl err, w)
            | (Inr (Some _), w) \<Rightarrow> (Inr (), w)
            | (Inr None, w) \<Rightarrow>
                (case self_heal_reconcile_missing_index_entries env e canonical_path w of
                   (Inl err, w) \<Rightarrow> (Inl err, w)
                 | (Inr _, w) \<Rightarrow> (Inr (), w))))"

definition reconcile_post_write_replace_all_overcap ::
  "shard_env \<Rightarrow> shard_entry \<Rightarrow> path \<Rightarrow> world \<Rightarrow> (shard_roll_error + shard_index_entry option) \<times> world"
where
  "reconcile_post_write_replace_all_overcap env e canonical_path w =
     (case reject_canonical_symlink (artifact_stem e) canonical_path w of
        (Inl err, w) \<Rightarrow> (Inl err, w)
      | (Inr _, w) \<Rightarrow>
          (case fs_metadata canonical_path w of
             (Inl source, w) \<Rightarrow> (Inl (SealWriteFailed (artifact_stem e) source), w)
           | (Inr meta, w) \<Rightarrow>
               if of_nat (node_len meta) \<le> shard_cap_bytes e then (Inr None, w)
               else (case run_self_heal_if_plausible env e canonical_path w of
                   (Inl err, w) \<Rightarrow> (Inl err, w)
                 | (Inr _, w) \<Rightarrow> execute_roll env e canonical_path True w)))"

definition reconcile_leading_probe_backstop ::
  "shard_env \<Rightarrow> shard_entry \<Rightarrow> path \<Rightarrow> world \<Rightarrow> (shard_roll_error + shard_index_entry option) \<times> world"
where
  "reconcile_leading_probe_backstop env e canonical_path w = execute_roll env e canonical_path True w"

end
