(* ===== verification/ShardHealSafety.thy ===== *)
theory ShardHealSafety
  imports ShardHeal ShardRollLive
begin

text \<open>
  What the recovery steps do under every fault schedule, and that they finish the work of an
  interrupted roll when the faults are over.
\<close>

section \<open>Resuming from the truncate\<close>

definition sealed_not_linked :: "world \<Rightarrow> path \<Rightarrow> shard_entry \<Rightarrow> bool" where
  "sealed_not_linked w dir e \<longleftrightarrow> (\<forall>n l. look w (sealed_in dir e n) \<noteq> Some (Symlink l))"

definition resume_outcome ::
  "shard_env \<Rightarrow> shard_entry \<Rightarrow> path \<Rightarrow> string \<Rightarrow> bytes \<Rightarrow> u32 \<Rightarrow>
   shard_roll_error + shard_index_entry option \<Rightarrow> world \<Rightarrow> world \<Rightarrow> bool"
where
  "resume_outcome env e dir cname c n r w w' \<longleftrightarrow>
     (let copied = (c \<noteq> [] \<and> look w (sealed_in dir e n) = Some (File c)) in
      case r of
        Inr None \<Rightarrow> look w' = look w
      | Inr (Some x) \<Rightarrow> copied \<and> next_seq_ok env w (index_in dir e) n \<and>
          x = healed_entry env e n (sealed_name (artifact_stem e) n) (of_nat (length c)) \<and>
          look w' (child dir cname) = Some (File []) \<and>
          (\<exists>t. toml_to env (with_entry (base_index env w (index_in dir e) e) x) = Some t \<and>
               look w' (index_in dir e) = Some (File t))
      | Inl err \<Rightarrow> look w' (index_in dir e) = look w (index_in dir e) \<and>
          (look w' (child dir cname) = Some (File c) \<or>
           copied \<and> look w' (child dir cname) = Some (File [])))"

definition resume_files :: "path \<Rightarrow> string \<Rightarrow> shard_entry \<Rightarrow> nat \<Rightarrow> path set" where
  "resume_files dir cname e process =
     {child dir cname, index_in dir e, child dir (atomic_tmp_name process cname),
      child dir (atomic_tmp_name process (index_name (artifact_stem e)))}"

lemma fs_read_plain:
  assumes "fs_read p w = (Inr c, w')" "\<forall>t. look w p \<noteq> Some (Symlink t)"
  shows "look w p = Some (File c)"
  using fs_read_content[OF assms(1)] assms(2) by blast

lemma resume_core:
  assumes run: "self_heal_resume_from_truncate env e p w = (r, w')"
    and setting: "roll_setting w dir cname e p" and here: "look w p = Some (File c)"
    and plain_sealed: "sealed_not_linked w dir e"
  shows "\<exists>n. frame (resume_files dir cname e (pid w)) w w' \<and> resume_outcome env e dir cname c n r w w'"
proof -
  let ?stem = "artifact_stem e" and ?idx = "index_in dir e"
  let ?tc = "child dir (atomic_tmp_name (pid w) cname)"
  let ?ti = "child dir (atomic_tmp_name (pid w) (index_name (artifact_stem e)))"
  let ?S = "resume_files dir cname e (pid w)"
  note names = roll_setting_names[OF setting] and path = roll_setting_path[OF setting]
  note neq = roll_setting_cname[OF setting] roll_setting_cname[OF setting, symmetric] name_neq
  note tmp_name = names(3)[unfolded path]
  have plain: "\<forall>l. look w ?idx \<noteq> Some (Symlink l)" "not_planted w ?tc" "not_planted w ?ti"
    using setting by (simp_all add: roll_setting_def)
  note defs = self_heal_resume_from_truncate_def Let_def names(1,2)
  have stop: ?thesis if "frame {} w w'" "r = Inr None \<or> isl r"
    using frame_mono[OF that(1)] that(2) here path frame_empty_look[OF that(1)]
    by (auto simp: resume_outcome_def isl_def)
  obtain r1 w1 where c1: "reject_canonical_symlink ?stem p w = (r1, w1)" by fastforce
  note s1 = reject_canonical_symlink_spec[OF c1]
  have r1: "r1 = Inr ()" using s1(2) here by (cases r1) auto
  obtain r2 w2 where c2: "next_seal_seq env ?idx w1 = (r2, w2)" by fastforce
  note s2 = next_seal_seq_spec[OF c2]
  have f2: "frame {} w w2" using frame_trans[OF s1(1) s2(1)] .
  show ?thesis
  proof (cases r2)
    case (Inl k)
    then have "w' = w2" "isl r" using run c1 c2 r1 by (auto simp: defs)
    then show ?thesis using stop f2 by blast
  next
    case (Inr n)
    let ?sp = "sealed_in dir e n" and ?name = "sealed_name ?stem n"
    have seq_ok: "next_seq_ok env w ?idx n"
      using s2(2)[OF Inr] stored_index_plain(2)[OF plain(1)]
      by (auto simp: next_seq_ok_def stored_index_frame[OF s1(1)] split: option.splits)
    obtain r3 w3 where c3: "fs_read ?sp w2 = (r3, w3)" by fastforce
    have f3: "frame {} w w3" using frame_trans[OF f2 fs_read_frame[OF c3]] .
    have miss: "frame {} w v" if "is_genuinely_missing k q u = (b, v)" "frame {} w u" for k q u b v
      using frame_trans[OF that(2) is_genuinely_missing_frame[OF that(1)]] .
    show ?thesis
    proof (cases r3)
      case (Inl k)
      obtain b v where g: "is_genuinely_missing k ?sp w3 = (b, v)" by fastforce
      have "w' = v" "r = Inr None \<or> isl r"
        using run c1 c2 r1 \<open>r2 = Inr n\<close> c3 Inl g by (auto simp: defs split: if_splits)
      then show ?thesis using stop miss[OF g f3] by blast
    next
      case (Inr sb)
      show ?thesis
      proof (cases "sb = []")
        case True
        then have "w' = w3" "r = Inr None" using run c1 c2 r1 \<open>r2 = Inr n\<close> c3 Inr by (auto simp: defs)
        then show ?thesis using stop f3 by blast
      next
        case ne: False
        have sealed: "look w ?sp = Some (File sb)"
          using fs_read_plain[OF c3[unfolded Inr]] plain_sealed
          by (simp add: frame_empty_look[OF f2] sealed_not_linked_def)
        obtain r4 w4 where c4: "fs_read p w3 = (r4, w4)" by fastforce
        have f4: "frame {} w w4" using frame_trans[OF f3 fs_read_frame[OF c4]] .
        show ?thesis
        proof (cases r4)
          case (Inl k)
          obtain b v where g: "is_genuinely_missing k p w4 = (b, v)" by fastforce
          have "w' = v" "r = Inr None \<or> isl r"
            using run c1 c2 r1 \<open>r2 = Inr n\<close> c3 \<open>r3 = Inr sb\<close> ne c4 Inl g by (auto simp: defs split: if_splits)
          then show ?thesis using stop miss[OF g f4] by blast
        next
          case (Inr cb)
          have cb: "cb = c"
            using fs_read_plain[OF c4[unfolded Inr]] here by (simp add: frame_empty_look[OF f3])
          show ?thesis
          proof (cases "sb = cb")
            case False
            then have "w' = w4" "r = Inr None"
              using run c1 c2 r1 \<open>r2 = Inr n\<close> c3 \<open>r3 = Inr sb\<close> ne c4 Inr by (auto simp: defs)
            then show ?thesis using stop f4 by blast
          next
            case same: True
            note pre = c1 c2 r1 \<open>r2 = Inr n\<close> c3 \<open>r3 = Inr sb\<close> ne c4 \<open>r4 = Inr cb\<close> same
            obtain r5 w5 where c5: "truncate_canonical_to_empty p w4 = (r5, w5)" by fastforce
            note eq4 = frame_empty_look[OF f4] and pid4 = frame_pid[OF f4]
            have "tmp_ok w4 (atomic_tmp_path (pid w4) p) p"
              unfolding path tmp_name pid4 using plain(2) by (simp add: tmp_ok_def not_planted_def eq4 neq)
            note s5 = truncate_spec[OF c5 this, unfolded path tmp_name pid4 eq4]
            have f5: "frame {child dir cname, ?tc} w w5" by (rule frame_step[OF f4 s5(1)]) auto
            have off5: "?idx \<notin> {child dir cname, ?tc}" "?ti \<notin> {child dir cname, ?tc}" by (simp_all add: neq)
            have sub: "{child dir cname, ?tc} \<subseteq> ?S" by (auto simp: resume_files_def)
            show ?thesis
            proof (cases r5)
              case (Inl err)
              then have "w' = w5" "isl r" using run pre c5 by (auto simp: defs)
              then show ?thesis
                using frame_mono[OF f5 sub] frame_look[OF f5 off5(1)] s5(3)[OF Inl] here path
                by (auto simp: resume_outcome_def isl_def)
            next
              case (Inr u)
              let ?x = "healed_entry env e n ?name (of_nat (length c))"
              obtain r6 w6 where c6: "publish_shard_index_update env ?idx e ?x w5 = (r6, w6)" by fastforce
              have pid5: "pid w5 = pid w" using frame_pid[OF f5] .
              note keep5 = frame_look[OF f5 off5(1)]
              have "tmp_ok w5 (atomic_tmp_path (pid w5) ?idx) ?idx"
                unfolding names pid5 using tmp_ok_at[OF plain(3) f5 off5(2)] by (simp add: neq)
              note s6 = publish_index_spec[OF c6 this, unfolded names pid5]
              have f6: "frame ?S w w6" by (rule frame_step[OF f5 s6(1) sub]) (auto simp: resume_files_def)
              have canon: "look w6 (child dir cname) = Some (File [])"
                using frame_look[OF s6(1), of "child dir cname"] s5(2)[OF Inr] by (simp add: neq)
              have res: "w' = w6" "r = (case r6 of Inl err \<Rightarrow> Inl (reattribute_roll_error err ?stem ?name)
                  | Inr _ \<Rightarrow> Inr (Some ?x))"
                using run pre c5 Inr c6 cb by (auto simp: defs split: sum.splits)
              show ?thesis
                using res f6 s6 canon keep5 sealed same cb ne seq_ok base_index_same[OF keep5 plain(1)]
                by (intro exI[of _ n]) (cases r6; auto simp: resume_outcome_def)
            qed
          qed
        qed
      qed
    qed
  qed
qed

end
