(* ===== verification/ShardHealReconcile.thy ===== *)
theory ShardHealReconcile
  imports ShardHealSafety
begin

text \<open>
  The reconciliation of missing index rows: which rows it finds, what the index holds afterwards,
  and that nothing plausible is left to heal.
\<close>

section \<open>Candidates\<close>

lemma strip_prefix_append [simp]: "strip_prefix a (a @ b) = Some b"
  by (simp add: strip_prefix_def starts_with_def)

lemma strip_suffix_append [simp]: "strip_suffix b (a @ b) = Some a"
  by (simp add: strip_suffix_def ends_with_def)

lemma candidate_sealed: "candidate_seq stem (sealed_name stem n) = Some n"
proof -
  have "sealed_name stem n = (stem @ ''.'') @ pad_zeros 4 (unat n) @ ''.md''" by (simp add: sealed_name_def)
  then have "strip_prefix (stem @ ''.'') (sealed_name stem n) = Some (pad_zeros 4 (unat n) @ ''.md'')"
    by (metis strip_prefix_append)
  then show ?thesis
    using length_pad_zeros[of 4 "unat n"] by (simp add: candidate_seq_def pad_zeros_digits parse_u32_pad_zeros)
qed

lemma candidate_last: "candidate_seq stem name = Some n \<Longrightarrow> last name = CHR ''d''"
proof -
  assume "candidate_seq stem name = Some n"
  then obtain rest s where r: "strip_prefix (stem @ ''.'') name = Some rest" "strip_suffix ''.md'' rest = Some s"
    by (auto simp: candidate_seq_def split: option.splits)
  then show ?thesis by (auto simp: strip_prefix_Some strip_suffix_Some)
qed

lemma candidate_neq_index: "candidate_seq stem name = Some n \<Longrightarrow> name \<noteq> index_name stem'"
  using candidate_last last_index by fastforce

lemma candidate_neq_tmp: "candidate_seq stem name = Some n \<Longrightarrow> name \<noteq> atomic_tmp_name process m"
  using candidate_last last_atomic_tmp digit_not_special by metis

text \<open>A file is an orphan when it is named like a shard, is not empty, and has no row.\<close>

definition orphan :: "world \<Rightarrow> path \<Rightarrow> string \<Rightarrow> u32 list \<Rightarrow> string \<Rightarrow> u32 \<Rightarrow> nat \<Rightarrow> bool" where
  "orphan w dir stem indexed name n len \<longleftrightarrow> candidate_seq stem name = Some n \<and> n \<notin> set indexed \<and>
     (\<exists>m. look w (child dir name) = Some m \<and> node_len m = len \<and> len \<noteq> 0)"

lemma fs_dir_next_frame: "fs_dir_next w = (r, w') \<Longrightarrow> frame {} w w'"
  by (auto simp: fs_dir_next_def elim!: syscall_cases)

lemma symlink_metadata_node:
  "fs_symlink_metadata p w = (Inr m, w') \<Longrightarrow> look w p = Some m"
  by (auto simp: fs_symlink_metadata_def get_node_def frame_empty_look elim!: syscall_cases
      split: option.splits)

lemma orphan_frame: "frame {} w v \<Longrightarrow> orphan v dir stem indexed name n len = orphan w dir stem indexed name n len"
  by (simp add: orphan_def frame_empty_look)

lemma reconcile_scan_spec:
  assumes "reconcile_scan dir stem indexed names w = (r, w')"
  shows "frame {} w w' \<and> (\<forall>rows. r = Inr rows \<longrightarrow> set rows =
    {(n, name, of_nat len) | n name len. name \<in> set names \<and> orphan w dir stem indexed name n len})"
  using assms
proof (induction names arbitrary: w r w')
  case Nil
  then show ?case by auto
next
  case (Cons a names)
  obtain d w1 where c1: "fs_dir_next w = (d, w1)" by fastforce
  note f1 = fs_dir_next_frame[OF c1]
  let ?rows = "\<lambda>ns. {(n, name, of_nat len :: u64) | n name len. name \<in> set ns \<and> orphan w dir stem indexed name n len}"
  have skip: ?case if "reconcile_scan dir stem indexed names v = (r, w')" "frame {} w v"
    "\<And>n len. \<not> orphan w dir stem indexed a n len" for v
  proof -
    have "?rows (a # names) = ?rows names" using that(3) by auto
    then show ?thesis
      using Cons.IH[OF that(1)] frame_trans[OF that(2)] orphan_frame[OF that(2)] by auto
  qed
  show ?case
  proof (cases d)
    case (Inl e)
    then show ?thesis using Cons.prems c1 f1 by auto
  next
    case (Inr u)
    show ?thesis
    proof (cases "candidate_seq stem a")
      case None
      then have "reconcile_scan dir stem indexed names w1 = (r, w')" using Cons.prems c1 Inr by simp
      then show ?thesis by (rule skip[OF _ f1]) (use None in \<open>simp add: orphan_def\<close>)
    next
      case (Some n)
      show ?thesis
      proof (cases "n \<in> set indexed")
        case True
        then have "reconcile_scan dir stem indexed names w1 = (r, w')" using Cons.prems c1 Inr Some by simp
        then show ?thesis by (rule skip[OF _ f1]) (use True Some in \<open>auto simp: orphan_def\<close>)
      next
        case False
        obtain m w2 where c2: "fs_symlink_metadata (child dir a) w1 = (m, w2)" by fastforce
        have f2: "frame {} w w2" using frame_trans[OF f1 fs_symlink_metadata_frame[OF c2]] .
        show ?thesis
        proof (cases m)
          case (Inl e)
          then show ?thesis using Cons.prems c1 c2 \<open>d = Inr u\<close> Some False f2 by auto
        next
          case meta: (Inr node)
          have node: "look w (child dir a) = Some node"
            using symlink_metadata_node[OF c2[unfolded meta]] by (simp add: frame_empty_look[OF f1])
          show ?thesis
          proof (cases "node_len node = 0")
            case True
            then have "reconcile_scan dir stem indexed names w2 = (r, w')"
              using Cons.prems c1 c2 \<open>d = Inr u\<close> Some False meta by simp
            then show ?thesis by (rule skip[OF _ f2]) (use True node in \<open>auto simp: orphan_def\<close>)
          next
            case ne: False
            obtain t w3 where c3: "reconcile_scan dir stem indexed names w2 = (t, w3)" by fastforce
            note ih = Cons.IH[OF c3]
            have o: "orphan w dir stem indexed a n' len \<longleftrightarrow> n' = n \<and> len = node_len node" for n' len
              using Some False node ne by (auto simp: orphan_def)
            have "?rows (a # names) = insert (n, a, of_nat (node_len node)) (?rows names)"
              using o by auto
            moreover have "w' = w3" "r = (case t of Inl e \<Rightarrow> Inl e
                | Inr rows \<Rightarrow> Inr ((n, a, of_nat (node_len node)) # rows))"
              using Cons.prems c1 c2 c3 \<open>d = Inr u\<close> Some False meta ne by (auto split: sum.splits)
            ultimately show ?thesis
              using ih frame_trans[OF f2] orphan_frame[OF f2] by (cases t) auto
          qed
        qed
      qed
    qed
  qed
qed

lemma plausible_scan_clean:
  assumes "faults w = []" "\<And>name n len. name \<in> set names \<Longrightarrow> \<not> orphan w dir stem indexed name n len"
    and "\<And>name. name \<in> set names \<Longrightarrow> look w (child dir name) \<noteq> None"
  shows "plausible_scan dir stem indexed names w = (Inr False, w)"
  using assms
proof (induction names)
  case Nil
  then show ?case by simp
next
  case (Cons a names)
  obtain m where m: "look w (child dir a) = Some m" using Cons.prems(3)[of a] by auto
  have meta: "fs_symlink_metadata (child dir a) w = (Inr m, w)"
    using Cons.prems(1) m by (simp add: fs_symlink_metadata_def get_node_def)
  have "node_len m = 0" if "candidate_seq stem a = Some n" "n \<notin> set indexed" for n
    using Cons.prems(2)[of a n "node_len m"] that m by (auto simp: orphan_def)
  then show ?case
    using Cons.IH Cons.prems meta by (auto simp: fs_dir_next_def split: option.splits)
qed

lemma plausible_scan_finds:
  assumes "faults w = []" "name \<in> set names" "orphan w dir stem indexed name n len"
    and "\<And>name. name \<in> set names \<Longrightarrow> look w (child dir name) \<noteq> None"
  shows "plausible_scan dir stem indexed names w = (Inr True, w)"
  using assms
proof (induction names)
  case Nil
  then show ?case by simp
next
  case (Cons a names)
  obtain m where m: "look w (child dir a) = Some m" using Cons.prems(4)[of a] by auto
  have meta: "fs_symlink_metadata (child dir a) w = (Inr m, w)"
    using Cons.prems(1) m by (simp add: fs_symlink_metadata_def get_node_def)
  show ?case
  proof (cases "name = a")
    case True
    then show ?thesis using Cons.prems meta m by (auto simp: fs_dir_next_def orphan_def)
  next
    case False
    then show ?thesis
      using Cons.IH Cons.prems meta by (auto simp: fs_dir_next_def split: option.splits)
  qed
qed

section \<open>The directory listing\<close>

lemma child_name_Some: "child_name d p = Some n \<longleftrightarrow> p = child d n"
proof
  assume "child_name d p = Some n"
  then show "p = child d n"
    using file_name_decomp[of p n] by (auto simp: child_name_def split: if_splits)
qed (simp add: child_name_def)

lemma look_not_None: "look w q \<noteq> None \<longleftrightarrow> q \<in> fst ` set (nodes w)"
  by (simp add: look_def map_of_eq_None_iff)

lemma fs_read_dir_spec:
  assumes "fs_read_dir d w = (Inr names, w')"
  shows "set names = {n. look w (child d n) \<noteq> None}" "look w d = Some Directory"
proof -
  obtain v where v: "frame {} w v" "look v d = Some Directory"
    "names = List.map_filter (child_name d) (map fst (nodes v))"
    using assms by (auto simp: fs_read_dir_def elim!: syscall_cases split: if_splits)
  have "set names = {n. \<exists>q \<in> set (map fst (nodes v)). child_name d q = Some n}"
    unfolding v(3) by (force simp: List.map_filter_def)
  also have "\<dots> = {n. look v (child d n) \<noteq> None}"
    by (simp only: child_name_Some look_not_None set_map bex_triv_one_point1)
  finally show "set names = {n. look w (child d n) \<noteq> None}" by (simp add: frame_empty_look[OF v(1)])
  show "look w d = Some Directory" using v frame_empty_look[OF v(1)] by simp
qed

lemma fs_read_dir_calm:
  assumes "faults w = []" "look w d = Some Directory"
  obtains names where "fs_read_dir d w = (Inr names, w)"
  using assms by (simp add: fs_read_dir_def)

section \<open>The index after appending\<close>

text \<open>The documented behaviour of the index codec: what it writes is UTF-8 and reads back.\<close>

definition codec_ok :: "shard_env \<Rightarrow> bool" where
  "codec_ok env \<longleftrightarrow> (\<forall>i t. toml_to env i = Some t \<longrightarrow> utf8_valid t \<and> toml_from env t = Some i)"

lemma write_atomic_tmp_gone:
  assumes "write_atomic p c w = (Inr u, w')" "atomic_tmp_path (pid w) p \<noteq> p"
  shows "look w' (atomic_tmp_path (pid w) p) = None"
proof -
  let ?t = "atomic_tmp_path (pid w) p"
  obtain r1 w1 where c1: "write_and_sync_temp ?t c w = (r1, w1)" by fastforce
  obtain r2 w2 where c2: "fs_rename ?t p w1 = (r2, w2)" by fastforce
  have "r2 = Inr ()" "w' = w2"
    using assms(1) c1 c2 by (auto simp: write_atomic_def Let_def split: sum.splits)
  then show ?thesis using fs_rename_spec(2)[OF c2 assms(2)] by simp
qed

lemma publish_index_tmp_gone:
  assumes "publish_shard_index_update env idx e x w = (Inr j, w')" "atomic_tmp_path (pid w) idx \<noteq> idx"
  shows "look w' (atomic_tmp_path (pid w) idx) = None"
proof -
  obtain l w1 where c1: "load_shard_index env idx w = (l, w1)" by fastforce
  have "pid w1 = pid w" using frame_pid[OF load_shard_index_spec(1)[OF c1]] .
  moreover obtain t where "write_atomic idx t w1 = (Inr (), w')"
    using assms(1) c1
    by (auto simp: publish_shard_index_update_def Let_def split: sum.splits option.splits prod.splits)
  ultimately show ?thesis using write_atomic_tmp_gone assms(2) by metis
qed

definition appended_index :: "shard_index \<Rightarrow> shard_index_entry list \<Rightarrow> shard_index" where
  "appended_index i xs = i\<lparr>shards := shards i @ xs\<rparr>"

lemma appended_index_simps [simp]:
  "appended_index i [] = i" "appended_index (with_entry i x) xs = appended_index i (x # xs)"
  "shards (appended_index i xs) = shards i @ xs"
  by (simp_all add: appended_index_def with_entry_def)

lemma reconcile_append_spec:
  assumes codec: "codec_ok env" and idx: "\<forall>l. look w idx \<noteq> Some (Symlink l)"
    and tmp: "tmp_ok w (atomic_tmp_path (pid w) idx) idx"
    and run: "reconcile_append env idx e rows w = (Inr appended, w')"
  shows "frame {idx, atomic_tmp_path (pid w) idx} w w' \<and>
    appended = map (\<lambda>(n, f, len). healed_entry env e n f len) rows \<and>
    base_index env w' idx e = appended_index (base_index env w idx e) appended \<and>
    (\<forall>l. look w' idx \<noteq> Some (Symlink l)) \<and>
    (if rows = [] then look w' = look w
     else stored_index env w' idx = Some (appended_index (base_index env w idx e) appended))"
  using idx tmp run
proof (induction rows arbitrary: w appended w')
  case Nil
  then show ?case by simp
next
  case (Cons row rows)
  obtain n f len where row: "row = (n, f, len)" by (metis prod_cases3)
  let ?x = "healed_entry env e n f len" and ?t = "atomic_tmp_path (pid w) idx"
  obtain p1 w1 where c1: "publish_shard_index_update env idx e ?x w = (p1, w1)" by fastforce
  obtain p2 w2 where c2: "reconcile_append env idx e rows w1 = (p2, w2)" by fastforce
  note run = Cons.prems(3)
  obtain j where j: "p1 = Inr j" using run row c1 by (cases p1) auto
  obtain rest where rest: "p2 = Inr rest" using run row c1 c2 j by (cases p2) auto
  have out: "appended = ?x # rest" "w' = w2" using run row c1 c2 j rest by auto
  note s1 = publish_index_spec[OF c1 Cons.prems(2)]
  have b1: "look w1 idx = Some (File t) \<Longrightarrow> toml_to env j = Some t \<Longrightarrow> stored_index env w1 idx = Some j" for t
    using codec by (auto simp: codec_ok_def stored_index_plain)
  obtain t where t: "toml_to env j = Some t" "look w1 idx = Some (File t)"
    and jj: "j = with_entry (base_index env w idx e) ?x" using s1(2)[OF j] by blast
  have base1: "stored_index env w1 idx = Some j" "base_index env w1 idx e = j"
    using b1[OF t(2,1)] by (simp_all add: base_index_def)
  have pid1: "pid w1 = pid w" using frame_pid[OF s1(1)] .
  have "tmp_ok w1 (atomic_tmp_path (pid w1) idx) idx"
    using publish_index_tmp_gone[OF c1[unfolded j]] Cons.prems(2) by (simp add: tmp_ok_def pid1)
  from Cons.IH[OF _ this c2[unfolded rest]] t(2)
  have ih: "frame {idx, ?t} w1 w2" "rest = map (\<lambda>(n, f, len). healed_entry env e n f len) rows"
    "base_index env w2 idx e = appended_index j rest" "\<forall>l. look w2 idx \<noteq> Some (Symlink l)"
    "if rows = [] then look w2 = look w1 else stored_index env w2 idx = Some (appended_index j rest)"
    by (simp_all add: pid1 base1)
  have "stored_index env w2 idx = Some (appended_index j rest)"
    using ih(2,5) base1(1) t(2) by (cases "rows = []") (simp_all add: stored_index_plain)
  then show ?case
    using ih frame_trans[OF s1(1) ih(1)] by (simp add: out row jj)
qed

section \<open>The reconciliation\<close>

definition known_seqs :: "shard_env \<Rightarrow> world \<Rightarrow> path \<Rightarrow> shard_entry \<Rightarrow> u32 list" where
  "known_seqs env w dir e = map seq (shards (base_index env w (index_in dir e) e))"

lemma indexed_seqs_base:
  assumes "load_shard_index env idx w = (Inr index, w')"
  shows "indexed_seqs index = map seq (shards (base_index env w idx e))"
    "stored_index env w idx = None \<longrightarrow> index_absent w idx"
proof -
  have absent: "stored_index env w idx = None" if "index_absent w idx"
    using that by (simp add: stored_index_def index_absent_def)
  show "indexed_seqs index = map seq (shards (base_index env w idx e))"
    "stored_index env w idx = None \<longrightarrow> index_absent w idx"
    using load_shard_index_spec(2,3)[OF assms] absent
    by (cases index; auto simp: indexed_seqs_def base_index_def fresh_shard_index_def)+
qed

lemma roll_setting_parent: "roll_setting w dir cname e p \<Longrightarrow> parent_or [CurDir] p = dir"
  by (drule roll_setting_path) (simp add: parent_or_def)

lemma setting_tmp_ok:
  assumes "roll_setting w dir cname e p"
  shows "tmp_ok w (atomic_tmp_path (pid w) (index_in dir e)) (index_in dir e)"
  using assms roll_setting_names(4)[OF assms]
  by (simp add: roll_setting_def tmp_ok_def not_planted_def atomic_tmp_neq_self)

lemma reconcile_core:
  assumes setting: "roll_setting w dir cname e p" and codec: "codec_ok env"
    and run: "self_heal_reconcile_missing_index_entries env e p w = (Inr appended, w')"
  shows "frame {index_in dir e, child dir (atomic_tmp_name (pid w) (index_name (artifact_stem e)))} w w'"
    "set appended = {healed_entry env e n name (of_nat len) | n name len.
       orphan w dir (artifact_stem e) (known_seqs env w dir e) name n len}"
    "base_index env w' (index_in dir e) e = appended_index (base_index env w (index_in dir e) e) appended"
    "\<forall>l. look w' (index_in dir e) \<noteq> Some (Symlink l)"
    "stored_index env w' (index_in dir e) = None \<longrightarrow> look w' (index_in dir e) = None"
    "appended \<noteq> [] \<longrightarrow> stored_index env w' (index_in dir e) =
       Some (appended_index (base_index env w (index_in dir e) e) appended)"
    "look w dir = Some Directory"
proof -
  let ?idx = "index_in dir e" and ?known = "known_seqs env w dir e"
  note names = roll_setting_names[OF setting]
  have plain: "\<forall>l. look w ?idx \<noteq> Some (Symlink l)" using setting by (simp add: roll_setting_def)
  obtain l w1 where c1: "load_shard_index env ?idx w = (l, w1)" by fastforce
  note f1 = load_shard_index_spec(1)[OF c1]
  obtain index where l: "l = Inr index"
    using run c1 by (cases l) (auto simp: self_heal_reconcile_missing_index_entries_def Let_def names)
  note known = indexed_seqs_base(1)[OF c1[unfolded l], of e, folded known_seqs_def]
    indexed_seqs_base(2)[OF c1[unfolded l]]
  obtain d w2 where c2: "fs_read_dir dir w1 = (d, w2)" by fastforce
  have f2: "frame {} w w2" using frame_trans[OF f1 fs_read_dir_frame[OF c2]] .
  obtain ns where d: "d = Inr ns"
    using run c1 c2 l by (cases d) (auto simp: self_heal_reconcile_missing_index_entries_def Let_def names
        roll_setting_parent[OF setting])
  note dirs = fs_read_dir_spec[OF c2[unfolded d], unfolded frame_empty_look[OF f1]]
  obtain s w3 where c3: "reconcile_scan dir (artifact_stem e) (indexed_seqs index) ns w2 = (s, w3)" by fastforce
  note scan = reconcile_scan_spec[OF c3]
  have f3: "frame {} w w3" using frame_trans[OF f2] scan by blast
  obtain rows where s: "s = Inr rows"
    using run c1 c2 c3 l d by (cases s) (auto simp: self_heal_reconcile_missing_index_entries_def Let_def names
        roll_setting_parent[OF setting])
  have "set rows = {(n, name, of_nat len) | n name len. name \<in> set ns \<and>
      orphan w dir (artifact_stem e) ?known name n len}"
    using scan s known(1) orphan_frame[OF f2] by (simp add: known_seqs_def)
  also have "\<dots> = {(n, name, of_nat len) | n name len. orphan w dir (artifact_stem e) ?known name n len}"
    using dirs(1) by (auto simp: orphan_def)
  finally have rows: "set rows = \<dots>" .
  have append: "reconcile_append env ?idx e (sort_key fst rows) w3 = (Inr appended, w')"
    using run c1 c2 c3 l d s by (simp add: self_heal_reconcile_missing_index_entries_def Let_def names
        roll_setting_parent[OF setting])
  have look3: "look w3 = look w" "pid w3 = pid w" using frame_empty_look[OF f3] frame_pid[OF f3] by simp_all
  have tmp: "tmp_ok w3 (atomic_tmp_path (pid w3) ?idx) ?idx"
    using setting_tmp_ok[OF setting] by (simp add: tmp_ok_def look3)
  have base3: "base_index env w3 ?idx e = base_index env w ?idx e"
    by (rule base_index_same) (use plain in \<open>simp_all add: look3\<close>)
  from reconcile_append_spec[OF codec _ tmp append] plain
  have out: "frame {?idx, atomic_tmp_path (pid w) ?idx} w3 w'"
    "appended = map (\<lambda>(n, f, len). healed_entry env e n f len) (sort_key fst rows)"
    "base_index env w' ?idx e = appended_index (base_index env w ?idx e) appended"
    "\<forall>l. look w' ?idx \<noteq> Some (Symlink l)"
    "if sort_key fst rows = [] then look w' = look w
     else stored_index env w' ?idx = Some (appended_index (base_index env w ?idx e) appended)"
    by (simp_all add: look3 base3)
  show "frame {?idx, child dir (atomic_tmp_name (pid w) (index_name (artifact_stem e)))} w w'"
    using frame_step[OF f3 out(1)] names(4) by simp
  show "set appended = {healed_entry env e n name (of_nat len) | n name len.
       orphan w dir (artifact_stem e) ?known name n len}"
    unfolding out(2) set_map set_sort rows by (auto simp: image_iff) blast
  show "base_index env w' ?idx e = appended_index (base_index env w ?idx e) appended" by (rule out(3))
  show "\<forall>l. look w' ?idx \<noteq> Some (Symlink l)" by (rule out(4))
  have "appended = [] \<longleftrightarrow> sort_key fst rows = []" unfolding out(2) by simp
  then show "appended \<noteq> [] \<longrightarrow> stored_index env w' ?idx =
       Some (appended_index (base_index env w ?idx e) appended)" using out(5) by (auto split: if_splits)
  have "stored_index env w ?idx = None \<longrightarrow> look w ?idx = None"
    using known(2) stored_index_plain(2)[OF plain] by blast
  then show "stored_index env w' ?idx = None \<longrightarrow> look w' ?idx = None"
    using out(5) out(4) plain by (auto simp: stored_index_plain split: if_splits)
  show "look w dir = Some Directory" by (rule dirs(2))
qed

lemma orphan_reconcile_frame:
  assumes f: "frame {index_in dir e, child dir (atomic_tmp_name process (index_name stem))} w w'"
  shows "orphan w' dir stem known name n len \<longleftrightarrow> orphan w dir stem known name n len"
proof -
  have "look w' (child dir name) = look w (child dir name)" if "candidate_seq stem name = Some n"
    using frame_look[OF f, of "child dir name"] candidate_neq_index[OF that] candidate_neq_tmp[OF that] by simp
  then show ?thesis unfolding orphan_def by metis
qed

lemma plausible_calm:
  assumes calm: "faults w = []" and setting: "roll_setting v dir cname e p"
    and plain: "\<forall>l. look w (index_in dir e) \<noteq> Some (Symlink l)"
    and dir: "look w dir = Some Directory"
    and ok: "stored_index env w (index_in dir e) = None \<longrightarrow> look w (index_in dir e) = None"
  shows "self_heal_recovery_plausible env e p w =
    (Inr (\<exists>name n len. orphan w dir (artifact_stem e) (known_seqs env w dir e) name n len), w)"
proof -
  let ?idx = "index_in dir e" and ?known = "known_seqs env w dir e"
  note names = roll_setting_names[OF setting]
  have c1: "load_shard_index env ?idx w = (Inr (stored_index env w ?idx), w)"
    by (rule load_index_calm[OF calm _ plain]) (use dir ok in \<open>auto simp: dir_ok_def\<close>)
  note known = indexed_seqs_base(1)[OF c1, of e, folded known_seqs_def]
  obtain ns where c2: "fs_read_dir dir w = (Inr ns, w)" using fs_read_dir_calm[OF calm dir] by blast
  note dirs = fs_read_dir_spec(1)[OF c2]
  have run: "self_heal_recovery_plausible env e p w = plausible_scan dir (artifact_stem e) ?known ns w"
    by (simp add: self_heal_recovery_plausible_def Let_def names c1 c2 known roll_setting_parent[OF setting])
  have listed: "look w (child dir name) \<noteq> None" if "name \<in> set ns" for name using that dirs by auto
  show ?thesis
  proof (cases "\<exists>name n len. orphan w dir (artifact_stem e) ?known name n len")
    case True
    then obtain name n len where o: "orphan w dir (artifact_stem e) ?known name n len" by blast
    then have "name \<in> set ns" using dirs by (auto simp: orphan_def)
    from plausible_scan_finds[OF calm this o listed] show ?thesis using True run by simp
  next
    case False
    then show ?thesis using plausible_scan_clean[OF calm _ listed] run by simp
  qed
qed

end
