(* ===== verification/ShardCodec.thy ===== *)
theory ShardCodec
  imports ShardRollClaims "HOL-Library.Countable"
begin

text \<open>
  A concrete index codec that reads back what it writes (the index's number in unary), and a roll
  over a directory without an index that fails after its seal: the state from which the recovery
  examples start.
\<close>

section \<open>A lossless codec\<close>

instance f64 :: countable by countable_datatype

instance shard_index_entry_ext :: (countable) countable
proof (rule countable_classI)
  fix a b :: "'a shard_index_entry_scheme"
  assume "to_nat (seq a, shard_path a, sealed_at a, bytes_at_seal a, sealed_retroactively a, oversized_record a,
      is_preamble_shard a, records a, shard_index_entry.more a) =
    to_nat (seq b, shard_path b, sealed_at b, bytes_at_seal b, sealed_retroactively b, oversized_record b,
      is_preamble_shard b, records b, shard_index_entry.more b)"
  then show "a = b" by simp
qed

instance backfill_manifest_ext :: (countable) countable
proof (rule countable_classI)
  fix a b :: "'a backfill_manifest_scheme"
  assume "to_nat (original_bytes a, original_sha256 a, final_bytes a, final_sha256 a, backfill_manifest.more a) =
    to_nat (original_bytes b, original_sha256 b, final_bytes b, final_sha256 b, backfill_manifest.more b)"
  then show "a = b" by simp
qed

instance shard_index_ext :: (countable) countable
proof (rule countable_classI)
  fix a b :: "'a shard_index_scheme"
  assume "to_nat ((schema_version a, ix_artifact_stem a, current_shard a, ix_shard_cap_bytes a,
      ix_max_single_record_bytes a, ix_safety_margin_bytes a, ix_practical_fuel_ceiling a),
      ix_worst_case_fuel_per_byte a, retention_count a, manifest_of a, shards a, shard_index.more a) =
    to_nat ((schema_version b, ix_artifact_stem b, current_shard b, ix_shard_cap_bytes b,
      ix_max_single_record_bytes b, ix_safety_margin_bytes b, ix_practical_fuel_ceiling b),
      ix_worst_case_fuel_per_byte b, retention_count b, manifest_of b, shards b, shard_index.more b)"
  then show "a = b" by simp
qed

definition unary_env :: shard_env where
  "unary_env = \<lparr>toml_to = \<lambda>i. Some (replicate (to_nat i) CHR ''x''),
     toml_from = \<lambda>t. Some (from_nat (length t)), utc_now = ''now''\<rparr>"

lemma utf8_ascii: "utf8_valid (replicate n CHR ''x'')"
  by (induction n) auto

lemma unary_decodes: "toml_from unary_env (replicate (to_nat i) CHR ''x'') = Some i"
  by (simp add: unary_env_def)

lemma unary_total: "toml_to unary_env i \<noteq> None"
  by (simp add: unary_env_def)

section \<open>A roll that stops between seal and truncate\<close>

definition fresh_world :: "fault option list \<Rightarrow> bytes \<Rightarrow> world" where
  "fresh_world fs c = \<lparr>nodes = [(sample_dir, Directory), (sample_canonical, File c)],
     faults = fs, nonces = [], pid = 7\<rparr>"

definition orphaned_world :: "fault option list \<Rightarrow> bytes \<Rightarrow> world" where
  "orphaned_world fs c = put (child sample_dir ''burst-log.0001.md'') (File c) (fresh_world fs c)"

lemma fresh_setting: "roll_setting (fresh_world fs c) sample_dir ''burst-log.md'' sample_entry sample_canonical"
  by (simp add: roll_setting_def canonical_path_of_def sample_canonical_def sample_entry_def noslash_def
      sample_stem not_planted_def look_def fresh_world_def sample_names sample_dir_def)

lemma look_fresh: "look (fresh_world fs c) q = (if q = sample_dir then Some Directory
    else if q = sample_canonical then Some (File c) else None)"
  by (simp add: look_def fresh_world_def)

lemma look_orphaned: "look (orphaned_world fs c) q = (if q = child sample_dir ''burst-log.0001.md'' then Some (File c)
    else look (fresh_world fs c) q)"
  by (simp add: orphaned_world_def)

lemma orphaned_fields: "faults (orphaned_world fs c) = fs" "pid (orphaned_world fs c) = 7"
  by (simp_all add: orphaned_world_def fresh_world_def)

lemma orphaned_setting:
  "roll_setting (orphaned_world fs c) sample_dir ''burst-log.md'' sample_entry sample_canonical"
  by (simp add: roll_setting_def canonical_path_of_def sample_canonical_def sample_entry_def noslash_def
      sample_stem not_planted_def look_orphaned look_fresh orphaned_fields sample_names sample_dir_def)

lemma fresh_reject: "reject_canonical_symlink st sample_canonical (fresh_world (None # fs) c) = (Inr (), fresh_world fs c)"
  by (simp add: reject_canonical_symlink_def fs_symlink_metadata_def syscall_def next_fault_def fresh_world_def
      get_node_def look_def sample_canonical_def sample_dir_def)

lemma fresh_read: "read_canonical_content sample_canonical (fresh_world (None # fs) c) = (Inr c, fresh_world fs c)"
  by (simp add: read_canonical_content_def fs_read_def syscall_def next_fault_def fresh_world_def
      get_node_follow_plain get_node_def look_def sample_canonical_def sample_dir_def)

lemma fresh_next_seq: "next_seal_seq env (child sample_dir ''burst-log.shard-index.toml'')
    (fresh_world (None # None # fs) c) = (Inr 1, fresh_world fs c)"
  by (simp add: next_seal_seq_def load_shard_index_def fs_read_to_string_def fs_read_def syscall_def next_fault_def
      fresh_world_def get_node_follow_plain get_node_def look_def sample_canonical_def sample_dir_def
      missing_error_def closest_ancestor.simps is_genuinely_missing_def fs_metadata_def
      closest_existing_ancestor_is_directory_or_absent.simps parent_def)

lemma fresh_stage_path: "stage_tmp_path 7 [RootDir, Normal ''f'', Normal ''burst-log.0001.md''] 0 =
    child [RootDir, Normal ''f''] ''.burst-log.0001.md.tmp-7-0000000000000000''"
  by (simp add: stage_tmp_path_def parent_or_def parent_def file_name_def hex16_0 sample_show_pid plain_name_def)

lemma fresh_sealed_path: "shard_sibling_path sample_canonical ''burst-log.0001.md'' = child sample_dir ''burst-log.0001.md''"
  unfolding sample_canonical_def shard_sibling_path_def by (simp add: plain_name_def)

lemma fresh_publish: "publish_sealed_shard (child sample_dir ''burst-log.0001.md'') c
    (fresh_world (None # None # None # None # None # fs) c) = (Inr (), orphaned_world fs c)"
  by (simp add: publish_sealed_shard_def Let_def write_exclusive_def stage_temp_file_def random_nonce_def
      stage_temp_file_with_nonce_def fresh_stage_path fs_create_new_def syscall_def next_fault_def fresh_world_def
      get_node_def look_def sample_canonical_def sample_dir_def dir_present_def parent_or_def parent_def
      fs_write_all_def fs_sync_all_def publish_staged_temp_file_def put_def del_def fs_hard_link_def
      fs_remove_file_def orphaned_world_def)

lemma fresh_truncate_fault: "truncate_canonical_to_empty sample_canonical (orphaned_world [Some (Fault 0)] c) =
   (Inl (TruncateFailedAfterSeal ''burst-log'' [] OtherIo), orphaned_world [] c)"
proof -
  have "stem_from_canonical_path sample_canonical = ''burst-log''" by code_simp
  moreover have "(orphaned_world [Some (Fault 0)] c)\<lparr>faults := []\<rparr> = orphaned_world [] c"
    by (simp add: orphaned_world_def put_def fresh_world_def)
  moreover have "look (orphaned_world [] c) (child sample_dir ''.burst-log.md.tmp-7'') = None"
    by (simp add: look_orphaned look_fresh sample_canonical_def)
  ultimately show ?thesis
    by (simp add: truncate_canonical_to_empty_def write_atomic_def Let_def orphaned_fields sample_tmp_path
        write_and_sync_temp_def fs_create_def syscall_def next_fault_def fs_remove_file_def)
qed

lemma fresh_roll_fails: "execute_roll unary_env sample_entry sample_canonical False
     (fresh_world (replicate 9 None @ [Some (Fault 0)]) c) =
   (if c = [] then (Inr None, fresh_world (replicate 7 None @ [Some (Fault 0)]) c)
    else (Inl (TruncateFailedAfterSeal ''burst-log'' ''burst-log.0001.md'' OtherIo), orphaned_world [] c))"
  by (simp add: execute_roll_def sample_entry_stem sample_index_path fresh_reject fresh_read fresh_next_seq
      fresh_sealed_path Let_def fresh_publish fresh_truncate_fault sample_names eval_nat_numeral)

end
