(* ===== verification/ShardHealClaims.thy ===== *)
theory ShardHealClaims
  imports ShardHealReconcile ShardCodec
begin

text \<open>
  The guarantees of the recovery: it loses nothing, it leaves nothing to heal, and it completes a
  roll that failed after its seal.
\<close>

section \<open>Without faults\<close>

lemma reconcile_scan_calm:
  assumes "faults w = []" "\<And>name. name \<in> set names \<Longrightarrow> look w (child dir name) \<noteq> None"
  shows "\<exists>rows. reconcile_scan dir stem indexed names w = (Inr rows, w)"
  using assms
proof (induction names)
  case Nil
  then show ?case by simp
next
  case (Cons a names)
  obtain m where m: "look w (child dir a) = Some m" using Cons.prems(2)[of a] by auto
  have meta: "fs_symlink_metadata (child dir a) w = (Inr m, w)"
    using Cons.prems(1) m by (simp add: fs_symlink_metadata_def get_node_def)
  obtain rows where "reconcile_scan dir stem indexed names w = (Inr rows, w)"
    using Cons.IH Cons.prems by auto
  then show ?case
    using Cons.prems(1) meta by (auto simp: fs_dir_next_def split: option.splits)
qed

lemma reconcile_append_calm:
  assumes codec: "codec_ok env" and total: "\<And>i. toml_to env i \<noteq> None" and slash: "noslash m"
  shows "faults w = [] \<Longrightarrow> dir_ok w dir \<Longrightarrow> \<forall>l. look w (child dir m) \<noteq> Some (Symlink l) \<Longrightarrow>
    stored_index env w (child dir m) \<noteq> None \<or> look w (child dir m) = None \<Longrightarrow>
    not_planted w (child dir (atomic_tmp_name (pid w) m)) \<Longrightarrow>
    look w (child dir (atomic_tmp_name (pid w) m)) \<noteq> Some Directory \<Longrightarrow>
    \<exists>appended w'. reconcile_append env (child dir m) e rows w = (Inr appended, w')"
proof (induction rows arbitrary: w)
  case Nil
  then show ?case by simp
next
  case (Cons row rows)
  obtain n f len where row: "row = (n, f, len)" by (metis prod_cases3)
  let ?x = "healed_entry env e n f len" and ?idx = "child dir m"
  let ?t = "child dir (atomic_tmp_name (pid w) m)"
  obtain j w1 where c1: "publish_shard_index_update env ?idx e ?x w = (Inr j, w1)" and calm1: "faults w1 = []"
    using publish_index_calm[OF Cons.prems(1,2) slash Cons.prems(3-6) total] by blast
  note tmp = atomic_tmp_path_eq[OF slash, of "pid w" dir]
  have "tmp_ok w (atomic_tmp_path (pid w) ?idx) ?idx"
    using Cons.prems(5) by (simp add: tmp tmp_ok_def not_planted_def atomic_tmp_neq_self)
  note s = publish_index_spec[OF c1 this, unfolded tmp]
  have gone: "look w1 ?t = None"
    using publish_index_tmp_gone[OF c1] by (simp add: tmp atomic_tmp_neq_self)
  obtain t where t: "toml_to env j = Some t" "look w1 ?idx = Some (File t)" using s(2) by blast
  have st: "stored_index env w1 ?idx = Some j"
    using t codec by (simp add: codec_ok_def stored_index_plain)
  have d1: "dir_ok w1 dir" using dir_ok_frame[OF s(1)] Cons.prems(2) by blast
  have "\<exists>appended w'. reconcile_append env ?idx e rows w1 = (Inr appended, w')"
    by (rule Cons.IH[OF calm1 d1]) (use t gone st frame_pid[OF s(1)] in \<open>simp_all add: not_planted_def\<close>)
  then show ?case using c1 by (auto simp: row)
qed

lemma reconcile_calm:
  assumes calm: "faults w = []" and setting: "roll_setting w dir cname e p" and codec: "codec_ok env"
    and total: "\<And>i. toml_to env i \<noteq> None" and dir: "look w dir = Some Directory"
    and ok: "stored_index env w (index_in dir e) \<noteq> None \<or> look w (index_in dir e) = None"
    and tmp: "look w (child dir (atomic_tmp_name (pid w) (index_name (artifact_stem e)))) \<noteq> Some Directory"
  shows "\<exists>appended w'. self_heal_reconcile_missing_index_entries env e p w = (Inr appended, w')"
proof -
  let ?idx = "index_in dir e"
  note names = roll_setting_names[OF setting]
  have plain: "\<forall>l. look w ?idx \<noteq> Some (Symlink l)" and slash: "noslash (artifact_stem e)"
    and planted: "not_planted w (child dir (atomic_tmp_name (pid w) (index_name (artifact_stem e))))"
    using setting by (simp_all add: roll_setting_def canonical_path_of_def)
  have d: "dir_ok w dir" using dir by (simp add: dir_ok_def)
  note c1 = load_index_calm[OF calm d plain ok]
  obtain ns where c2: "fs_read_dir dir w = (Inr ns, w)" using fs_read_dir_calm[OF calm dir] by blast
  have "look w (child dir name) \<noteq> None" if "name \<in> set ns" for name using that fs_read_dir_spec(1)[OF c2] by auto
  from reconcile_scan_calm[OF calm this] obtain rows where
    c3: "reconcile_scan dir (artifact_stem e) (indexed_seqs (stored_index env w ?idx)) ns w = (Inr rows, w)" by blast
  obtain appended w' where "reconcile_append env ?idx e (sort_key fst rows) w = (Inr appended, w')"
    using reconcile_append_calm[OF codec total noslash_index[OF slash] calm d plain ok planted tmp] by blast
  then show ?thesis
    by (simp add: self_heal_reconcile_missing_index_entries_def Let_def names c1 c2 c3
        roll_setting_parent[OF setting])
qed

text \<open>The common reads of a resume that finds the sealed shard \<open>n\<close>.\<close>

lemma resume_reads:
  assumes calm: "faults w = []" and setting: "roll_setting w dir cname e p" and d: "dir_ok w dir"
    and seq: "next_seq_ok env w (index_in dir e) n"
    and sealed: "get_node_follow w (sealed_in dir e n) = Inr (File c)"
    and here: "look w p = Some (File c')"
  shows "reject_canonical_symlink (artifact_stem e) p w = (Inr (), w)"
    "next_seal_seq env (index_in dir e) w = (Inr n, w)"
    "fs_read (sealed_in dir e n) w = (Inr c, w)" "fs_read p w = (Inr c', w)"
proof -
  have plain: "\<forall>l. look w (index_in dir e) \<noteq> Some (Symlink l)" using setting by (simp add: roll_setting_def)
  show "reject_canonical_symlink (artifact_stem e) p w = (Inr (), w)"
    using calm here by (simp add: reject_canonical_symlink_def fs_symlink_metadata_def get_node_def)
  show "next_seal_seq env (index_in dir e) w = (Inr n, w)" by (rule next_seal_seq_calm[OF calm d plain seq])
  show "fs_read (sealed_in dir e n) w = (Inr c, w)" "fs_read p w = (Inr c', w)"
    using calm sealed here by (simp_all add: fs_read_def get_follow_ok[of w p] get_node_def)
qed

lemma resume_skips:
  assumes "faults w = []" "roll_setting w dir cname e p" "dir_ok w dir"
    "next_seq_ok env w (index_in dir e) n" "get_node_follow w (sealed_in dir e n) = Inr (File c)"
    "look w p = Some (File c')" "c \<noteq> []" "c \<noteq> c'"
  shows "self_heal_resume_from_truncate env e p w = (Inr None, w)"
  using resume_reads[OF assms(1-6)] assms(7,8) roll_setting_names[OF assms(2)]
  by (simp add: self_heal_resume_from_truncate_def Let_def)

lemma resume_completes:
  assumes calm: "faults w = []" and setting: "roll_setting w dir cname e p" and d: "dir_ok w dir"
    and seq: "next_seq_ok env w (index_in dir e) n"
    and sealed: "get_node_follow w (sealed_in dir e n) = Inr (File c)"
    and here: "look w p = Some (File c)" and ne: "c \<noteq> []" and total: "\<And>i. toml_to env i \<noteq> None"
    and tmp: "look w (child dir (atomic_tmp_name (pid w) cname)) \<noteq> Some Directory"
    "look w (child dir (atomic_tmp_name (pid w) (index_name (artifact_stem e)))) \<noteq> Some Directory"
  shows "\<exists>x w'. self_heal_resume_from_truncate env e p w = (Inr (Some x), w') \<and>
    look w' p = Some (File []) \<and> frame (resume_files dir cname e (pid w)) w w'"
proof -
  let ?idx = "index_in dir e" and ?tc = "child dir (atomic_tmp_name (pid w) cname)"
  let ?ti = "child dir (atomic_tmp_name (pid w) (index_name (artifact_stem e)))"
  note path = roll_setting_path[OF setting] and names = roll_setting_names[OF setting]
  note neq = roll_setting_cname[OF setting] roll_setting_cname[OF setting, symmetric] name_neq
  have slash: "noslash cname" "noslash (artifact_stem e)"
    and plain: "\<forall>l. look w ?idx \<noteq> Some (Symlink l)" "not_planted w ?tc" "not_planted w ?ti"
    using setting by (simp_all add: roll_setting_def canonical_path_of_def)
  obtain w1 where c1: "truncate_canonical_to_empty (child dir cname) w = (Inr (), w1)" and calm1: "faults w1 = []"
    by (rule truncate_calm[OF calm d slash(1) plain(2) tmp(1)]) (use here path in simp_all)
  have "tmp_ok w (atomic_tmp_path (pid w) (child dir cname)) (child dir cname)"
    using plain(2) slash by (simp add: tmp_ok_def atomic_tmp_path_eq not_planted_def neq)
  note trunc = truncate_spec[OF c1 this, unfolded atomic_tmp_path_eq[OF slash(1)]]
  note f1 = trunc(1)
  have l1: "look w1 ?idx = look w ?idx" "look w1 ?ti = look w ?ti" "pid w1 = pid w" "dir_ok w1 dir"
    using frame_look[OF f1, of ?idx] frame_look[OF f1, of ?ti] frame_pid[OF f1] dir_ok_frame[OF f1] d
    by (auto simp: neq)
  have st: "stored_index env w1 ?idx = stored_index env w ?idx"
    using plain(1) l1(1) by (simp add: stored_index_plain)
  have ok: "stored_index env w1 ?idx \<noteq> None \<or> look w1 ?idx = None"
    using seq st l1 by (auto simp: next_seq_ok_def split: option.splits)
  have "\<exists>j w'. publish_shard_index_update env ?idx e (healed_entry env e n (sealed_name (artifact_stem e) n)
      (of_nat (length c))) w1 = (Inr j, w') \<and> faults w' = []"
    by (rule publish_index_calm[OF calm1 l1(4) noslash_index[OF slash(2)] _ ok _ _ total])
      (use plain tmp l1 in \<open>simp_all add: not_planted_def\<close>)
  then obtain j w2 where c2: "publish_shard_index_update env ?idx e (healed_entry env e n
      (sealed_name (artifact_stem e) n) (of_nat (length c))) w1 = (Inr j, w2)" by blast
  have "tmp_ok w1 (atomic_tmp_path (pid w1) ?idx) ?idx"
    using plain(3) l1 by (simp add: names tmp_ok_def not_planted_def neq)
  note f2 = publish_index_spec(1)[OF c2 this, unfolded names l1(3)]
  have "frame (resume_files dir cname e (pid w)) w w2"
    by (rule frame_step[OF f1 f2]) (auto simp: resume_files_def)
  moreover have "look w2 p = Some (File [])"
    using frame_look[OF f2, of "child dir cname"] trunc(2) path by (simp add: neq)
  ultimately show ?thesis
    using c2 resume_reads[OF calm setting d seq sealed here] ne c1[folded path]
    by (auto simp: self_heal_resume_from_truncate_def Let_def names(1,2))
qed

section \<open>The guarantees\<close>


lemma sample_sealed_not_linked: "sealed_not_linked (sample_world fs c) sample_dir sample_entry"
  by (simp add: sealed_not_linked_def look_def sample_world_def sample_canonical_def sample_dir_def)


text \<open>
  Claim C10.  A reconciliation that succeeds, under any fault schedule, adds exactly one row for every file named
  like a shard that is not empty and has no row yet, in addition to the rows of the old index; and
  afterwards the plausibility probe finds nothing left to heal.
\<close>

theorem reconcile_complete:
  assumes run: "self_heal_reconcile_missing_index_entries env e p w = (Inr appended, w')"
    and setting: "roll_setting w dir cname e p" and codec: "codec_ok env"
  shows "set appended = {healed_entry env e n name (of_nat len) | n name len.
       orphan w dir (artifact_stem e) (known_seqs env w dir e) name n len} \<and>
    base_index env w' (index_in dir e) e = appended_index (base_index env w (index_in dir e) e) appended \<and>
    self_heal_recovery_plausible env e p (w'\<lparr>faults := []\<rparr>) = (Inr False, w'\<lparr>faults := []\<rparr>)"
proof -
  note core = reconcile_core[OF setting codec run]
  let ?v = "w'\<lparr>faults := []\<rparr>" and ?stem = "artifact_stem e" and ?idx = "index_in dir e"
  let ?known' = "known_seqs env ?v dir e"
  have v: "frame {} w' ?v" by (simp add: frame_def)
  have "dir \<notin> {?idx, child dir (atomic_tmp_name (pid w) (index_name ?stem))}" by simp
  with core(1) have "look w' dir = look w dir" by (rule frame_look)
  then have dir: "look ?v dir = Some Directory" using core(7) by simp
  have known: "?known' = known_seqs env w dir e @ map seq appended"
    using base_index_same[of ?v ?idx w' env e] core(3,4) by (simp add: known_seqs_def)
  have "\<not> orphan ?v dir ?stem ?known' name n len" for name n len
  proof
    assume o: "orphan ?v dir ?stem ?known' name n len"
    then have "orphan w' dir ?stem (known_seqs env w dir e) name n len"
      using known by (auto simp: orphan_frame[OF v] orphan_def)
    then have "healed_entry env e n name (of_nat len) \<in> set appended"
      unfolding orphan_reconcile_frame[OF core(1)] core(2) by blast
    then have "n \<in> set (map seq appended)" by (force simp: healed_entry_def)
    with o known show False by (simp add: orphan_def)
  qed
  moreover have "self_heal_recovery_plausible env e p ?v =
      (Inr (\<exists>name n len. orphan ?v dir ?stem ?known' name n len), ?v)"
  proof (rule plausible_calm[OF _ setting _ dir])
    show "stored_index env ?v ?idx = None \<longrightarrow> look ?v ?idx = None"
      using core(5) unfolding stored_index_frame(1)[OF v] by simp
  qed (use core(4) in simp_all)
  ultimately show ?thesis using core(2,3) by simp
qed

definition recovery_room :: "world \<Rightarrow> path \<Rightarrow> string \<Rightarrow> shard_entry \<Rightarrow> bool" where
  "recovery_room w dir cname e \<longleftrightarrow> look w dir = Some Directory \<and> sealed_not_linked w dir e \<and>
     look w (child dir (atomic_tmp_name (pid w) cname)) \<noteq> Some Directory \<and>
     look w (child dir (atomic_tmp_name (pid w) (index_name (artifact_stem e)))) \<noteq> Some Directory"

lemma calm_dir_ok: "look w dir = Some Directory \<Longrightarrow> dir_ok w dir"
  by (simp add: dir_ok_def)

text \<open>The two ways to complete: the roll stopped before or after its truncate.\<close>

lemma heal_state:
  assumes calm: "faults w = []" and setting: "roll_setting w dir cname e p" and room: "recovery_room w dir cname e"
    and codec: "codec_ok env" and total: "\<And>i. toml_to env i \<noteq> None"
    and seq: "next_seq_ok env w (index_in dir e) n" and sealed: "look w (sealed_in dir e n) = Some (File c)"
    and ne: "c \<noteq> []" and here: "look w p = Some (File c) \<or> look w p = Some (File [])"
  shows "\<exists>w3 i x. run_self_heal_if_plausible env e p w = (Inr (), w3) \<and> look w3 p = Some (File []) \<and>
    look w3 (sealed_in dir e n) = Some (File c) \<and> stored_index env w3 (index_in dir e) = Some i \<and>
    set (shards (base_index env w (index_in dir e) e)) \<subseteq> set (shards i) \<and> x \<in> set (shards i) \<and>
    seq x = n \<and> shard_path x = sealed_name (artifact_stem e) n"
proof -
  let ?idx = "index_in dir e" and ?name = "sealed_name (artifact_stem e) n"
  note path = roll_setting_path[OF setting]
  note neq = roll_setting_cname[OF setting] roll_setting_cname[OF setting, symmetric] name_neq
  have plain: "\<forall>l. look w ?idx \<noteq> Some (Symlink l)" using setting by (simp add: roll_setting_def)
  have dir: "look w dir = Some Directory" "dir_ok w dir" and nolink: "sealed_not_linked w dir e"
    using room by (simp_all add: recovery_room_def calm_dir_ok)
  have ok: "stored_index env w ?idx = None \<longrightarrow> look w ?idx = None"
    using seq by (auto simp: next_seq_ok_def split: option.splits)
  have "n \<notin> set (known_seqs env w dir e)"
    using next_seq_fresh[OF seq] by (fastforce simp: known_seqs_def)
  then have orphan: "orphan w dir (artifact_stem e) (known_seqs env w dir e) ?name n (length c)"
    using sealed ne by (simp add: orphan_def candidate_sealed)
  have follow: "get_node_follow w (sealed_in dir e n) = Inr (File c)"
    using sealed by (simp add: get_follow_ok get_node_def)
  have probe: "self_heal_recovery_plausible env e p w = (Inr True, w)"
    unfolding plausible_calm[OF calm setting plain dir(1) ok] using orphan by auto
  show ?thesis
  proof (cases "look w p = Some (File c)")
    case True
    obtain x w3 where run: "self_heal_resume_from_truncate env e p w = (Inr (Some x), w3)"
      using resume_completes[OF calm setting dir(2) seq follow True ne total] room
      by (auto simp: recovery_room_def)
    obtain m where f: "frame (resume_files dir cname e (pid w)) w w3"
      and out: "resume_outcome env e dir cname c m (Inr (Some x)) w w3"
      using resume_core[OF run setting True nolink] by blast
    have "m = n"
      using out seq by (auto simp: resume_outcome_def next_seq_ok_def word_unat_eq_iff split: option.splits)
    with out obtain t where t: "toml_to env (with_entry (base_index env w ?idx e) x) = Some t"
      "look w3 ?idx = Some (File t)" and x: "seq x = n" "shard_path x = ?name"
      and canon: "look w3 p = Some (File [])"
      by (auto simp: resume_outcome_def healed_entry_def path)
    have "stored_index env w3 ?idx = Some (with_entry (base_index env w ?idx e) x)"
      using t codec by (simp add: codec_ok_def stored_index_plain)
    moreover have "look w3 (sealed_in dir e n) = Some (File c)"
      using frame_look[OF f, of "sealed_in dir e n"] sealed by (simp add: resume_files_def neq)
    moreover have "run_self_heal_if_plausible env e p w = (Inr (), w3)"
      by (simp add: run_self_heal_if_plausible_def probe run)
    ultimately show ?thesis using canon x by (fastforce simp: with_entry_def)
  next
    case False
    then have empty: "look w p = Some (File [])" using here by simp
    have skip: "self_heal_resume_from_truncate env e p w = (Inr None, w)"
      by (rule resume_skips[OF calm setting dir(2) seq follow empty ne ne])
    obtain appended w3 where run: "self_heal_reconcile_missing_index_entries env e p w = (Inr appended, w3)"
      using reconcile_calm[OF calm setting codec total dir(1)] ok room by (auto simp: recovery_room_def)
    note core = reconcile_core[OF setting codec run]
    let ?x = "healed_entry env e n ?name (of_nat (length c))"
    have x: "?x \<in> set appended" unfolding core(2) using orphan by blast
    then have "stored_index env w3 ?idx = Some (appended_index (base_index env w ?idx e) appended)"
      using core(6) by fastforce
    moreover have "look w3 p = Some (File [])" "look w3 (sealed_in dir e n) = Some (File c)"
      using frame_look[OF core(1)] empty sealed by (simp_all add: path neq)
    moreover have "run_self_heal_if_plausible env e p w = (Inr (), w3)"
      by (simp add: run_self_heal_if_plausible_def probe skip run)
    moreover have "seq ?x = n" "shard_path ?x = ?name" by (simp_all add: healed_entry_def)
    ultimately show ?thesis using x by (metis appended_index_simps(3) Un_iff set_append subsetI)
  qed
qed


section \<open>Examples\<close>

lemma unary_codec: "codec_ok unary_env"
  by (auto simp: codec_ok_def unary_decodes) (auto simp: unary_env_def utf8_ascii)

lemma orphaned_room: "recovery_room (orphaned_world fs c) sample_dir ''burst-log.md'' sample_entry"
  by (simp add: recovery_room_def sealed_not_linked_def look_orphaned look_fresh sample_canonical_def
      sample_entry_stem sample_names sample_dir_def orphaned_fields)

lemma orphaned_dir: "look (orphaned_world fs c) sample_dir = Some Directory"
  "look (orphaned_world fs c) (index_in sample_dir sample_entry) = None"
  "look (orphaned_world fs c) (child sample_dir (atomic_tmp_name 7 (index_name (artifact_stem sample_entry)))) = None"
  "look (orphaned_world fs c) (child sample_dir (atomic_tmp_name 7 ''burst-log.md'')) = None"
  "look (orphaned_world fs c) sample_canonical = Some (File c)"
  by (simp_all add: look_orphaned look_fresh sample_canonical_def sample_entry_stem sample_names sample_dir_def)

theorem reconcile_complete_witness:
  "\<exists>appended w'. self_heal_reconcile_missing_index_entries unary_env sample_entry sample_canonical
       (orphaned_world [] ''abc'') = (Inr appended, w') \<and>
     healed_entry unary_env sample_entry 1 ''burst-log.0001.md'' 3 \<in> set appended \<and>
     self_heal_recovery_plausible unary_env sample_entry sample_canonical (w'\<lparr>faults := []\<rparr>) =
       (Inr False, w'\<lparr>faults := []\<rparr>)"
proof -
  let ?w = "orphaned_world [] ''abc''" and ?n = "sealed_name (artifact_stem sample_entry) 1"
  obtain appended w' where run: "self_heal_reconcile_missing_index_entries unary_env sample_entry
      sample_canonical ?w = (Inr appended, w')"
    using reconcile_calm[OF orphaned_fields(1) orphaned_setting unary_codec unary_total orphaned_dir(1), of "''abc''"]
    by (fastforce simp: orphaned_dir orphaned_fields)
  have n: "?n = ''burst-log.0001.md''" by (simp add: sample_entry_stem sample_names)
  have "known_seqs unary_env ?w sample_dir sample_entry = []"
    by (simp add: known_seqs_def base_index_def stored_index_plain orphaned_dir fresh_shard_index_def)
  then have "orphan ?w sample_dir (artifact_stem sample_entry)
      (known_seqs unary_env ?w sample_dir sample_entry) ?n 1 3"
    unfolding orphan_def by (simp add: candidate_sealed) (simp add: n look_orphaned)
  then have "healed_entry unary_env sample_entry 1 ?n (of_nat 3) \<in> set appended"
    using reconcile_complete[OF run orphaned_setting unary_codec] by blast
  then show ?thesis
    using reconcile_complete[OF run orphaned_setting unary_codec] run unfolding n by auto
qed


text \<open>
  Without the condition on links the resume is unsafe: a shard name that is a symbolic link to the
  canonical file reads as a copy of it, and the resume empties the only copy.
\<close>

definition linked_world :: world where
  "linked_world = put (child sample_dir ''burst-log.0001.md'') (Symlink sample_canonical) (fresh_world [] ''abc'')"

lemma look_linked: "look linked_world q = (if q = child sample_dir ''burst-log.0001.md''
    then Some (Symlink sample_canonical) else look (fresh_world [] ''abc'') q)"
  by (simp add: linked_world_def)

lemma linked_fields: "faults linked_world = []" "pid linked_world = 7"
  by (simp_all add: linked_world_def fresh_world_def)

lemma linked_setting: "roll_setting linked_world sample_dir ''burst-log.md'' sample_entry sample_canonical"
  by (simp add: roll_setting_def canonical_path_of_def sample_canonical_def sample_entry_def noslash_def
      sample_stem not_planted_def look_linked look_fresh linked_fields sample_names sample_dir_def)

lemma linked_follow: "get_node_follow linked_world (child sample_dir ''burst-log.0001.md'') = Inr (File ''abc'')"
proof -
  have "resolve_link 41 linked_world (child sample_dir ''burst-log.0001.md'') = Inr sample_canonical"
    by (simp add: numeral_eq_Suc look_linked look_fresh join_def sample_canonical_def is_absolute_def sample_dir_def)
  then show ?thesis
    by (simp add: get_node_follow_def get_node_def look_linked look_fresh sample_canonical_def sample_dir_def)
qed

lemma resume_through_link_loses_content:
  "\<exists>x w'. look linked_world sample_canonical = Some (File ''abc'') \<and>
     self_heal_resume_from_truncate unary_env sample_entry sample_canonical linked_world = (Inr (Some x), w') \<and>
     look w' sample_canonical = Some (File []) \<and> look w' (child sample_dir ''burst-log.0001.md'') = Some (Symlink sample_canonical)"
proof -
  have n: "sealed_name (artifact_stem sample_entry) 1 = ''burst-log.0001.md''" by (simp add: sample_entry_stem sample_names)
  have here: "look linked_world sample_canonical = Some (File ''abc'')" "dir_ok linked_world sample_dir"
    by (simp_all add: look_linked look_fresh sample_canonical_def sample_dir_def dir_ok_def)
  have idx: "look linked_world (index_in sample_dir sample_entry) = None"
    "look linked_world (child sample_dir (atomic_tmp_name 7 (index_name (artifact_stem sample_entry)))) = None"
    "look linked_world (child sample_dir (atomic_tmp_name 7 ''burst-log.md'')) = None"
    by (simp_all add: look_linked look_fresh sample_canonical_def sample_entry_stem sample_names sample_dir_def)
  have seq: "next_seq_ok unary_env linked_world (index_in sample_dir sample_entry) 1"
    by (simp add: next_seq_ok_def stored_index_plain idx)
  note follow = linked_follow[folded n]
  from resume_completes[OF linked_fields(1) linked_setting here(2) seq follow here(1) _ unary_total] idx
  obtain x w' where run: "self_heal_resume_from_truncate unary_env sample_entry sample_canonical linked_world = (Inr (Some x), w')"
    and empty: "look w' sample_canonical = Some (File [])"
    and f: "frame (resume_files sample_dir ''burst-log.md'' sample_entry 7) linked_world w'"
    by (auto simp: linked_fields)
  note neq = roll_setting_cname[OF linked_setting] roll_setting_cname[OF linked_setting, symmetric] name_neq
  have "look w' (sealed_in sample_dir sample_entry 1) = look linked_world (sealed_in sample_dir sample_entry 1)"
    by (rule frame_look[OF f]) (simp add: resume_files_def neq)
  then show ?thesis using here run empty by (simp add: n look_linked)
qed

end
