(* ===== verification/Json.thy ===== *)
theory Json
  imports F64 "HOL-Library.AList"
begin

text \<open>
  JSON values as \<open>serde_json\<close> has them and TOML values as the \<open>toml\<close> crate has them.  An object is
  an association list without repeated keys; lookup by key is what the sources use.
\<close>

datatype json_number = JInt int | JFloat f64

datatype json =
    JNull
  | JBool bool
  | JNum json_number
  | JStr string
  | JArr "json list"
  | JObj "(string \<times> json) list"

datatype toml =
    TStr string
  | TInt i64
  | TFloat f64
  | TBool bool
  | TDatetime string
  | TArr "toml list"
  | TTable "(string \<times> toml) list"

text \<open>\<open>Value::get\<close>, \<open>as_str\<close> and relatives.\<close>

fun jget :: "string \<Rightarrow> json \<Rightarrow> json option" where
  "jget k (JObj m) = map_of m k"
| "jget k _ = None"

fun jstr :: "json \<Rightarrow> string option" where
  "jstr (JStr s) = Some s"
| "jstr _ = None"

fun jarr :: "json \<Rightarrow> json list option" where
  "jarr (JArr xs) = Some xs"
| "jarr _ = None"

fun jbool :: "json \<Rightarrow> bool option" where
  "jbool (JBool b) = Some b"
| "jbool _ = None"

definition jget_str :: "string \<Rightarrow> json \<Rightarrow> string option" where
  "jget_str k v = Option.bind (jget k v) jstr"

text \<open>\<open>Map::insert\<close>: replaces the value of a key that is there, adds the key otherwise.\<close>

definition jinsert :: "string \<Rightarrow> json \<Rightarrow> (string \<times> json) list \<Rightarrow> (string \<times> json) list" where
  "jinsert k v m = AList.update k v m"

fun toml_get :: "string \<Rightarrow> toml \<Rightarrow> toml option" where
  "toml_get k (TTable m) = map_of m k"
| "toml_get k _ = None"

fun toml_str :: "toml \<Rightarrow> string option" where
  "toml_str (TStr s) = Some s"
| "toml_str _ = None"

text \<open>\<open>toml_to_json\<close>: a float that JSON cannot express becomes null.\<close>

fun toml_to_json :: "toml \<Rightarrow> json" where
  "toml_to_json (TStr s) = JStr s"
| "toml_to_json (TInt i) = JNum (JInt (sint i))"
| "toml_to_json (TFloat f) = (if f64_is_finite f then JNum (JFloat f) else JNull)"
| "toml_to_json (TBool b) = JBool b"
| "toml_to_json (TDatetime d) = JStr d"
| "toml_to_json (TArr xs) = JArr (map toml_to_json xs)"
| "toml_to_json (TTable m) = JObj (map (\<lambda>(k, v). (k, toml_to_json v)) m)"

lemma map_of_toml_to_json:
  "map_of (map (\<lambda>(k, v). (k, toml_to_json v)) m) k = map_option toml_to_json (map_of m k)"
  by (induction m) auto

lemma jget_toml_to_json: "jget k (toml_to_json v) = map_option toml_to_json (toml_get k v)"
  by (cases v) (auto simp: map_of_toml_to_json)

end
