(* ===== verification/Registry.thy ===== *)
theory Registry
  imports Json RustFs
begin

text \<open>
  The hook registry of \<^verbatim>\<open>registry.rs\<close>: entries with their optional fields and the defaults behind
  them, the load-time validation with its errors, and the resolution of plugin paths.  The regex
  compiler and the TOML reader are parameters.
\<close>

section \<open>Data\<close>

datatype on_error = Continue | Block | BlockIfMarker

datatype failure_policy = FailClosed | FailOpen

record exec_subprocess_caps =
  binary_allow :: "string list"
  shell_bypass_acknowledged :: "string option"
  cwd_allow :: "string list"
  exec_env_allow :: "string list"

record write_file_caps =
  write_path_allow :: "string list"
  max_bytes_per_call :: "u32 option"

record capabilities =
  cap_exec_subprocess :: "exec_subprocess_caps option"
  cap_read_file :: "string list option"
  cap_write_file :: "write_file_caps option"
  cap_read_prefix :: "string list option"
  cap_env_allow :: "string list"

record registry_defaults =
  def_timeout_ms :: u32
  def_fuel_cap :: u64
  def_on_error :: on_error
  def_priority :: u32

definition default_registry_defaults :: registry_defaults where
  "default_registry_defaults =
     \<lparr>def_timeout_ms = 5000, def_fuel_cap = 20000000, def_on_error = Continue, def_priority = 500\<rparr>"

record registry_entry =
  re_name :: string
  re_event :: string
  re_tool :: "string option"
  re_plugin :: path
  re_priority :: "u32 option"
  re_enabled :: bool
  re_timeout_ms :: "u32 option"
  re_fuel_cap :: "u64 option"
  re_on_error :: "on_error option"
  re_capabilities :: "capabilities option"
  re_config :: toml
  re_async :: bool
  re_needs_context :: "string list"
  re_failure_policy :: failure_policy

definition unwrap_or :: "'a option \<Rightarrow> 'a \<Rightarrow> 'a" where
  "unwrap_or x d = (case x of Some y \<Rightarrow> y | None \<Rightarrow> d)"

definition entry_priority :: "registry_defaults \<Rightarrow> registry_entry \<Rightarrow> u32" where
  "entry_priority defaults e = unwrap_or (re_priority e) (def_priority defaults)"

definition entry_timeout_ms :: "registry_defaults \<Rightarrow> registry_entry \<Rightarrow> u32" where
  "entry_timeout_ms defaults e = unwrap_or (re_timeout_ms e) (def_timeout_ms defaults)"

definition entry_fuel_cap :: "registry_defaults \<Rightarrow> registry_entry \<Rightarrow> u64" where
  "entry_fuel_cap defaults e = unwrap_or (re_fuel_cap e) (def_fuel_cap defaults)"

definition entry_on_error :: "registry_defaults \<Rightarrow> registry_entry \<Rightarrow> on_error" where
  "entry_on_error defaults e = unwrap_or (re_on_error e) (def_on_error defaults)"

definition config_as_json :: "registry_entry \<Rightarrow> json" where
  "config_as_json e = toml_to_json (re_config e)"

record registry =
  reg_schema_version :: u32
  reg_defaults :: registry_defaults
  reg_hooks :: "registry_entry list"

datatype registry_error =
    RegistryNotFound path
  | RegistryIo io_kind
  | RegistryToml
  | SchemaVersion u32 u32
  | ToolRegex string string
  | AsyncBlockConflict string string
  | DuplicateEntry string string "string option"

definition registry_schema_version :: u32 where "registry_schema_version = 2"

section \<open>Validation\<close>

type_synonym regex = "string \<Rightarrow> (string \<Rightarrow> bool) option"  \<comment> \<open>\<open>Regex::new\<close>, then \<open>is_match\<close>\<close>

fun validate_tool_regexes :: "regex \<Rightarrow> registry_entry list \<Rightarrow> registry_error + unit" where
  "validate_tool_regexes re [] = Inr ()"
| "validate_tool_regexes re (e # es) =
     (case re_tool e of
        None \<Rightarrow> validate_tool_regexes re es
      | Some pattern \<Rightarrow>
          (case re pattern of
             None \<Rightarrow> Inl (ToolRegex (re_name e) pattern)
           | Some _ \<Rightarrow> validate_tool_regexes re es))"

fun blocking_on_error :: "on_error option \<Rightarrow> string option" where
  "blocking_on_error (Some Block) = Some ''block''"
| "blocking_on_error (Some BlockIfMarker) = Some ''block_if_marker''"
| "blocking_on_error (Some Continue) = None"
| "blocking_on_error None = None"

fun validate_async_block_invariant :: "registry_entry list \<Rightarrow> registry_error + unit" where
  "validate_async_block_invariant [] = Inr ()"
| "validate_async_block_invariant (e # es) =
     (case blocking_on_error (re_on_error e) of
        Some oe \<Rightarrow> if re_async e then Inl (AsyncBlockConflict (re_name e) oe)
          else validate_async_block_invariant es
      | None \<Rightarrow> validate_async_block_invariant es)"

definition entry_key :: "registry_entry \<Rightarrow> string \<times> string \<times> string option" where
  "entry_key e = (re_name e, re_event e, re_tool e)"

fun validate_uniqueness_loop ::
  "(string \<times> string \<times> string option) set \<Rightarrow> registry_entry list \<Rightarrow> registry_error + unit"
where
  "validate_uniqueness_loop seen [] = Inr ()"
| "validate_uniqueness_loop seen (e # es) =
     (if entry_key e \<in> seen then Inl (DuplicateEntry (re_name e) (re_event e) (re_tool e))
      else validate_uniqueness_loop (insert (entry_key e) seen) es)"

definition validate_name_event_tool_uniqueness :: "registry_entry list \<Rightarrow> registry_error + unit" where
  "validate_name_event_tool_uniqueness es = validate_uniqueness_loop {} es"

definition validate_registry :: "regex \<Rightarrow> registry \<Rightarrow> registry_error + unit" where
  "validate_registry re r =
     (if reg_schema_version r \<noteq> registry_schema_version
      then Inl (SchemaVersion (reg_schema_version r) registry_schema_version)
      else (case validate_tool_regexes re (reg_hooks r) of
          Inl err \<Rightarrow> Inl err
        | Inr _ \<Rightarrow>
            (case validate_async_block_invariant (reg_hooks r) of
               Inl err \<Rightarrow> Inl err
             | Inr _ \<Rightarrow> validate_name_event_tool_uniqueness (reg_hooks r))))"

section \<open>Loading\<close>

definition resolve_plugin_paths :: "path \<Rightarrow> registry \<Rightarrow> registry" where
  "resolve_plugin_paths base r = r\<lparr>reg_hooks := map (\<lambda>e.
     if is_absolute (re_plugin e) then e else e\<lparr>re_plugin := join base (re_plugin e)\<rparr>) (reg_hooks r)\<rparr>"

definition registry_parse_str ::
  "regex \<Rightarrow> (string \<Rightarrow> registry option) \<Rightarrow> string \<Rightarrow> registry_error + registry"
where
  "registry_parse_str re parse s =
     (case parse s of
        None \<Rightarrow> Inl RegistryToml
      | Some r \<Rightarrow> (case validate_registry re r of Inl err \<Rightarrow> Inl err | Inr _ \<Rightarrow> Inr r))"

text \<open>\<open>Path::exists\<close> is false on any error of the stat.\<close>

definition registry_load ::
  "regex \<Rightarrow> (string \<Rightarrow> registry option) \<Rightarrow> path \<Rightarrow> world \<Rightarrow> (registry_error + registry) \<times> world"
where
  "registry_load re parse p w =
     (case fs_metadata p w of
        (Inl _, w) \<Rightarrow> (Inl (RegistryNotFound p), w)
      | (Inr _, w) \<Rightarrow>
          (case fs_read_to_string p w of
             (Inl k, w) \<Rightarrow> (Inl (RegistryIo k), w)
           | (Inr text, w) \<Rightarrow>
               (case registry_parse_str re parse text of
                  Inl err \<Rightarrow> (Inl err, w)
                | Inr parsed \<Rightarrow>
                    (Inr (case parent p of Some base \<Rightarrow> resolve_plugin_paths base parsed | None \<Rightarrow> parsed), w))))"

section \<open>What validation means\<close>

lemma validate_tool_regexes_iff:
  "validate_tool_regexes re es = Inr () \<longleftrightarrow> (\<forall>e \<in> set es. \<forall>p. re_tool e = Some p \<longrightarrow> re p \<noteq> None)"
  by (induction es) (auto split: option.splits)

lemma blocking_iff: "blocking_on_error oe \<noteq> None \<longleftrightarrow> oe = Some Block \<or> oe = Some BlockIfMarker"
  by (cases oe rule: blocking_on_error.cases) auto

lemma validate_async_iff:
  "validate_async_block_invariant es = Inr () \<longleftrightarrow>
     (\<forall>e \<in> set es. re_async e \<longrightarrow> re_on_error e \<noteq> Some Block \<and> re_on_error e \<noteq> Some BlockIfMarker)"
proof (induction es)
  case (Cons e es)
  then show ?case using blocking_iff[of "re_on_error e"] by (auto split: option.splits)
qed simp

lemma validate_uniqueness_iff:
  "validate_uniqueness_loop seen es = Inr () \<longleftrightarrow>
     distinct (map entry_key es) \<and> seen \<inter> set (map entry_key es) = {}"
  by (induction es arbitrary: seen) auto

lemma validate_uniqueness_dup:
  "validate_uniqueness_loop seen es = Inl err \<Longrightarrow>
     \<exists>pre e post. es = pre @ e # post \<and> err = DuplicateEntry (re_name e) (re_event e) (re_tool e) \<and>
       (entry_key e \<in> seen \<or> entry_key e \<in> entry_key ` set pre)"
proof (induction es arbitrary: seen)
  case (Cons a es)
  show ?case
  proof (cases "entry_key a \<in> seen")
    case True
    then show ?thesis using Cons.prems by (intro exI[of _ "[]"] exI[of _ a] exI[of _ es]) auto
  next
    case False
    then obtain pre e post where "es = pre @ e # post"
      "err = DuplicateEntry (re_name e) (re_event e) (re_tool e)"
      "entry_key e \<in> insert (entry_key a) seen \<or> entry_key e \<in> entry_key ` set pre"
      using Cons.IH[of "insert (entry_key a) seen"] Cons.prems by auto
    then show ?thesis by (intro exI[of _ "a # pre"] exI[of _ e] exI[of _ post]) auto
  qed
qed simp

text \<open>
  A registry loads exactly when its schema version is the expected one, every tool pattern
  compiles, no entry marked asynchronous names a blocking error policy, and no two entries share
  name, event and tool pattern.
\<close>

theorem validate_registry_iff:
  "validate_registry re r = Inr () \<longleftrightarrow>
     reg_schema_version r = 2 \<and>
     (\<forall>e \<in> set (reg_hooks r). \<forall>p. re_tool e = Some p \<longrightarrow> re p \<noteq> None) \<and>
     (\<forall>e \<in> set (reg_hooks r). re_async e \<longrightarrow> re_on_error e \<noteq> Some Block \<and> re_on_error e \<noteq> Some BlockIfMarker) \<and>
     distinct (map entry_key (reg_hooks r))"
proof -
  have ok: "(case x of Inl err \<Rightarrow> Inl err | Inr _ \<Rightarrow> f) = Inr () \<longleftrightarrow> x = Inr () \<and> f = Inr ()"
    for x f :: "registry_error + unit" by (cases x) auto
  show ?thesis
    unfolding validate_registry_def validate_name_event_tool_uniqueness_def registry_schema_version_def
    by (simp add: ok validate_tool_regexes_iff validate_async_iff validate_uniqueness_iff)
qed

definition sample_registry_entry :: registry_entry where
  "sample_registry_entry = \<lparr>re_name = ''guard'', re_event = ''PreToolUse'', re_tool = None,
     re_plugin = [Normal ''guard.wasm''], re_priority = None, re_enabled = True, re_timeout_ms = None,
     re_fuel_cap = None, re_on_error = None, re_capabilities = None, re_config = TTable [],
     re_async = True, re_needs_context = [], re_failure_policy = FailOpen\<rparr>"

definition sample_registry :: registry where
  "sample_registry = \<lparr>reg_schema_version = 2,
     reg_defaults = default_registry_defaults\<lparr>def_on_error := Block\<rparr>, reg_hooks = [sample_registry_entry]\<rparr>"

theorem validate_registry_iff_witness:
  "validate_registry (\<lambda>_. None) sample_registry = Inr ()"
  by (subst validate_registry_iff) (simp add: sample_registry_def sample_registry_entry_def)

text \<open>
  The check looks at the entry's own policy only: an asynchronous entry that inherits a blocking
  policy from the defaults is accepted, and its effective policy is the blocking one.
\<close>

lemma async_inherits_blocking_policy:
  "validate_registry (\<lambda>_. None) sample_registry = Inr () \<and> re_async sample_registry_entry \<and>
   entry_on_error (reg_defaults sample_registry) sample_registry_entry = Block"
  by (simp add: validate_registry_def sample_registry_def sample_registry_entry_def registry_schema_version_def
      validate_name_event_tool_uniqueness_def entry_on_error_def unwrap_or_def)

text \<open>Resolving plugin paths is idempotent on an absolute base, and leaves absolute paths alone.\<close>

lemma join_absolute: "is_absolute base \<Longrightarrow> is_absolute (join base q)"
  by (auto simp: join_def is_absolute_def split: list.splits component.splits)

lemma resolve_plugin_paths_absolute:
  "is_absolute base \<Longrightarrow> e \<in> set (reg_hooks (resolve_plugin_paths base r)) \<Longrightarrow> is_absolute (re_plugin e)"
  by (auto simp: resolve_plugin_paths_def join_absolute)

lemma resolve_plugin_paths_idem:
  "is_absolute base \<Longrightarrow> resolve_plugin_paths base' (resolve_plugin_paths base r) = resolve_plugin_paths base r"
  by (auto simp: resolve_plugin_paths_def join_absolute comp_def)

end
