(* ===== verification/Routing.thy ===== *)
theory Routing
  imports Registry "HOL-Library.Product_Lexorder" "HOL-Library.Multiset"
begin

text \<open>
  From a payload to the entries that run: matching (\<^verbatim>\<open>routing.rs\<close>), the split into synchronous and
  asynchronous entries (\<^verbatim>\<open>partition.rs\<close>), priority tiers, and the exit code of the synchronous
  results (\<^verbatim>\<open>aggregator.rs\<close>).
\<close>

section \<open>Matching\<close>

definition tool_matches :: "regex \<Rightarrow> registry_entry \<Rightarrow> string \<Rightarrow> bool" where
  "tool_matches re e tool_name =
     (case re_tool e of
        None \<Rightarrow> True
      | Some pattern \<Rightarrow> (case re pattern of Some is_match \<Rightarrow> is_match tool_name | None \<Rightarrow> False))"

definition match_plugins :: "regex \<Rightarrow> registry \<Rightarrow> string \<Rightarrow> string \<Rightarrow> registry_entry list" where
  "match_plugins re r event_name tool_name =
     filter (\<lambda>e. tool_matches re e tool_name)
       (filter (\<lambda>e. re_event e = event_name) (filter re_enabled (reg_hooks r)))"

section \<open>Synchronous and asynchronous entries\<close>

record plugin_partition =
  sync_group :: "registry_entry list"
  async_group :: "registry_entry list"

fun partition_loop :: "registry_entry list \<Rightarrow> registry_entry list \<Rightarrow> registry_entry list \<Rightarrow> plugin_partition" where
  "partition_loop sync async [] = \<lparr>sync_group = sync, async_group = async\<rparr>"
| "partition_loop sync async (e # es) =
     (if re_async e then partition_loop sync (async @ [e]) es else partition_loop (sync @ [e]) async es)"

definition partition_plugins :: "registry_entry list \<Rightarrow> plugin_partition" where
  "partition_plugins matched = partition_loop [] [] matched"

lemma partition_loop_filter:
  "partition_loop s a es = \<lparr>sync_group = s @ filter (\<lambda>e. \<not> re_async e) es, async_group = a @ filter re_async es\<rparr>"
  by (induction es arbitrary: s a) auto

text \<open>
  The split into synchronous and asynchronous entries keeps every matched entry exactly once
  and in order, and puts it in the group its flag names.
\<close>

theorem partition_plugins_total:
  "sync_group (partition_plugins es) = filter (\<lambda>e. \<not> re_async e) es \<and>
   async_group (partition_plugins es) = filter re_async es \<and>
   mset (sync_group (partition_plugins es)) + mset (async_group (partition_plugins es)) = mset es"
proof -
  have "mset (filter (\<lambda>e. \<not> re_async e) es) + mset (filter re_async es) = mset es"
    by (induction es) auto
  then show ?thesis by (simp add: partition_plugins_def partition_loop_filter)
qed

section \<open>Priority tiers\<close>

fun push_tiers ::
  "registry_entry list list \<Rightarrow> u32 option \<Rightarrow> (nat \<times> u32 \<times> registry_entry) list \<Rightarrow> registry_entry list list"
where
  "push_tiers tiers current [] = tiers"
| "push_tiers tiers current ((_, p, e) # rest) =
     (let tiers' = (if Some p \<noteq> current then tiers @ [[]] else tiers) in
      push_tiers (butlast tiers' @ [last tiers' @ [e]]) (Some p) rest)"

definition group_by_priority :: "registry \<Rightarrow> registry_entry list \<Rightarrow> registry_entry list list" where
  "group_by_priority r matched =
     (let indexed = map (\<lambda>(i, e). (i, entry_priority (reg_defaults r) e, e)) (enumerate 0 matched) in
      push_tiers [] None (sort_key (\<lambda>(i, p, _). (p, i)) indexed))"

text \<open>A run of tiers with one priority each, strictly ascending, none empty.\<close>

definition tiers_ok :: "(registry_entry \<Rightarrow> u32) \<Rightarrow> registry_entry list list \<Rightarrow> bool" where
  "tiers_ok prio tiers \<longleftrightarrow> [] \<notin> set tiers \<and>
     (\<forall>t \<in> set tiers. \<forall>e \<in> set t. prio e = prio (hd t)) \<and> strictly_ascending (map (prio \<circ> hd) tiers)"

lemma push_tiers_spec:
  assumes "tiers_ok prio tiers" "current = (if tiers = [] then None else Some (prio (hd (last tiers))))"
    and "\<forall>(i, p, e) \<in> set xs. p = prio e" "sorted (map (\<lambda>(i, p, e). p) xs)"
    and "\<forall>(i, p, e) \<in> set xs. tiers \<noteq> [] \<longrightarrow> prio (hd (last tiers)) \<le> p"
  shows "tiers_ok prio (push_tiers tiers current xs) \<and>
    concat (push_tiers tiers current xs) = concat tiers @ map (\<lambda>(i, p, e). e) xs"
  using assms
proof (induction xs arbitrary: tiers current)
  case Nil
  then show ?case by simp
next
  case (Cons x xs)
  obtain i p e where x: "x = (i, p, e)" by (metis prod_cases3)
  have p: "p = prio e" using Cons.prems(3) x by simp
  have tl: "\<forall>(i, p, e) \<in> set xs. p = prio e" "sorted (map (\<lambda>(i, p, e). p) xs)"
    using Cons.prems(3,4) by simp_all
  have later: "\<forall>(i', p', e') \<in> set xs. p \<le> p'" using Cons.prems(4) by (fastforce simp: x)
  show ?case
  proof (cases "Some p = current")
    case True
    then obtain init t where t: "tiers = init @ [t]" using Cons.prems(2) by (cases tiers rule: rev_cases) auto
    let ?new = "init @ [t @ [e]]"
    have same: "prio (hd t) = p" and ne: "t \<noteq> []"
      using True Cons.prems(1,2) t by (auto simp: tiers_ok_def)
    have ok: "tiers_ok prio ?new"
      using Cons.prems(1) t same p ne by (auto simp: tiers_ok_def)
    have "tiers_ok prio (push_tiers ?new (Some p) xs) \<and>
        concat (push_tiers ?new (Some p) xs) = concat ?new @ map (\<lambda>(i, p, e). e) xs"
    proof (rule Cons.IH[OF ok])
      show "Some p = (if ?new = [] then None else Some (prio (hd (last ?new))))" using same ne by simp
      show "\<forall>(i, p, e) \<in> set xs. ?new \<noteq> [] \<longrightarrow> prio (hd (last ?new)) \<le> p" using later same ne by simp
    qed (use tl in simp_all)
    then show ?thesis using True by (simp add: x t)
  next
    case False
    let ?new = "tiers @ [[e]]"
    have above: "prio (hd (last tiers)) < p" if "tiers \<noteq> []"
    proof -
      have "prio (hd (last tiers)) \<le> p" using Cons.prems(5) that x by simp
      moreover have "prio (hd (last tiers)) \<noteq> p" using False Cons.prems(2) that by auto
      ultimately show ?thesis by simp
    qed
    have asc: "strictly_ascending (map (prio \<circ> hd) tiers @ [p])"
    proof (cases tiers rule: rev_cases)
      case Nil
      then show ?thesis by simp
    next
      case (snoc init t)
      have asc: "sorted_wrt (<) (map (prio \<circ> hd) init @ [prio (hd t)])"
        using Cons.prems(1) by (simp add: tiers_ok_def snoc strictly_ascending_iff)
      moreover have "prio (hd t) < p" using above snoc by simp
      ultimately show ?thesis
        by (fastforce simp: snoc strictly_ascending_iff sorted_wrt_append)
    qed
    have ok: "tiers_ok prio ?new" using Cons.prems(1) asc p by (auto simp: tiers_ok_def)
    have "tiers_ok prio (push_tiers ?new (Some p) xs) \<and>
        concat (push_tiers ?new (Some p) xs) = concat ?new @ map (\<lambda>(i, p, e). e) xs"
    proof (rule Cons.IH[OF ok])
      show "Some p = (if ?new = [] then None else Some (prio (hd (last ?new))))" using p by simp
      show "\<forall>(i, p, e) \<in> set xs. ?new \<noteq> [] \<longrightarrow> prio (hd (last ?new)) \<le> p" using later p by simp
    qed (use tl in simp_all)
    then show ?thesis using False by (simp add: x)
  qed
qed

lemma sorted_key_const:
  assumes "\<And>x. x \<in> set xs \<Longrightarrow> g x = (c, h x)" "sorted (map h xs)"
  shows "sorted (map g xs)"
proof -
  have "map g xs = map (\<lambda>x. (c, h x)) xs" using assms(1) by (intro map_cong) simp_all
  moreover have "sorted (map (\<lambda>x. (c, h x)) xs)"
    using assms(2) by (simp add: sorted_map sorted_wrt_map less_eq_prod_def)
  ultimately show ?thesis by metis
qed

lemma sort_key_enumerate:
  fixes f :: "'a \<Rightarrow> 'b::linorder"
  shows "map (\<lambda>(i, p, e). e) (sort_key (\<lambda>(i, p, _). (p, i)) (map (\<lambda>(i, e). (i, f e, e)) (enumerate n xs))) =
    sort_key f xs"
proof (rule properties_for_sort_key[symmetric])
  let ?L = "map (\<lambda>(i, e). (i, f e, e)) (enumerate n xs)" and ?g = "\<lambda>(i :: nat, p :: 'b, _ :: 'a). (p, i)"
  let ?zs = "sort_key ?g ?L" and ?e = "\<lambda>(i :: nat, p :: 'b, e :: 'a). e"
  have third: "map ?e ?L = xs" by (induction xs arbitrary: n) auto
  have pf: "p = f e" if "(i, p, e) \<in> set ?L" for i p e using that by auto
  show "mset (map ?e ?zs) = mset xs" unfolding mset_map mset_sort unfolding mset_map[symmetric] third ..
  have "f (?e z) = fst (?g z)" if "z \<in> set ?zs" for z
  proof (cases z)
    case (fields i p e)
    have "(i, p, e) \<in> set ?L" using that unfolding fields set_sort .
    then have "p = f e" by (rule pf)
    then show ?thesis unfolding fields prod.case fst_conv by (rule sym)
  qed
  then have "map f (map ?e ?zs) = map fst (map ?g ?zs)" unfolding map_map comp_def by (rule map_cong[OF refl])
  moreover have "sorted (map fst (map ?g ?zs))"
  proof -
    have "sorted_wrt (\<lambda>x y. ?g x \<le> ?g y) ?zs" using sorted_sort_key[of ?g ?L] unfolding sorted_map .
    then have "sorted_wrt (\<lambda>x y. fst (?g x) \<le> fst (?g y)) ?zs"
      by (rule sorted_wrt_mono_rel[rotated]) (auto simp: less_eq_prod_def)
    then show ?thesis unfolding sorted_map sorted_wrt_map .
  qed
  ultimately show "sorted (map f (map ?e ?zs))" by (rule ssubst)
  show "filter (\<lambda>x. f k = f x) (map ?e ?zs) = filter (\<lambda>x. f k = f x) xs" for k
  proof -
    let ?P = "\<lambda>x. f k = f (?e x)"
    have "sorted (map fst (filter ?P ?L))"
    proof -
      have "map fst ?L = map fst (enumerate n xs)" by (simp add: case_prod_unfold comp_def)
      also have "\<dots> = [n..<n + length xs]" by simp
      finally have "map fst ?L = [n..<n + length xs]" .
      then have "sorted (map fst ?L)" by (simp only: sorted_upt)
      then show ?thesis unfolding sorted_map by (rule sorted_wrt_filter)
    qed
    then have "sorted (map ?g (filter ?P ?L))"
      by (rule sorted_key_const[where c = "f k", rotated]) (auto simp: pf)
    then have "sort_key ?g (filter ?P ?L) = filter ?P ?L" by (rule sort_key_id_if_sorted)
    then have "filter ?P ?zs = filter ?P ?L" unfolding filter_sort .
    moreover have f: "filter (\<lambda>x. f k = f x) (map ?e ys) = map ?e (filter ?P ys)" for ys
      by (simp only: filter_map comp_def)
    ultimately have "filter (\<lambda>x. f k = f x) (map ?e ?zs) = filter (\<lambda>x. f k = f x) (map ?e ?L)"
      by (simp only: f)
    then show ?thesis unfolding third .
  qed
qed

lemma group_by_priority_core:
  "concat (group_by_priority r matched) = sort_key (entry_priority (reg_defaults r)) matched \<and>
   tiers_ok (entry_priority (reg_defaults r)) (group_by_priority r matched)"
proof -
  let ?prio = "entry_priority (reg_defaults r)"
  let ?key = "\<lambda>(i :: nat, p :: u32, _ :: registry_entry). (p, i)"
  let ?L = "map (\<lambda>(i, e). (i, ?prio e, e)) (enumerate 0 matched)"
  let ?zs = "sort_key ?key ?L"
  have "sorted_wrt (\<lambda>x y. ?key x \<le> ?key y) ?zs" using sorted_sort_key[of ?key ?L] unfolding sorted_map .
  then have "sorted_wrt (\<lambda>x y. (\<lambda>(i, p, e). p) x \<le> (\<lambda>(i, p, e). p) y) ?zs"
    by (rule sorted_wrt_mono_rel[rotated]) (auto simp: less_eq_prod_def)
  then have "sorted (map (\<lambda>(i, p, e). p) ?zs)" unfolding sorted_map sorted_wrt_map .
  moreover have "\<forall>(i, p, e) \<in> set ?zs. p = ?prio e" unfolding set_sort by auto
  ultimately have "tiers_ok ?prio (push_tiers [] None ?zs) \<and>
      concat (push_tiers [] None ?zs) = concat [] @ map (\<lambda>(i, p, e). e) ?zs"
    by (intro push_tiers_spec) (simp_all add: tiers_ok_def)
  then show ?thesis
    unfolding group_by_priority_def Let_def sort_key_enumerate by simp
qed

text \<open>
  Claim C25.  Grouping by priority neither loses nor reorders work: the tiers concatenate to the stable sort
  of the matched entries by effective priority, every tier is non-empty and has a single priority,
  and the priorities of the tiers are strictly ascending.
\<close>

theorem group_by_priority_tiers:
  "concat (group_by_priority r matched) = sort_key (entry_priority (reg_defaults r)) matched \<and>
   tiers_ok (entry_priority (reg_defaults r)) (group_by_priority r matched)"
  by (rule group_by_priority_core)

section \<open>Matching and grouping together\<close>

text \<open>The exit code of the synchronous results (\<^verbatim>\<open>aggregator.rs\<close>).\<close>

record sync_result =
  sr_exit_code :: "8 word"
  sr_on_error :: on_error

definition aggregate_exit_code :: "sync_result list \<Rightarrow> 8 word" where
  "aggregate_exit_code sync_results =
     (if list_ex (\<lambda>r. sr_exit_code r = 2 \<and> sr_on_error r = Block) sync_results then 2 else 0)"

lemma aggregate_exit_code_append:
  "aggregate_exit_code (a @ b) = (if aggregate_exit_code a = 2 then 2 else aggregate_exit_code b)"
  by (simp add: aggregate_exit_code_def)

text \<open>
  The tiers that run for an event hold exactly the enabled entries of that event whose tool
  pattern is absent or compiles and matches the tool; nothing runs twice unless the registry lists
  it twice.
\<close>

theorem tiers_hold_matching_entries:
  "set (concat (group_by_priority r (match_plugins re r event_name tool_name))) =
     {e \<in> set (reg_hooks r). re_enabled e \<and> re_event e = event_name \<and>
        (re_tool e = None \<or> (\<exists>pat is_match. re_tool e = Some pat \<and> re pat = Some is_match \<and> is_match tool_name))} \<and>
   mset (concat (group_by_priority r (match_plugins re r event_name tool_name))) \<subseteq># mset (reg_hooks r)"
proof -
  have c: "concat (group_by_priority r m) = sort_key (entry_priority (reg_defaults r)) m" for m
    using group_by_priority_core by blast
  have "mset (match_plugins re r event_name tool_name) \<subseteq># mset (reg_hooks r)"
    unfolding match_plugins_def mset_filter by (meson multiset_filter_subset subset_mset.order_trans)
  moreover have "tool_matches re e tool_name \<longleftrightarrow> re_tool e = None \<or>
      (\<exists>pat is_match. re_tool e = Some pat \<and> re pat = Some is_match \<and> is_match tool_name)" for e
    by (cases "re_tool e") (auto simp: tool_matches_def split: option.splits)
  ultimately show ?thesis unfolding c mset_sort set_sort by (auto simp: match_plugins_def)
qed

end
