(* ===== verification/Marker.thy ===== *)
theory Marker
  imports Registry
begin

text \<open>
  The unvalidated-mutation marker of \<^verbatim>\<open>indeterminate_marker.rs\<close>: the quarantine that a fail-closed
  validator leaves when it could not decide, the gate check that reads it, the three ways it is
  cleared, and the audit events.  Parameters: the TOML codec of its string table, RFC 3339 parsing
  and printing (of instants, in nanoseconds), the JSON parser of the log lines and the Unicode alphanumeric test.  Emitted
  events are returned as lists in the order of emission.
\<close>

section \<open>Data\<close>

record marker_fields =
  mf_timestamp :: string
  mf_plugin_name :: string
  mf_artifact_path :: string
  mf_cause :: string
  mf_trace_id :: string
  mf_expires_at :: string

record internal_event =
  ev_type :: string
  ev_ts :: string
  ev_trace_id :: string
  ev_session_id :: string
  ev_plugin_name :: string
  ev_fields :: "(string \<times> json) list"

record marker_env =
  me_encode :: "(string \<times> string) list \<Rightarrow> string option"
  me_decode :: "string \<Rightarrow> (string \<times> toml) list option"
  me_rfc3339 :: "string \<Rightarrow> int option"
  me_format :: "int \<Rightarrow> string"
  me_json :: "string \<Rightarrow> json option"
  me_alnum :: "string \<Rightarrow> bool"
  me_now_ts :: string

datatype indeterminate_cause = CauseFuel | CauseEpoch | CauseOutputTooLarge

datatype dispatch_outcome = Pass | Fail int | Indeterminate indeterminate_cause

fun cause_to_str :: "indeterminate_cause \<Rightarrow> string" where
  "cause_to_str CauseFuel = ''fuel''"
| "cause_to_str CauseEpoch = ''epoch''"
| "cause_to_str CauseOutputTooLarge = ''output-too-large''"

definition marker_path_in :: "path \<Rightarrow> path" where
  "marker_path_in proj = proj @ [Normal ''.factory'', Normal ''unvalidated-mutation.marker'']"

section \<open>Writing\<close>

text \<open>The characters of a UTF-8 string: a byte with the continuation bytes after it.\<close>

fun utf8_chars :: "string \<Rightarrow> string list" where
  "utf8_chars [] = []"
| "utf8_chars (c # s) = (case utf8_chars s of
     [] \<Rightarrow> [[c]] | l # ls \<Rightarrow> if is_cont (hd l) then (c # l) # ls else [c] # l # ls)"

definition safe_plugin_char :: "marker_env \<Rightarrow> string \<Rightarrow> string" where
  "safe_plugin_char env c =
     (if (case c of [b] \<Rightarrow> is_ascii_alphanumeric b \<or> b = CHR ''-'' \<or> b = CHR ''_'' | _ \<Rightarrow> me_alnum env c)
      then c else ''_'')"

definition marker_tmp_path :: "marker_env \<Rightarrow> nat \<Rightarrow> u64 \<Rightarrow> string \<Rightarrow> path \<Rightarrow> path" where
  "marker_tmp_path env process nonce plugin marker_path =
     (let file_name = (case file_name marker_path of
            Some f \<Rightarrow> if utf8_valid f then f else ''unvalidated-mutation.marker''
          | None \<Rightarrow> ''unvalidated-mutation.marker'');
          safe_plugin = concat (map (safe_plugin_char env) (utf8_chars plugin)) in
      join_name (parent_or [CurDir] marker_path)
        (file_name @ ''.'' @ safe_plugin @ ''.'' @ show_nat process @ ''.'' @ show_nat (unat nonce) @ ''.tmp''))"

definition marker_table :: "marker_fields \<Rightarrow> (string \<times> string) list" where
  "marker_table f = [(''timestamp'', mf_timestamp f), (''plugin_name'', mf_plugin_name f),
     (''artifact_path'', mf_artifact_path f), (''cause'', mf_cause f), (''trace_id'', mf_trace_id f),
     (''expires_at'', mf_expires_at f)]"

text \<open>Write a temporary file (\<open>std::fs::write\<close> creates and writes), then rename it over the target.\<close>

definition replace_via_tmp :: "path \<Rightarrow> path \<Rightarrow> bytes \<Rightarrow> world \<Rightarrow> (io_kind + unit) \<times> world" where
  "replace_via_tmp tmp_path marker_path content w =
     (case (case fs_create tmp_path w of
              (Inl e, w) \<Rightarrow> (Inl e, w) | (Inr file, w) \<Rightarrow> fs_write_all file content w) of
        (Inl e, w) \<Rightarrow> (Inl e, w)
      | (Inr _, w) \<Rightarrow>
          (case fs_rename tmp_path marker_path w of
             (Inl e, w) \<Rightarrow> (Inl e, snd (fs_remove_file tmp_path w))
           | (Inr _, w) \<Rightarrow> (Inr (), w)))"

text \<open>The nonce is the process-wide counter.\<close>

definition write_indeterminate_marker ::
  "marker_env \<Rightarrow> u64 \<Rightarrow> marker_fields \<Rightarrow> path \<Rightarrow> world \<Rightarrow> (io_kind + unit) \<times> world"
where
  "write_indeterminate_marker env nonce mf marker_path w =
     (case me_encode env (marker_table mf) of
        None \<Rightarrow> (Inl InvalidData, w)
      | Some content \<Rightarrow>
          replace_via_tmp (marker_tmp_path env (pid w) nonce (mf_plugin_name mf) marker_path) marker_path content w)"

section \<open>Reading\<close>

definition table_str :: "(string \<times> toml) list \<Rightarrow> string \<Rightarrow> string option" where
  "table_str table key = Option.bind (map_of table key) toml_str"

definition fields_of_table :: "(string \<times> toml) list \<Rightarrow> marker_fields option" where
  "fields_of_table table =
     (case (table_str table ''timestamp'', table_str table ''plugin_name'', table_str table ''artifact_path'',
            table_str table ''cause'', table_str table ''trace_id'') of
        (Some ts, Some plugin, Some artifact, Some cause, Some trace) \<Rightarrow>
          Some \<lparr>mf_timestamp = ts, mf_plugin_name = plugin, mf_artifact_path = artifact, mf_cause = cause,
            mf_trace_id = trace, mf_expires_at = unwrap_or (table_str table ''expires_at'') []\<rparr>
      | _ \<Rightarrow> None)"

definition read_all_marker_fields ::
  "marker_env \<Rightarrow> path \<Rightarrow> world \<Rightarrow> (io_kind + marker_fields option) \<times> world"
where
  "read_all_marker_fields env marker_path w =
     (case fs_read_to_string marker_path w of
        (Inl NotFound, w) \<Rightarrow> (Inr None, w)
      | (Inl e, w) \<Rightarrow> (Inl e, w)
      | (Inr content, w) \<Rightarrow> (Inr (Option.bind (me_decode env content) fields_of_table), w))"

definition read_marker_plugin_name ::
  "marker_env \<Rightarrow> path \<Rightarrow> world \<Rightarrow> (io_kind + string option) \<times> world"
where
  "read_marker_plugin_name env marker_path w =
     (case fs_read_to_string marker_path w of
        (Inl NotFound, w) \<Rightarrow> (Inr None, w)
      | (Inl e, w) \<Rightarrow> (Inl e, w)
      | (Inr content, w) \<Rightarrow>
          (Inr (Option.bind (me_decode env content) (\<lambda>table. table_str table ''plugin_name'')), w))"

definition parse_expires_at :: "marker_env \<Rightarrow> string \<Rightarrow> int option" where
  "parse_expires_at env content =
     Option.bind (me_decode env content) (\<lambda>table.
       Option.bind (table_str table ''expires_at'') (me_rfc3339 env))"

definition block_if_marker_check :: "marker_env \<Rightarrow> path \<Rightarrow> int \<Rightarrow> world \<Rightarrow> bool \<times> world" where
  "block_if_marker_check env proj now w =
     (case fs_read_to_string (marker_path_in proj) w of
        (Inl _, w) \<Rightarrow> (False, w)
      | (Inr content, w) \<Rightarrow>
          ((case parse_expires_at env content of Some expiry \<Rightarrow> \<not> expiry \<le> now | None \<Rightarrow> True), w))"

definition should_write_marker :: "dispatch_outcome \<Rightarrow> failure_policy \<Rightarrow> bool" where
  "should_write_marker outcome policy \<longleftrightarrow>
     (case outcome of Indeterminate _ \<Rightarrow> True | _ \<Rightarrow> False) \<and> policy = FailClosed"

section \<open>Clearing\<close>

definition delete_marker_if_pass ::
  "marker_env \<Rightarrow> path \<Rightarrow> string \<Rightarrow> world \<Rightarrow> (io_kind + bool) \<times> world"
where
  "delete_marker_if_pass env marker_path current_artifact_path w =
     (case fs_read_to_string marker_path w of
        (Inl NotFound, w) \<Rightarrow> (Inr False, w)
      | (Inl e, w) \<Rightarrow> (Inl e, w)
      | (Inr content, w) \<Rightarrow>
          (case me_decode env content of
             None \<Rightarrow> (Inr False, w)
           | Some table \<Rightarrow>
               let marker_artifact = unwrap_or (table_str table ''artifact_path'') [];
                   should_clear = (marker_artifact = [] \<or>
                     path_of marker_artifact = path_of current_artifact_path) in
               if \<not> should_clear then (Inr False, w)
               else (case fs_remove_file marker_path w of
                   (Inr _, w) \<Rightarrow> (Inr True, w)
                 | (Inl NotFound, w) \<Rightarrow> (Inr False, w)
                 | (Inl e, w) \<Rightarrow> (Inl e, w))))"

definition marker_cleared_event ::
  "marker_env \<Rightarrow> string \<Rightarrow> marker_fields \<Rightarrow> string \<Rightarrow> string \<Rightarrow> string option \<Rightarrow> internal_event"
where
  "marker_cleared_event env session mf clear_mode actor reason =
     \<lparr>ev_type = ''marker.cleared'', ev_ts = me_now_ts env, ev_trace_id = mf_trace_id mf,
      ev_session_id = session, ev_plugin_name = mf_plugin_name mf,
      ev_fields = [(''timestamp'', JStr (me_now_ts env)), (''artifact_path'', JStr (mf_artifact_path mf)),
        (''clear_mode'', JStr clear_mode), (''actor_type'', JStr actor),
        (''reason'', case reason of None \<Rightarrow> JNull | Some r \<Rightarrow> JStr r)]\<rparr>"

definition marker_written_event :: "marker_env \<Rightarrow> string \<Rightarrow> marker_fields \<Rightarrow> internal_event" where
  "marker_written_event env session mf =
     \<lparr>ev_type = ''marker.written'', ev_ts = me_now_ts env, ev_trace_id = mf_trace_id mf,
      ev_session_id = session, ev_plugin_name = mf_plugin_name mf,
      ev_fields = [(''artifact_path'', JStr (mf_artifact_path mf)), (''cause'', JStr (mf_cause mf)),
        (''expires_at'', JStr (mf_expires_at mf))]\<rparr>"

definition superseded_reason :: string where
  "superseded_reason = ''SUPERSEDED: marker overwritten by a new plugin.indeterminate event for a different (plugin_name, artifact_path) pair before being cleared; last-writer-wins (BC-1.18.001 INV3)''"

definition emit_superseded_if_cross_pair ::
  "marker_env \<Rightarrow> string \<Rightarrow> marker_fields option \<Rightarrow> marker_fields \<Rightarrow> internal_event list"
where
  "emit_superseded_if_cross_pair env session existing new_fields =
     (case existing of None \<Rightarrow> []
      | Some old \<Rightarrow>
          if mf_plugin_name old = mf_plugin_name new_fields \<and> mf_artifact_path old = mf_artifact_path new_fields
          then []
          else [marker_cleared_event env session old ''SUPERSEDED'' ''system'' (Some superseded_reason)])"

definition emit_write_tied_audit_events ::
  "marker_env \<Rightarrow> string \<Rightarrow> io_kind + unit \<Rightarrow> marker_fields option \<Rightarrow> marker_fields \<Rightarrow> internal_event list"
where
  "emit_write_tied_audit_events env session write_result existing mf =
     (case write_result of
        Inr _ \<Rightarrow> emit_superseded_if_cross_pair env session existing mf @ [marker_written_event env session mf]
      | Inl _ \<Rightarrow> [])"

definition check_and_clear_expired_marker ::
  "marker_env \<Rightarrow> string \<Rightarrow> path \<Rightarrow> int \<Rightarrow> world \<Rightarrow>
   (io_kind + marker_fields option) \<times> internal_event list \<times> world"
where
  "check_and_clear_expired_marker env session proj now w =
     (let marker_path = marker_path_in proj in
      case read_all_marker_fields env marker_path w of
        (Inl e, w) \<Rightarrow> (Inl e, [], w)
      | (Inr None, w) \<Rightarrow> (Inr None, [], w)
      | (Inr (Some mf), w) \<Rightarrow>
          let expired = (case me_rfc3339 env (mf_expires_at mf) of Some expiry \<Rightarrow> expiry \<le> now | None \<Rightarrow> False) in
          if \<not> expired then (Inr None, [], w)
          else (case fs_remove_file marker_path w of
              (Inr _, w) \<Rightarrow>
                (Inr (Some mf), [marker_cleared_event env session mf ''TTL_EXPIRED'' ''deadman'' None], w)
            | (Inl NotFound, w) \<Rightarrow> (Inr None, [], w)
            | (Inl e, w) \<Rightarrow> (Inl e, [], w)))"

section \<open>Reconciling an out-of-band delete\<close>

definition log_str :: "json \<Rightarrow> string \<Rightarrow> string" where
  "log_str v key = unwrap_or (jget_str key v) []"

definition fields_of_log :: "json \<Rightarrow> marker_fields" where
  "fields_of_log v = \<lparr>mf_timestamp = log_str v ''ts'', mf_plugin_name = log_str v ''plugin_name'',
     mf_artifact_path = log_str v ''artifact_path'', mf_cause = log_str v ''cause'',
     mf_trace_id = log_str v ''trace_id'', mf_expires_at = log_str v ''expires_at''\<rparr>"

fun scan_log ::
  "marker_env \<Rightarrow> string list \<Rightarrow> ((string \<times> string) \<times> marker_fields) list \<Rightarrow>
   ((string \<times> string) \<times> marker_fields) list"
where
  "scan_log env [] unmatched = unmatched"
| "scan_log env (line # rest) unmatched =
     (case Option.bind (me_json env line) (\<lambda>v. Option.bind (jget ''type'' v) jstr) of
        None \<Rightarrow> scan_log env rest unmatched
      | Some type_ \<Rightarrow>
          let v = the (me_json env line); key = (log_str v ''plugin_name'', log_str v ''artifact_path'') in
          scan_log env rest
            (if type_ = ''marker.written'' then AList.update key (fields_of_log v) unmatched
             else if type_ = ''marker.cleared'' then AList.delete key unmatched
             else unmatched))"

definition reconcile_scan_byte_cap :: nat where "reconcile_scan_byte_cap = 256 * 1024"

text \<open>The tail of the log from the first whole line on, when it is longer than the cap.\<close>

definition tail_text :: "nat \<Rightarrow> string \<Rightarrow> string" where
  "tail_text cap content =
     (if length content > cap
      then tl (dropWhile (\<lambda>b. b \<noteq> nl) (drop (length content - cap) content)) else content)"

definition read_tail :: "path \<Rightarrow> nat \<Rightarrow> world \<Rightarrow> (io_kind + string) \<times> world" where
  "read_tail p cap w = (case fs_read p w of (Inl e, w) \<Rightarrow> (Inl e, w) | (Inr c, w) \<Rightarrow> (Inr (tail_text cap c), w))"

definition override_reason :: string where
  "override_reason = ''RAW_DELETE_DETECTED: marker absent without prior marker.cleared event; inferred operator out-of-band clear''"

definition reconcile_raw_delete ::
  "marker_env \<Rightarrow> string \<Rightarrow> path \<Rightarrow> path option \<Rightarrow> world \<Rightarrow> internal_event list \<times> world"
where
  "reconcile_raw_delete env session proj log_path w =
     (case fs_metadata (marker_path_in proj) w of
        (Inr _, w) \<Rightarrow> ([], w)
      | (Inl _, w) \<Rightarrow>
          (case log_path of
             None \<Rightarrow> ([], w)
           | Some lp \<Rightarrow>
               (case read_tail lp reconcile_scan_byte_cap w of
                  (Inl _, w) \<Rightarrow> ([], w)
                | (Inr content, w) \<Rightarrow>
                    (map (\<lambda>(_, mf). marker_cleared_event env session mf ''OPERATOR_OVERRIDE''
                        ''operator'' (Some override_reason)) (scan_log env (str_lines content) []), w))))"

end
