(* ===== verification/AtomicReplace.thy ===== *)
theory AtomicReplace
  imports ShardIo Marker
begin

text \<open>
  The contract of an atomic replace, and the two writers of the code that keep it: the
  crash-safe write of the shard lifecycle and migrations, and the marker write.  A reader of the
  target sees the old content or the whole new one, whatever fails.
\<close>

locale atomic_replacer =
  fixes replace :: "path \<Rightarrow> bytes \<Rightarrow> world \<Rightarrow> (io_kind + unit) \<times> world"
    and tmp :: "world \<Rightarrow> path \<Rightarrow> path"
  assumes replace_frame: "replace p c w = (r, w') \<Longrightarrow> tmp_ok w (tmp w p) p \<Longrightarrow> frame {p, tmp w p} w w'"
    and replace_ok: "replace p c w = (Inr u, w') \<Longrightarrow> tmp_ok w (tmp w p) p \<Longrightarrow> look w' p = Some (File c)"
    and replace_err: "replace p c w = (Inl e, w') \<Longrightarrow> tmp_ok w (tmp w p) p \<Longrightarrow> look w' p = look w p"
begin

lemma old_or_new:
  assumes "replace p c w = (r, w')" "tmp_ok w (tmp w p) p"
  shows "look w' p = look w p \<and> isl r \<or> look w' p = Some (File c) \<and> \<not> isl r"
  using assms replace_ok replace_err by (cases r) auto

lemma never_absent:
  assumes "replace p c w = (r, w')" "tmp_ok w (tmp w p) p" "look w p \<noteq> None"
  shows "look w' p \<noteq> None"
  using old_or_new[OF assms(1,2)] assms(3) by auto

lemma others_kept:
  assumes "replace p c w = (r, w')" "tmp_ok w (tmp w p) p" "q \<noteq> p" "q \<noteq> tmp w p"
  shows "look w' q = look w q"
  using frame_look[OF replace_frame[OF assms(1,2)]] assms(3,4) by simp

end

interpretation atomic: atomic_replacer write_atomic "\<lambda>w p. atomic_tmp_path (pid w) p"
proof unfold_locales
  fix p c w r w'
  assume "write_atomic p c w = (r, w')" "tmp_ok w (atomic_tmp_path (pid w) p) p"
  from write_atomic_spec(1)[OF this] show "frame {p, atomic_tmp_path (pid w) p} w w'" .
next
  fix p c w u w'
  assume "write_atomic p c w = (Inr u, w')" "tmp_ok w (atomic_tmp_path (pid w) p) p"
  from write_atomic_spec(2)[OF this] show "look w' p = Some (File c)" by simp
next
  fix p c w e w'
  assume "write_atomic p c w = (Inl e, w')" "tmp_ok w (atomic_tmp_path (pid w) p) p"
  from write_atomic_spec(2)[OF this] show "look w' p = look w p" by simp
qed

lemma replace_via_tmp_spec:
  assumes run: "replace_via_tmp t p c w = (r, w')" and ok: "tmp_ok w t p"
  shows "frame {p, t} w w' \<and> look w' p = (case r of Inr _ \<Rightarrow> Some (File c) | Inl _ \<Rightarrow> look w p)"
proof -
  have tp: "p \<notin> {t}" "t \<noteq> p" and nl: "\<And>l. look w t \<noteq> Some (Symlink l)" using ok by (auto simp: tmp_ok_def)
  obtain rc w1 where c1: "fs_create t w = (rc, w1)" by fastforce
  note s1 = fs_create_spec[OF c1 nl]
  have keep: "look v p = look w p" if "frame {t} w v" for v using that tp(1) by (rule frame_look)
  have sub: "frame {p, t} w v" if "frame {t} w v" for v using frame_mono[OF that] by auto
  show ?thesis
  proof (cases rc)
    case (Inl e)
    then have "w' = w1" "isl r" using run c1 by (auto simp: replace_via_tmp_def)
    then show ?thesis using keep[OF s1(1)] sub[OF s1(1)] by (auto simp: isl_def)
  next
    case (Inr q)
    then have q: "rc = Inr t" "look w1 t \<noteq> Some Special" using s1(2) ok by (auto simp: tmp_ok_def)
    obtain rw w2 where c2: "fs_write_all t c w1 = (rw, w2)" by fastforce
    note s2 = fs_write_all_spec[OF c2]
    have f2: "frame {t} w w2" using s1(1) s2(1) by (rule frame_trans)
    show ?thesis
    proof (cases rw)
      case (Inl e)
      then have "w' = w2" "isl r" using run c1 c2 q(1) by (auto simp: replace_via_tmp_def)
      then show ?thesis using keep[OF f2] sub[OF f2] by (auto simp: isl_def)
    next
      case (Inr u)
      obtain r3 w3 where c3: "fs_rename t p w2 = (r3, w3)" by fastforce
      note s3 = fs_rename_spec[OF c3 tp(2)]
      have f3: "frame {p, t} w w3" by (rule frame_step[OF f2 s3(1)]) auto
      show ?thesis
      proof (cases r3)
        case (Inl e)
        then have r: "w' = snd (fs_remove_file t w3)" "isl r"
          using run c1 c2 c3 q(1) Inr by (auto simp: replace_via_tmp_def)
        have "frame {p, t} w w'" unfolding r by (rule frame_step[OF f3 remove_frame]) auto
        moreover have "look w' p = look w3 p" unfolding r using frame_look[OF remove_frame tp(1)] .
        ultimately show ?thesis using s3(3)[OF Inl] keep[OF f2] r(2) by (auto simp: isl_def)
      next
        case (Inr u')
        then have "w' = w3" "r = Inr ()"
          using run c1 c2 c3 q(1) \<open>rw = Inr u\<close> by (auto simp: replace_via_tmp_def)
        then show ?thesis using f3 s3(2) Inr s2(2) \<open>rw = Inr u\<close> q(2) by simp
      qed
    qed
  qed
qed

definition replace_marker :: "marker_env \<Rightarrow> u64 \<Rightarrow> string \<Rightarrow> path \<Rightarrow> bytes \<Rightarrow> world \<Rightarrow> (io_kind + unit) \<times> world" where
  "replace_marker env nonce plugin p c w = replace_via_tmp (marker_tmp_path env (pid w) nonce plugin p) p c w"

lemma write_marker_replace: "write_indeterminate_marker env nonce mf p w =
    (case me_encode env (marker_table mf) of None \<Rightarrow> (Inl InvalidData, w)
     | Some content \<Rightarrow> replace_marker env nonce (mf_plugin_name mf) p content w)"
  by (simp add: write_indeterminate_marker_def replace_marker_def split: option.splits)

interpretation marker: atomic_replacer "replace_marker env nonce plugin"
    "\<lambda>w p. marker_tmp_path env (pid w) nonce plugin p" for env nonce plugin
proof unfold_locales
  fix p c w r w'
  assume "replace_marker env nonce plugin p c w = (r, w')" "tmp_ok w (marker_tmp_path env (pid w) nonce plugin p) p"
  from replace_via_tmp_spec[OF this[unfolded replace_marker_def]]
  show "frame {p, marker_tmp_path env (pid w) nonce plugin p} w w'" by blast
next
  fix p c w u w'
  assume "replace_marker env nonce plugin p c w = (Inr u, w')" "tmp_ok w (marker_tmp_path env (pid w) nonce plugin p) p"
  from replace_via_tmp_spec[OF this[unfolded replace_marker_def]]
  show "look w' p = Some (File c)" by simp
next
  fix p c w e w'
  assume "replace_marker env nonce plugin p c w = (Inl e, w')" "tmp_ok w (marker_tmp_path env (pid w) nonce plugin p) p"
  from replace_via_tmp_spec[OF this[unfolded replace_marker_def]]
  show "look w' p = look w p" by simp
qed

end
