(* ===== verification/Executor.thy ===== *)
theory Executor
  imports Routing AtomicReplace
begin

text \<open>
  The executor (\<^verbatim>\<open>executor.rs\<close>): how one plugin result is classified, what it does to the marker, the
  shard-gate verdict as a synthetic outcome, and the run of the tiers with the block decision.
  Running a plugin (the WASM engine and the plugin code) is a parameter: for every entry it says
  whether the plugin started and what it returned.  The plugins of a tier run concurrently, so a
  tier comes with a schedule of its pre-checks and marker updates.
\<close>

section \<open>Results\<close>

datatype timeout_cause = TimeoutEpoch | TimeoutFuel

datatype plugin_result =
    PluginOk (pr_exit: int) (pr_stdout: string) (pr_stderr: string) (pr_elapsed: u64) (pr_fuel: u64)
  | PluginTimeout timeout_cause string u64 u64 u64
  | PluginCrashed string string u64 u64

definition classify_outcome :: "plugin_result \<Rightarrow> failure_policy \<Rightarrow> bool \<Rightarrow> dispatch_outcome" where
  "classify_outcome result policy output_too_large =
     (case result of
        PluginTimeout TimeoutFuel _ _ _ _ \<Rightarrow> Indeterminate CauseFuel
      | PluginTimeout TimeoutEpoch _ _ _ _ \<Rightarrow> Indeterminate CauseEpoch
      | PluginOk exit_code _ _ _ _ \<Rightarrow>
          if output_too_large \<and> exit_code = 0 then Indeterminate CauseOutputTooLarge
          else if exit_code = 0 then Pass else Fail exit_code
      | PluginCrashed _ _ _ _ \<Rightarrow> Fail 1)"

record plugin_outcome =
  po_name :: string
  po_version :: string
  po_on_error :: on_error
  po_result :: plugin_result
  po_block_if_marker_fired :: bool
  po_block_if_marker_fields :: "marker_fields option"

datatype hook_result = HookContinue | HookBlock string | HookError string

section \<open>The verdict of the shard gate\<close>

definition quote :: char where "quote = CHR 0x22"

definition quoted :: "string \<Rightarrow> string" where "quoted s = [quote] @ s @ [quote]"

text \<open>JSON string escapes as \<open>serde_json\<close> writes them.\<close>

definition json_escape_char :: "char \<Rightarrow> string" where
  "json_escape_char c =
     (if c = quote then [CHR 0x5C, quote]
      else if c = CHR 0x5C then [CHR 0x5C, CHR 0x5C]
      else if c = CHR 0x08 then [CHR 0x5C, CHR ''b'']
      else if c = CHR 0x0C then [CHR 0x5C, CHR ''f'']
      else if c = CHR 0x0A then [CHR 0x5C, CHR ''n'']
      else if c = CHR 0x0D then [CHR 0x5C, CHR ''r'']
      else if c = CHR 0x09 then [CHR 0x5C, CHR ''t'']
      else if byte c < 32 then [CHR 0x5C] @ ''u00'' @ [hex_digit (byte c div 16), hex_digit (byte c mod 16)]
      else [c])"

definition json_escape :: "string \<Rightarrow> string" where
  "json_escape s = concat (map json_escape_char s)"

definition json_pair :: "string \<Rightarrow> string \<Rightarrow> string" where
  "json_pair k v = quoted k @ '':'' @ quoted (json_escape v)"

definition gate_outcome :: "string \<Rightarrow> string \<Rightarrow> plugin_outcome" where
  "gate_outcome stdout version =
     \<lparr>po_name = ''shard-cap-gate'', po_version = version, po_on_error = Block,
      po_result = PluginOk 2 stdout [] 0 0, po_block_if_marker_fired = False,
      po_block_if_marker_fields = None\<rparr>"

text \<open>The object is printed with its keys sorted.\<close>

definition shard_gate_block_outcome :: "string \<Rightarrow> string \<Rightarrow> plugin_outcome" where
  "shard_gate_block_outcome reason version =
     gate_outcome (''{'' @ json_pair ''outcome'' ''block'' @ '','' @ json_pair ''reason'' reason @ ''}'') version"

definition shard_gate_error_outcome :: "string \<Rightarrow> string \<Rightarrow> plugin_outcome" where
  "shard_gate_error_outcome message version =
     gate_outcome (''{'' @ json_pair ''message'' message @ '','' @ json_pair ''outcome'' ''error'' @ ''}'') version"

definition shard_gate_verdict_outcomes :: "hook_result option \<Rightarrow> string \<Rightarrow> plugin_outcome list \<times> bool" where
  "shard_gate_verdict_outcomes verdict version =
     (case verdict of
        None \<Rightarrow> ([], False)
      | Some HookContinue \<Rightarrow> ([], False)
      | Some (HookBlock reason) \<Rightarrow> ([shard_gate_block_outcome reason version], True)
      | Some (HookError message) \<Rightarrow> ([shard_gate_error_outcome message version], True))"

section \<open>Block decisions\<close>

definition plugin_requests_block :: "plugin_result \<Rightarrow> bool" where
  "plugin_requests_block result =
     (case result of
        PluginOk _ stdout _ _ _ \<Rightarrow> contains (quoted ''outcome'' @ '':'' @ quoted ''block'') stdout
      | _ \<Rightarrow> False)"

fun crashed_or_timed_out :: "plugin_result \<Rightarrow> bool" where
  "crashed_or_timed_out (PluginOk _ _ _ _ _) = False"
| "crashed_or_timed_out _ = True"

definition plugin_fail_closed :: "plugin_result \<Rightarrow> on_error \<Rightarrow> bool" where
  "plugin_fail_closed result oe = (if oe \<noteq> Block then False else crashed_or_timed_out result)"

definition plugin_block_if_marker ::
  "marker_env \<Rightarrow> plugin_result \<Rightarrow> on_error \<Rightarrow> path \<Rightarrow> int \<Rightarrow> world \<Rightarrow> bool \<times> world"
where
  "plugin_block_if_marker env result oe cwd now w =
     (if oe \<noteq> BlockIfMarker then (False, w)
      else if \<not> crashed_or_timed_out result then (False, w)
      else block_if_marker_check env cwd now w)"

section \<open>The marker after a result\<close>

record exec_ctx =
  xc_env :: marker_env
  xc_session :: string
  xc_cwd :: path
  xc_trace :: string
  xc_version :: string
  xc_log_path :: "path option"
  xc_defaults :: registry_defaults
  xc_artifact :: string  \<comment> \<open>\<open>tool_input.file_path\<close> of the payload, or empty\<close>

definition marker_ttl_ns :: int where "marker_ttl_ns = 86400 * 1000000000"

definition indeterminate_event :: "exec_ctx \<Rightarrow> registry_entry \<Rightarrow> indeterminate_cause \<Rightarrow> internal_event" where
  "indeterminate_event x e cause =
     \<lparr>ev_type = ''plugin.indeterminate'', ev_ts = me_now_ts (xc_env x), ev_trace_id = xc_trace x,
      ev_session_id = xc_session x, ev_plugin_name = re_name e,
      ev_fields = [(''timestamp'', JStr (me_now_ts (xc_env x))), (''artifact_path'', JStr (xc_artifact x)),
        (''cause'', JStr (cause_to_str cause)),
        (''failure_policy'', JStr (case re_failure_policy e of FailClosed \<Rightarrow> ''fail-closed'' | FailOpen \<Rightarrow> ''fail-open''))]\<rparr>"

definition new_marker_fields :: "exec_ctx \<Rightarrow> registry_entry \<Rightarrow> indeterminate_cause \<Rightarrow> int \<Rightarrow> marker_fields" where
  "new_marker_fields x e cause now =
     \<lparr>mf_timestamp = me_format (xc_env x) now, mf_plugin_name = re_name e, mf_artifact_path = xc_artifact x,
      mf_cause = cause_to_str cause, mf_trace_id = xc_trace x,
      mf_expires_at = me_format (xc_env x) (now + marker_ttl_ns)\<rparr>"

definition marker_fields_ok :: "(io_kind + marker_fields option) \<Rightarrow> marker_fields option" where
  "marker_fields_ok r = (case r of Inr f \<Rightarrow> f | Inl _ \<Rightarrow> None)"

definition settle_pass :: "exec_ctx \<Rightarrow> registry_entry \<Rightarrow> world \<Rightarrow> internal_event list \<times> world" where
  "settle_pass x e w =
     (let env = xc_env x; marker_path = marker_path_in (xc_cwd x) in
      case read_marker_plugin_name env marker_path w of (name, w) \<Rightarrow>
        if name = Inr (Some (re_name e)) \<and> re_event e = ''PostToolUse'' then
          (case read_all_marker_fields env marker_path w of (all_fields, w) \<Rightarrow>
            (case delete_marker_if_pass env marker_path (xc_artifact x) w of (deleted, w) \<Rightarrow>
              ((case (deleted, marker_fields_ok all_fields) of
                  (Inr True, Some mf) \<Rightarrow> [marker_cleared_event env (xc_session x) mf ''REVALIDATED'' ''validator'' None]
                | _ \<Rightarrow> []), w)))
        else ([], w))"

definition settle_indeterminate ::
  "exec_ctx \<Rightarrow> registry_entry \<Rightarrow> indeterminate_cause \<Rightarrow> int \<Rightarrow> u64 \<Rightarrow> world \<Rightarrow> internal_event list \<times> world"
where
  "settle_indeterminate x e cause now nonce w =
     (let env = xc_env x; marker_path = marker_path_in (xc_cwd x) in
      if should_write_marker (Indeterminate cause) (re_failure_policy e) \<and> re_event e = ''PostToolUse'' then
        (let mf = new_marker_fields x e cause now in
         case read_all_marker_fields env marker_path w of (existing, w) \<Rightarrow>
           (case write_indeterminate_marker env nonce mf marker_path w of (write_result, w) \<Rightarrow>
              (indeterminate_event x e cause #
               emit_write_tied_audit_events env (xc_session x) write_result (marker_fields_ok existing) mf, w)))
      else ([indeterminate_event x e cause], w))"

definition settle_marker ::
  "exec_ctx \<Rightarrow> registry_entry \<Rightarrow> plugin_result \<Rightarrow> bool \<Rightarrow> int \<Rightarrow> u64 \<Rightarrow> world \<Rightarrow> internal_event list \<times> world"
where
  "settle_marker x e result output_too_large now nonce w =
     (case classify_outcome result (re_failure_policy e) output_too_large of
        Pass \<Rightarrow> settle_pass x e w
      | Fail _ \<Rightarrow> ([], w)
      | Indeterminate cause \<Rightarrow> settle_indeterminate x e cause now nonce w)"

section \<open>Pre-checks\<close>

definition precheck_marker :: "exec_ctx \<Rightarrow> registry_entry \<Rightarrow> int \<Rightarrow> world \<Rightarrow> internal_event list \<times> world" where
  "precheck_marker x e now w =
     (if entry_on_error (xc_defaults x) e = BlockIfMarker then
        (case check_and_clear_expired_marker (xc_env x) (xc_session x) (xc_cwd x) now w of
           (Inr (Some _), evs, w) \<Rightarrow> (evs, w)
         | (Inr None, evs, w) \<Rightarrow>
             (case reconcile_raw_delete (xc_env x) (xc_session x) (xc_cwd x) (xc_log_path x) w of
                (evs', w) \<Rightarrow> (evs @ evs', w))
         | (Inl _, evs, w) \<Rightarrow> (evs, w))
      else ([], w))"

section \<open>Tiers\<close>

datatype plugin_run =
    NotStarted string  \<comment> \<open>the payload or the module failed: the trap text\<close>
  | Ran plugin_result bool  \<comment> \<open>the result, and whether its output was cut off\<close>
  | JoinFailed string  \<comment> \<open>the task itself died: the error text\<close>

definition outcome_of_run :: "exec_ctx \<Rightarrow> registry_entry \<Rightarrow> plugin_run \<Rightarrow> plugin_outcome" where
  "outcome_of_run x e run =
     (let outcome = (\<lambda>name version oe result. \<lparr>po_name = name, po_version = version, po_on_error = oe,
            po_result = result, po_block_if_marker_fired = False, po_block_if_marker_fields = None\<rparr>);
          oe = entry_on_error (xc_defaults x) e in
      case run of
        NotStarted trap \<Rightarrow> outcome (re_name e) (xc_version x) oe (PluginCrashed trap [] 0 0)
      | Ran result _ \<Rightarrow> outcome (re_name e) (xc_version x) oe result
      | JoinFailed err \<Rightarrow> outcome ''<unknown>'' [] Continue
          (PluginCrashed (''spawn_blocking join error: '' @ err) [] 0 0))"

text \<open>
  The steps of a tier: the pre-check of an entry, in the loop that starts the tasks, and the marker
  update at the end of a task, each at its own time.  A schedule is any sequence with the pre-checks
  in order and every update after its own pre-check.
\<close>

datatype tier_step = PreCheck nat int | Settle nat int u64

fun run_step ::
  "exec_ctx \<Rightarrow> (registry_entry \<Rightarrow> plugin_run) \<Rightarrow> registry_entry list \<Rightarrow> tier_step \<Rightarrow> world \<Rightarrow>
   internal_event list \<times> world"
where
  "run_step x run tier (PreCheck i t) w = precheck_marker x (tier ! i) t w"
| "run_step x run tier (Settle i t nonce) w =
     (case run (tier ! i) of
        Ran result big \<Rightarrow> settle_marker x (tier ! i) result big t nonce w
      | _ \<Rightarrow> ([], w))"

fun run_steps ::
  "exec_ctx \<Rightarrow> (registry_entry \<Rightarrow> plugin_run) \<Rightarrow> registry_entry list \<Rightarrow> tier_step list \<Rightarrow> world \<Rightarrow>
   internal_event list \<times> world"
where
  "run_steps x run tier [] w = ([], w)"
| "run_steps x run tier (s # ss) w =
     (case run_step x run tier s w of (evs, w) \<Rightarrow>
        (case run_steps x run tier ss w of (evs', w) \<Rightarrow> (evs @ evs', w)))"

fun precheck_indices :: "tier_step list \<Rightarrow> nat list" where
  "precheck_indices [] = []"
| "precheck_indices (PreCheck i _ # ss) = i # precheck_indices ss"
| "precheck_indices (_ # ss) = precheck_indices ss"

fun settles_after :: "nat set \<Rightarrow> tier_step list \<Rightarrow> bool" where
  "settles_after started [] = True"
| "settles_after started (PreCheck i _ # ss) = settles_after (insert i started) ss"
| "settles_after started (Settle i _ _ # ss) = (i \<in> started \<and> settles_after (started - {i}) ss)"

definition schedule_ok :: "registry_entry list \<Rightarrow> tier_step list \<Rightarrow> bool" where
  "schedule_ok tier ss \<longleftrightarrow> precheck_indices ss = [0..<length tier] \<and> settles_after {} ss"

text \<open>After the tier: each outcome gets its marker check and may set the block intent.\<close>

fun decide_outcomes ::
  "exec_ctx \<Rightarrow> (nat \<Rightarrow> int) \<Rightarrow> plugin_outcome list \<Rightarrow> world \<Rightarrow> plugin_outcome list \<times> bool \<times> world"
where
  "decide_outcomes x clock [] w = ([], False, w)"
| "decide_outcomes x clock (p # ps) w =
     (case plugin_block_if_marker (xc_env x) (po_result p) (po_on_error p) (xc_cwd x) (clock 0) w of (bim, w) \<Rightarrow>
      (case (if bim then (case read_all_marker_fields (xc_env x) (marker_path_in (xc_cwd x)) w of
                 (r, w) \<Rightarrow> (marker_fields_ok r, w))
             else (None, w)) of (mf, w) \<Rightarrow>
       (case decide_outcomes x (\<lambda>i. clock (Suc i)) ps w of (decided, block, w) \<Rightarrow>
         (p\<lparr>po_block_if_marker_fired := bim, po_block_if_marker_fields := mf\<rparr> # decided,
          plugin_requests_block (po_result p) \<or> plugin_fail_closed (po_result p) (po_on_error p) \<or> bim \<or> block, w))))"

text \<open>A tier with its schedule and the times of its marker checks.\<close>

type_synonym timed_tier = "registry_entry list \<times> tier_step list \<times> (nat \<Rightarrow> int)"

fun run_tiers ::
  "exec_ctx \<Rightarrow> (registry_entry \<Rightarrow> plugin_run) \<Rightarrow> timed_tier list \<Rightarrow> world \<Rightarrow>
   plugin_outcome list \<times> bool \<times> internal_event list \<times> world"
where
  "run_tiers x run [] w = ([], False, [], w)"
| "run_tiers x run ((tier, ss, clock) # tiers) w =
     (case run_steps x run tier ss w of (evs, w) \<Rightarrow>
      (case decide_outcomes x clock (map (\<lambda>e. outcome_of_run x e (run e)) tier) w of (decided, block, w) \<Rightarrow>
       (case run_tiers x run tiers w of (outs, block', evs', w) \<Rightarrow>
         (decided @ outs, block \<or> block', evs @ evs', w))))"

record tier_execution_summary =
  ts_per_plugin_results :: "plugin_outcome list"
  ts_block_intent :: bool
  ts_exit_code :: int

definition execute_tiers ::
  "exec_ctx \<Rightarrow> (registry_entry \<Rightarrow> plugin_run) \<Rightarrow> hook_result option \<Rightarrow> timed_tier list \<Rightarrow> world \<Rightarrow>
   tier_execution_summary \<times> internal_event list \<times> world"
where
  "execute_tiers x run verdict tiers w =
     (case shard_gate_verdict_outcomes verdict (xc_version x) of (gate_outs, gate_block) \<Rightarrow>
      (case run_tiers x run tiers w of (outs, block, evs, w) \<Rightarrow>
        (let block_intent = gate_block \<or> block in
         (\<lparr>ts_per_plugin_results = gate_outs @ outs, ts_block_intent = block_intent,
            ts_exit_code = (if block_intent then 2 else 0)\<rparr>, evs, w))))"

end
