(* ===== verification/MarkerSafety.thy ===== *)
theory MarkerSafety
  imports Executor
begin

text \<open>
  The quarantine: what each step of a tier can do to the marker, under every fault schedule.  A live
  marker can only disappear through its own expiry or through a pass that revalidates it.
\<close>

section \<open>The marker as the gate reads it\<close>

text \<open>A marker is live at an instant when it can be read and does not name an earlier expiry.\<close>

definition live_content :: "marker_env \<Rightarrow> int \<Rightarrow> bytes \<Rightarrow> bool" where
  "live_content env t c \<longleftrightarrow> utf8_valid c \<and>
     (case parse_expires_at env c of Some expiry \<Rightarrow> t < expiry | None \<Rightarrow> True)"

definition live_marker :: "marker_env \<Rightarrow> path \<Rightarrow> int \<Rightarrow> world \<Rightarrow> bool" where
  "live_marker env cwd t w \<longleftrightarrow> (\<exists>c. look w (marker_path_in cwd) = Some (File c) \<and> live_content env t c)"

lemma block_check_frame: "block_if_marker_check env cwd now w = (b, w') \<Longrightarrow> frame {} w w'"
  by (auto simp: block_if_marker_check_def split: prod.splits sum.splits dest: fs_read_to_string_frame)

lemma block_check_calm:
  assumes "faults w = []" "live_marker env cwd now w"
  shows "block_if_marker_check env cwd now w = (True, w)"
proof -
  obtain c where c: "look w (marker_path_in cwd) = Some (File c)" "utf8_valid c"
    "case parse_expires_at env c of Some expiry \<Rightarrow> now < expiry | None \<Rightarrow> True"
    using assms(2) by (auto simp: live_marker_def live_content_def)
  have "fs_read_to_string (marker_path_in cwd) w = (Inr c, w)"
    using assms(1) c by (simp add: fs_read_to_string_def fs_read_def get_node_follow_plain get_node_def)
  then show ?thesis using c(3) by (simp add: block_if_marker_check_def split: option.splits)
qed

lemma read_all_frame: "read_all_marker_fields env p w = (r, w') \<Longrightarrow> frame {} w w'"
  by (auto simp: read_all_marker_fields_def split: prod.splits sum.splits io_kind.splits dest: fs_read_to_string_frame)

lemma read_all_spec:
  assumes "read_all_marker_fields env p w = (Inr (Some mf), w')" "look w p = Some (File c)"
  shows "Option.bind (me_decode env c) fields_of_table = Some mf"
proof -
  obtain a v where a: "fs_read_to_string p w = (a, v)" by fastforce
  then obtain d where d: "a = Inr d" "Option.bind (me_decode env d) fields_of_table = Some mf"
    using assms(1) by (auto simp: read_all_marker_fields_def split: sum.splits io_kind.splits)
  then show ?thesis using fs_read_to_string_file a assms(2) by blast
qed

lemma fields_expiry:
  assumes "Option.bind (me_decode env c) fields_of_table = Some mf" "me_rfc3339 env (mf_expires_at mf) = Some t"
    and no_empty: "me_rfc3339 env [] = None"
  shows "parse_expires_at env c = Some t"
proof -
  obtain table where t: "me_decode env c = Some table" "fields_of_table table = Some mf"
    using assms(1) by (cases "me_decode env c") auto
  then have "mf_expires_at mf = unwrap_or (table_str table ''expires_at'') []"
    by (auto simp: fields_of_table_def split: option.splits)
  then show ?thesis
    using assms(2) no_empty t(1) by (cases "table_str table ''expires_at''") (auto simp: parse_expires_at_def unwrap_or_def)
qed

section \<open>What a step may do\<close>

text \<open>The marker content a pass of this entry on this artifact clears.\<close>

definition revalidates :: "marker_env \<Rightarrow> registry_entry \<Rightarrow> string \<Rightarrow> bytes \<Rightarrow> bool" where
  "revalidates env e artifact c \<longleftrightarrow> re_event e = ''PostToolUse'' \<and>
     (\<exists>table. me_decode env c = Some table \<and> table_str table ''plugin_name'' = Some (re_name e) \<and>
        (let a = unwrap_or (table_str table ''artifact_path'') [] in a = [] \<or> path_of a = path_of artifact))"

lemma delete_marker_spec:
  assumes run: "delete_marker_if_pass env p artifact w = (r, w')" and here: "look w p = Some (File c)"
  shows "tame w w' \<and> (look w' p = look w p \<or> look w' p = None \<and>
    (\<exists>table. me_decode env c = Some table \<and>
       (let a = unwrap_or (table_str table ''artifact_path'') [] in a = [] \<or> path_of a = path_of artifact)))"
proof -
  obtain a v where c1: "fs_read_to_string p w = (a, v)" by fastforce
  note f1 = fs_read_to_string_result(1)[OF c1]
  show ?thesis
  proof (cases a)
    case (Inl k)
    then have "w' = v" using run c1 by (auto simp: delete_marker_if_pass_def split: io_kind.splits)
    then show ?thesis using frame_tame[OF f1] frame_empty_look[OF f1] by simp
  next
    case (Inr d)
    then have d: "d = c" using fs_read_to_string_file[OF c1[unfolded Inr] here] by simp
    obtain rm u where c2: "fs_remove_file p v = (rm, u)" by fastforce
    note s2 = fs_remove_file_spec[OF c2]
    consider (keep) "w' = v" | (del) table where "w' = u" "me_decode env c = Some table"
      "let a = unwrap_or (table_str table ''artifact_path'') [] in a = [] \<or> path_of a = path_of artifact"
      using run c1 c2 Inr d
      by (auto simp: delete_marker_if_pass_def Let_def split: option.splits if_splits sum.splits io_kind.splits)
    then show ?thesis
    proof cases
      case keep
      then show ?thesis using frame_tame[OF f1] frame_empty_look[OF f1] by simp
    next
      case del
      have "tame w w'" unfolding del(1) by (rule tame_trans[OF frame_tame[OF f1] fs_remove_file_tame[OF c2]])
      then show ?thesis using s2 del frame_empty_look[OF f1] by (cases rm) auto
    qed
  qed
qed

lemma settle_pass_spec:
  assumes run: "settle_pass x e w = (evs, w')" and here: "look w (marker_path_in (xc_cwd x)) = Some (File c)"
  shows "tame w w' \<and> (look w' (marker_path_in (xc_cwd x)) = Some (File c) \<or>
    look w' (marker_path_in (xc_cwd x)) = None \<and> revalidates (xc_env x) e (xc_artifact x) c)"
proof -
  let ?p = "marker_path_in (xc_cwd x)" and ?env = "xc_env x"
  obtain n w1 where c1: "read_marker_plugin_name ?env ?p w = (n, w1)" by fastforce
  have f1: "frame {} w w1"
    using c1 by (auto simp: read_marker_plugin_name_def split: prod.splits sum.splits io_kind.splits
        dest: fs_read_to_string_frame)
  show ?thesis
  proof (cases "n = Inr (Some (re_name e)) \<and> re_event e = ''PostToolUse''")
    case False
    then have "w' = w1" using run c1 by (auto simp: settle_pass_def Let_def)
    then show ?thesis using frame_tame[OF f1] frame_empty_look[OF f1] here by simp
  next
    case True
    have name: "Option.bind (me_decode ?env c) (\<lambda>t. table_str t ''plugin_name'') = Some (re_name e)"
    proof -
      obtain a v where a: "fs_read_to_string ?p w = (a, v)" by fastforce
      then obtain d where "a = Inr d" "Option.bind (me_decode ?env d) (\<lambda>t. table_str t ''plugin_name'') = Some (re_name e)"
        using c1 True by (auto simp: read_marker_plugin_name_def split: sum.splits io_kind.splits)
      then show ?thesis using fs_read_to_string_file a here by blast
    qed
    obtain af w2 where c2: "read_all_marker_fields ?env ?p w1 = (af, w2)" by fastforce
    have f2: "frame {} w w2" using frame_trans[OF f1 read_all_frame[OF c2]] .
    obtain dl w3 where c3: "delete_marker_if_pass ?env ?p (xc_artifact x) w2 = (dl, w3)" by fastforce
    have "look w2 ?p = Some (File c)" using here frame_empty_look[OF f2] by simp
    note s3 = delete_marker_spec[OF c3 this]
    have "w' = w3" using run c1 c2 c3 True by (simp add: settle_pass_def Let_def)
    moreover have "tame w w3" using tame_trans[OF frame_tame[OF f2]] s3 by blast
    ultimately show ?thesis
      using s3 here True name frame_empty_look[OF f2] by (auto simp: revalidates_def)
  qed
qed

lemma replace_via_tmp_tame:
  assumes run: "replace_via_tmp t p c w = (r, w')" and ok: "tmp_ok w t p"
  shows "tame w w'"
proof -
  have np: "not_planted w t" and tp: "t \<noteq> p" using ok by (auto simp: tmp_ok_def not_planted_def)
  have nl: "\<And>l. look w t \<noteq> Some (Symlink l)" using np by (simp add: not_planted_def)
  obtain rc w1 where c1: "fs_create t w = (rc, w1)" by fastforce
  note t1 = fs_create_tame[OF c1 np] and s1 = fs_create_spec[OF c1 nl]
  show ?thesis
  proof (cases rc)
    case (Inl e)
    then show ?thesis using run c1 t1 by (auto simp: replace_via_tmp_def)
  next
    case (Inr q)
    then have q: "rc = Inr t" "look w1 t \<noteq> Some Special" using s1(2) np by (auto simp: not_planted_def)
    obtain rw w2 where c2: "fs_write_all t c w1 = (rw, w2)" by fastforce
    have t2: "tame w w2" using tame_trans[OF t1 fs_write_all_tame[OF c2]] .
    show ?thesis
    proof (cases rw)
      case (Inl e)
      then show ?thesis using run c1 c2 q(1) t2 by (auto simp: replace_via_tmp_def)
    next
      case (Inr u)
      have "look w2 t = Some (File c)" using fs_write_all_spec(2)[OF c2] Inr q(2) by simp
      obtain r3 w3 where c3: "fs_rename t p w2 = (r3, w3)" by fastforce
      have t3: "tame w w3" by (rule tame_trans[OF t2 fs_rename_tame[OF c3 tp]]) fact
      have "w' = w3 \<or> w' = snd (fs_remove_file t w3)"
        using run c1 c2 c3 q(1) Inr by (auto simp: replace_via_tmp_def split: sum.splits)
      then show ?thesis using t3 tame_trans[OF t3 remove_tame] by auto
    qed
  qed
qed

definition marker_tmp_ok :: "exec_ctx \<Rightarrow> registry_entry \<Rightarrow> world \<Rightarrow> bool" where
  "marker_tmp_ok x e w \<longleftrightarrow> (\<forall>nonce. tmp_ok w
     (marker_tmp_path (xc_env x) (pid w) nonce (re_name e) (marker_path_in (xc_cwd x))) (marker_path_in (xc_cwd x)))"

lemma tmp_ok_tame: "tame w v \<Longrightarrow> tmp_ok w t p \<Longrightarrow> tmp_ok v t p"
  using tame_not_planted by (auto simp: tmp_ok_def not_planted_def)

lemma marker_tmp_ok_tame: "tame w v \<Longrightarrow> marker_tmp_ok x e w \<Longrightarrow> marker_tmp_ok x e v"
  using tmp_ok_tame tame_pid by (auto simp: marker_tmp_ok_def)

lemma settle_indeterminate_spec:
  assumes run: "settle_indeterminate x e cause now nonce w = (evs, w')" and tmp: "marker_tmp_ok x e w"
  shows "tame w w' \<and> (look w' (marker_path_in (xc_cwd x)) = look w (marker_path_in (xc_cwd x)) \<or>
    (\<exists>c. me_encode (xc_env x) (marker_table (new_marker_fields x e cause now)) = Some c \<and>
       look w' (marker_path_in (xc_cwd x)) = Some (File c)))"
proof (cases "should_write_marker (Indeterminate cause) (re_failure_policy e) \<and> re_event e = ''PostToolUse''")
  case False
  then show ?thesis using run by (auto simp: settle_indeterminate_def Let_def)
next
  case True
  let ?p = "marker_path_in (xc_cwd x)" and ?env = "xc_env x" and ?mf = "new_marker_fields x e cause now"
  obtain a w1 where c1: "read_all_marker_fields ?env ?p w = (a, w1)" by fastforce
  note f1 = read_all_frame[OF c1]
  obtain b w2 where c2: "write_indeterminate_marker ?env nonce ?mf ?p w1 = (b, w2)" by fastforce
  have w': "w' = w2" using run c1 c2 True by (auto simp: settle_indeterminate_def Let_def)
  show ?thesis
  proof (cases "me_encode ?env (marker_table ?mf)")
    case None
    then have "w2 = w1" using c2 by (simp add: write_indeterminate_marker_def)
    then show ?thesis using w' frame_tame[OF f1] frame_empty_look[OF f1] by simp
  next
    case (Some c)
    let ?t = "marker_tmp_path ?env (pid w1) nonce (re_name e) ?p"
    have run2: "replace_via_tmp ?t ?p c w1 = (b, w2)"
      using c2 Some by (simp add: write_indeterminate_marker_def new_marker_fields_def)
    have "marker_tmp_ok x e w1" using marker_tmp_ok_tame[OF frame_tame[OF f1] tmp] .
    then have ok: "tmp_ok w1 ?t ?p" by (simp add: marker_tmp_ok_def)
    have "tame w w2" using tame_trans[OF frame_tame[OF f1] replace_via_tmp_tame[OF run2 ok]] .
    moreover have "replace_marker ?env nonce (re_name e) ?p c w1 = (b, w2)"
      using run2 by (simp add: replace_marker_def)
    from marker.old_or_new[OF this ok]
    have "look w2 ?p = look w ?p \<or> look w2 ?p = Some (File c)" by (auto simp: frame_empty_look[OF f1])
    ultimately show ?thesis using w' Some by auto
  qed
qed

lemma check_expired_spec:
  assumes run: "check_and_clear_expired_marker env session cwd now w = (r, evs, w')"
    and here: "look w (marker_path_in cwd) = Some (File c)"
  shows "tame w w' \<and> (look w' (marker_path_in cwd) = Some (File c) \<or>
    look w' (marker_path_in cwd) = None \<and> (\<exists>mf t. Option.bind (me_decode env c) fields_of_table = Some mf \<and>
      me_rfc3339 env (mf_expires_at mf) = Some t \<and> t \<le> now))"
proof -
  let ?p = "marker_path_in cwd"
  obtain a w1 where c1: "read_all_marker_fields env ?p w = (a, w1)" by fastforce
  note f1 = read_all_frame[OF c1]
  obtain rm w2 where c2: "fs_remove_file ?p w1 = (rm, w2)" by fastforce
  note s2 = fs_remove_file_spec[OF c2]
  consider (keep) "w' = w1" | (del) mf t where "w' = w2" "a = Inr (Some mf)"
    "me_rfc3339 env (mf_expires_at mf) = Some t" "t \<le> now"
    using run c1 c2
    by (auto simp: check_and_clear_expired_marker_def Let_def split: option.splits sum.splits if_splits io_kind.splits)
  then show ?thesis
  proof cases
    case keep
    then show ?thesis using frame_tame[OF f1] frame_empty_look[OF f1] here by simp
  next
    case del
    have "tame w w'" unfolding del(1) by (rule tame_trans[OF frame_tame[OF f1] fs_remove_file_tame[OF c2]])
    moreover have "Option.bind (me_decode env c) fields_of_table = Some mf"
      using read_all_spec[OF c1[unfolded del(2)] here] .
    ultimately show ?thesis
      using s2 del here frame_empty_look[OF f1] by (cases rm) auto
  qed
qed

lemma reconcile_raw_delete_frame: "reconcile_raw_delete env session cwd lp w = (evs, w') \<Longrightarrow> frame {} w w'"
  by (auto simp: reconcile_raw_delete_def read_tail_def intro: frame_trans
      split: prod.splits sum.splits option.splits dest!: fs_metadata_frame fs_read_frame)

lemma precheck_spec:
  assumes run: "precheck_marker x e now w = (evs, w')" and here: "look w (marker_path_in (xc_cwd x)) = Some (File c)"
  shows "tame w w' \<and> (look w' (marker_path_in (xc_cwd x)) = Some (File c) \<or>
    look w' (marker_path_in (xc_cwd x)) = None \<and>
      (\<exists>mf t. Option.bind (me_decode (xc_env x) c) fields_of_table = Some mf \<and>
        me_rfc3339 (xc_env x) (mf_expires_at mf) = Some t \<and> t \<le> now))"
proof (cases "entry_on_error (xc_defaults x) e = BlockIfMarker")
  case False
  then show ?thesis using run here by (simp add: precheck_marker_def)
next
  case True
  obtain r evs1 w1 where c1: "check_and_clear_expired_marker (xc_env x) (xc_session x) (xc_cwd x) now w = (r, evs1, w1)"
    by (metis prod_cases3)
  obtain evs2 w2 where c2: "reconcile_raw_delete (xc_env x) (xc_session x) (xc_cwd x) (xc_log_path x) w1 = (evs2, w2)"
    by fastforce
  have "w' = w1 \<or> w' = w2"
    using run c1 c2 True by (auto simp: precheck_marker_def split: sum.splits option.splits)
  then have f: "frame {} w1 w'" using reconcile_raw_delete_frame[OF c2] by auto
  show ?thesis
    using check_expired_spec[OF c1 here] tame_trans[OF _ frame_tame[OF f]] frame_empty_look[OF f] by auto
qed

section \<open>Only a revalidation lifts a live quarantine\<close>

text \<open>The documented behaviour of the codecs: what is printed reads back.\<close>

definition marker_codec_ok :: "marker_env \<Rightarrow> bool" where
  "marker_codec_ok env \<longleftrightarrow>
     (\<forall>table s. me_encode env table = Some s \<longrightarrow>
        utf8_valid s \<and> me_decode env s = Some (map (\<lambda>(k, v). (k, TStr v)) table)) \<and>
     (\<forall>t. me_rfc3339 env (me_format env t) = Some t) \<and> me_rfc3339 env [] = None"

fun step_entry :: "registry_entry list \<Rightarrow> tier_step \<Rightarrow> registry_entry" where
  "step_entry tier (PreCheck i _) = tier ! i"
| "step_entry tier (Settle i _ _) = tier ! i"

fun step_time :: "tier_step \<Rightarrow> int" where
  "step_time (PreCheck _ t) = t"
| "step_time (Settle _ t _) = t"

text \<open>The step is the end of a passing run that revalidates the marker with this content.\<close>

definition lifting_step ::
  "exec_ctx \<Rightarrow> (registry_entry \<Rightarrow> plugin_run) \<Rightarrow> registry_entry list \<Rightarrow> bytes \<Rightarrow> tier_step \<Rightarrow> bool"
where
  "lifting_step x run tier c s \<longleftrightarrow> (\<exists>i t nonce result big. s = Settle i t nonce \<and> run (tier ! i) = Ran result big \<and>
     classify_outcome result (re_failure_policy (tier ! i)) big = Pass \<and>
     revalidates (xc_env x) (tier ! i) (xc_artifact x) c)"

lemma new_marker_live:
  assumes codec: "marker_codec_ok env" and env: "xc_env x = env"
    and enc: "me_encode env (marker_table (new_marker_fields x e cause now)) = Some c" and t: "t < now + marker_ttl_ns"
  shows "live_content env t c"
proof -
  have d: "me_decode env c = Some (map (\<lambda>(k, v). (k, TStr v)) (marker_table (new_marker_fields x e cause now)))"
    and u: "utf8_valid c" using codec enc by (auto simp: marker_codec_ok_def)
  have "table_str (map (\<lambda>(k, v). (k, TStr v)) (marker_table (new_marker_fields x e cause now))) ''expires_at'' =
      Some (me_format env (now + marker_ttl_ns))"
    by (simp add: table_str_def marker_table_def new_marker_fields_def env)
  then have "parse_expires_at env c = Some (now + marker_ttl_ns)"
    using codec by (simp add: parse_expires_at_def d marker_codec_ok_def)
  then show ?thesis using u t by (simp add: live_content_def)
qed

lemma step_keeps_live:
  assumes run: "run_step x run tier s w = (evs, w')" and codec: "marker_codec_ok (xc_env x)"
    and tmp: "marker_tmp_ok x (step_entry tier s) w"
    and here: "look w (marker_path_in (xc_cwd x)) = Some (File c)" "live_content (xc_env x) t c"
    and time: "step_time s \<le> t" "t < step_time s + marker_ttl_ns" and no: "\<not> lifting_step x run tier c s"
  shows "tame w w' \<and> live_marker (xc_env x) (xc_cwd x) t w'"
proof (cases s)
  case (PreCheck i now)
  note p = precheck_spec[OF run[unfolded PreCheck run_step.simps] here(1)]
  have "\<not> (\<exists>mf expiry. Option.bind (me_decode (xc_env x) c) fields_of_table = Some mf \<and>
      me_rfc3339 (xc_env x) (mf_expires_at mf) = Some expiry \<and> expiry \<le> now)"
  proof
    assume "\<exists>mf expiry. Option.bind (me_decode (xc_env x) c) fields_of_table = Some mf \<and>
      me_rfc3339 (xc_env x) (mf_expires_at mf) = Some expiry \<and> expiry \<le> now"
    then obtain mf expiry where m: "Option.bind (me_decode (xc_env x) c) fields_of_table = Some mf"
      "me_rfc3339 (xc_env x) (mf_expires_at mf) = Some expiry" "expiry \<le> now" by blast
    have "parse_expires_at (xc_env x) c = Some expiry"
      by (rule fields_expiry[OF m(1,2)]) (use codec in \<open>simp add: marker_codec_ok_def\<close>)
    then show False using here(2) m(3) time(1) PreCheck by (simp add: live_content_def)
  qed
  then show ?thesis using p here(2) by (auto simp: live_marker_def)
next
  case (Settle i now nonce)
  let ?e = "tier ! i"
  have tmp': "marker_tmp_ok x ?e w" using tmp Settle by simp
  show ?thesis
  proof (cases "\<exists>result big. run ?e = Ran result big")
    case False
    then have "w' = w" using run Settle by (cases "run ?e") auto
    then show ?thesis using here by (auto simp: live_marker_def)
  next
    case True
    then obtain result big where r: "run ?e = Ran result big" by blast
    have settle: "settle_marker x ?e result big now nonce w = (evs, w')" using run Settle r by simp
    show ?thesis
    proof (cases "classify_outcome result (re_failure_policy ?e) big")
      case Pass
      then have "settle_pass x ?e w = (evs, w')" using settle by (simp add: settle_marker_def)
      moreover have "\<not> revalidates (xc_env x) ?e (xc_artifact x) c"
        using no Settle r Pass by (auto simp: lifting_step_def)
      ultimately show ?thesis
        using settle_pass_spec[OF _ here(1)] here(2) by (auto simp: live_marker_def)
    next
      case (Fail n)
      then have "w' = w" using settle by (simp add: settle_marker_def)
      then show ?thesis using here by (auto simp: live_marker_def)
    next
      case (Indeterminate cause)
      then have "settle_indeterminate x ?e cause now nonce w = (evs, w')"
        using settle by (simp add: settle_marker_def)
      from settle_indeterminate_spec[OF this tmp']
      show ?thesis
        using here new_marker_live[OF codec refl] time(2) Settle by (auto simp: live_marker_def)
    qed
  qed
qed

end
