(* ===== verification/ExecutorClaims.thy ===== *)
theory ExecutorClaims
  imports MarkerSafety ShardNames "HOL-Library.Countable"
begin

text \<open>
  What the executor promises: when a dispatch exits with 2, that a quarantined tree blocks the
  plugins that ask for it, that only a revalidation lifts a live marker, and that every marker
  write is on the audit trail.
\<close>

section \<open>The exit code\<close>

text \<open>An outcome votes to block by its own output, by its crash policy or through the marker.\<close>

definition votes_block :: "plugin_outcome \<Rightarrow> bool" where
  "votes_block p \<longleftrightarrow> plugin_requests_block (po_result p) \<or> plugin_fail_closed (po_result p) (po_on_error p) \<or>
     po_block_if_marker_fired p"

definition undecided :: "plugin_outcome \<Rightarrow> plugin_outcome" where
  "undecided p = p\<lparr>po_block_if_marker_fired := False, po_block_if_marker_fields := None\<rparr>"

lemma undecided_outcome [simp]: "undecided (outcome_of_run x e r) = outcome_of_run x e r"
  by (simp add: undecided_def outcome_of_run_def Let_def split: plugin_run.splits)

lemma undecided_gate [simp]: "undecided (gate_outcome s v) = gate_outcome s v"
  by (simp add: undecided_def gate_outcome_def)

lemma decided_outcome [simp]:
  "undecided (p\<lparr>po_block_if_marker_fired := b, po_block_if_marker_fields := m\<rparr>) = undecided p"
  "votes_block (p\<lparr>po_block_if_marker_fired := b, po_block_if_marker_fields := m\<rparr>) \<longleftrightarrow>
     plugin_requests_block (po_result p) \<or> plugin_fail_closed (po_result p) (po_on_error p) \<or> b"
  by (simp_all add: undecided_def votes_block_def)

lemma decide_outcomes_meaning:
  assumes "decide_outcomes x clock ps w = (ds, block, w')"
  shows "map undecided ds = map undecided ps \<and> (block \<longleftrightarrow> (\<exists>d\<in>set ds. votes_block d))"
  using assms
proof (induction x clock ps w arbitrary: ds block w' rule: decide_outcomes.induct)
  case (2 x clock p ps w)
  obtain bim w1 where c1: "plugin_block_if_marker (xc_env x) (po_result p) (po_on_error p) (xc_cwd x) (clock 0) w = (bim, w1)"
    by fastforce
  obtain mf w2 where c2: "(if bim then (case read_all_marker_fields (xc_env x) (marker_path_in (xc_cwd x)) w1 of
      (r, w) \<Rightarrow> (marker_fields_ok r, w)) else (None, w1)) = (mf, w2)" by fastforce
  obtain ds' b' w3 where c3: "decide_outcomes x (\<lambda>i. clock (Suc i)) ps w2 = (ds', b', w3)" by (metis prod_cases3)
  have ds: "ds = p\<lparr>po_block_if_marker_fired := bim, po_block_if_marker_fields := mf\<rparr> # ds'"
    and b: "block = (plugin_requests_block (po_result p) \<or> plugin_fail_closed (po_result p) (po_on_error p) \<or> bim \<or> b')"
    using 2(2) c1 c2 c3 by simp_all
  have "map undecided ds' = map undecided ps \<and> (b' \<longleftrightarrow> (\<exists>d\<in>set ds'. votes_block d))"
    using 2(1)[OF c1[symmetric] c2[symmetric] c3] .
  then show ?case by (simp add: ds b disj_assoc)
qed simp

lemma run_tiers_meaning:
  assumes "run_tiers x run tiers w = (outs, block, evs, w')"
  shows "map undecided outs = concat (map (\<lambda>(tier, _). map (\<lambda>e. outcome_of_run x e (run e)) tier) tiers) \<and>
    (block \<longleftrightarrow> (\<exists>d\<in>set outs. votes_block d))"
  using assms
proof (induction tiers arbitrary: outs block evs w w')
  case (Cons t tiers)
  obtain tier ss clock where t: "t = (tier, ss, clock)" by (metis prod_cases3)
  obtain evs1 w1 where c1: "run_steps x run tier ss w = (evs1, w1)" by fastforce
  obtain ds b1 w2 where c2: "decide_outcomes x clock (map (\<lambda>e. outcome_of_run x e (run e)) tier) w1 = (ds, b1, w2)"
    by (metis prod_cases3)
  obtain os b2 evs2 w3 where c3: "run_tiers x run tiers w2 = (os, b2, evs2, w3)" by (metis prod_cases4)
  have "outs = ds @ os" "block = (b1 \<or> b2)" using Cons.prems t c1 c2 c3 by simp_all
  then show ?case using decide_outcomes_meaning[OF c2] Cons.IH[OF c3] t by (auto simp: comp_def)
qed simp

lemma gate_block_votes: "votes_block (shard_gate_block_outcome reason v)"
proof -
  have "contains p (CHR ''{'' # p @ s)" for p s :: string
    using contains_infix[of p "[CHR ''{'']" s] by simp
  from this[of "quoted ''outcome'' @ '':'' @ quoted ''block''"] show ?thesis
    by (simp add: votes_block_def shard_gate_block_outcome_def gate_outcome_def plugin_requests_block_def json_pair_def
        json_escape_def json_escape_char_def quote_def)
qed

text \<open>
  A dispatch exits with 0 or 2, and with 2 exactly when the shard gate failed or some outcome votes to
  block: its output asks for it, it crashed or timed out under the block policy, or the marker check
  fired for it.  The outcomes are the gate's, then one per plugin in tier order, changed by
  nothing but the marker check.
\<close>

theorem exit_code_meaning:
  "let s = fst (execute_tiers x run verdict tiers w) in
   ts_exit_code s = (if ts_block_intent s then 2 else 0) \<and>
   (ts_block_intent s \<longleftrightarrow> (\<exists>m. verdict = Some (HookError m)) \<or> (\<exists>p\<in>set (ts_per_plugin_results s). votes_block p)) \<and>
   map undecided (ts_per_plugin_results s) = fst (shard_gate_verdict_outcomes verdict (xc_version x)) @
     concat (map (\<lambda>(tier, _). map (\<lambda>e. outcome_of_run x e (run e)) tier) tiers)"
proof -
  obtain outs block evs w' where r: "run_tiers x run tiers w = (outs, block, evs, w')" by (metis prod_cases4)
  note m = run_tiers_meaning[OF r]
  show ?thesis
    using m gate_block_votes
    by (auto simp: execute_tiers_def shard_gate_verdict_outcomes_def r Let_def shard_gate_block_outcome_def
        shard_gate_error_outcome_def split: option.splits hook_result.splits)
qed

text \<open>
  A task that dies is recorded with the policy \<open>Continue\<close>, whatever its entry says: an entry that asks
  to block on errors then fails open.
\<close>

lemma join_failure_fails_open:
  "entry_on_error (xc_defaults x) e = Block \<Longrightarrow> run e = JoinFailed err \<Longrightarrow>
   ts_exit_code (fst (execute_tiers x run None [([e], ss, clock)] w)) = 0"
  by (simp add: execute_tiers_def shard_gate_verdict_outcomes_def outcome_of_run_def Let_def plugin_block_if_marker_def
      plugin_requests_block_def plugin_fail_closed_def split: prod.splits)

section \<open>The quarantine\<close>

fun step_index :: "tier_step \<Rightarrow> nat" where
  "step_index (PreCheck i _) = i"
| "step_index (Settle i _ _) = i"

lemma step_entry_index: "step_entry tier s = tier ! step_index s"
  by (cases s) auto

lemma settles_started: "settles_after A ss \<Longrightarrow> s \<in> set ss \<Longrightarrow> step_index s \<in> A \<union> set (precheck_indices ss)"
proof (induction A ss rule: settles_after.induct)
  case (3 A i t n ss)
  then show ?case by auto
qed auto

lemma schedule_ok_index: "schedule_ok tier ss \<Longrightarrow> s \<in> set ss \<Longrightarrow> step_index s < length tier"
  using settles_started[of "{}" ss s] by (simp add: schedule_ok_def)

text \<open>The marker survives a whole schedule without a lifting step.\<close>

lemma steps_keep_live:
  assumes "run_steps x run tier ss w = (evs, w')" "marker_codec_ok (xc_env x)"
    and "\<forall>s\<in>set ss. marker_tmp_ok x (step_entry tier s) w"
    and "live_marker (xc_env x) (xc_cwd x) t w"
    and "\<forall>s\<in>set ss. step_time s \<le> t \<and> t < step_time s + marker_ttl_ns"
    and "\<forall>s\<in>set ss. \<forall>c. live_content (xc_env x) t c \<longrightarrow> \<not> lifting_step x run tier c s"
  shows "tame w w' \<and> live_marker (xc_env x) (xc_cwd x) t w'"
  using assms
proof (induction ss arbitrary: w evs)
  case (Cons s ss)
  obtain e1 w1 where c1: "run_step x run tier s w = (e1, w1)" by fastforce
  obtain e2 w2 where c2: "run_steps x run tier ss w1 = (e2, w2)" by fastforce
  have w2: "w2 = w'" using Cons.prems(1) c1 c2 by simp
  obtain c where here: "look w (marker_path_in (xc_cwd x)) = Some (File c)" "live_content (xc_env x) t c"
    using Cons.prems(4) by (auto simp: live_marker_def)
  have one: "tame w w1 \<and> live_marker (xc_env x) (xc_cwd x) t w1"
    by (rule step_keeps_live[OF c1 Cons.prems(2) _ here]) (use Cons.prems(3,5,6) here in auto)
  have "\<forall>s\<in>set ss. marker_tmp_ok x (step_entry tier s) w1"
    using Cons.prems(3) one marker_tmp_ok_tame by auto
  then have "tame w1 w' \<and> live_marker (xc_env x) (xc_cwd x) t w'"
    using Cons.IH[OF c2[unfolded w2] Cons.prems(2)] one Cons.prems(5,6) w2 by auto
  then show ?case using one tame_trans by blast
qed simp

lemma read_all_calm: "faults w = [] \<Longrightarrow> read_all_marker_fields env p w = (r, w') \<Longrightarrow> w' = w"
  by (auto simp: read_all_marker_fields_def fs_read_to_string_def fs_read_def split: prod.splits sum.splits io_kind.splits
      node.splits if_splits)

lemma block_check_unchanged: "faults w = [] \<Longrightarrow> block_if_marker_check env cwd now w = (b, w') \<Longrightarrow> w' = w"
  by (auto simp: block_if_marker_check_def fs_read_to_string_def fs_read_def split: prod.splits sum.splits node.splits if_splits)

lemma block_if_marker_unchanged:
  "faults w = [] \<Longrightarrow> plugin_block_if_marker env r oe cwd now w = (b, w') \<Longrightarrow> w' = w"
  by (auto simp: plugin_block_if_marker_def block_check_unchanged split: if_splits)

lemma decide_fires:
  assumes "decide_outcomes x clock ps w = (ds, block, w')" "faults w = []" "i < length ps"
    and "crashed_or_timed_out (po_result (ps ! i))" "po_on_error (ps ! i) = BlockIfMarker"
    and "live_marker (xc_env x) (xc_cwd x) (clock i) w"
  shows "block"
  using assms
proof (induction x clock ps w arbitrary: ds block w' i rule: decide_outcomes.induct)
  case (2 x clock p ps w)
  obtain bim w1 where c1: "plugin_block_if_marker (xc_env x) (po_result p) (po_on_error p) (xc_cwd x) (clock 0) w = (bim, w1)"
    by fastforce
  obtain mf w2 where c2: "(if bim then (case read_all_marker_fields (xc_env x) (marker_path_in (xc_cwd x)) w1 of
      (r, w) \<Rightarrow> (marker_fields_ok r, w)) else (None, w1)) = (mf, w2)" by fastforce
  obtain ds' b' w3 where c3: "decide_outcomes x (\<lambda>i. clock (Suc i)) ps w2 = (ds', b', w3)" by (metis prod_cases3)
  have w1: "w1 = w" using block_if_marker_unchanged[OF 2(3) c1] .
  have w2: "w2 = w" using c2 w1 2(3) by (auto split: if_splits prod.splits dest: read_all_calm)
  have b: "block = (plugin_requests_block (po_result p) \<or> plugin_fail_closed (po_result p) (po_on_error p) \<or> bim \<or> b')"
    using 2(2) c1 c2 c3 by simp
  show ?case
  proof (cases i)
    case 0
    then have "block_if_marker_check (xc_env x) (xc_cwd x) (clock 0) w = (bim, w1)"
      using c1 2(5,6) by (simp add: plugin_block_if_marker_def)
    then show ?thesis using block_check_calm[OF 2(3)] 2(7) 0 b by simp
  next
    case (Suc j)
    have "b'"
      by (rule 2(1)[OF c1[symmetric] c2[symmetric] c3, of j]) (use 2(3-7) Suc w2 in auto)
    then show ?thesis using b by simp
  qed
qed simp


text \<open>A codec that reads back what it prints, in unary, and a quarantined project with one plugin.\<close>

definition unary_marker_env :: marker_env where
  "unary_marker_env = \<lparr>me_encode = \<lambda>table. Some (replicate (to_nat table) CHR ''x''),
     me_decode = \<lambda>s. Some (map (\<lambda>(k, v). (k, TStr v)) (from_nat (length s))),
     me_rfc3339 = \<lambda>s. if s = [] then None else Some (from_nat (length s - 1)),
     me_format = \<lambda>t. replicate (Suc (to_nat t)) CHR ''x'', me_json = \<lambda>_. None, me_alnum = \<lambda>_. False, me_now_ts = ''now''\<rparr>"

lemma utf8_x: "utf8_valid (replicate n CHR ''x'')"
  by (induction n) auto

lemma unary_marker_codec: "marker_codec_ok unary_marker_env"
  by (simp add: marker_codec_ok_def unary_marker_env_def utf8_x)

definition guarded_entry :: registry_entry where
  "guarded_entry = \<lparr>re_name = ''guard'', re_event = ''PostToolUse'', re_tool = None, re_plugin = [], re_priority = None,
     re_enabled = True, re_timeout_ms = None, re_fuel_cap = None, re_on_error = Some BlockIfMarker,
     re_capabilities = None, re_config = TTable [], re_async = False, re_needs_context = [], re_failure_policy = FailClosed\<rparr>"

definition quarantined_ctx :: exec_ctx where
  "quarantined_ctx = \<lparr>xc_env = unary_marker_env, xc_session = ''s'', xc_cwd = [RootDir, Normal ''p''], xc_trace = ''t'',
     xc_version = ''v'', xc_log_path = None, xc_defaults = default_registry_defaults, xc_artifact = ''a.md''\<rparr>"

definition quarantine_content :: bytes where
  "quarantine_content = the (me_encode unary_marker_env
     (marker_table (new_marker_fields quarantined_ctx guarded_entry CauseFuel 0)))"

definition quarantined_world :: world where
  "quarantined_world = \<lparr>nodes = [([RootDir, Normal ''p''], Directory),
       (marker_path_in [RootDir, Normal ''p''], File quarantine_content)],
     faults = [], nonces = [], pid = 7\<rparr>"

lemma quarantine_live: "live_content unary_marker_env 10 quarantine_content"
proof (rule new_marker_live[OF unary_marker_codec])
  show "xc_env quarantined_ctx = unary_marker_env" by (simp add: quarantined_ctx_def)
  show "me_encode unary_marker_env (marker_table (new_marker_fields quarantined_ctx guarded_entry CauseFuel 0)) =
      Some quarantine_content"
    by (simp add: quarantine_content_def unary_marker_env_def)
qed (simp add: marker_ttl_ns_def)

lemma quarantined_look: "look quarantined_world p = (if p = [RootDir, Normal ''p''] then Some Directory
    else if p = marker_path_in [RootDir, Normal ''p''] then Some (File quarantine_content) else None)"
  by (simp add: look_def quarantined_world_def)

lemma guard_tmp_name:
  "plain_name (''unvalidated-mutation.marker'' @ ''.'' @ ''guard'' @ ''.'' @ show_nat n @ ''.'' @ show_nat k @ ''.tmp'')"
  by (auto simp: plain_name_def is_ascii_digit_def dest: set_show_nat)

lemma quarantined_tmp: "marker_tmp_ok quarantined_ctx guarded_entry quarantined_world"
proof -
  have g: "concat (map (safe_plugin_char unary_marker_env) (utf8_chars ''guard'')) = ''guard''" by code_simp
  have f: "file_name (marker_path_in [RootDir, Normal ''p'']) = Some ''unvalidated-mutation.marker''"
    "parent_or [CurDir] (marker_path_in [RootDir, Normal ''p'']) = [RootDir, Normal ''p'', Normal ''.factory'']"
    "utf8_valid ''unvalidated-mutation.marker''" by code_simp+
  have t: "marker_tmp_path unary_marker_env n k ''guard'' (marker_path_in [RootDir, Normal ''p'']) =
      [RootDir, Normal ''p'', Normal ''.factory''] @ [Normal (''unvalidated-mutation.marker'' @ ''.'' @ ''guard'' @ ''.'' @
        show_nat n @ ''.'' @ show_nat (unat k) @ ''.tmp'')]" for n k
    unfolding marker_tmp_path_def Let_def g f option.case if_P[OF f(3)] by (rule join_plain[OF guard_tmp_name])
  have ne: "[RootDir, Normal ''p'', Normal ''.factory''] @ [Normal (''unvalidated-mutation.marker'' @ s)] \<noteq> [RootDir, Normal ''p'']"
    "s \<noteq> [] \<Longrightarrow> [RootDir, Normal ''p'', Normal ''.factory''] @ [Normal (''unvalidated-mutation.marker'' @ s)] \<noteq>
      marker_path_in [RootDir, Normal ''p'']" for s
    by (simp_all add: marker_path_in_def)
  show ?thesis
    unfolding marker_tmp_ok_def tmp_ok_def
    by (simp add: quarantined_ctx_def guarded_entry_def t quarantined_look ne del: append.simps)
qed

lemma quarantine_reads:
  "fs_read_to_string (marker_path_in [RootDir, Normal ''p'']) quarantined_world = (Inr quarantine_content, quarantined_world)"
proof -
  have c: "faults quarantined_world = []" "utf8_valid quarantine_content"
    by (simp_all add: quarantined_world_def quarantine_content_def unary_marker_env_def utf8_x)
  have "marker_path_in [RootDir, Normal ''p''] \<noteq> [RootDir, Normal ''p'']" by (simp add: marker_path_in_def)
  then show ?thesis
    using c by (simp add: fs_read_to_string_def fs_read_def get_node_follow_plain get_node_def quarantined_look)
qed

lemma quarantine_decodes: "Option.bind (me_decode unary_marker_env quarantine_content) fields_of_table =
    Some (new_marker_fields quarantined_ctx guarded_entry CauseFuel 0)"
  by (simp add: quarantine_content_def unary_marker_env_def marker_table_def fields_of_table_def table_str_def
      new_marker_fields_def unwrap_or_def)

lemma quarantined_steps: "run_steps quarantined_ctx (\<lambda>_. Ran (PluginCrashed ''trap'' [] 0 0) False) [guarded_entry]
    [PreCheck 0 5, Settle 0 6 0] quarantined_world = ([], quarantined_world)"
proof -
  have ne: "marker_path_in [RootDir, Normal ''p''] \<noteq> [RootDir, Normal ''p'']" by (simp add: marker_path_in_def)
  have "check_and_clear_expired_marker unary_marker_env ''s'' [RootDir, Normal ''p''] 5 quarantined_world =
      (Inr None, [], quarantined_world)"
    by (simp add: check_and_clear_expired_marker_def read_all_marker_fields_def quarantine_reads quarantine_decodes Let_def)
      (simp add: new_marker_fields_def quarantined_ctx_def unary_marker_env_def marker_ttl_ns_def)
  moreover have "reconcile_raw_delete unary_marker_env ''s'' [RootDir, Normal ''p''] None quarantined_world = ([], quarantined_world)"
    using ne by (simp add: reconcile_raw_delete_def fs_metadata_def get_node_follow_plain get_node_def quarantined_look
        quarantined_world_def[THEN arg_cong, of faults])
  ultimately show ?thesis
    by (simp add: precheck_marker_def settle_marker_def classify_outcome_def guarded_entry_def entry_on_error_def
        unwrap_or_def quarantined_ctx_def)
qed



definition lifted_world :: world where
  "lifted_world = del (marker_path_in [RootDir, Normal ''p'']) quarantined_world"

lemma lifting_steps: "snd (run_steps quarantined_ctx (\<lambda>_. Ran (PluginOk 0 [] [] 0 0) False) [guarded_entry]
    [Settle 0 6 0] quarantined_world) = lifted_world"
proof -
  have dec: "me_decode unary_marker_env quarantine_content = Some (map (\<lambda>(k, v). (k, TStr v))
      (marker_table (new_marker_fields quarantined_ctx guarded_entry CauseFuel 0)))"
    by (simp add: quarantine_content_def unary_marker_env_def)
  have n: "read_marker_plugin_name unary_marker_env (marker_path_in [RootDir, Normal ''p'']) quarantined_world =
      (Inr (Some ''guard''), quarantined_world)"
    by (simp add: read_marker_plugin_name_def quarantine_reads dec)
      (simp add: marker_table_def new_marker_fields_def table_str_def guarded_entry_def)
  have a: "read_all_marker_fields unary_marker_env (marker_path_in [RootDir, Normal ''p'']) quarantined_world =
      (Inr (Some (new_marker_fields quarantined_ctx guarded_entry CauseFuel 0)), quarantined_world)"
    by (simp add: read_all_marker_fields_def quarantine_reads quarantine_decodes)
  have ne: "marker_path_in [RootDir, Normal ''p''] \<noteq> [RootDir, Normal ''p'']" by (simp add: marker_path_in_def)
  have "fs_remove_file (marker_path_in [RootDir, Normal ''p'']) quarantined_world = (Inr (), lifted_world)"
    using ne by (simp add: fs_remove_file_def quarantined_look lifted_world_def quarantined_world_def[THEN arg_cong, of faults])
  then have d: "delete_marker_if_pass unary_marker_env (marker_path_in [RootDir, Normal ''p'']) ''a.md'' quarantined_world =
      (Inr True, lifted_world)"
    by (simp add: delete_marker_if_pass_def quarantine_reads dec)
      (simp add: marker_table_def new_marker_fields_def table_str_def quarantined_ctx_def unwrap_or_def)
  have "settle_pass quarantined_ctx guarded_entry quarantined_world =
      ([marker_cleared_event unary_marker_env ''s'' (new_marker_fields quarantined_ctx guarded_entry CauseFuel 0)
        ''REVALIDATED'' ''validator'' None], lifted_world)"
    unfolding settle_pass_def
    by (simp add: quarantined_ctx_def[THEN arg_cong, of xc_env] quarantined_ctx_def[THEN arg_cong, of xc_cwd]
        quarantined_ctx_def[THEN arg_cong, of xc_session] quarantined_ctx_def[THEN arg_cong, of xc_artifact]
        n a d marker_fields_ok_def guarded_entry_def[THEN arg_cong, of re_name] guarded_entry_def[THEN arg_cong, of re_event])
  then show ?thesis
    by (simp add: settle_marker_def classify_outcome_def)
qed


section \<open>The audit trail\<close>

lemma event_types [simp]:
  "ev_type (marker_written_event env session mf) = ''marker.written''"
  "ev_type (indeterminate_event x e cause) = ''plugin.indeterminate''"
  by (simp_all add: marker_written_event_def indeterminate_event_def)

text \<open>
  Marker writes are audited: at the end of an undecided run, the event of a written marker is emitted
  exactly when the write went through, and then the marker holds the new record; when it is not
  emitted the marker is unchanged and the only event is that of the undecided run.
\<close>

theorem marker_writes_audited:
  assumes "settle_indeterminate x e cause now nonce w = (evs, w')" "marker_tmp_ok x e w"
  shows "if \<exists>ev\<in>set evs. ev_type ev = ''marker.written''
    then \<exists>c. me_encode (xc_env x) (marker_table (new_marker_fields x e cause now)) = Some c \<and>
      look w' (marker_path_in (xc_cwd x)) = Some (File c) \<and>
      last evs = marker_written_event (xc_env x) (xc_session x) (new_marker_fields x e cause now)
    else evs = [indeterminate_event x e cause] \<and>
      look w' (marker_path_in (xc_cwd x)) = look w (marker_path_in (xc_cwd x))"
proof (cases "should_write_marker (Indeterminate cause) (re_failure_policy e) \<and> re_event e = ''PostToolUse''")
  case False
  then show ?thesis using assms(1) by (auto simp: settle_indeterminate_def Let_def)
next
  case True
  let ?p = "marker_path_in (xc_cwd x)" and ?env = "xc_env x" and ?mf = "new_marker_fields x e cause now"
  obtain a w1 where c1: "read_all_marker_fields ?env ?p w = (a, w1)" by fastforce
  note f1 = read_all_frame[OF c1]
  obtain b w2 where c2: "write_indeterminate_marker ?env nonce ?mf ?p w1 = (b, w2)" by fastforce
  have w': "w' = w2" and evs: "evs = indeterminate_event x e cause #
      emit_write_tied_audit_events ?env (xc_session x) b (marker_fields_ok a) ?mf"
    using assms(1) c1 c2 True by (auto simp: settle_indeterminate_def Let_def)
  show ?thesis
  proof (cases "me_encode ?env (marker_table ?mf)")
    case None
    then have "w2 = w1" "b = Inl InvalidData" using c2 by (auto simp: write_indeterminate_marker_def)
    then show ?thesis
      using w' evs frame_empty_look[OF f1] by (simp add: emit_write_tied_audit_events_def)
  next
    case (Some c)
    let ?t = "marker_tmp_path ?env (pid w1) nonce (re_name e) ?p"
    have run2: "replace_marker ?env nonce (re_name e) ?p c w1 = (b, w2)"
      using c2 Some by (simp add: write_indeterminate_marker_def new_marker_fields_def replace_marker_def)
    have "tmp_ok w1 ?t ?p" using marker_tmp_ok_tame[OF frame_tame[OF f1] assms(2)] by (simp add: marker_tmp_ok_def)
    note old_or_new = marker.old_or_new[OF run2 this]
    show ?thesis
    proof (cases b)
      case (Inl k)
      then have "evs = [indeterminate_event x e cause]" "look w' ?p = look w ?p"
        using w' evs old_or_new frame_empty_look[OF f1] by (simp_all add: emit_write_tied_audit_events_def)
      then show ?thesis by simp
    next
      case (Inr u)
      then have "look w' ?p = Some (File c)" using w' old_or_new by simp
      moreover have "last evs = marker_written_event ?env (xc_session x) ?mf"
        "marker_written_event ?env (xc_session x) ?mf \<in> set evs"
        using Inr evs by (simp_all add: emit_write_tied_audit_events_def)
      ultimately show ?thesis using Some event_types(1)[of ?env "xc_session x" ?mf] by auto
    qed
  qed
qed

theorem marker_writes_audited_witness:
  "case settle_indeterminate quarantined_ctx guarded_entry CauseFuel 5 0 quarantined_world of (evs, w') \<Rightarrow>
     if \<exists>ev\<in>set evs. ev_type ev = ''marker.written''
     then \<exists>c. me_encode (xc_env quarantined_ctx) (marker_table (new_marker_fields quarantined_ctx guarded_entry CauseFuel 5)) = Some c \<and>
       look w' (marker_path_in (xc_cwd quarantined_ctx)) = Some (File c) \<and>
       last evs = marker_written_event (xc_env quarantined_ctx) (xc_session quarantined_ctx)
         (new_marker_fields quarantined_ctx guarded_entry CauseFuel 5)
     else evs = [indeterminate_event quarantined_ctx guarded_entry CauseFuel] \<and>
       look w' (marker_path_in (xc_cwd quarantined_ctx)) = look quarantined_world (marker_path_in (xc_cwd quarantined_ctx))"
proof (cases "settle_indeterminate quarantined_ctx guarded_entry CauseFuel 5 0 quarantined_world")
  case (Pair evs w')
  show ?thesis unfolding Pair prod.case by (rule marker_writes_audited[OF Pair quarantined_tmp])
qed

end
