(* ===== verification/RustText.thy ===== *)
theory RustText
  imports RustStr
begin

text \<open>
  Further string operations of the standard library: white-space trimming over the UTF-8 encodings
  of the Unicode white-space characters, the normalisation of line ends, and texts made of whole
  lines.
\<close>

section \<open>Trimming white space\<close>

text \<open>The encodings of the characters with the \<open>White_Space\<close> property.\<close>

definition white_space :: "string list" where
  "white_space = [[CHR 0x09], [CHR 0x0A], [CHR 0x0B], [CHR 0x0C], [CHR 0x0D], [CHR 0x20], [CHR 0xC2, CHR 0x85], [CHR 0xC2, CHR 0xA0],
     [CHR 0xE1, CHR 0x9A, CHR 0x80]] @
     map (\<lambda>c. [CHR 0xE2, CHR 0x80, c]) [CHR 0x80, CHR 0x81, CHR 0x82, CHR 0x83, CHR 0x84, CHR 0x85, CHR 0x86, CHR 0x87, CHR 0x88,
        CHR 0x89, CHR 0x8A, CHR 0xA8, CHR 0xA9, CHR 0xAF] @
     [[CHR 0xE2, CHR 0x81, CHR 0x9F], [CHR 0xE3, CHR 0x80, CHR 0x80]]"

fun strip_any :: "string list \<Rightarrow> (string \<Rightarrow> string \<Rightarrow> string option) \<Rightarrow> string \<Rightarrow> string option" where
  "strip_any [] strip s = None"
| "strip_any (e # es) strip s = (case strip e s of Some s' \<Rightarrow> Some s' | None \<Rightarrow> strip_any es strip s)"

lemma strip_any_Some: "strip_any es strip s = Some t \<Longrightarrow> \<exists>e\<in>set es. strip e s = Some t"
  by (induction es) (auto split: option.splits)

lemma white_space_nonempty: "e \<in> set white_space \<Longrightarrow> e \<noteq> []"
  by (auto simp: white_space_def)

lemma strip_any_shorter:
  "strip_any white_space strip_prefix s = Some t \<Longrightarrow> length t < length s"
  "strip_any white_space strip_suffix s = Some t \<Longrightarrow> length t < length s"
  by (auto dest!: strip_any_Some simp: strip_prefix_Some strip_suffix_Some white_space_nonempty)

function trim_start :: "string \<Rightarrow> string" where
  "trim_start s = (case strip_any white_space strip_prefix s of None \<Rightarrow> s | Some s' \<Rightarrow> trim_start s')"
  by auto
termination by (relation "measure length") (simp_all add: strip_any_shorter)

function trim_end :: "string \<Rightarrow> string" where
  "trim_end s = (case strip_any white_space strip_suffix s of None \<Rightarrow> s | Some s' \<Rightarrow> trim_end s')"
  by auto
termination by (relation "measure length") (simp_all add: strip_any_shorter)

declare trim_start.simps [simp del] trim_end.simps [simp del]

definition trim :: "string \<Rightarrow> string" where "trim s = trim_end (trim_start s)"

lemma trim_end_prefix: "\<exists>t. s = trim_end s @ t"
proof (induction s rule: trim_end.induct)
  case (1 s)
  show ?case
  proof (cases "strip_any white_space strip_suffix s")
    case None
    then show ?thesis by (subst trim_end.simps) simp
  next
    case (Some s')
    then obtain e where "s = s' @ e" by (auto dest!: strip_any_Some simp: strip_suffix_Some)
    moreover obtain t where "s' = trim_end s' @ t" using 1[OF Some] by blast
    ultimately have "s = trim_end s' @ t @ e" by simp
    moreover have "trim_end s = trim_end s'" using Some by (subst trim_end.simps) simp
    ultimately show ?thesis by auto
  qed
qed

lemma trim_end_idem: "trim_end (trim_end s) = trim_end s"
proof (induction s rule: trim_end.induct)
  case (1 s)
  then show ?case
    by (cases "strip_any white_space strip_suffix s") (simp_all add: trim_end.simps[of s] trim_end.simps)
qed

section \<open>Line ends\<close>

text \<open>\<open>replace\<close> of carriage return and newline by a newline, left to right.\<close>

fun crlf_to_lf :: "string \<Rightarrow> string" where
  "crlf_to_lf [] = []"
| "crlf_to_lf (c # s) = (if c = cr \<and> s \<noteq> [] \<and> hd s = nl then crlf_to_lf s else c # crlf_to_lf s)"

lemma crlf_to_lf_plain: "cr \<notin> set s \<Longrightarrow> crlf_to_lf s = s"
  by (induction s) auto

section \<open>Texts of whole lines\<close>

definition unlines :: "string list \<Rightarrow> string" where
  "unlines ls = concat (map (\<lambda>l. l @ [nl]) ls)"

lemma unlines_simps [simp]:
  "unlines [] = []" "unlines (l # ls) = l @ [nl] @ unlines ls" "unlines (as @ bs) = unlines as @ unlines bs"
  by (simp_all add: unlines_def)

lemma unlines_empty [simp]: "unlines ls = [] \<longleftrightarrow> ls = []"
  by (cases ls) auto

lemma set_unlines: "c \<noteq> nl \<Longrightarrow> c \<in> set (unlines ls) \<longleftrightarrow> (\<exists>l\<in>set ls. c \<in> set l)"
  by (induction ls) auto

lemma split_inclusive_line: "nl \<notin> set l \<Longrightarrow> split_inclusive (l @ nl # s) = (l @ [nl]) # split_inclusive s"
  by (induction l) auto

lemma split_inclusive_last: "nl \<notin> set l \<Longrightarrow> l \<noteq> [] \<Longrightarrow> split_inclusive l = [l]"
proof (induction l)
  case (Cons c l)
  then show ?case by (cases l) auto
qed simp

lemma split_inclusive_unlines:
  "\<forall>l\<in>set ls. nl \<notin> set l \<Longrightarrow> split_inclusive (unlines ls @ s) = map (\<lambda>l. l @ [nl]) ls @ split_inclusive s"
  by (induction ls) (auto simp: split_inclusive_line)

lemma chomp_line: "cr \<notin> set l \<Longrightarrow> chomp (l @ [nl]) = l"
  by (auto simp: chomp_def strip_suffix_Some split: option.splits)

lemma chomp_last: "nl \<notin> set l \<Longrightarrow> chomp l = l"
  by (auto simp: chomp_def strip_suffix_Some split: option.splits)

text \<open>A block of clean, non-empty lines without the newline of its last line reads as these lines.\<close>

lemma lines_of_block:
  assumes "\<forall>l\<in>set ls. l \<noteq> [] \<and> nl \<notin> set l \<and> cr \<notin> set l" "ls \<noteq> []"
  shows "str_lines (butlast (unlines ls)) = ls"
proof -
  obtain ks k where ls: "ls = ks @ [k]" using assms(2) by (metis rev_exhaust)
  have "butlast (unlines ls) = unlines ks @ k" by (simp add: ls butlast_append)
  then have "split_inclusive (butlast (unlines ls)) = map (\<lambda>l. l @ [nl]) ks @ [k]"
    using assms(1) ls by (simp add: split_inclusive_unlines split_inclusive_last)
  moreover have "map (chomp \<circ> (\<lambda>l. l @ [nl])) ks = ks"
    using assms(1) ls by (auto simp: chomp_line intro!: map_idI)
  ultimately show ?thesis using assms(1) ls by (simp add: str_lines_def chomp_last)
qed

lemma find_sub_bound: "find_sub p s = Some i \<Longrightarrow> i \<le> length s \<and> (p \<noteq> [] \<longrightarrow> i < length s)"
proof (induction s arbitrary: i)
  case Nil
  then show ?case by (subst (asm) find_sub.simps) (auto split: if_splits simp: starts_with_def)
next
  case (Cons c s)
  then show ?case by (subst (asm) find_sub.simps) (auto split: if_splits)
qed

lemma find_char_after: "c \<notin> set a \<Longrightarrow> find_sub [c] (a @ c # s) = Some (length a)"
  by (induction a) (subst find_sub.simps, auto simp: starts_with_def)+

lemma find_char_none: "c \<notin> set s \<Longrightarrow> find_sub [c] s = None"
  by (induction s) (subst find_sub.simps, auto simp: starts_with_def)+

lemma find_in_line:
  assumes "nl \<notin> set l"
  shows "find_sub (nl # p) (l @ nl # s) =
    (if starts_with p s then Some (length l) else map_option (\<lambda>i. Suc (length l + i)) (find_sub (nl # p) s))"
  using assms
proof (induction l)
  case Nil
  then show ?case by (subst find_sub.simps) simp
next
  case (Cons c l)
  then show ?case
    by (subst find_sub.simps) (auto simp: option.map_comp comp_def)
qed

text \<open>The first occurrence of a line: the line starts a block that none of the earlier lines is.\<close>

lemma find_line_after:
  assumes "\<forall>l\<in>set ls. nl \<notin> set l \<and> l \<noteq> d" "ls \<noteq> []" "nl \<notin> set d"
  shows "find_sub (nl # d @ [nl]) (unlines ls @ d @ nl # s) = Some (length (unlines ls) - 1)"
  using assms
proof (induction ls)
  case (Cons l ls)
  show ?case
  proof (cases ls)
    case Nil
    then show ?thesis using Cons.prems find_in_line[of l "d @ [nl]" "d @ nl # s"]
      using starts_with_append[of "d @ [nl]" s] by simp
  next
    case (Cons k ks)
    have neq: "\<not> starts_with (d @ [nl]) (k @ nl # t)" for t
    proof
      assume "starts_with (d @ [nl]) (k @ nl # t)"
      then obtain u where "k @ nl # t = d @ nl # u" by (auto simp: starts_with_iff)
      then have "takeWhile (\<lambda>c. c \<noteq> nl) (k @ nl # t) = takeWhile (\<lambda>c. c \<noteq> nl) (d @ nl # u)" by simp
      moreover have "takeWhile (\<lambda>c. c \<noteq> nl) k = k" "takeWhile (\<lambda>c. c \<noteq> nl) d = d"
        using Cons.prems Cons by (auto simp: takeWhile_eq_all_conv)
      ultimately have "k = d" by (simp add: takeWhile_tail)
      then show False using Cons.prems Cons by simp
    qed
    show ?thesis
      using Cons.IH Cons.prems Cons find_in_line[of l "d @ [nl]" "unlines ls @ d @ nl # s"]
        neq[of "unlines ks @ d @ nl # s"] by simp
  qed
qed simp

end
