(* ===== verification/FactoryLock.thy ===== *)
theory FactoryLock
  imports RustText
begin

text \<open>
  The factory lock of \<^verbatim>\<open>STATE.md\<close>: the shared reader (\<^verbatim>\<open>factory-lock-parse\<close>) and the renewal of the
  expiry (\<^verbatim>\<open>factory-lock\<close>).  The date parser and formatter (\<^verbatim>\<open>chrono\<close>) are parameters; instants are
  integers in nanoseconds.  The check of the rewriting loop that only debug builds have is not an
  effect of the model.
\<close>

section \<open>Data\<close>

record lock_state =
  holder :: string
  locked_at :: string
  expires_at :: string

datatype lock_parse_error = MalformedLockBlock string

datatype lock_error = Malformed string

datatype renew_outcome = NoOp | Renewed string

datatype identity_resolution = Resolved string | Failed string

datatype skip_reason =
    NotHolder
  | AlreadyExpired
  | IdentityResolutionFailed (sr_reason: string) (sr_holder: string) (sr_locked_at: string) (sr_expires_at: string)

record lock_env =
  le_parse :: "string \<Rightarrow> string + int"  \<comment> \<open>an error text or an instant\<close>
  le_format :: "int \<Rightarrow> string"  \<comment> \<open>to whole seconds, with a final \<open>Z\<close>\<close>
  le_show :: "int \<Rightarrow> string"  \<comment> \<open>a 32-bit exit code in decimal\<close>

definition ttl_seconds :: int where "ttl_seconds = 2700"

definition dashes :: string where "dashes = ''---''"

section \<open>Reading\<close>

definition extract_frontmatter :: "bytes \<Rightarrow> bytes" where
  "extract_frontmatter bytes =
     (case find_sub ([nl] @ dashes @ [nl]) bytes of
        Some pos \<Rightarrow> take pos bytes
      | None \<Rightarrow>
     (case find_sub ([cr, nl] @ dashes @ [cr, nl]) bytes of
        Some pos \<Rightarrow> take pos bytes
      | None \<Rightarrow>
      if ends_with ([cr, nl] @ dashes) bytes then take (length bytes - 5) bytes
      else if ends_with ([nl] @ dashes) bytes then take (length bytes - 4) bytes
      else bytes))"

definition normalise :: "string \<Rightarrow> string" where
  "normalise content = (if cr \<in> set content then crlf_to_lf content else content)"

definition extract_yaml_string_value :: "string \<Rightarrow> string \<Rightarrow> string option" where
  "extract_yaml_string_value line key =
     (case (case strip_prefix (key @ '': '') line of
              Some rest \<Rightarrow> Some rest
            | None \<Rightarrow> if line = key @ '':'' then Some [] else None) of
        None \<Rightarrow> None
      | Some raw_value \<Rightarrow>
          Some (if starts_with [CHR 0x22] raw_value \<and> ends_with [CHR 0x22] raw_value \<and> 2 \<le> length raw_value
                then take (length raw_value - 2) (drop 1 raw_value) else raw_value))"

record lock_scan =
  in_factory_lock :: bool
  sc_holder :: "string option"
  sc_locked_at :: "string option"
  sc_expires_at :: "string option"

definition empty_scan :: lock_scan where
  "empty_scan = \<lparr>in_factory_lock = False, sc_holder = None, sc_locked_at = None, sc_expires_at = None\<rparr>"

definition scan_field :: "string \<Rightarrow> lock_scan \<Rightarrow> lock_scan" where
  "scan_field field_line st =
     (case extract_yaml_string_value field_line ''holder'' of
        Some v \<Rightarrow> st\<lparr>sc_holder := Some v\<rparr>
      | None \<Rightarrow>
     (case extract_yaml_string_value field_line ''locked_at'' of
        Some v \<Rightarrow> st\<lparr>sc_locked_at := Some v\<rparr>
      | None \<Rightarrow>
     (case extract_yaml_string_value field_line ''expires_at'' of
        Some v \<Rightarrow> st\<lparr>sc_expires_at := Some v\<rparr>
      | None \<Rightarrow> st)))"

definition lock_key :: string where "lock_key = ''factory_lock:''"

fun scan_lines :: "string list \<Rightarrow> lock_scan \<Rightarrow> lock_parse_error + lock_scan" where
  "scan_lines [] st = Inr st"
| "scan_lines (line # rest) st =
     (if starts_with lock_key line then
        (let after_colon = trim (drop (length lock_key) line) in
         if after_colon = [] \<or> after_colon = ''~'' \<or> after_colon = ''null''
         then scan_lines rest (st\<lparr>in_factory_lock := True\<rparr>)
         else Inl (MalformedLockBlock ''factory_lock key has unexpected inline value''))
      else if in_factory_lock st then
        (if starts_with ''  '' line \<and> \<not> starts_with ''   '' line then scan_lines rest (scan_field (drop 2 line) st)
         else if line \<noteq> [] then scan_lines rest (st\<lparr>in_factory_lock := False\<rparr>)
         else scan_lines rest st)
      else scan_lines rest st)"

definition required :: "string \<Rightarrow> string option \<Rightarrow> lock_parse_error + string" where
  "required name v =
     (case v of
        Some s \<Rightarrow> if s \<noteq> [] then Inr s
          else Inl (MalformedLockBlock (''factory_lock.'' @ name @ '' is empty string''))
      | None \<Rightarrow> Inl (MalformedLockBlock (''factory_lock.'' @ name @ '' field is absent'')))"

definition lock_of_scan :: "lock_scan \<Rightarrow> lock_parse_error + lock_state option" where
  "lock_of_scan st =
     (if sc_holder st = None \<and> sc_locked_at st = None \<and> sc_expires_at st = None then Inr None
      else case required ''holder'' (sc_holder st) of
        Inl e \<Rightarrow> Inl e
      | Inr h \<Rightarrow> (case required ''locked_at'' (sc_locked_at st) of
          Inl e \<Rightarrow> Inl e
        | Inr l \<Rightarrow> (case required ''expires_at'' (sc_expires_at st) of
            Inl e \<Rightarrow> Inl e
          | Inr x \<Rightarrow> Inr (Some \<lparr>holder = h, locked_at = l, expires_at = x\<rparr>))))"

definition close_position :: "string \<Rightarrow> nat option" where
  "close_position after_open =
     (case find_sub ([nl] @ dashes @ [nl]) after_open of
        Some i \<Rightarrow> Some i
      | None \<Rightarrow> if ends_with ([nl] @ dashes) after_open then Some (length after_open - 4) else None)"

definition parse_factory_lock :: "string \<Rightarrow> lock_parse_error + lock_state option" where
  "parse_factory_lock content =
     (case strip_prefix (dashes @ [nl]) (normalise content) of
        None \<Rightarrow> Inr None
      | Some after_open \<Rightarrow>
          (case close_position after_open of
             None \<Rightarrow> Inl (MalformedLockBlock ''missing closing --- delimiter'')
           | Some close_pos \<Rightarrow>
               (case scan_lines (str_lines (take close_pos after_open)) empty_scan of
                  Inl e \<Rightarrow> Inl e
                | Inr st \<Rightarrow> lock_of_scan st)))"

definition parse_iso8601 :: "lock_env \<Rightarrow> string \<Rightarrow> lock_parse_error + int" where
  "parse_iso8601 env s =
     (case le_parse env s of
        Inr t \<Rightarrow> Inr t
      | Inl e \<Rightarrow> Inl (MalformedLockBlock (''invalid ISO-8601 datetime '' @ [CHR 0x27] @ s @ [CHR 0x27] @ '': '' @ e)))"

section \<open>Renewing\<close>

fun key_in_frontmatter :: "string list \<Rightarrow> bool" where
  "key_in_frontmatter [] = False"
| "key_in_frontmatter (line # rest) =
     (if line = dashes then False else if starts_with lock_key line then True else key_in_frontmatter rest)"

definition has_factory_lock_key :: "string \<Rightarrow> bool" where
  "has_factory_lock_key content =
     (case strip_prefix (dashes @ [nl]) (normalise content) of
        None \<Rightarrow> False
      | Some after_open \<Rightarrow> key_in_frontmatter (str_lines after_open))"

definition expiry_key :: string where "expiry_key = ''  expires_at:''"

definition line_terminator :: "string \<Rightarrow> string" where
  "line_terminator line = (if ends_with [cr, nl] line then [cr, nl] else if ends_with [nl] line then [nl] else [])"

definition trimmed_line :: "string \<Rightarrow> string" where
  "trimmed_line line = trim_end_char cr (trim_end_char nl line)"

fun rewrite_lines :: "string \<Rightarrow> bool \<Rightarrow> bool \<Rightarrow> string list \<Rightarrow> string" where
  "rewrite_lines new inside done [] = []"
| "rewrite_lines new inside done (line # rest) =
     (let trimmed = trimmed_line line in
      if starts_with lock_key trimmed then line @ rewrite_lines new True done rest
      else if inside \<and> \<not> done then
        (if starts_with expiry_key trimmed
         then (''  expires_at: '' @ new) @ line_terminator line @ rewrite_lines new inside True rest
         else line @ rewrite_lines new (\<not> (trimmed \<noteq> [] \<and> \<not> starts_with '' '' trimmed)) done rest)
      else line @ rewrite_lines new inside done rest)"

definition rewrite_expires_at :: "string \<Rightarrow> string \<Rightarrow> string" where
  "rewrite_expires_at content new_expires_at = rewrite_lines new_expires_at False False (split_inclusive content)"

definition nanos :: int where "nanos = 1000000000"

definition renew_lock_with_now :: "lock_env \<Rightarrow> string \<Rightarrow> int \<Rightarrow> lock_error + renew_outcome" where
  "renew_lock_with_now env content now =
     (if \<not> has_factory_lock_key content then Inr NoOp
      else case parse_factory_lock content of
        Inr None \<Rightarrow> Inr NoOp
      | Inl (MalformedLockBlock msg) \<Rightarrow> Inl (Malformed msg)
      | Inr (Some ls) \<Rightarrow>
          (let new_expires_at = le_format env (now + ttl_seconds * nanos) in
           if new_expires_at = expires_at ls then Inr NoOp
           else Inr (Renewed (rewrite_expires_at content new_expires_at))))"

definition parse_lock :: "string \<Rightarrow> lock_error + lock_state option" where
  "parse_lock content =
     (case parse_factory_lock content of
        Inr r \<Rightarrow> Inr r
      | Inl (MalformedLockBlock msg) \<Rightarrow> Inl (Malformed msg))"

definition trim_git_email :: "string \<Rightarrow> string" where "trim_git_email raw = trim_end raw"

definition classify_identity_resolution :: "lock_env \<Rightarrow> (string + int \<times> string) \<Rightarrow> identity_resolution" where
  "classify_identity_resolution env exec_result =
     (case exec_result of
        Inl e \<Rightarrow> Failed (''exec error: '' @ e)
      | Inr (exit, stdout) \<Rightarrow>
          if exit \<noteq> 0 then Failed (''exit '' @ le_show env exit @ '': git config user.email failed'')
          else let email = trim_git_email stdout in
            if email = [] then Failed ''empty identity'' else Resolved email)"

definition renew_lock_if_holder ::
  "lock_env \<Rightarrow> string \<Rightarrow> identity_resolution \<Rightarrow> int \<Rightarrow> lock_error + (renew_outcome \<times> skip_reason option)"
where
  "renew_lock_if_holder env content identity now =
     (if \<not> has_factory_lock_key content then Inr (NoOp, None)
      else case parse_factory_lock content of
        Inr None \<Rightarrow> Inr (NoOp, None)
      | Inl (MalformedLockBlock msg) \<Rightarrow> Inl (Malformed msg)
      | Inr (Some ls) \<Rightarrow>
     (case parse_iso8601 env (expires_at ls) of
        Inl (MalformedLockBlock msg) \<Rightarrow> Inl (Malformed msg)
      | Inr expiry \<Rightarrow>
      if expiry \<le> now then Inr (NoOp, Some AlreadyExpired)
      else case identity of
        Failed reason \<Rightarrow>
          Inr (NoOp, Some (IdentityResolutionFailed reason (holder ls) (locked_at ls) (expires_at ls)))
      | Resolved email \<Rightarrow>
          if email \<noteq> trim_git_email (holder ls) then Inr (NoOp, Some NotHolder)
          else (case renew_lock_with_now env content now of
              Inl e \<Rightarrow> Inl e
            | Inr outcome \<Rightarrow> Inr (outcome, None))))"

end
