(* ===== verification/FactoryLockClaims.thy ===== *)
theory FactoryLockClaims
  imports FactoryLock
begin

text \<open>
  The lock file as the writer lays it out reads back, a renewal of it changes the expiry and nothing
  else, and only the holder of an unexpired lock renews.
\<close>

section \<open>The layout of the writer\<close>

text \<open>A front-matter line that is neither a fence nor a lock key.\<close>

definition plain_line :: "string \<Rightarrow> bool" where
  "plain_line l \<longleftrightarrow> l \<noteq> [] \<and> nl \<notin> set l \<and> cr \<notin> set l \<and> l \<noteq> dashes \<and> \<not> starts_with lock_key l"

definition lock_lines :: "string list \<Rightarrow> lock_state \<Rightarrow> string list \<Rightarrow> string list" where
  "lock_lines pre lock post = pre @ [lock_key, ''  holder: '' @ holder lock, ''  locked_at: '' @ locked_at lock,
     ''  expires_at: '' @ expires_at lock] @ post"

definition lock_file :: "string list \<Rightarrow> lock_state \<Rightarrow> string list \<Rightarrow> string \<Rightarrow> string" where
  "lock_file pre lock post body = unlines (dashes # lock_lines pre lock post) @ dashes @ [nl] @ body"

definition plain_value :: "string \<Rightarrow> bool" where
  "plain_value v \<longleftrightarrow> v \<noteq> [] \<and> nl \<notin> set v \<and> cr \<notin> set v \<and> \<not> starts_with [CHR 0x22] v"

definition plain_lock :: "lock_state \<Rightarrow> bool" where
  "plain_lock lock \<longleftrightarrow> plain_value (holder lock) \<and> plain_value (locked_at lock) \<and> plain_value (expires_at lock)"

definition layout_ok :: "string list \<Rightarrow> string list \<Rightarrow> string \<Rightarrow> bool" where
  "layout_ok pre post body \<longleftrightarrow> (\<forall>l\<in>set pre. plain_line l) \<and> (\<forall>l\<in>set post. plain_line l) \<and>
     (case post of [] \<Rightarrow> True | l # _ \<Rightarrow> \<not> starts_with '' '' l) \<and> cr \<notin> set body"

lemma starts_with_neq:
  "starts_with (a # p) s \<Longrightarrow> \<not> starts_with [a] s \<Longrightarrow> False"
  by (auto simp: starts_with_iff)

lemma chars: "nl \<notin> set dashes" "cr \<notin> set dashes" "nl \<notin> set lock_key" "cr \<notin> set lock_key" "lock_key \<noteq> dashes" "lock_key \<noteq> []"
  by (simp_all add: dashes_def lock_key_def)

definition clean :: "string \<Rightarrow> bool" where
  "clean l \<longleftrightarrow> l \<noteq> [] \<and> nl \<notin> set l \<and> cr \<notin> set l \<and> l \<noteq> dashes"

lemma clean_lines:
  "plain_line l \<Longrightarrow> clean l" "clean lock_key"
  "plain_value v \<Longrightarrow> clean (''  holder: '' @ v)" "plain_value v \<Longrightarrow> clean (''  locked_at: '' @ v)"
  "plain_value v \<Longrightarrow> clean (''  expires_at: '' @ v)"
  by (simp_all add: clean_def plain_line_def lock_key_def dashes_def plain_value_def)

lemma lock_lines_clean:
  assumes "layout_ok pre post body" "plain_lock lock"
  shows "\<forall>l\<in>set (lock_lines pre lock post). clean l"
  using assms clean_lines by (auto simp: lock_lines_def layout_ok_def plain_lock_def)

lemma scan_lines_append:
  "scan_lines (as @ bs) st = (case scan_lines as st of Inl e \<Rightarrow> Inl e | Inr st' \<Rightarrow> scan_lines bs st')"
  by (induction as st rule: scan_lines.induct) (simp_all add: Let_def)

lemma scan_outside:
  "\<forall>l\<in>set ls. \<not> starts_with lock_key l \<Longrightarrow> \<not> in_factory_lock st \<Longrightarrow> scan_lines ls st = Inr st"
  by (induction ls) auto

lemma scan_after:
  assumes "\<forall>l\<in>set ls. plain_line l" "case ls of [] \<Rightarrow> True | l # _ \<Rightarrow> \<not> starts_with '' '' l"
  shows "\<exists>b. scan_lines ls st = Inr (st\<lparr>in_factory_lock := b\<rparr>)"
proof (cases ls)
  case Nil
  then show ?thesis by (auto intro: exI[of _ "in_factory_lock st"])
next
  case (Cons l ks)
  have p: "\<not> starts_with lock_key l" "l \<noteq> []" "\<forall>k\<in>set ks. \<not> starts_with lock_key k" "\<not> starts_with ''  '' l"
    using assms Cons starts_with_neq[of "CHR '' ''" "'' ''" l] by (auto simp: plain_line_def)
  show ?thesis
  proof (cases "in_factory_lock st")
    case True
    then show ?thesis using p Cons scan_outside[OF p(3)] by auto
  next
    case False
    then have "scan_lines ls st = Inr st" using scan_outside[of ls st] p Cons by auto
    then show ?thesis using False by (auto intro: exI[of _ False])
  qed
qed

lemma extract_yaml:
  assumes "plain_value v"
  shows "extract_yaml_string_value (k @ '': '' @ v) k = Some v"
proof -
  have "strip_prefix (k @ '': '') (k @ '': '' @ v) = Some v" by (simp add: strip_prefix_Some)
  then show ?thesis using assms by (simp add: extract_yaml_string_value_def plain_value_def)
qed

lemma scan_block:
  assumes "plain_lock lock"
  shows "scan_lines [lock_key, ''  holder: '' @ holder lock, ''  locked_at: '' @ locked_at lock,
     ''  expires_at: '' @ expires_at lock] empty_scan = Inr \<lparr>in_factory_lock = True, sc_holder = Some (holder lock),
       sc_locked_at = Some (locked_at lock), sc_expires_at = Some (expires_at lock)\<rparr>"
proof -
  have k: "trim [] = []" by code_simp
  note v = assms[unfolded plain_lock_def]
  have h: "extract_yaml_string_value (''holder: '' @ holder lock) ''holder'' = Some (holder lock)"
    "extract_yaml_string_value (''locked_at: '' @ locked_at lock) ''locked_at'' = Some (locked_at lock)"
    "extract_yaml_string_value (''expires_at: '' @ expires_at lock) ''expires_at'' = Some (expires_at lock)"
    using extract_yaml[of "holder lock" "''holder''"] extract_yaml[of "locked_at lock" "''locked_at''"]
      extract_yaml[of "expires_at lock" "''expires_at''"] v by auto
  have n: "extract_yaml_string_value (''locked_at: '' @ x) ''holder'' = None"
    "extract_yaml_string_value (''expires_at: '' @ x) ''holder'' = None"
    "extract_yaml_string_value (''expires_at: '' @ x) ''locked_at'' = None" for x
    by (simp_all add: extract_yaml_string_value_def strip_prefix_def)
  show ?thesis
    using h n by (simp add: k lock_key_def scan_field_def empty_scan_def starts_with_def)
qed

lemma clean_D: "clean l \<Longrightarrow> l \<noteq> []" "clean l \<Longrightarrow> nl \<notin> set l" "clean l \<Longrightarrow> cr \<notin> set l" "clean l \<Longrightarrow> l \<noteq> dashes"
  by (simp_all add: clean_def)

lemma lock_lines_nonempty: "lock_lines pre lock post \<noteq> []"
  by (simp add: lock_lines_def)

lemma lock_file_normal:
  assumes "layout_ok pre post body" "plain_lock lock"
  shows "normalise (lock_file pre lock post body) = lock_file pre lock post body"
proof -
  have "\<forall>l\<in>set (lock_lines pre lock post). cr \<notin> set l" using lock_lines_clean[OF assms] clean_D by blast
  then have "cr \<notin> set (lock_file pre lock post body)"
    using assms(1) chars by (simp add: lock_file_def set_unlines layout_ok_def)
  then show ?thesis by (simp add: normalise_def)
qed

lemma lock_file_open:
  "strip_prefix (dashes @ [nl]) (lock_file pre lock post body) = Some (unlines (lock_lines pre lock post) @ dashes @ nl # body)"
  by (simp add: strip_prefix_Some lock_file_def)

lemma lock_file_parses:
  assumes "layout_ok pre post body" "plain_lock lock"
  shows "parse_factory_lock (lock_file pre lock post body) = Inr (Some lock)"
proof -
  let ?ls = "lock_lines pre lock post"
  have c: "\<forall>l\<in>set ?ls. clean l" using lock_lines_clean[OF assms] .
  have "find_sub (nl # dashes @ [nl]) (unlines ?ls @ dashes @ nl # body) = Some (length (unlines ?ls) - 1)"
    by (rule find_line_after) (use c clean_D chars lock_lines_nonempty in auto)
  then have pos: "close_position (unlines ?ls @ dashes @ nl # body) = Some (length (unlines ?ls) - 1)"
    by (simp add: close_position_def)
  have "take (length (unlines ?ls) - 1) (unlines ?ls @ s) = butlast (unlines ?ls)" for s
    using lock_lines_nonempty by (simp add: butlast_conv_take)
  moreover have "str_lines (butlast (unlines ?ls)) = ?ls"
    by (rule lines_of_block) (use c clean_D lock_lines_nonempty in auto)
  moreover obtain b where "scan_lines ?ls empty_scan = Inr \<lparr>in_factory_lock = b, sc_holder = Some (holder lock),
       sc_locked_at = Some (locked_at lock), sc_expires_at = Some (expires_at lock)\<rparr>"
  proof -
    have pre: "scan_lines pre empty_scan = Inr empty_scan"
      by (rule scan_outside) (use assms(1) in \<open>auto simp: layout_ok_def plain_line_def empty_scan_def\<close>)
    let ?st = "\<lparr>in_factory_lock = True, sc_holder = Some (holder lock),
       sc_locked_at = Some (locked_at lock), sc_expires_at = Some (expires_at lock)\<rparr>"
    have "\<exists>b. scan_lines post ?st = Inr (?st\<lparr>in_factory_lock := b\<rparr>)"
      by (rule scan_after) (use assms(1) in \<open>auto simp: layout_ok_def\<close>)
    then obtain b where "scan_lines post ?st = Inr (?st\<lparr>in_factory_lock := b\<rparr>)" by blast
    then show ?thesis
      using that unfolding lock_lines_def scan_lines_append pre sum.case scan_block[OF assms(2)] by simp
  qed
  ultimately show ?thesis
    using assms(2) by (simp add: parse_factory_lock_def lock_file_normal[OF assms] lock_file_open pos lock_of_scan_def
        required_def plain_lock_def plain_value_def)
qed

lemma key_found:
  "\<forall>l\<in>set as. l \<noteq> dashes \<Longrightarrow> key_in_frontmatter (as @ lock_key # bs)"
  by (induction as) (auto simp: chars starts_with_append[of lock_key "[]", simplified])

lemma lock_file_has_key:
  assumes "layout_ok pre post body" "plain_lock lock"
  shows "has_factory_lock_key (lock_file pre lock post body)"
proof -
  let ?ls = "lock_lines pre lock post"
  have c: "\<forall>l\<in>set ?ls. clean l" using lock_lines_clean[OF assms] .
  have "split_inclusive (unlines ?ls @ s) = map (\<lambda>l. l @ [nl]) ?ls @ split_inclusive s" for s
    by (rule split_inclusive_unlines) (use c clean_D in auto)
  then have "str_lines (unlines ?ls @ s) = ?ls @ map chomp (split_inclusive s)" for s
    using c clean_D by (auto simp: str_lines_def comp_def chomp_line intro!: map_idI)
  moreover have "\<forall>l\<in>set pre. l \<noteq> dashes" using assms(1) by (auto simp: layout_ok_def plain_line_def)
  ultimately show ?thesis
    using key_found by (simp add: has_factory_lock_key_def lock_file_normal[OF assms] lock_file_open) (simp add: lock_lines_def)
qed

section \<open>The rewriting loop\<close>

lemma rewrite_done: "rewrite_lines new inside True ls = concat ls"
  by (induction ls arbitrary: inside) (simp_all add: Let_def)

lemma rewrite_before:
  "\<forall>l\<in>set ls. \<not> starts_with lock_key (trimmed_line l) \<Longrightarrow>
   rewrite_lines new False False (ls @ rest) = concat ls @ rewrite_lines new False False rest"
  by (induction ls) (simp_all add: Let_def)

lemma trimmed_clean:
  assumes "clean l"
  shows "trimmed_line (l @ [nl]) = l" "line_terminator (l @ [nl]) = [nl]"
proof -
  have last: "last l \<in> set l" using assms by (simp add: clean_def)
  have "trim_end_char c l = l" if "c \<notin> set l" for c
  proof (cases "rev l")
    case (Cons a as)
    then have "a \<in> set l" by (metis list.set_intros(1) set_rev)
    then show ?thesis using that Cons by (auto simp: trim_end_char_def rev_swap)
  qed (simp add: trim_end_char_def)
  moreover have "trim_end_char nl (l @ [nl]) = trim_end_char nl l" by (simp add: trim_end_char_def)
  ultimately show "trimmed_line (l @ [nl]) = l" using assms by (simp add: trimmed_line_def clean_def)
  show "line_terminator (l @ [nl]) = [nl]"
    using assms last by (auto simp: line_terminator_def ends_with_iff clean_def)
qed

lemma lock_file_rewritten:
  assumes "layout_ok pre post body" "plain_lock lock"
  shows "rewrite_expires_at (lock_file pre lock post body) new = lock_file pre (lock\<lparr>expires_at := new\<rparr>) post body"
proof -
  let ?ls = "lock_lines pre lock post"
  have c: "\<forall>l\<in>set ?ls. clean l" using lock_lines_clean[OF assms] .
  have sp: "split_inclusive (lock_file pre lock post body) =
      map (\<lambda>l. l @ [nl]) (dashes # ?ls) @ split_inclusive (dashes @ nl # body)"
    unfolding lock_file_def by (subst split_inclusive_unlines) (use c clean_D chars in auto)
  have pre: "\<forall>l\<in>set (map (\<lambda>l. l @ [nl]) (dashes # pre)). \<not> starts_with lock_key (trimmed_line l)"
  proof -
    have "trimmed_line (dashes @ [nl]) = dashes" by code_simp
    moreover have "\<forall>l\<in>set pre. clean l \<and> \<not> starts_with lock_key l"
      using assms(1) clean_lines(1) by (auto simp: layout_ok_def plain_line_def)
    ultimately show ?thesis by (auto simp: trimmed_clean(1)) (auto simp: lock_key_def dashes_def)
  qed
  note v = assms(2)[unfolded plain_lock_def]
  have k: "clean lock_key" "clean (''  holder: '' @ holder lock)" "clean (''  locked_at: '' @ locked_at lock)"
    "clean (''  expires_at: '' @ expires_at lock)" using clean_lines v by blast+
  let ?rest = "map (\<lambda>l. l @ [nl]) post @ split_inclusive (dashes @ nl # body)"
  have tail: "rewrite_lines new False False (map (\<lambda>l. l @ [nl]) [lock_key, ''  holder: '' @ holder lock,
      ''  locked_at: '' @ locked_at lock, ''  expires_at: '' @ expires_at lock] @ ?rest) =
    unlines [lock_key, ''  holder: '' @ holder lock, ''  locked_at: '' @ locked_at lock, ''  expires_at: '' @ new] @ concat ?rest"
    using trimmed_clean(1)[OF k(1)] trimmed_clean(1)[OF k(2)] trimmed_clean(1)[OF k(3)] trimmed_clean[OF k(4)]
    by (simp add: Let_def rewrite_done) (simp add: lock_key_def expiry_key_def starts_with_def rewrite_done)
  have "rewrite_expires_at (lock_file pre lock post body) new = concat (map (\<lambda>l. l @ [nl]) (dashes # pre)) @
      rewrite_lines new False False (map (\<lambda>l. l @ [nl]) [lock_key, ''  holder: '' @ holder lock,
      ''  locked_at: '' @ locked_at lock, ''  expires_at: '' @ expires_at lock] @ ?rest)"
    unfolding rewrite_expires_at_def sp lock_lines_def using rewrite_before[OF pre] by simp
  then show ?thesis unfolding tail by (simp add: lock_file_def lock_lines_def unlines_def)
qed

lemma renewal_round_trip_core:
  assumes "layout_ok pre post body" "plain_lock lock"
    and "plain_value (le_format env (now + ttl_seconds * nanos))" "le_format env (now + ttl_seconds * nanos) \<noteq> expires_at lock"
  shows "renew_lock_with_now env (lock_file pre lock post body) now =
    Inr (Renewed (lock_file pre (lock\<lparr>expires_at := le_format env (now + ttl_seconds * nanos)\<rparr>) post body))"
  using assms lock_file_parses[OF assms(1,2)] lock_file_has_key[OF assms(1,2)] lock_file_rewritten[OF assms(1,2)]
  by (simp add: renew_lock_with_now_def Let_def)

text \<open>
  Renewal of a well-formed lock file is a round trip: the file the writer lays out reads back as
  its lock, its renewal is the same file with the new expiry, and that file reads back as the
  same lock with the new expiry.
\<close>

theorem renewal_round_trip:
  assumes "layout_ok pre post body" "plain_lock lock"
    and "plain_value (le_format env (now + ttl_seconds * nanos))" "le_format env (now + ttl_seconds * nanos) \<noteq> expires_at lock"
  shows "parse_lock (lock_file pre lock post body) = Inr (Some lock) \<and>
    (let renewed = lock\<lparr>expires_at := le_format env (now + ttl_seconds * nanos)\<rparr> in
     renew_lock_with_now env (lock_file pre lock post body) now = Inr (Renewed (lock_file pre renewed post body)) \<and>
     parse_lock (lock_file pre renewed post body) = Inr (Some renewed))"
proof -
  have "plain_lock (lock\<lparr>expires_at := le_format env (now + ttl_seconds * nanos)\<rparr>)"
    using assms(2,3) by (simp add: plain_lock_def)
  then show ?thesis
    using assms lock_file_parses[OF assms(1)] renewal_round_trip_core[OF assms] by (simp add: parse_lock_def Let_def)
qed

definition sample_lock :: lock_state where
  "sample_lock = \<lparr>holder = ''a@b.c'', locked_at = ''t0'', expires_at = ''t1''\<rparr>"

definition sample_lock_env :: lock_env where
  "sample_lock_env = \<lparr>le_parse = (\<lambda>s. if s = ''t1'' then Inr 100 else Inl ''bad''), le_format = (\<lambda>_. ''t2''), le_show = (\<lambda>_. ''1'')\<rparr>"

lemma sample_layout: "layout_ok [''phase: build''] [''updated: x''] ''body''" "plain_lock sample_lock"
  by code_simp+

theorem renewal_round_trip_witness:
  "parse_lock (lock_file [''phase: build''] sample_lock [''updated: x''] ''body'') = Inr (Some sample_lock) \<and>
    (let renewed = sample_lock\<lparr>expires_at := ''t2''\<rparr> in
     renew_lock_with_now sample_lock_env (lock_file [''phase: build''] sample_lock [''updated: x''] ''body'') 5 =
       Inr (Renewed (lock_file [''phase: build''] renewed [''updated: x''] ''body'')) \<and>
     parse_lock (lock_file [''phase: build''] renewed [''updated: x''] ''body'') = Inr (Some renewed))"
  using renewal_round_trip[OF sample_layout, of sample_lock_env 5]
  by (simp add: sample_lock_env_def sample_lock_def plain_value_def)

section \<open>Who may renew, and what a renewal touches\<close>

lemma trim_end_char_prefix: "\<exists>t. s = trim_end_char c s @ t"
proof -
  have "rev (rev s) = rev (dropWhile (\<lambda>x. x = c) (rev s)) @ rev (takeWhile (\<lambda>x. x = c) (rev s))"
    by (simp only: rev_append[symmetric] takeWhile_dropWhile_id)
  then show ?thesis by (auto simp: trim_end_char_def)
qed

lemma trimmed_prefix: "starts_with p (trimmed_line l) \<Longrightarrow> starts_with p l"
  using trim_end_char_prefix[of l nl] trim_end_char_prefix[of "trim_end_char nl l" cr]
  by (auto simp: trimmed_line_def starts_with_iff)

text \<open>What the loop makes of some lines: the same text, or one expiry line replaced.\<close>

definition one_line_replaced :: "string \<Rightarrow> string list \<Rightarrow> string \<Rightarrow> bool" where
  "one_line_replaced new ls out \<longleftrightarrow> out = concat ls \<or> (\<exists>as l bs. ls = as @ l # bs \<and> starts_with expiry_key l \<and>
     out = concat as @ (''  expires_at: '' @ new) @ line_terminator l @ concat bs)"

lemma one_line_replaced_Cons: "one_line_replaced new ls out \<Longrightarrow> one_line_replaced new (l # ls) (l @ out)"
proof (unfold one_line_replaced_def, elim disjE exE conjE)
  fix as k bs assume "ls = as @ k # bs" "starts_with expiry_key k"
    "out = concat as @ (''  expires_at: '' @ new) @ line_terminator k @ concat bs"
  then show "l @ out = concat (l # ls) \<or> (\<exists>as k bs. l # ls = as @ k # bs \<and> starts_with expiry_key k \<and>
     l @ out = concat as @ (''  expires_at: '' @ new) @ line_terminator k @ concat bs)"
    by (intro disjI2 exI[of _ "l # as"] exI[of _ k] exI[of _ bs]) simp
qed simp

lemma one_line_replaced_here:
  "starts_with expiry_key l \<Longrightarrow>
   one_line_replaced new (l # ls) ((''  expires_at: '' @ new) @ line_terminator l @ concat ls)"
  by (auto simp: one_line_replaced_def intro: exI[of _ "[]"])

lemma rewrite_lines_one: "one_line_replaced new ls (rewrite_lines new inside fin ls)"
proof (induction new inside fin ls rule: rewrite_lines.induct)
  case (1 new inside d)
  show ?case by (simp add: one_line_replaced_def)
next
  case (2 new inside d line rest)
  show ?case
    using one_line_replaced_Cons[OF 2(1)] one_line_replaced_Cons[OF 2(3)] one_line_replaced_Cons[OF 2(4)]
      one_line_replaced_here[OF trimmed_prefix, of line new rest]
    by (simp add: Let_def rewrite_done)
qed

lemma renew_cases:
  "renew_lock_with_now env content now = Inr (Renewed c) \<Longrightarrow>
   c = rewrite_expires_at content (le_format env (now + ttl_seconds * nanos))"
  by (auto simp: renew_lock_with_now_def Let_def split: if_splits sum.splits option.splits lock_parse_error.splits)

text \<open>
  Claim C26.  Only the holder of an unexpired lock renews it, and a renewal touches one line: the file changes
  only when the lock parses, its expiry lies in the future and the resolved identity is the holder;
  the new content is the old one with at most one \<open>expires_at\<close> line replaced, its line end kept.
\<close>

theorem renewal_by_holder_only:
  assumes "renew_lock_if_holder env content identity now = Inr (Renewed content', skip)"
  shows "\<exists>ls t. parse_factory_lock content = Inr (Some ls) \<and> le_parse env (expires_at ls) = Inr t \<and> now < t \<and>
    identity = Resolved (trim_git_email (holder ls)) \<and> skip = None \<and>
    one_line_replaced (le_format env (now + ttl_seconds * nanos)) (split_inclusive content) content'"
proof -
  obtain ls t where p: "parse_factory_lock content = Inr (Some ls)" "le_parse env (expires_at ls) = Inr t" "now < t"
    "identity = Resolved (trim_git_email (holder ls))" "skip = None" "renew_lock_with_now env content now = Inr (Renewed content')"
    using assms by (auto simp: renew_lock_if_holder_def parse_iso8601_def not_le
        split: if_splits sum.splits option.splits lock_parse_error.splits identity_resolution.splits)
  then show ?thesis
    using renew_cases[OF p(6)] rewrite_lines_one by (auto simp: rewrite_expires_at_def)
qed

lemma sample_renews: "renew_lock_if_holder sample_lock_env (lock_file [''phase: build''] sample_lock [''updated: x''] ''body'')
    (Resolved ''a@b.c'') 5 =
  Inr (Renewed (lock_file [''phase: build''] (sample_lock\<lparr>expires_at := ''t2''\<rparr>) [''updated: x''] ''body''), None)"
proof -
  have "trim_git_email ''a@b.c'' = ''a@b.c''" by code_simp
  moreover have "holder sample_lock = ''a@b.c''" "expires_at sample_lock = ''t1''" by (simp_all add: sample_lock_def)
  moreover have "renew_lock_with_now sample_lock_env (lock_file [''phase: build''] sample_lock [''updated: x''] ''body'') 5 =
      Inr (Renewed (lock_file [''phase: build''] (sample_lock\<lparr>expires_at := ''t2''\<rparr>) [''updated: x''] ''body''))"
    using renewal_round_trip_core[OF sample_layout, of sample_lock_env 5]
    by (simp add: sample_lock_env_def sample_lock_def plain_value_def)
  ultimately show ?thesis
    using lock_file_has_key[OF sample_layout] lock_file_parses[OF sample_layout]
    by (simp add: renew_lock_if_holder_def parse_iso8601_def sample_lock_env_def)
qed

theorem renewal_by_holder_only_witness:
  "\<exists>ls t. parse_factory_lock (lock_file [''phase: build''] sample_lock [''updated: x''] ''body'') = Inr (Some ls) \<and>
    le_parse sample_lock_env (expires_at ls) = Inr t \<and> 5 < t \<and>
    Resolved ''a@b.c'' = Resolved (trim_git_email (holder ls))"
  using renewal_by_holder_only[OF sample_renews] by blast

definition renewing_env :: lock_env where
  "renewing_env = \<lparr>le_parse = (\<lambda>s. if s = ''t1'' then Inr 100 else Inr 2700000000005), le_format = (\<lambda>_. ''t2''), le_show = (\<lambda>_. ''1'')\<rparr>"

section \<open>The extent of the front matter\<close>

lemma find_after_dashes: "find_sub (nl # p) (dashes @ s) = map_option (\<lambda>i. i + 3) (find_sub (nl # p) s)"
proof -
  have step: "find_sub (nl # p) (CHR ''-'' # t) = map_option Suc (find_sub (nl # p) t)" for t
    by (subst find_sub.simps) simp
  show ?thesis by (simp add: dashes_def step option.map_comp comp_def eval_nat_numeral)
qed

lemma unlines_last: "ls \<noteq> [] \<Longrightarrow> unlines ls = butlast (unlines ls) @ [nl]"
  by (induction ls) (auto simp: butlast_append)

lemma front_matter_of_lines:
  assumes "\<forall>l\<in>set ls. nl \<notin> set l \<and> l \<noteq> dashes"
  shows "extract_frontmatter (unlines (dashes # ls) @ dashes @ [nl] @ body) = butlast (unlines (dashes # ls))"
proof -
  have d: "nl \<notin> set dashes" "dashes \<noteq> []" by (simp_all add: dashes_def)
  have "find_sub (nl # dashes @ [nl]) (unlines ([] # ls) @ dashes @ nl # body) = Some (length (unlines ([] # ls)) - 1)"
    by (rule find_line_after) (use assms d in auto)
  then have "find_sub (nl # dashes @ [nl]) (nl # unlines ls @ dashes @ nl # body) = Some (length (unlines ls))" by simp
  then have "find_sub ([nl] @ dashes @ [nl]) (unlines (dashes # ls) @ dashes @ [nl] @ body) = Some (length (unlines ls) + 3)"
    using find_after_dashes[of "dashes @ [nl]" "nl # unlines ls @ dashes @ nl # body"] by simp
  then have e: "extract_frontmatter (unlines (dashes # ls) @ dashes @ [nl] @ body) =
      take (length (unlines ls) + 3) (unlines (dashes # ls) @ dashes @ [nl] @ body)"
    by (simp add: extract_frontmatter_def)
  have len: "length (unlines (dashes # ls)) = length (unlines ls) + 4" by (simp add: dashes_def)
  then show ?thesis unfolding e by (subst take_append) (simp add: butlast_conv_take add.commute del: unlines_simps)
qed

lemma front_matter_closed:
  assumes "\<forall>l\<in>set ls. nl \<notin> set l \<and> l \<noteq> dashes"
  shows "extract_frontmatter (unlines (dashes # ls) @ dashes @ [nl] @ body) @ [nl] @ dashes @ [nl] = unlines (dashes # ls) @ dashes @ [nl]"
proof -
  have "butlast (unlines (dashes # ls)) @ [nl] = unlines (dashes # ls)" by (rule unlines_last[symmetric]) simp
  then show ?thesis unfolding front_matter_of_lines[OF assms] by (metis append.assoc)
qed

lemma front_matter_shorter:
  assumes "\<forall>l\<in>set ls. nl \<notin> set l \<and> l \<noteq> dashes"
  shows "length (extract_frontmatter (unlines (dashes # ls) @ dashes @ [nl] @ body)) < length (unlines (dashes # ls) @ dashes @ [nl] @ body)"
  unfolding front_matter_of_lines[OF assms] by simp

text \<open>With an empty front matter the presence check and the reader disagree on where it ends.\<close>

lemma empty_front_matter_disagrees:
  "let content = unlines [dashes, dashes, lock_key, ''  holder: a'', ''  locked_at: b'', ''  expires_at: c'', dashes] in
   parse_lock content = Inr (Some \<lparr>holder = ''a'', locked_at = ''b'', expires_at = ''c''\<rparr>) \<and>
   \<not> has_factory_lock_key content"
  by code_simp

end
