(* ===== verification/SinkResilience.thy ===== *)
theory SinkResilience
  imports F64
begin

text \<open>
  Retry with back-off and the circuit breaker of the sinks (\<^verbatim>\<open>sink-core/src/resilience.rs\<close>,
  \<^verbatim>\<open>sink-http/src/retry.rs\<close>).  Clocks and random draws are parameters; instants and durations are
  nanoseconds.  The breaker is driven by a sequence of calls, each under its lock.
\<close>

section \<open>Back-off delays\<close>

record retry_policy =
  max_retries :: u32
  base_delay_ms :: u64
  max_delay_ms :: u64
  jitter_factor :: f64

definition default_retry_policy :: retry_policy where
  "default_retry_policy = \<lparr>max_retries = 3, base_delay_ms = 100, max_delay_ms = 30000, jitter_factor = F64_Fin (1 / 4)\<rparr>"

fun f64_mul :: "f64 \<Rightarrow> f64 \<Rightarrow> f64" where
  "f64_mul F64_NaN _ = F64_NaN"
| "f64_mul _ F64_NaN = F64_NaN"
| "f64_mul (F64_Inf _) (F64_Zero _) = F64_NaN"
| "f64_mul (F64_Zero _) (F64_Inf _) = F64_NaN"
| "f64_mul (F64_Inf s) y = F64_Inf (s \<noteq> f64_neg y)"
| "f64_mul x (F64_Inf s) = F64_Inf (f64_neg x \<noteq> s)"
| "f64_mul (F64_Zero s) y = F64_Zero (s \<noteq> f64_neg y)"
| "f64_mul x (F64_Zero s) = F64_Zero (f64_neg x \<noteq> s)"
| "f64_mul (F64_Fin a) (F64_Fin b) = round_f64 (a * b)"

text \<open>\<open>x > 0.0\<close>\<close>

fun f64_positive :: "f64 \<Rightarrow> bool" where
  "f64_positive F64_NaN = False"
| "f64_positive (F64_Inf neg) = (\<not> neg)"
| "f64_positive (F64_Zero _) = False"
| "f64_positive (F64_Fin r) = (0 < r)"

definition saturating_pow2 :: "u32 \<Rightarrow> u64" where
  "saturating_pow2 n = (if unat n < 64 then 2 ^ unat n else - 1)"

definition delay_for_attempt_no_jitter :: "retry_policy \<Rightarrow> u32 \<Rightarrow> u64" where
  "delay_for_attempt_no_jitter policy n = min (sat_mul (base_delay_ms policy) (saturating_pow2 n)) (max_delay_ms policy)"

text \<open>The last argument is the random draw from the unit interval.\<close>

definition delay_for_attempt :: "retry_policy \<Rightarrow> u32 \<Rightarrow> f64 \<Rightarrow> u64" where
  "delay_for_attempt policy n r =
     (let base = min (sat_mul (base_delay_ms policy) (saturating_pow2 n)) (max_delay_ms policy);
          jitter_ms = (if f64_positive (jitter_factor policy)
            then f64_to_u64 (f64_mul (f64_mul (f64_of_u64 (base_delay_ms policy)) (jitter_factor policy)) r) else 0) in
      min (sat_add base jitter_ms) (max_delay_ms policy))"

definition checked_shl_one :: "u32 \<Rightarrow> u64 option" where
  "checked_shl_one n = (if unat n < 64 then Some (2 ^ unat n) else None)"

definition compute_backoff_ms :: "u64 \<Rightarrow> u64 \<Rightarrow> f64 \<Rightarrow> u32 \<Rightarrow> u64 \<Rightarrow> u64" where
  "compute_backoff_ms base_ms max_ms jitter attempt jitter_ms =
     (let shift = (case checked_shl_one attempt of Some s \<Rightarrow> s | None \<Rightarrow> - 1);
          exponential = sat_mul base_ms shift in
      min (sat_add exponential jitter_ms) max_ms)"

definition draw_jitter_ms :: "u64 \<Rightarrow> f64 \<Rightarrow> f64 \<Rightarrow> u64" where
  "draw_jitter_ms base_ms jitter random_unit = f64_to_u64 (f64_mul (f64_mul (f64_of_u64 base_ms) jitter) random_unit)"

section \<open>The breaker\<close>

datatype circuit_state = Closed | Open (opened_at: nat) | HalfOpen

record breaker =
  failure_threshold :: u32
  cool_off :: nat
  bk_state :: circuit_state
  consecutive_failures :: u32
  emitted_events :: "string list"

definition min_effective_cool_off :: nat where "min_effective_cool_off = 1000000"

definition effective_cool_off :: "breaker \<Rightarrow> nat" where
  "effective_cool_off b = (if cool_off b = 0 then min_effective_cool_off else cool_off b)"

definition new_breaker :: "u32 \<Rightarrow> nat \<Rightarrow> breaker" where
  "new_breaker threshold cool = \<lparr>failure_threshold = threshold, cool_off = cool, bk_state = Closed,
     consecutive_failures = 0, emitted_events = []\<rparr>"

definition take_emitted_events :: "breaker \<Rightarrow> string list \<times> breaker" where
  "take_emitted_events b = (emitted_events b, b\<lparr>emitted_events := []\<rparr>)"

definition breaker_state :: "nat \<Rightarrow> breaker \<Rightarrow> circuit_state \<times> breaker" where
  "breaker_state now b =
     (let b' = (case bk_state b of Open o_at \<Rightarrow> if effective_cool_off b \<le> now - o_at then b\<lparr>bk_state := HalfOpen\<rparr> else b
                | _ \<Rightarrow> b) in (bk_state b', b'))"

definition record_success :: "breaker \<Rightarrow> breaker" where
  "record_success b =
     (let b = b\<lparr>consecutive_failures := 0\<rparr> in
      case bk_state b of
        Closed \<Rightarrow> b
      | _ \<Rightarrow> b\<lparr>bk_state := Closed, emitted_events := emitted_events b @ [''internal.sink_circuit_closed'']\<rparr>)"

definition record_failure :: "nat \<Rightarrow> breaker \<Rightarrow> breaker" where
  "record_failure now b =
     (let opened = (\<lambda>b. b\<lparr>bk_state := Open now, emitted_events := emitted_events b @ [''internal.sink_circuit_opened'']\<rparr>);
          counted = b\<lparr>consecutive_failures := consecutive_failures b + 1\<rparr> in
      case bk_state b of
        HalfOpen \<Rightarrow> opened counted
      | Closed \<Rightarrow> if failure_threshold b \<le> consecutive_failures counted then opened counted else counted
      | Open _ \<Rightarrow> counted)"

definition is_open :: "nat \<Rightarrow> breaker \<Rightarrow> bool \<times> breaker" where
  "is_open now b =
     (case bk_state b of
        Open o_at \<Rightarrow> if effective_cool_off b \<le> now - o_at then (False, b\<lparr>bk_state := HalfOpen\<rparr>) else (True, b)
      | _ \<Rightarrow> (False, b))"

section \<open>Retrying\<close>

datatype 'e retry_error = Exhausted 'e u32 | CircuitOpen

text \<open>
  One attempt after another: the operation's answer and the time of its end, then the delay.  The
  answer is the outcome (none for the panic after a loop without attempts), the breaker and the
  delays slept.
\<close>

record ('e, 't) attempt_env =
  ae_op :: "nat \<Rightarrow> 'e + 't"
  ae_clock :: "nat \<Rightarrow> nat"
  ae_random :: "nat \<Rightarrow> f64"

fun retry_loop ::
  "retry_policy \<Rightarrow> ('e, 't) attempt_env \<Rightarrow> u32 \<Rightarrow> nat \<Rightarrow> nat \<Rightarrow> 'e option \<Rightarrow> breaker \<Rightarrow>
   ('e retry_error + 't) option \<times> breaker \<times> u64 list"
where
  "retry_loop policy env max_attempts 0 attempt last_error b =
     (map_option (\<lambda>e. Inl (Exhausted e max_attempts)) last_error, b, [])"
| "retry_loop policy env max_attempts (Suc left) attempt last_error b =
     (case ae_op env attempt of
        Inr value \<Rightarrow> (Some (Inr value), record_success b, [])
      | Inl err \<Rightarrow>
          (let b = record_failure (ae_clock env attempt) b;
               slept = (if of_nat attempt < max_attempts - 1
                        then [delay_for_attempt policy (of_nat attempt) (ae_random env attempt)] else []) in
           case retry_loop policy env max_attempts left (Suc attempt) (Some err) b of
             (r, b, delays) \<Rightarrow> (r, b, slept @ delays)))"

definition with_retry ::
  "retry_policy \<Rightarrow> ('e, 't) attempt_env \<Rightarrow> nat \<Rightarrow> breaker \<Rightarrow> ('e retry_error + 't) option \<times> breaker \<times> u64 list"
where
  "with_retry policy env now b =
     (case is_open now b of
        (True, b) \<Rightarrow> (Some (Inl CircuitOpen), b, [])
      | (False, b) \<Rightarrow>
          (let max_attempts = sat_add (max_retries policy) 1 in
           retry_loop policy env max_attempts (unat max_attempts) 0 None b))"

section \<open>Delays are the capped exponential\<close>

lemma unat_saturating_pow2: "unat (saturating_pow2 n) = min (2 ^ unat n) (2 ^ 64 - 1)"
proof (cases "unat n < 64")
  case True
  then have "(2::nat) ^ unat n < 2 ^ 64" by (rule power_strict_increasing) simp
  moreover have "(2 ^ unat n :: u64) = of_nat (2 ^ unat n)" by simp
  ultimately have "unat (2 ^ unat n :: u64) = 2 ^ unat n" by (simp only: unat_of_nat) simp
  then show ?thesis using True \<open>2 ^ unat n < 2 ^ 64\<close> by (simp add: saturating_pow2_def min_def)
next
  case False
  then have "(2::nat) ^ 64 \<le> 2 ^ unat n" by (intro power_increasing) auto
  then show ?thesis using False by (simp add: saturating_pow2_def min_def unat_max_word)
qed

lemma min_word: "unat (min a b :: 'a::len word) = min (unat a) (unat b)"
  by (simp add: min_def word_le_nat_alt)

lemma capped_product:
  fixes a p m k :: nat
  assumes "m \<le> k"
  shows "min (min (a * min p k) k) m = min (a * p) m"
proof (cases "p \<le> k \<or> a = 0")
  case True
  then show ?thesis using assms by (auto simp: min_def)
next
  case False
  then have "k \<le> a * k" "k \<le> a * p" by (cases a; simp)+
  then have "m \<le> a * k" "m \<le> a * p" using assms by linarith+
  then show ?thesis using False assms by (simp add: min_def)
qed

lemma sat_exponential: "unat (sat_mul b (saturating_pow2 n)) = min (unat b * min (2 ^ unat n) (2 ^ 64 - 1)) (2 ^ 64 - 1)"
  by (simp add: unat_sat_mul unat_saturating_pow2)

lemma u64_max: "unat (m :: u64) \<le> 2 ^ 64 - 1"
  using unsigned_less[of m, where 'a = nat] by simp

text \<open>
  The back-off is exact: although it is computed with saturating 64-bit arithmetic, the delay before
  the next attempt is the true exponential capped at the configured maximum, both in the shared
  policy and in the HTTP driver, which so agree; and jitter never pushes it over the maximum.
\<close>

theorem backoff_exact:
  "unat (delay_for_attempt_no_jitter policy n) = min (unat (base_delay_ms policy) * 2 ^ unat n) (unat (max_delay_ms policy)) \<and>
   unat (compute_backoff_ms (base_delay_ms policy) (max_delay_ms policy) f n j) =
     min (unat (base_delay_ms policy) * 2 ^ unat n + unat j) (unat (max_delay_ms policy)) \<and>
   delay_for_attempt policy n r \<le> max_delay_ms policy"
proof -
  have s: "(case checked_shl_one n of Some s \<Rightarrow> s | None \<Rightarrow> - 1) = saturating_pow2 n"
    by (simp add: checked_shl_one_def saturating_pow2_def)
  have jit: "min (min (min x k + y) k) m = min (x + y) m" if "m \<le> k" for x y k m :: nat
    using that by (auto simp: min_def)
  have prod: "min (a * min p k + y) m = min (a * p + y) m" if "m \<le> k" for a p k y m :: nat
  proof (cases "p \<le> k \<or> a = 0")
    case False
    then have "k \<le> a * k" "k \<le> a * p" by (cases a; simp)+
    then have "m \<le> a * k + y" "m \<le> a * p + y" using that by linarith+
    then show ?thesis using False by (simp add: min_def)
  qed (auto simp: min_def)
  show ?thesis
    using capped_product[OF u64_max[of "max_delay_ms policy"]] jit[OF u64_max[of "max_delay_ms policy"]]
      prod[OF u64_max[of "max_delay_ms policy"]]
    by (simp add: delay_for_attempt_no_jitter_def compute_backoff_ms_def delay_for_attempt_def min_word sat_exponential s
        unat_sat_add Let_def del: One_nat_def)
qed

section \<open>The breaker counts failures in a row\<close>

datatype breaker_call = CallSuccess | CallFailure nat | CallIsOpen nat | CallState nat | CallTake

fun breaker_step :: "breaker_call \<Rightarrow> breaker \<Rightarrow> breaker" where
  "breaker_step CallSuccess b = record_success b"
| "breaker_step (CallFailure t) b = record_failure t b"
| "breaker_step (CallIsOpen t) b = snd (is_open t b)"
| "breaker_step (CallState t) b = snd (breaker_state t b)"
| "breaker_step CallTake b = snd (take_emitted_events b)"

definition breaker_run :: "breaker_call list \<Rightarrow> breaker \<Rightarrow> breaker" where
  "breaker_run calls b = fold breaker_step calls b"

text \<open>The specification: the failures since the last success, most recent first.\<close>

fun failure_times :: "breaker_call list \<Rightarrow> nat list \<Rightarrow> nat list" where
  "failure_times [] ts = ts"
| "failure_times (CallSuccess # cs) ts = failure_times cs []"
| "failure_times (CallFailure t # cs) ts = failure_times cs (t # ts)"
| "failure_times (_ # cs) ts = failure_times cs ts"

definition breaker_inv :: "u32 \<Rightarrow> nat list \<Rightarrow> breaker \<Rightarrow> bool" where
  "breaker_inv threshold ts b \<longleftrightarrow> failure_threshold b = threshold \<and>
     (case bk_state b of
        Closed \<Rightarrow> length ts < unat threshold \<and> unat (consecutive_failures b) = length ts
      | HalfOpen \<Rightarrow> unat threshold \<le> length ts
      | Open o_at \<Rightarrow> unat threshold \<le> length ts \<and> o_at \<in> set ts)"

lemma count_failure:
  assumes "unat (c :: u32) < unat (threshold :: u32)"
  shows "unat (c + 1) = Suc (unat c)"
proof -
  have "unat c + 1 < 2 ^ 32" using assms unsigned_less[of threshold, where 'a = nat] by simp
  then show ?thesis by (simp add: unat_word_ariths)
qed

lemma breaker_step_inv:
  assumes "breaker_inv threshold ts b" "0 < threshold"
  shows "breaker_inv threshold (failure_times [call] ts) (breaker_step call b)"
proof -
  have pos: "0 < unat threshold" using assms(2) by (simp add: word_less_nat_alt)
  show ?thesis
  proof (cases call)
    case (CallFailure t)
    show ?thesis
    proof (cases "bk_state b")
      case Closed
      then have "unat (consecutive_failures b + 1) = Suc (length ts)" "length ts < unat threshold"
        using assms(1) count_failure by (auto simp: breaker_inv_def)
      then show ?thesis
        using CallFailure Closed assms(1) by (auto simp: breaker_inv_def record_failure_def Let_def word_le_nat_alt)
    qed (use CallFailure assms(1) in \<open>auto simp: breaker_inv_def record_failure_def Let_def\<close>)
  qed (use assms pos in \<open>auto simp: breaker_inv_def record_success_def is_open_def breaker_state_def take_emitted_events_def
      Let_def split: circuit_state.splits\<close>)
qed

lemma failure_times_append: "failure_times (cs @ ds) ts = failure_times ds (failure_times cs ts)"
  by (induction cs ts rule: failure_times.induct) auto

lemma breaker_run_inv:
  assumes "0 < threshold"
  shows "breaker_inv threshold (failure_times calls []) (breaker_run calls (new_breaker threshold cool))"
proof (induction calls rule: rev_induct)
  case Nil
  then show ?case using assms by (simp add: breaker_run_def breaker_inv_def new_breaker_def word_less_nat_alt)
next
  case (snoc c cs)
  then show ?case
    using breaker_step_inv[OF _ assms] by (simp add: breaker_run_def failure_times_append)
qed

lemma breaker_step_cool: "effective_cool_off (breaker_step c b) = effective_cool_off b"
  by (cases c) (auto simp: effective_cool_off_def record_success_def record_failure_def is_open_def breaker_state_def
      take_emitted_events_def Let_def split: circuit_state.splits)

lemma breaker_run_cool: "effective_cool_off (breaker_run calls b) = effective_cool_off b"
  unfolding breaker_run_def by (induction calls arbitrary: b) (auto simp: breaker_step_cool)

text \<open>
  Claim C31.  The breaker implements its specification over the history of calls: it is closed exactly while
  fewer failures than the threshold lie after the last success, and it rejects a call only when the
  threshold is reached and one of those failures is more recent than the cool-off.
\<close>

theorem breaker_counts_failures:
  assumes "0 < threshold"
  shows "let b = breaker_run calls (new_breaker threshold cool); ts = failure_times calls [] in
    (bk_state b = Closed \<longleftrightarrow> length ts < unat threshold) \<and>
    (fst (is_open now b) \<longrightarrow> unat threshold \<le> length ts \<and> (\<exists>t\<in>set ts. now - t < effective_cool_off (new_breaker threshold cool)))"
  using breaker_run_inv[OF assms, of calls cool] breaker_run_cool[of calls "new_breaker threshold cool"]
  by (auto simp: Let_def breaker_inv_def is_open_def not_le split: circuit_state.splits if_splits)

theorem breaker_counts_failures_witness:
  "let b = breaker_run [CallFailure 5, CallFailure 9] (new_breaker 2 10); ts = failure_times [CallFailure 5, CallFailure 9] [] in
    bk_state b \<noteq> Closed \<and> \<not> length ts < unat (2 :: u32) \<and> fst (is_open 12 b)"
  using breaker_counts_failures[of 2 "[CallFailure 5, CallFailure 9]" 10 12]
  by (simp add: Let_def breaker_run_def record_failure_def new_breaker_def is_open_def effective_cool_off_def)

section \<open>What a retried call answers\<close>

lemma delay_capped: "delay_for_attempt policy n r \<le> max_delay_ms policy"
  by (simp add: delay_for_attempt_def Let_def)

lemma last_attempt:
  assumes "attempt < unat (m :: u32)"
  shows "of_nat attempt < m - 1 \<longleftrightarrow> Suc attempt < unat m"
proof -
  have "m \<noteq> 0" "1 \<le> m" using assms by (auto simp: word_le_nat_alt)
  then have "unat (m - 1) = unat m - 1" by (simp add: unat_sub)
  moreover have "unat (of_nat attempt :: u32) = attempt"
    using assms unsigned_less[of m, where 'a = nat] by (simp add: unat_of_nat)
  ultimately show ?thesis using assms by (simp add: word_less_nat_alt less_diff_conv)
qed

lemma retry_loop_result:
  assumes "retry_loop policy env m left attempt err0 b = (r, b', delays)" "attempt + left = unat m"
    and "left = 0 \<Longrightarrow> err0 \<noteq> None"
  shows "(case r of
      None \<Rightarrow> False
    | Some (Inr v) \<Rightarrow> \<exists>k<left. ae_op env (attempt + k) = Inr v \<and> (\<forall>j<k. isl (ae_op env (attempt + j)))
    | Some (Inl (Exhausted e n)) \<Rightarrow> n = m \<and> (\<forall>j<left. isl (ae_op env (attempt + j))) \<and>
        (if left = 0 then err0 = Some e else ae_op env (attempt + left - 1) = Inl e)
    | Some (Inl CircuitOpen) \<Rightarrow> False) \<and>
    length delays \<le> left - 1 \<and> (\<forall>d\<in>set delays. d \<le> max_delay_ms policy)"
  using assms
proof (induction left arbitrary: attempt err0 b r b' delays)
  case 0
  then show ?case by auto
next
  case (Suc left)
  show ?case
  proof (cases "ae_op env attempt")
    case (Inr v)
    then show ?thesis using Suc.prems by (auto simp: Ex_less_Suc2)
  next
    case (Inl err)
    obtain r2 b2 d2 where rec: "retry_loop policy env m left (Suc attempt) (Some err) (record_failure (ae_clock env attempt) b) = (r2, b2, d2)"
      by (metis prod_cases3)
    have slept: "delays = (if 0 < left then [delay_for_attempt policy (of_nat attempt) (ae_random env attempt)] else []) @ d2"
      and r: "r = r2"
      using Suc.prems(1,2) Inl rec last_attempt[of attempt m] by (auto simp: Let_def)
    have all: "(\<forall>j<Suc left. isl (ae_op env (attempt + j))) \<longleftrightarrow> (\<forall>j<left. isl (ae_op env (Suc attempt + j)))"
      using Inl by (auto simp: All_less_Suc2)
    have ex: "(\<exists>k<Suc left. ae_op env (attempt + k) = Inr v \<and> (\<forall>j<k. isl (ae_op env (attempt + j)))) \<longleftrightarrow>
        (\<exists>k<left. ae_op env (Suc attempt + k) = Inr v \<and> (\<forall>j<k. isl (ae_op env (Suc attempt + j))))" for v
      using Inl by (auto simp: Ex_less_Suc2 All_less_Suc2)
    show ?thesis
      using Suc.IH[OF rec] Suc.prems(2) Inl unfolding r slept all ex
      by (cases left) (auto simp: delay_capped add.commute[of attempt] simp flip: Suc.prems(2)
          split: option.splits sum.splits retry_error.splits)
  qed
qed

text \<open>
  Claim C32.  A retried call always answers: it is rejected exactly when the breaker is open, otherwise it
  gives the first success among the allowed attempts, or, when all of them fail, the last error with
  the number of attempts; it sleeps at most once between two attempts and never longer than the
  maximum.
\<close>

theorem with_retry_answers:
  "case with_retry policy env now b of (r, b', delays) \<Rightarrow>
     (let n = min (unat (max_retries policy) + 1) (2 ^ 32 - 1) in
      (case r of
         None \<Rightarrow> False
       | Some (Inl CircuitOpen) \<Rightarrow> fst (is_open now b) \<and> delays = []
       | Some (Inr v) \<Rightarrow> \<not> fst (is_open now b) \<and> (\<exists>k<n. ae_op env k = Inr v \<and> (\<forall>j<k. isl (ae_op env j)))
       | Some (Inl (Exhausted e a)) \<Rightarrow> \<not> fst (is_open now b) \<and> unat a = n \<and> (\<forall>j<n. isl (ae_op env j)) \<and> ae_op env (n - 1) = Inl e) \<and>
      length delays < n \<and> (\<forall>d\<in>set delays. d \<le> max_delay_ms policy))"
proof -
  define m where "m = sat_add (max_retries policy) 1"
  have n: "unat m = min (unat (max_retries policy) + 1) (2 ^ 32 - 1)" by (simp add: m_def unat_sat_add)
  then have pos: "0 < unat m" by simp
  obtain open1 b1 where o: "is_open now b = (open1, b1)" by fastforce
  show ?thesis
  proof (cases open1)
    case True
    then show ?thesis using o pos n by (simp add: with_retry_def)
  next
    case False
    obtain r b2 delays where loop: "retry_loop policy env m (unat m) 0 None b1 = (r, b2, delays)" by (metis prod_cases3)
    have run: "with_retry policy env now b = (r, b2, delays)"
      using o False loop by (simp add: with_retry_def m_def Let_def)
    show ?thesis
      using retry_loop_result[OF loop] pos o False n[symmetric] unfolding run
      by (auto simp: Let_def split: option.splits sum.splits retry_error.splits)
  qed
qed

theorem with_retry_answers_witness:
  "fst (with_retry default_retry_policy \<lparr>ae_op = (\<lambda>k. if k = 0 then Inl () else Inr (7 :: nat)), ae_clock = id, ae_random = (\<lambda>_. F64_Zero False)\<rparr>
     0 (new_breaker 5 10)) \<noteq> None"
  using with_retry_answers[of default_retry_policy 0 "new_breaker 5 10"
      "\<lparr>ae_op = (\<lambda>k. if k = 0 then Inl () else Inr (7 :: nat)), ae_clock = id, ae_random = (\<lambda>_. F64_Zero False)\<rparr>"]
  by (auto simp: Let_def split: prod.splits option.splits)

end
