(* ===== verification/SinkRouting.thy ===== *)
theory SinkRouting
  imports Json RustPath RustText
begin

text \<open>
  What a sink accepts and where it writes: the routing filter (\<^verbatim>\<open>router_filter.rs\<close>) and the file-name
  templates (\<^verbatim>\<open>path_template.rs\<close>).  The date text of an instant (\<^verbatim>\<open>chrono\<close>) is an argument.
\<close>

section \<open>The routing filter\<close>

type_synonym sink_event = "(string \<times> json) list"

definition event_type :: "sink_event \<Rightarrow> string option" where
  "event_type e = Option.bind (map_of e ''type'') jstr"

record routing_filter =
  event_types_allow :: "string list"
  event_types_deny :: "string list"
  plugin_ids_allow :: "string list"

definition text_or_empty :: "string option \<Rightarrow> string" where
  "text_or_empty x = (case x of Some s \<Rightarrow> s | None \<Rightarrow> [])"

definition accepts :: "routing_filter \<Rightarrow> sink_event \<Rightarrow> bool" where
  "accepts f event =
     (let ty = text_or_empty (event_type event);
          type_ok = (if ty = [] then \<not> (event_types_allow f \<noteq> [] \<or> event_types_deny f \<noteq> [])
            else if event_types_allow f \<noteq> [] \<and> \<not> list_ex (\<lambda>t. t = ty) (event_types_allow f) then False
            else \<not> list_ex (\<lambda>t. t = ty) (event_types_deny f)) in
      if \<not> type_ok then False
      else if plugin_ids_allow f \<noteq> []
      then let plugin_id = text_or_empty (Option.bind (map_of event ''plugin_id'') jstr) in
        list_ex (\<lambda>p. p = plugin_id) (plugin_ids_allow f)
      else True)"

text \<open>
  A filter accepts an event exactly when its type is on a non-empty allow list and on no deny list,
  and its plugin is on a non-empty plugin list: deny wins over allow, and an event without a type
  passes only filters that do not look at types.
\<close>

theorem filter_accepts_iff:
  "accepts f event \<longleftrightarrow>
     (if event_type event \<in> {None, Some []} then event_types_allow f = [] \<and> event_types_deny f = []
      else (event_types_allow f = [] \<or> the (event_type event) \<in> set (event_types_allow f)) \<and>
        the (event_type event) \<notin> set (event_types_deny f)) \<and>
     (plugin_ids_allow f = [] \<or> text_or_empty (Option.bind (map_of event ''plugin_id'') jstr) \<in> set (plugin_ids_allow f))"
  by (cases "event_type event") (auto simp: accepts_def Let_def list_ex_iff text_or_empty_def)

section \<open>Path templates\<close>

datatype template_error = UnknownPlaceholder string

record template_values =
  tv_date :: string
  tv_name :: string
  tv_project :: "string option"

definition project_text :: "template_values \<Rightarrow> string" where
  "project_text v = text_or_empty (Option.bind (tv_project v) (\<lambda>p. file_name (path_of p)))"

definition placeholder :: "template_values \<Rightarrow> string \<Rightarrow> string option" where
  "placeholder v key =
     (if key = ''date'' then Some (tv_date v) else if key = ''name'' then Some (tv_name v)
      else if key = ''project'' then Some (project_text v) else None)"

function fill_template :: "template_values \<Rightarrow> string \<Rightarrow> template_error + string" where
  "fill_template v rest =
     (case find_sub ''{'' rest of
        None \<Rightarrow> Inr rest
      | Some open_at \<Rightarrow>
          (let after = drop (open_at + 1) rest in
           case find_sub ''}'' after of
             None \<Rightarrow> Inr (take open_at rest @ ''{'' @ after)
           | Some close_at \<Rightarrow>
               (let key = take close_at after in
                case placeholder v key of
                  None \<Rightarrow> Inl (UnknownPlaceholder key)
                | Some text \<Rightarrow>
                    (case fill_template v (drop (close_at + 1) after) of
                       Inl e \<Rightarrow> Inl e
                     | Inr out \<Rightarrow> Inr (take open_at rest @ text @ out)))))"
  by auto
termination by (relation "measure (length \<circ> snd)") (auto dest: find_sub_bound)

declare fill_template.simps [simp del]

definition resolve_path_template :: "template_values \<Rightarrow> string \<Rightarrow> template_error + path" where
  "resolve_path_template v template = (case fill_template v template of Inl e \<Rightarrow> Inl e | Inr s \<Rightarrow> Inr (path_of s))"

text \<open>Templates as the configuration writes them: text without an opening brace, and placeholders.\<close>

datatype template_piece = Lit string | Key string

fun piece_text :: "template_piece \<Rightarrow> string" where
  "piece_text (Lit s) = s"
| "piece_text (Key k) = ''{'' @ k @ ''}''"

fun piece_value :: "template_values \<Rightarrow> template_piece \<Rightarrow> string" where
  "piece_value v (Lit s) = s"
| "piece_value v (Key k) = the (placeholder v k)"

fun piece_ok :: "template_piece \<Rightarrow> bool" where
  "piece_ok (Lit s) \<longleftrightarrow> CHR ''{'' \<notin> set s"
| "piece_ok (Key k) \<longleftrightarrow> CHR ''}'' \<notin> set k"

fun piece_known :: "template_piece \<Rightarrow> bool" where
  "piece_known (Lit s) = True"
| "piece_known (Key k) = (k \<in> {''date'', ''name'', ''project''})"

lemma fill_key:
  assumes "CHR ''{'' \<notin> set a" "CHR ''}'' \<notin> set k"
  shows "fill_template v (a @ ''{'' @ k @ ''}'' @ rest) = (case placeholder v k of
     None \<Rightarrow> Inl (UnknownPlaceholder k)
   | Some text \<Rightarrow> (case fill_template v rest of Inl e \<Rightarrow> Inl e | Inr out \<Rightarrow> Inr (a @ text @ out)))"
proof -
  have d: "drop (length x + 1) (x @ c # s) = s" "take (length x) (x @ s) = x" for x s :: string and c by simp_all
  show ?thesis
    unfolding append_Cons append_Nil fill_template.simps[of v "a @ CHR ''{'' # k @ CHR ''}'' # rest"]
      find_char_after[OF assms(1)] option.case Let_def d find_char_after[OF assms(2)] by (rule refl)
qed

lemma placeholder_known: "piece_known (Key k) \<longleftrightarrow> placeholder v k \<noteq> None"
  by (auto simp: placeholder_def)

lemma fill_pieces:
  assumes "\<forall>p\<in>set ps. piece_ok p" "CHR ''{'' \<notin> set a"
  shows "fill_template v (a @ concat (map piece_text ps)) =
    (case filter (\<lambda>p. \<not> piece_known p) ps of
       [] \<Rightarrow> Inr (a @ concat (map (piece_value v) ps))
     | p # _ \<Rightarrow> Inl (UnknownPlaceholder (case p of Key k \<Rightarrow> k | Lit s \<Rightarrow> s)))"
  using assms
proof (induction ps arbitrary: a)
  case Nil
  then show ?case by (subst fill_template.simps) (simp add: find_char_none)
next
  case (Cons p ps)
  show ?case
  proof (cases p)
    case (Lit s)
    then show ?thesis using Cons.IH[of "a @ s"] Cons.prems by (simp split: list.splits)
  next
    case (Key k)
    have "fill_template v (a @ ''{'' @ k @ ''}'' @ concat (map piece_text ps)) = (case placeholder v k of
       None \<Rightarrow> Inl (UnknownPlaceholder k)
     | Some text \<Rightarrow> (case fill_template v (concat (map piece_text ps)) of Inl e \<Rightarrow> Inl e | Inr out \<Rightarrow> Inr (a @ text @ out)))"
      by (rule fill_key) (use Cons.prems Key in auto)
    moreover note Cons.IH[of "[]"]
    ultimately show ?thesis
      using Cons.prems Key placeholder_known[of k v] by (auto split: list.splits template_piece.splits)
  qed
qed

text \<open>
  A template written as text and placeholders resolves to the path with every placeholder replaced
  by its value, and to the error that names its first unknown placeholder when it has one.
\<close>

theorem template_resolves:
  assumes "\<forall>p\<in>set ps. piece_ok p"
  shows "resolve_path_template v (concat (map piece_text ps)) =
    (case filter (\<lambda>p. \<not> piece_known p) ps of
       [] \<Rightarrow> Inr (path_of (concat (map (piece_value v) ps)))
     | p # _ \<Rightarrow> Inl (UnknownPlaceholder (case p of Key k \<Rightarrow> k | Lit s \<Rightarrow> s)))"
  using fill_pieces[OF assms, of "[]" v] by (simp add: resolve_path_template_def split: list.splits)

theorem template_resolves_witness:
  "resolve_path_template \<lparr>tv_date = ''2026-01-02'', tv_name = ''s'', tv_project = None\<rparr> ''dead-letter-{name}-{date}.jsonl'' =
     Inr (path_of ''dead-letter-s-2026-01-02.jsonl'')"
  using template_resolves[of "[Lit ''dead-letter-'', Key ''name'', Lit ''-'', Key ''date'', Lit ''.jsonl'']"
      "\<lparr>tv_date = ''2026-01-02'', tv_name = ''s'', tv_project = None\<rparr>"]
  by (simp add: placeholder_def)

end
