(* ===== verification/SinkDlq.thy ===== *)
theory SinkDlq
  imports SinkRouting RustFs
begin

text \<open>
  The dead-letter writer (\<^verbatim>\<open>sink-core/src/dead_letter.rs\<close>): one JSON line per undeliverable event, daily
  files by template, and a sequence suffix when a file reaches its size cap.  A path is kept as the
  text the code formats and cuts; the JSON printer is a parameter, and the events for the
  internal channel are returned.
\<close>

section \<open>Names\<close>

definition jsonl :: string where "jsonl = ''.jsonl''"

definition seq_suffix :: "string \<Rightarrow> bool" where
  "seq_suffix s \<longleftrightarrow> length s = 3 \<and> list_all is_ascii_digit s"

definition strip_seq_suffix :: "string \<Rightarrow> string" where
  "strip_seq_suffix path =
     (case strip_suffix jsonl path of
        None \<Rightarrow> path
      | Some stem \<Rightarrow>
          (case rfind_char (CHR ''-'') stem of
             None \<Rightarrow> path
           | Some dash_pos \<Rightarrow>
               if seq_suffix (drop (dash_pos + 1) stem) then take dash_pos stem @ jsonl else path))"

definition next_seq_path :: "string \<Rightarrow> string" where
  "next_seq_path current =
     (case strip_suffix jsonl current of
        None \<Rightarrow> current
      | Some stem \<Rightarrow>
          (case rfind_char (CHR ''-'') stem of
             Some dash_pos \<Rightarrow>
               let suffix = drop (dash_pos + 1) stem in
               if seq_suffix suffix
               then take dash_pos stem @ ''-'' @ pad_zeros 3 (unat ((case parse_u32 suffix of Some n \<Rightarrow> n | None \<Rightarrow> 0) + 1)) @ jsonl
               else stem @ ''-001'' @ jsonl
           | None \<Rightarrow> stem @ ''-001'' @ jsonl))"

text \<open>\<open>Path::join\<close> on the texts.\<close>

definition join_text :: "string \<Rightarrow> string \<Rightarrow> string" where
  "join_text base_dir name =
     (if starts_with ''/'' name \<or> base_dir = [] then name
      else if ends_with ''/'' base_dir then base_dir @ name else base_dir @ ''/'' @ name)"

section \<open>Writing\<close>

datatype dlq_reason = RetryExhausted | QueueOverflow

fun reason_str :: "dlq_reason \<Rightarrow> string" where
  "reason_str RetryExhausted = ''retry_exhausted''"
| "reason_str QueueOverflow = ''queue_overflow''"

datatype dlq_error = MkdirFailed io_kind | OpenFailed io_kind | WriteFailed io_kind | TemplateFailed template_error

datatype dlq_event = DlqWrite string string string dlq_reason | DlqFailure string string dlq_error

record dlq_config =
  dlq_template :: string
  size_cap_bytes :: u64
  dlq_project :: "string option"
  dlq_root :: string

definition default_dlq_config :: dlq_config where
  "default_dlq_config = \<lparr>dlq_template = ''dead-letter-{name}-{date}.jsonl'', size_cap_bytes = 104857600,
     dlq_project = None, dlq_root = ''.factory/logs/dlq''\<rparr>"

text \<open>The open file: the text of its path, the file it opened, and the size counted so far.\<close>

type_synonym dlq_cache = "(string \<times> path \<times> u64) option"

definition fs_open_append :: "path \<Rightarrow> world \<Rightarrow> (io_kind + path) \<times> world" where
  "fs_open_append p = syscall (\<lambda>w. case resolve_link 41 w p of Inl k \<Rightarrow> (Inl k, w)
     | Inr q \<Rightarrow>
        (case look w q of
           Some Directory \<Rightarrow> (Inl OtherIo, w)
         | Some _ \<Rightarrow> (Inr q, w)
         | None \<Rightarrow> if dir_present w q then (Inr q, put q (File []) w) else (Inl (missing_error w q), w)))"

text \<open>\<open>write_all\<close> on a file opened for append; a fault leaves a prefix behind.\<close>

definition append_to :: "path \<Rightarrow> bytes \<Rightarrow> world \<Rightarrow> world" where
  "append_to q c w = (case look w q of Some (File d) \<Rightarrow> put q (File (d @ c)) w | _ \<Rightarrow> w)"

definition fs_append :: "path \<Rightarrow> bytes \<Rightarrow> world \<Rightarrow> (io_kind + unit) \<times> world" where
  "fs_append q c w = (case next_fault w of
     (Some (Fault m), w) \<Rightarrow> (Inl OtherIo, append_to q (take m c) w)
   | (None, w) \<Rightarrow> (Inr (), append_to q c w))"

definition file_size :: "path \<Rightarrow> world \<Rightarrow> u64 \<times> world" where
  "file_size q w = (case fs_metadata q w of (Inr n, w) \<Rightarrow> (of_nat (node_len n), w) | (Inl _, w) \<Rightarrow> (0, w))"

definition target_text :: "dlq_config \<Rightarrow> string \<Rightarrow> dlq_cache \<Rightarrow> string" where
  "target_text cfg base cache =
     (case cache of
        None \<Rightarrow> base
      | Some (current, _, written) \<Rightarrow>
          if path_of (strip_seq_suffix current) \<noteq> path_of base then base
          else if size_cap_bytes cfg \<le> written then next_seq_path current
          else current)"

definition dlq_line :: "((string \<times> json) list \<Rightarrow> string option) \<Rightarrow> sink_event \<Rightarrow> dlq_reason \<Rightarrow> string option" where
  "dlq_line print event reason = print (jinsert ''reason'' (JStr (reason_str reason)) event)"

definition dlq_append ::
  "((string \<times> json) list \<Rightarrow> string option) \<Rightarrow> sink_event \<Rightarrow> dlq_reason \<Rightarrow> string \<times> path \<times> u64 \<Rightarrow> world \<Rightarrow>
   (dlq_error + unit) \<times> dlq_cache \<times> world"
where
  "dlq_append print event reason opened w =
     (case opened of (text, q, written) \<Rightarrow>
        (case dlq_line print event reason of
           None \<Rightarrow> (Inl (WriteFailed InvalidData), Some opened, w)
         | Some line \<Rightarrow>
             (case fs_append q line w of
                (Inl e, w) \<Rightarrow> (Inl (WriteFailed e), Some opened, w)
              | (Inr _, w) \<Rightarrow>
                  (case fs_append q [nl] w of
                     (Inl e, w) \<Rightarrow> (Inl (WriteFailed e), Some opened, w)
                   | (Inr _, w) \<Rightarrow> (Inr (), Some (text, q, written + of_nat (length line + 1)), w)))))"

definition dlq_open :: "dlq_config \<Rightarrow> string \<Rightarrow> world \<Rightarrow> (dlq_error + (string \<times> path \<times> u64)) \<times> world" where
  "dlq_open cfg target w =
     (case fs_create_dir_all (path_of (dlq_root cfg)) w of
        (Inl e, w) \<Rightarrow> (Inl (MkdirFailed e), w)
      | (Inr _, w) \<Rightarrow>
          (case fs_open_append (path_of target) w of
             (Inl e, w) \<Rightarrow> (Inl (OpenFailed e), w)
           | (Inr q, w) \<Rightarrow> (case file_size q w of (written, w) \<Rightarrow> (Inr (target, q, written), w))))"

definition write_event_to ::
  "((string \<times> json) list \<Rightarrow> string option) \<Rightarrow> dlq_config \<Rightarrow> string \<Rightarrow> sink_event \<Rightarrow> dlq_reason \<Rightarrow> dlq_cache \<Rightarrow> world \<Rightarrow>
   (dlq_error + unit) \<times> dlq_cache \<times> world"
where
  "write_event_to print cfg base event reason cache w =
     (let target = target_text cfg base cache;
          needs_open = (case cache of Some (p, _, _) \<Rightarrow> path_of p \<noteq> path_of target | None \<Rightarrow> True) in
      if needs_open
      then (case dlq_open cfg target w of
          (Inl e, w) \<Rightarrow> (Inl e, cache, w)
        | (Inr opened, w) \<Rightarrow> dlq_append print event reason opened w)
      else dlq_append print event reason (the cache) w)"

definition write_event ::
  "((string \<times> json) list \<Rightarrow> string option) \<Rightarrow> dlq_config \<Rightarrow> string \<Rightarrow> string \<Rightarrow> string \<Rightarrow> sink_event \<Rightarrow> dlq_reason \<Rightarrow>
   dlq_cache \<Rightarrow> world \<Rightarrow> (dlq_error + unit) \<times> dlq_event list \<times> dlq_cache \<times> world"
where
  "write_event print cfg date sink_name sink_type event reason cache w =
     (case (case fill_template \<lparr>tv_date = date, tv_name = sink_name, tv_project = dlq_project cfg\<rparr> (dlq_template cfg) of
              Inl e \<Rightarrow> (Inl (TemplateFailed e), cache, w)
            | Inr base_filename \<Rightarrow>
                write_event_to print cfg (join_text (dlq_root cfg) base_filename) event reason cache w) of
        (Inr _, cache, w) \<Rightarrow>
          (Inr (), [DlqWrite sink_name sink_type (text_or_empty (event_type event)) reason], cache, w)
      | (Inl e, cache, w) \<Rightarrow> (Inl e, [DlqFailure sink_name sink_type e], cache, w))"

section \<open>Rotation of names\<close>

definition seq_name :: "string \<Rightarrow> nat \<Rightarrow> string" where
  "seq_name stem n = stem @ ''-'' @ pad_zeros 3 n @ jsonl"

lemma rfind_last: "c \<notin> set s \<Longrightarrow> rfind_char c (a @ c # s) = Some (length a)"
proof (induction a)
  case Nil
  have "c \<notin> set s \<Longrightarrow> rfind_char c s = None" by (induction s) auto
  then show ?case using Nil by simp
qed simp

lemma digits_no_dash: "list_all is_ascii_digit d \<Longrightarrow> CHR ''-'' \<notin> set d"
  by (auto simp: list_all_iff is_ascii_digit_def)

lemma seq_name_stem: "strip_suffix jsonl (seq_name stem n) = Some (stem @ CHR ''-'' # pad_zeros 3 n)"
  "strip_suffix jsonl (stem @ jsonl) = Some stem"
  by (simp_all add: strip_suffix_Some seq_name_def)

lemma seq_dash: "rfind_char (CHR ''-'') (stem @ CHR ''-'' # pad_zeros 3 n) = Some (length stem)"
  by (rule rfind_last) (rule digits_no_dash[OF pad_zeros_digits])

lemma pad3: "n < 1000 \<Longrightarrow> length (pad_zeros 3 n) = 3"
proof -
  assume n: "n < 1000"
  have "length (show_nat n) \<le> 3"
    using n by (subst show_nat.simps, subst show_nat.simps, subst show_nat.simps) auto
  then show ?thesis by (simp add: pad_zeros_def)
qed

lemma drop_dash: "drop (length stem + 1) (stem @ c # s) = s" "take (length stem) (stem @ s') = stem"
  by simp_all

lemma strip_seq_name: "strip_seq_suffix (seq_name stem n) = (if n < 1000 then stem @ jsonl else seq_name stem n)"
proof (cases "n < 1000")
  case True
  then show ?thesis
    unfolding strip_seq_suffix_def seq_name_stem option.case seq_dash drop_dash
    by (simp add: seq_suffix_def pad3 pad_zeros_digits)
next
  case False
  have "length (pad_zeros 3 n) \<noteq> 3"
  proof
    assume "length (pad_zeros 3 n) = 3"
    then have "length (show_nat n) \<le> 3" by (auto simp: pad_zeros_def split: if_splits)
    moreover have "3 < length (show_nat n)"
      using False by (subst show_nat.simps, subst show_nat.simps, subst show_nat.simps) (auto simp: Suc_le_eq less_Suc_eq_0_disj)
    ultimately show False by simp
  qed
  then show ?thesis
    unfolding strip_seq_suffix_def seq_name_stem option.case seq_dash drop_dash using False by (simp add: seq_suffix_def)
qed

lemma next_seq_name: "n < 1000 \<Longrightarrow> next_seq_path (seq_name stem n) = seq_name stem (n + 1)"
proof -
  assume n: "n < 1000"
  have v: "unat (of_nat n + 1 :: u32) = n + 1"
    using n by (simp add: unat_word_ariths unat_of_nat)
  have p: "parse_u32 (pad_zeros 3 n) = Some (of_nat n)"
    using parse_u32_pad_zeros[of 3 "of_nat n"] n by (simp add: unat_of_nat)
  show ?thesis
    unfolding next_seq_path_def seq_name_stem option.case seq_dash drop_dash Let_def
    using n p v by (simp add: seq_suffix_def pad3 pad_zeros_digits seq_name_def)
qed

lemma next_seq_base:
  assumes "strip_seq_suffix (stem @ jsonl) = stem @ jsonl"
  shows "next_seq_path (stem @ jsonl) = seq_name stem 1"
proof -
  have one: "pad_zeros 3 1 = ''001''" by code_simp
  have "\<not> seq_suffix (drop (i + 1) stem)" if "rfind_char (CHR ''-'') stem = Some i" for i
  proof
    assume s: "seq_suffix (drop (i + 1) stem)"
    then have "take i stem @ jsonl = stem @ jsonl"
      using assms that by (simp add: strip_seq_suffix_def seq_name_stem)
    then have "drop (i + 1) stem = []" by (metis append_same_eq drop_all length_take min.cobounded2 le_add1 le_trans append_take_drop_id)
    then show False using s by (simp add: seq_suffix_def)
  qed
  then show ?thesis
    by (simp add: next_seq_path_def seq_name_stem seq_name_def one Let_def split: option.splits
        del: One_nat_def)
qed

text \<open>
  Rotation walks one sequence: while the open file is under the cap the writer stays on it, and once
  it reaches the cap the next event goes to the next number, from the plain daily name through 001 up
  to 999 (and then 1000, which is not recognised as part of the sequence).
\<close>

theorem dlq_rotates:
  assumes "strip_seq_suffix (stem @ jsonl) = stem @ jsonl"
  shows "target_text cfg (stem @ jsonl) (Some (stem @ jsonl, q, n)) =
      (if size_cap_bytes cfg \<le> n then seq_name stem 1 else stem @ jsonl) \<and>
    (k < 1000 \<longrightarrow> target_text cfg (stem @ jsonl) (Some (seq_name stem k, q, n)) =
      (if size_cap_bytes cfg \<le> n then seq_name stem (k + 1) else seq_name stem k))"
  using assms next_seq_base[OF assms] by (simp add: target_text_def strip_seq_name next_seq_name)

theorem dlq_rotates_witness:
  "target_text default_dlq_config (''dead-letter-s-2026-01-02'' @ jsonl) (Some (seq_name ''dead-letter-s-2026-01-02'' 7, [], 104857600)) =
     seq_name ''dead-letter-s-2026-01-02'' 8"
proof -
  have "strip_seq_suffix (''dead-letter-s-2026-01-02'' @ jsonl) = ''dead-letter-s-2026-01-02'' @ jsonl" by code_simp
  from dlq_rotates[OF this, of default_dlq_config "[]" 104857600 7] show ?thesis
    by (simp add: default_dlq_config_def)
qed

text \<open>
  The suffix has three digits: past 999 the base is no longer recognised and the writer goes back to the
  first, full, file.  A base name that itself ends in three digits is never rotated.
\<close>

lemma dlq_rotation_wraps:
  "next_seq_path (seq_name ''x'' 999) = seq_name ''x'' 1000 \<and>
   target_text cfg ''x.jsonl'' (Some (seq_name ''x'' 1000, q, n)) = ''x.jsonl''"
proof -
  have "seq_name ''x'' 1000 = ''x-1000.jsonl''" by code_simp
  moreover have "path_of ''x-1000.jsonl'' \<noteq> path_of ''x.jsonl''" by code_simp
  ultimately show ?thesis using next_seq_name[of 999 "''x''"] strip_seq_name[of "''x''" 1000] by (simp add: target_text_def)
qed

lemma dlq_cap_ignored: "target_text cfg ''sink-123.jsonl'' (Some (''sink-123.jsonl'', q, n)) = ''sink-123.jsonl''"
proof -
  have "path_of (strip_seq_suffix ''sink-123.jsonl'') \<noteq> path_of ''sink-123.jsonl''" by code_simp
  then show ?thesis by (simp add: target_text_def)
qed

section \<open>What a write does\<close>

text \<open>A file as a writer sees it: a regular file, or a device that keeps nothing.\<close>

definition appendable :: "world \<Rightarrow> path \<Rightarrow> bool" where
  "appendable w q \<longleftrightarrow> look w q = Some Special \<or> (\<exists>d. look w q = Some (File d))"

lemma resolve_link_final: "resolve_link k w p = Inr q \<Longrightarrow> look w q \<noteq> Some (Symlink t)"
  by (induction k arbitrary: p) (auto split: option.splits node.splits)

lemma open_append_spec:
  assumes "fs_open_append p w = (Inr q, w')"
  shows "look w' = (look w)(q := (if look w q = None then Some (File []) else look w q)) \<and> appendable w' q"
proof (rule syscall_cases[OF assms[unfolded fs_open_append_def]], goal_cases)
  case 1
  then show ?case by simp
next
  case (2 v)
  have v: "look v = look w" using frame_empty_look[OF 2(1)] .
  obtain q' where res: "resolve_link 41 v p = Inr q'" using 2(2) by (cases "resolve_link 41 v p") auto
  then have "q' = q" using 2(2) by (simp del: resolve_link.simps split: option.splits node.splits if_splits)
  then show ?case
    using 2(2) v resolve_link_final[OF res] unfolding res
    by (auto simp: appendable_def fun_eq_iff split: option.splits node.splits if_splits)
qed

definition appended :: "node option \<Rightarrow> bytes \<Rightarrow> node option" where
  "appended n c = (case n of Some (File d) \<Rightarrow> Some (File (d @ c)) | x \<Rightarrow> x)"

lemma append_to_look: "look (append_to q c w) = (look w)(q := appended (look w q) c)"
  by (auto simp: append_to_def appended_def fun_eq_iff split: option.splits node.splits)

lemma fs_append_ok:
  assumes "fs_append q c w = (Inr u, w')"
  shows "look w' = (look w)(q := appended (look w q) c)"
proof -
  obtain f v where n: "next_fault w = (f, v)" by fastforce
  have "look v = look w" using frame_empty_look[OF next_fault_frame[OF n]] .
  then show ?thesis using assms n by (auto simp: fs_append_def append_to_look split: option.splits fault.splits)
qed

lemma appended_twice: "appended (appended n c) d = appended n (c @ d)"
  by (simp add: appended_def split: option.splits node.splits)

lemma dlq_append_ok:
  assumes "dlq_append print event reason (text, q, n) w = (Inr u, cache', w')"
  shows "\<exists>line. dlq_line print event reason = Some line \<and> cache' = Some (text, q, n + of_nat (length line + 1)) \<and>
    look w' = (look w)(q := appended (look w q) (line @ [nl]))"
proof -
  obtain line w1 where l: "dlq_line print event reason = Some line" "fs_append q line w = (Inr (), w1)"
    "fs_append q [nl] w1 = (Inr (), w')" "cache' = Some (text, q, n + of_nat (length line + 1))"
    using assms by (auto simp: dlq_append_def split: option.splits prod.splits sum.splits)
  then show ?thesis using fs_append_ok[OF l(2)] fs_append_ok[OF l(3)] by (auto simp: appended_twice)
qed

lemma write_event_to_ok:
  assumes "write_event_to print cfg base event reason cache w = (Inr u, cache', w')"
    and "\<forall>t q n. cache = Some (t, q, n) \<longrightarrow> appendable w q"
  shows "\<exists>text q n line v. cache' = Some (text, q, n) \<and> dlq_line print event reason = Some line \<and> only_dirs w v \<and>
    look w' = (look v)(q := appended (if look v q = None then Some (File []) else look v q) (line @ [nl])) \<and>
    appendable w' q \<and> path_of text = path_of (target_text cfg base cache)"
proof -
  let ?target = "target_text cfg base cache"
  have keep: "appendable w1 q \<Longrightarrow> look w2 = (look w1)(q := appended (look w1 q) c) \<Longrightarrow> appendable w2 q" for w1 w2 q c
    by (auto simp: appendable_def appended_def)
  show ?thesis
  proof (cases "case cache of Some (p, _, _) \<Rightarrow> path_of p \<noteq> path_of ?target | None \<Rightarrow> True")
    case True
    obtain opened v where o: "dlq_open cfg ?target w = (Inr opened, v)"
      "dlq_append print event reason opened v = (Inr u, cache', w')"
      using assms(1) True by (auto simp: write_event_to_def Let_def split: prod.splits sum.splits)
    obtain w1 u1 q w2 n where m: "fs_create_dir_all (path_of (dlq_root cfg)) w = (Inr u1, w1)"
      "fs_open_append (path_of ?target) w1 = (Inr q, w2)" "file_size q w2 = (n, v)" "opened = (?target, q, n)"
      using o(1) by (auto simp: dlq_open_def split: prod.splits sum.splits)
    have v: "look v = look w2" using m(3) by (auto simp: file_size_def frame_empty_look[OF fs_metadata_frame] split: prod.splits sum.splits)
    note open1 = open_append_spec[OF m(2)]
    obtain line where l: "dlq_line print event reason = Some line" "cache' = Some (?target, q, n + of_nat (length line + 1))"
      "look w' = (look v)(q := appended (look v q) (line @ [nl]))"
      using dlq_append_ok[OF o(2)[unfolded m(4)]] by blast
    have "look w' = (look w1)(q := appended (if look w1 q = None then Some (File []) else look w1 q) (line @ [nl]))"
      using l(3) v open1 by (auto simp: fun_eq_iff)
    moreover have "appendable v q" using conjunct2[OF open1] by (simp add: appendable_def v)
    ultimately show ?thesis using create_dir_all_spec[OF m(1)] l keep[OF _ l(3)] by blast
  next
    case False
    then obtain t q n where c: "cache = Some (t, q, n)" "path_of t = path_of ?target"
      by (auto split: option.splits)
    have run: "dlq_append print event reason (t, q, n) w = (Inr u, cache', w')"
      using assms(1) False c by (simp add: write_event_to_def Let_def)
    obtain line where l: "dlq_line print event reason = Some line" "cache' = Some (t, q, n + of_nat (length line + 1))"
      "look w' = (look w)(q := appended (look w q) (line @ [nl]))"
      using dlq_append_ok[OF run] by blast
    have a: "appendable w q" using assms(2) c by blast
    then have "look w q \<noteq> None" by (auto simp: appendable_def)
    then have "look w' = (look w)(q := appended (if look w q = None then Some (File []) else look w q) (line @ [nl]))"
      using l(3) by (auto simp: fun_eq_iff)
    then show ?thesis using l(1,2) c(2) only_dirs_refl keep[OF a l(3)] by blast
  qed
qed

text \<open>
  An event reported as written is in the dead-letter file: under every fault schedule a successful
  write appends exactly one line, the event with its reason, to the file the writer then has open, and
  changes nothing else but creating missing directories; the internal event says so.
\<close>

theorem dlq_write_appends:
  assumes "write_event print cfg date name kind event reason cache w = (Inr u, evs, cache', w')"
    and "\<forall>t q n. cache = Some (t, q, n) \<longrightarrow> appendable w q"
  shows "evs = [DlqWrite name kind (text_or_empty (event_type event)) reason] \<and>
    (\<exists>text q n line v. cache' = Some (text, q, n) \<and> dlq_line print event reason = Some line \<and> only_dirs w v \<and>
      look w' = (look v)(q := appended (if look v q = None then Some (File []) else look v q) (line @ [nl])) \<and>
      appendable w' q)"
proof -
  obtain base where b: "write_event_to print cfg base event reason cache w = (Inr u, cache', w')"
    and e: "evs = [DlqWrite name kind (text_or_empty (event_type event)) reason]"
    using assms(1) by (auto simp: write_event_def split: prod.splits sum.splits)
  show ?thesis using write_event_to_ok[OF b assms(2)] e by blast
qed

definition dlq_sample_world :: world where
  "dlq_sample_world = \<lparr>nodes = [([Normal ''x.jsonl''], File ''old'')], faults = [], nonces = [], pid = 1\<rparr>"

definition dlq_sample_config :: dlq_config where
  "dlq_sample_config = \<lparr>dlq_template = ''{name}.jsonl'', size_cap_bytes = 100, dlq_project = None, dlq_root = []\<rparr>"

lemma dlq_sample_run:
  "write_event (\<lambda>_. Some ''line'') dlq_sample_config ''d'' ''x'' ''file'' [(''type'', JStr ''e'')] QueueOverflow
     (Some (''x.jsonl'', [Normal ''x.jsonl''], 3)) dlq_sample_world =
   (Inr (), [DlqWrite ''x'' ''file'' ''e'' QueueOverflow], Some (''x.jsonl'', [Normal ''x.jsonl''], 8),
    put [Normal ''x.jsonl''] (File (''oldline'' @ [nl])) (put [Normal ''x.jsonl''] (File ''oldline'') dlq_sample_world))"
proof -
  have f: "fill_template \<lparr>tv_date = ''d'', tv_name = ''x'', tv_project = None\<rparr> ''{name}.jsonl'' = Inr ''x.jsonl''" by code_simp
  have s: "strip_seq_suffix ''x.jsonl'' = ''x.jsonl''" by code_simp
  have faults: "faults dlq_sample_world = []" by (simp add: dlq_sample_world_def)
  have l: "look dlq_sample_world [Normal ''x.jsonl''] = Some (File ''old'')" by (simp add: look_def dlq_sample_world_def)
  show ?thesis
    by (simp add: write_event_def dlq_sample_config_def f write_event_to_def join_text_def target_text_def s Let_def
        dlq_append_def dlq_line_def fs_append_def append_to_def faults l text_or_empty_def event_type_def)
qed

theorem dlq_write_appends_witness:
  "\<exists>text q n line v. Some (''x.jsonl'', [Normal ''x.jsonl''], 8) = Some (text, q, n) \<and>
     dlq_line (\<lambda>_. Some ''line'') [(''type'', JStr ''e'')] QueueOverflow = Some line \<and> only_dirs dlq_sample_world v \<and>
     appended (if look v q = None then Some (File []) else look v q) (line @ [nl]) = Some (File (''oldline'' @ [nl]))"
proof -
  have "\<forall>t q n. Some (''x.jsonl'', [Normal ''x.jsonl''], 3 :: u64) = Some (t, q, n) \<longrightarrow> appendable dlq_sample_world q"
    by (simp add: appendable_def look_def dlq_sample_world_def)
  from dlq_write_appends[OF dlq_sample_run this] obtain nm q n line v where
    r: "Some (''x.jsonl'', [Normal ''x.jsonl''], 8 :: u64) = Some (nm, q, n)"
      "dlq_line (\<lambda>_. Some ''line'') [(''type'', JStr ''e'')] QueueOverflow = Some line" "only_dirs dlq_sample_world v"
      "look (put [Normal ''x.jsonl''] (File (''oldline'' @ [nl])) (put [Normal ''x.jsonl''] (File ''oldline'') dlq_sample_world)) =
        (look v)(q := appended (if look v q = None then Some (File []) else look v q) (line @ [nl]))" by blast
  have "appended (if look v q = None then Some (File []) else look v q) (line @ [nl]) = Some (File (''oldline'' @ [nl]))"
  proof -
    have "q = [Normal ''x.jsonl'']" using r(1) by auto
    then have "Some (File (''oldline'' @ [nl])) =
        look (put [Normal ''x.jsonl''] (File (''oldline'' @ [nl])) (put [Normal ''x.jsonl''] (File ''oldline'') dlq_sample_world)) q"
      by simp
    also have "\<dots> = appended (if look v q = None then Some (File []) else look v q) (line @ [nl])"
      using fun_cong[OF r(4), of q] by (simp only: fun_upd_same)
    finally show ?thesis by (rule sym)
  qed
  then show ?thesis using r by blast
qed

end
