(* ===== verification/MigrateText.thy ===== *)
theory MigrateText
  imports RustText RustFs
begin

text \<open>
  The text functions of the \<^verbatim>\<open>last-amended-migrate\<close> crate: front-matter regions and the changelog sequence
  (\<^verbatim>\<open>frontmatter.rs\<close>), the escaping of double-quoted YAML values (\<^verbatim>\<open>escape.rs\<close>), the changelog field
  (\<^verbatim>\<open>changelog.rs\<close>), chain detection (\<^verbatim>\<open>eligibility.rs\<close>) and the split of a chain into entries
  (\<^verbatim>\<open>migrate.rs\<close>).  Errors keep their kind and reason; the path they name is left out.
\<close>

datatype migrate_error =
    MigIo io_kind
  | FrontmatterParse string
  | NotEligible
  | InvalidYamlProduced string
  | InvalidPath string
  | StateChainDiscardNotAuthorized nat

section \<open>Front matter\<close>

record frontmatter_doc =
  fd_raw :: string
  fd_last_amended_raw :: "string option"
  fd_changelog_present :: bool
  fd_changelog_items_raw :: "string list"

definition frontmatter_bounds :: "string \<Rightarrow> string + (nat \<times> nat)" where
  "frontmatter_bounds raw =
     (if \<not> starts_with (''---'' @ [nl]) raw then Inl ''missing opening --- frontmatter fence''
      else case find_sub (nl # ''---'') (drop 4 raw) of
        Some rel \<Rightarrow> Inr (4, 4 + rel)
      | None \<Rightarrow> Inl ''missing closing --- frontmatter fence'')"

fun find_line_from :: "(string \<Rightarrow> bool) \<Rightarrow> nat \<Rightarrow> string list \<Rightarrow> (nat \<times> string) option" where
  "find_line_from P offset [] = None"
| "find_line_from P offset (line # rest) =
     (if P line then Some (offset, line) else find_line_from P (offset + length line) rest)"

definition find_key_line_start :: "string \<Rightarrow> nat \<times> nat \<Rightarrow> string \<Rightarrow> nat option" where
  "find_key_line_start raw region key =
     map_option fst (find_line_from (starts_with key) (fst region)
       (split_inclusive (seg (fst region) (snd region) raw)))"

definition dquote :: char where "dquote = CHR 0x22"

definition last_amended_key :: string where "last_amended_key = ''last_amended:''"

text \<open>Where the quoted value of the \<open>last_amended\<close> line starts and how long it is.\<close>

datatype value_span = NoKey | NoOpeningQuote | NoClosingQuote | ValueSpan nat nat

definition last_amended_span :: "string \<Rightarrow> nat \<times> nat \<Rightarrow> value_span" where
  "last_amended_span raw region =
     (case find_key_line_start raw region last_amended_key of
        None \<Rightarrow> NoKey
      | Some line_start \<Rightarrow>
          (let fm_end = snd region;
               after_key_start = line_start + length last_amended_key;
               line_end = (case find_sub [nl] (seg after_key_start fm_end raw) of
                   None \<Rightarrow> fm_end | Some p \<Rightarrow> after_key_start + p) in
           case find_sub [dquote] (seg after_key_start line_end raw) of
             None \<Rightarrow> NoOpeningQuote
           | Some first_q_rel \<Rightarrow>
               (let value_start = after_key_start + first_q_rel + 1 in
                case rfind_char dquote (seg value_start line_end raw) of
                  None \<Rightarrow> NoClosingQuote
                | Some last_q_rel \<Rightarrow> ValueSpan value_start last_q_rel)))"

definition extract_last_amended :: "string \<Rightarrow> nat \<times> nat \<Rightarrow> string option" where
  "extract_last_amended raw region =
     (case last_amended_span raw region of
        ValueSpan start len \<Rightarrow> Some (seg start (start + len) raw)
      | _ \<Rightarrow> None)"

fun split_items_loop :: "string \<Rightarrow> string list \<Rightarrow> string list" where
  "split_items_loop current [] = (if current \<noteq> [] then [current] else [])"
| "split_items_loop current (line # rest) =
     (if starts_with ''  - '' line \<and> current \<noteq> [] then current # split_items_loop line rest
      else split_items_loop (current @ line) rest)"

definition split_into_items :: "string \<Rightarrow> string list" where
  "split_into_items sequence_text = split_items_loop [] (split_inclusive sequence_text)"

definition changelog_key :: string where "changelog_key = ''changelog:''"

definition changelog_sequence_bounds :: "string \<Rightarrow> (nat \<times> nat) option" where
  "changelog_sequence_bounds raw =
     (case frontmatter_bounds raw of
        Inl _ \<Rightarrow> None
      | Inr (fm_start, fm_end) \<Rightarrow>
          (case find_line_from (\<lambda>line. line = changelog_key @ [nl] \<or> line = changelog_key) fm_start
              (split_inclusive (seg fm_start fm_end raw)) of
             None \<Rightarrow> None
           | Some (offset, line) \<Rightarrow>
               (let seq_start = offset + length line;
                    seq_end = (case find_line_from
                        (\<lambda>line. let content = trim_end_char nl line in content \<noteq> [] \<and> \<not> starts_with '' '' content)
                        seq_start (split_inclusive (seg seq_start fm_end raw)) of
                      Some (off2, _) \<Rightarrow> off2 | None \<Rightarrow> fm_end) in
                Some (seq_start, seq_end))))"

definition extract_changelog :: "string \<Rightarrow> nat \<times> nat \<Rightarrow> bool \<times> string list" where
  "extract_changelog raw region =
     (case find_key_line_start raw region changelog_key of
        None \<Rightarrow> (False, [])
      | Some _ \<Rightarrow>
          (case changelog_sequence_bounds raw of
             Some (seq_start, seq_end) \<Rightarrow>
               if fst region \<le> seq_start \<and> seq_end \<le> snd region
               then (True, split_into_items (seg seq_start seq_end raw)) else (True, [])
           | None \<Rightarrow> (True, [])))"

definition doc_of_text :: "string \<Rightarrow> migrate_error + frontmatter_doc" where
  "doc_of_text raw =
     (case frontmatter_bounds raw of
        Inl reason \<Rightarrow> Inl (FrontmatterParse reason)
      | Inr region \<Rightarrow>
          (case extract_changelog raw region of (present, items) \<Rightarrow>
             Inr \<lparr>fd_raw = raw, fd_last_amended_raw = extract_last_amended raw region,
               fd_changelog_present = present, fd_changelog_items_raw = items\<rparr>))"

definition set_last_amended :: "frontmatter_doc \<Rightarrow> string \<Rightarrow> migrate_error + frontmatter_doc" where
  "set_last_amended doc new_value =
     (case frontmatter_bounds (fd_raw doc) of
        Inl reason \<Rightarrow> Inl (FrontmatterParse reason)
      | Inr region \<Rightarrow>
          (case last_amended_span (fd_raw doc) region of
             NoKey \<Rightarrow> Inl (FrontmatterParse ''last_amended key not found while writing new value'')
           | NoOpeningQuote \<Rightarrow> Inl (FrontmatterParse ''last_amended value has no opening quote'')
           | NoClosingQuote \<Rightarrow> Inl (FrontmatterParse ''last_amended value has no closing quote'')
           | ValueSpan start len \<Rightarrow>
               Inr (doc\<lparr>fd_raw := take start (fd_raw doc) @ new_value @ drop (start + len) (fd_raw doc),
                 fd_last_amended_raw := Some new_value\<rparr>)))"

section \<open>Escaping\<close>

text \<open>Every character with a rule of its own is ASCII, so the byte loop is the character loop.\<close>

definition backslash :: char where "backslash = CHR 0x5C"

definition is_ascii_hexdigit :: "char \<Rightarrow> bool" where
  "is_ascii_hexdigit c \<longleftrightarrow> is_ascii_digit c \<or> 65 \<le> byte c \<and> byte c \<le> 70 \<or> 97 \<le> byte c \<and> byte c \<le> 102"

definition is_raw_control :: "char \<Rightarrow> bool" where "is_raw_control c \<longleftrightarrow> byte c < 32"

text \<open>The length of the escape that starts at the head, a backslash.\<close>

definition recognized_escape_len :: "string \<Rightarrow> nat option" where
  "recognized_escape_len s =
     (case tl s of
        [] \<Rightarrow> None
      | c # rest \<Rightarrow>
          if c \<in> {backslash, dquote, CHR ''n'', CHR ''r'', CHR ''t''} then Some 2
          else if c = CHR ''x'' then
            (case rest of h1 # h2 # _ \<Rightarrow> if is_ascii_hexdigit h1 \<and> is_ascii_hexdigit h2 then Some 4 else None | _ \<Rightarrow> None)
          else None)"

function needs_escaping :: "string \<Rightarrow> bool" where
  "needs_escaping [] = False"
| "needs_escaping (c # s) =
     (if c = backslash then
        (case recognized_escape_len (c # s) of
           Some len \<Rightarrow> needs_escaping (drop (len - 1) s)
         | None \<Rightarrow> True)
      else if c = dquote then True
      else if is_raw_control c then True
      else needs_escaping s)"
  by pat_completeness auto
termination by (relation "measure length") auto

definition hex_upper :: "nat \<Rightarrow> char" where
  "hex_upper n = (if n < 10 then char_of (48 + n) else char_of (55 + n))"

definition escape_char :: "char \<Rightarrow> string" where
  "escape_char c =
     (if c = backslash then [backslash, backslash]
      else if c = dquote then [backslash, dquote]
      else if c = nl then [backslash, CHR ''n'']
      else if c = cr then [backslash, CHR ''r'']
      else if c = CHR 0x09 then [backslash, CHR ''t'']
      else if is_raw_control c then [backslash, CHR ''x'', hex_upper (byte c div 16), hex_upper (byte c mod 16)]
      else [c])"

definition escape_raw_value :: "string \<Rightarrow> string" where
  "escape_raw_value value = concat (map escape_char value)"

function escape_value :: "string \<Rightarrow> string" where
  "escape_value [] = []"
| "escape_value (c # s) =
     (if c = backslash then
        (case recognized_escape_len (c # s) of
           Some len \<Rightarrow> take len (c # s) @ escape_value (drop (len - 1) s)
         | None \<Rightarrow> [backslash, backslash] @ escape_value s)
      else escape_char c @ escape_value s)"
  by pat_completeness auto
termination by (relation "measure length") auto

section \<open>The changelog field\<close>

record changelog_item =
  ci_date :: string
  ci_version :: "string option"
  ci_summary :: string

datatype changelog_mutation = Added | AlreadyPresent | SkippedStateFile

definition insert_at :: "nat \<Rightarrow> string \<Rightarrow> string \<Rightarrow> string" where
  "insert_at n t s = take n s @ t @ drop n s"

definition ensure_changelog_field :: "frontmatter_doc \<Rightarrow> bool \<Rightarrow> changelog_mutation \<times> frontmatter_doc" where
  "ensure_changelog_field doc is_state_file =
     (if is_state_file then (SkippedStateFile, doc)
      else if fd_changelog_present doc then (AlreadyPresent, doc)
      else (Added, doc\<lparr>fd_raw := (case frontmatter_bounds (fd_raw doc) of
               Inr (_, fm_end) \<Rightarrow> insert_at (fm_end + 1) (changelog_key @ [nl]) (fd_raw doc)
             | Inl _ \<Rightarrow> fd_raw doc @ [nl] @ changelog_key @ [nl]), fd_changelog_present := True\<rparr>))"

definition quoted_value :: "string \<Rightarrow> string" where "quoted_value s = [dquote] @ s @ [dquote]"

definition render_item_block :: "changelog_item \<Rightarrow> string" where
  "render_item_block item =
     ''  - date: '' @ quoted_value (ci_date item) @ [nl] @
     (case ci_version item of Some v \<Rightarrow> ''    version: '' @ quoted_value v @ [nl] | None \<Rightarrow> []) @
     ''    change: '' @ quoted_value (ci_summary item) @ [nl]"

definition prepend_changelog_item :: "frontmatter_doc \<Rightarrow> changelog_item \<Rightarrow> frontmatter_doc" where
  "prepend_changelog_item doc item =
     (let block = render_item_block item; key_marker = changelog_key @ [nl]; raw = fd_raw doc in
      doc\<lparr>fd_raw := (case find_sub key_marker raw of
            Some pos \<Rightarrow> insert_at (pos + length key_marker) block raw
          | None \<Rightarrow>
              (case frontmatter_bounds raw of
                 Inr (_, fm_end) \<Rightarrow> insert_at (fm_end + 1) (key_marker @ block) raw
               | Inl _ \<Rightarrow> raw @ [nl] @ key_marker @ block)),
        fd_changelog_items_raw := block # fd_changelog_items_raw doc, fd_changelog_present := True\<rparr>)"

section \<open>Chains\<close>

datatype eligibility = CurrentEntryOnly | PriorChainSplit

definition chain_marker :: string where "chain_marker = '' [Prior:''"

definition check_eligibility :: "string \<Rightarrow> eligibility" where
  "check_eligibility last_amended_raw =
     (if contains chain_marker last_amended_raw then PriorChainSplit else CurrentEntryOnly)"

definition trim_start_char :: "char \<Rightarrow> string \<Rightarrow> string" where
  "trim_start_char c s = dropWhile (\<lambda>x. x = c) s"

text \<open>The positions of the markers, left to right and without overlap.\<close>

function marker_starts :: "nat \<Rightarrow> string \<Rightarrow> nat list" where
  "marker_starts cursor tail =
     (case find_sub chain_marker (drop cursor tail) of
        None \<Rightarrow> []
      | Some rel \<Rightarrow> (cursor + rel) # marker_starts (cursor + rel + length chain_marker) tail)"
  by auto
termination
  by (relation "measure (\<lambda>(cursor, tail). length tail - cursor)") (auto simp: chain_marker_def dest!: find_sub_bound)

declare marker_starts.simps [simp del]

text \<open>Each entry runs to the next marker; only the last one sheds its closing brackets.\<close>

fun entry_slices :: "string \<Rightarrow> nat list \<Rightarrow> string list" where
  "entry_slices tail [] = []"
| "entry_slices tail (start # rest) =
     (let raw_entry = seg start (case rest of e # _ \<Rightarrow> e | [] \<Rightarrow> length tail) tail;
          stripped = trim_start_char (CHR '' '')
            (case strip_prefix chain_marker raw_entry of Some s \<Rightarrow> s | None \<Rightarrow> raw_entry) in
      (if rest = [] then trim_end_char (CHR '']'') stripped else stripped) # entry_slices tail rest)"

definition split_tail_entries :: "string \<Rightarrow> string list" where
  "split_tail_entries tail = entry_slices tail (marker_starts 0 tail)"

definition em_dash :: string where "em_dash = [CHR 0xE2, CHR 0x80, CHR 0x94]"

text \<open>The date, the version in parentheses and the summary after the dash.\<close>

definition parse_dated_entry :: "string \<Rightarrow> string \<times> string option \<times> string" where
  "parse_dated_entry entry_text =
     (case find_sub '' '' entry_text of
        None \<Rightarrow> (entry_text, None, [])
      | Some space_pos \<Rightarrow>
          (let date = take space_pos entry_text; rest = drop (space_pos + 1) entry_text;
               plain = (date, None, rest) in
           case find_sub ''('' rest of
             None \<Rightarrow> plain
           | Some open_at \<Rightarrow>
               (case find_sub '')'' (drop open_at rest) of
                  None \<Rightarrow> plain
                | Some close_rel \<Rightarrow>
                    (let close = open_at + close_rel;
                         version = seg (open_at + 1) close rest;
                         after_paren = drop (close + 1) rest in
                     case find_sub em_dash after_paren of
                       None \<Rightarrow> plain
                     | Some dash_pos \<Rightarrow>
                         (date, Some version, trim_start_char (CHR '' '') (drop (dash_pos + length em_dash) after_paren))))))"

section \<open>Escaping is sound\<close>

lemma hex_upper_digit: "n < 16 \<Longrightarrow> is_ascii_hexdigit (hex_upper n)"
  by (auto simp: hex_upper_def is_ascii_hexdigit_def is_ascii_digit_def)

lemma escape_char_clean: "c \<noteq> backslash \<Longrightarrow> needs_escaping (escape_char c @ s) = needs_escaping s"
  by (auto simp: escape_char_def recognized_escape_len_def backslash_def dquote_def hex_upper_digit is_raw_control_def)

lemma recognized_escape_cases:
  assumes "recognized_escape_len (c # s) = Some len"
  obtains (two) d r where "s = d # r" "len = 2" "d \<in> {backslash, dquote, CHR ''n'', CHR ''r'', CHR ''t''}"
  | (four) h1 h2 r where "s = CHR ''x'' # h1 # h2 # r" "len = 4" "is_ascii_hexdigit h1" "is_ascii_hexdigit h2"
  using assms by (auto simp: recognized_escape_len_def split: list.splits if_splits)

lemma recognized_prefix:
  "recognized_escape_len (c # s) = Some len \<Longrightarrow> recognized_escape_len (take len (c # s) @ t) = Some len"
  by (erule recognized_escape_cases) (auto simp: recognized_escape_len_def backslash_def dquote_def)

lemma escape_value_clean: "\<not> needs_escaping (escape_value v)"
proof (induction v rule: escape_value.induct)
  case (2 c s)
  show ?case
  proof (cases "c = backslash")
    case True
    show ?thesis
    proof (cases "recognized_escape_len (c # s)")
      case None
      have "recognized_escape_len (backslash # backslash # t) = Some 2" for t by (simp add: recognized_escape_len_def)
      then show ?thesis using 2(1)[OF True None] True None by simp
    next
      case (Some len)
      have ih: "\<not> needs_escaping (escape_value (drop (len - 1) s))" using 2(2)[OF True Some] .
      from Some show ?thesis
        by (cases rule: recognized_escape_cases)
          (use ih Some True in \<open>auto simp: recognized_escape_len_def backslash_def dquote_def\<close>)
    qed
  next
    case False
    then show ?thesis using 2(3) by (simp add: escape_char_clean)
  qed
qed simp

lemma escape_value_id: "\<not> needs_escaping v \<Longrightarrow> escape_value v = v"
proof (induction v rule: escape_value.induct)
  case (2 c s)
  show ?case
  proof (cases "c = backslash")
    case True
    then obtain len where len: "recognized_escape_len (c # s) = Some len" using 2(4) by (auto split: option.splits)
    then have "\<not> needs_escaping (drop (len - 1) s)" using 2(4) True by simp
    then have "escape_value (drop (len - 1) s) = drop (len - 1) s" using 2(2)[OF True len] by simp
    with len show ?thesis
      by (cases rule: recognized_escape_cases) (use True len in auto)
  next
    case False
    then have "escape_char c = [c]" "\<not> needs_escaping s"
      using 2(4) by (auto simp: escape_char_def is_raw_control_def split: if_splits)
    then show ?thesis using 2(3) False by simp
  qed
qed simp

text \<open>The reading of a double-quoted value: the escapes this crate writes, decoded.\<close>

definition hex_value :: "char \<Rightarrow> nat" where
  "hex_value c = (if is_ascii_digit c then byte c - 48 else if byte c \<le> 70 then byte c - 55 else byte c - 87)"

function unescape :: "string \<Rightarrow> string option" where
  "unescape [] = Some []"
| "unescape (c # s) =
     (if c = backslash then
        (case recognized_escape_len (c # s) of
           None \<Rightarrow> None
         | Some len \<Rightarrow>
             map_option (\<lambda>t. (let d = hd s in
                 if len = 4 then char_of (16 * hex_value (s ! 1) + hex_value (s ! 2))
                 else if d = CHR ''n'' then nl else if d = CHR ''r'' then cr
                 else if d = CHR ''t'' then CHR 0x09 else d) # t) (unescape (drop (len - 1) s)))
      else if c = dquote \<or> is_raw_control c then None
      else map_option ((#) c) (unescape s))"
  by pat_completeness auto
termination by (relation "measure length") auto

lemma hex_value_upper: "n < 16 \<Longrightarrow> hex_value (hex_upper n) = n"
  by (auto simp: hex_upper_def hex_value_def is_ascii_digit_def)

lemma unescape_char: "unescape (escape_char c @ s) = map_option ((#) c) (unescape s)"
proof -
  have plain: "recognized_escape_len (backslash # d # s) = Some 2" if "d \<in> {backslash, dquote, CHR ''n'', CHR ''r'', CHR ''t''}" for d
    using that by (simp add: recognized_escape_len_def)
  have d: "backslash \<noteq> CHR ''n'' \<and> backslash \<noteq> CHR ''r'' \<and> backslash \<noteq> CHR ''t'' \<and> dquote \<noteq> CHR ''n'' \<and> dquote \<noteq> CHR ''r'' \<and>
      dquote \<noteq> CHR ''t'' \<and> dquote \<noteq> backslash"
    by (simp add: backslash_def dquote_def)
  show ?thesis
  proof (cases "is_raw_control c \<and> c \<notin> {backslash, dquote, nl, cr, CHR 0x09}")
    case True
    then have n: "byte c div 16 < 16" "byte c mod 16 < 16" by (auto simp: is_raw_control_def)
    have r: "recognized_escape_len (backslash # CHR ''x'' # hex_upper (byte c div 16) # hex_upper (byte c mod 16) # s) = Some 4"
      using n by (simp add: recognized_escape_len_def hex_upper_digit backslash_def dquote_def)
    show ?thesis
      using True r n by (simp add: escape_char_def hex_value_upper)
  next
    case False
    then show ?thesis using plain d by (auto simp: escape_char_def)
  qed
qed

lemma escape_raw_reads_back: "unescape (escape_raw_value s) = Some s"
  unfolding escape_raw_value_def by (induction s) (simp_all add: unescape_char)

lemma unescape_defined: "\<not> needs_escaping v \<longleftrightarrow> unescape v \<noteq> None"
proof (induction v rule: needs_escaping.induct)
  case (2 c s)
  then show ?case by (auto split: option.splits)
qed simp


end
