(* ===== verification/MigrateRotate.thy ===== *)
theory MigrateRotate
  imports MigrateText AtomicReplace
begin

text \<open>
  The file operations of \<^verbatim>\<open>last-amended-migrate\<close>: the rotation of old changelog items into an archive
  (\<^verbatim>\<open>rotate.rs\<close>) and the one-file migration (\<^verbatim>\<open>migrate.rs\<close>).  The strict YAML reader (\<^verbatim>\<open>serde_norway\<close>) is a
  parameter: it accepts a text or gives its error.  A path is printed from its components.
\<close>

record mig_env =
  my_frontmatter :: "string \<Rightarrow> string + unit"
  my_changelog :: "string \<Rightarrow> string + unit"

section \<open>The YAML guard\<close>

definition frontmatter_block :: "string \<Rightarrow> string option" where
  "frontmatter_block file_content =
     Option.bind (strip_prefix (''---'' @ [nl]) file_content)
       (\<lambda>after_open. map_option (\<lambda>end_at. take end_at after_open) (find_sub (nl # ''---'') after_open))"

definition validate_frontmatter_yaml :: "mig_env \<Rightarrow> string \<Rightarrow> migrate_error + unit" where
  "validate_frontmatter_yaml env raw =
     (case frontmatter_block raw of
        None \<Rightarrow> Inl (InvalidYamlProduced ''produced content has no valid --- frontmatter fence to validate'')
      | Some block \<Rightarrow>
          (case my_frontmatter env block of Inl e \<Rightarrow> Inl (InvalidYamlProduced e) | Inr _ \<Rightarrow> Inr ()))"

definition validate_changelog_sequence_yaml :: "mig_env \<Rightarrow> string \<Rightarrow> migrate_error + unit" where
  "validate_changelog_sequence_yaml env items_raw =
     (case my_changelog env (changelog_key @ [nl] @ items_raw) of
        Inl e \<Rightarrow> Inl (InvalidYamlProduced e) | Inr _ \<Rightarrow> Inr ())"

section \<open>Paths\<close>

fun component_text :: "component \<Rightarrow> string" where
  "component_text RootDir = []"
| "component_text CurDir = ''.''"
| "component_text ParentDir = ''..''"
| "component_text (Normal s) = s"

fun join_slash :: "string list \<Rightarrow> string" where
  "join_slash [] = []"
| "join_slash [s] = s"
| "join_slash (s # ss) = s @ ''/'' @ join_slash ss"

definition path_display :: "path \<Rightarrow> string" where
  "path_display p = (if p = [RootDir] then ''/'' else join_slash (map component_text p))"

function ancestors :: "path \<Rightarrow> path list" where
  "ancestors p = p # (case parent p of None \<Rightarrow> [] | Some q \<Rightarrow> ancestors q)"
  by auto
termination by (relation "measure length") (auto simp: length_parent)

declare ancestors.simps [simp del]

definition factory_ancestor :: "path \<Rightarrow> path option" where
  "factory_ancestor p = find (\<lambda>a. file_name a = Some ''.factory'') (ancestors p)"

definition strip_path_prefix :: "path \<Rightarrow> path \<Rightarrow> path option" where
  "strip_path_prefix base_dir p = (if starts_with base_dir p then Some (drop (length base_dir) p) else None)"

definition resolve_archive_path :: "path \<Rightarrow> string \<Rightarrow> migrate_error + path" where
  "resolve_archive_path path cycle_name =
     (case Option.bind (file_stem path) (\<lambda>s. if utf8_valid s then Some s else None) of
        None \<Rightarrow> Inl (FrontmatterParse ''cannot derive a file stem for the archive naming convention'')
      | Some basename \<Rightarrow>
          (let factory_root = (case factory_ancestor path of Some a \<Rightarrow> a
              | None \<Rightarrow> join (parent_or [CurDir] path) [Normal ''.factory'']) in
           Inr (join_name (join_name (join factory_root [Normal ''cycles'']) cycle_name)
             (basename @ ''-changelog-archive.md''))))"

section \<open>Rotation\<close>

datatype migration_mode = Check | Apply

record rotation_report =
  rr_items_moved :: nat
  rr_mutated :: bool

definition archive_key :: string where "archive_key = ''changelog_archive:''"

definition remove_lines_with_prefix :: "string \<Rightarrow> string \<Rightarrow> string" where
  "remove_lines_with_prefix t prefix = concat (filter (\<lambda>line. \<not> starts_with prefix line) (split_inclusive t))"

definition relative_archive :: "path \<Rightarrow> path \<Rightarrow> path option" where
  "relative_archive path archive_path =
     (if is_absolute archive_path
      then Option.bind (factory_ancestor path) (\<lambda>factory_dir.
        Option.bind (parent factory_dir) (\<lambda>repo_root. strip_path_prefix repo_root archive_path))
      else None)"

definition pointer_line :: "path \<Rightarrow> path \<Rightarrow> string" where
  "pointer_line path archive_path =
     archive_key @ '' '' @ quoted_value (escape_raw_value (path_display
       (case relative_archive path archive_path of Some p \<Rightarrow> p | None \<Rightarrow> archive_path)))"

definition rewrite_source_after_rotation ::
  "path \<Rightarrow> string \<Rightarrow> string list \<Rightarrow> path \<Rightarrow> migrate_error + string"
where
  "rewrite_source_after_rotation path raw keep_items archive_path =
     (case changelog_sequence_bounds raw of
        None \<Rightarrow> Inl (FrontmatterParse ''changelog: sequence not found while rewriting after rotation'')
      | Some (seq_start, seq_end) \<Rightarrow>
          Inr (take seq_start raw @ concat keep_items @ pointer_line path archive_path @ [nl] @
            remove_lines_with_prefix (drop seq_end raw) archive_key))"

definition parse_frontmatter :: "path \<Rightarrow> world \<Rightarrow> (migrate_error + frontmatter_doc) \<times> world" where
  "parse_frontmatter path w =
     (case fs_read_to_string path w of
        (Inl k, w) \<Rightarrow> (Inl (MigIo k), w)
      | (Inr raw, w) \<Rightarrow> (doc_of_text raw, w))"

definition path_exists :: "path \<Rightarrow> world \<Rightarrow> bool \<times> world" where
  "path_exists p w = (case fs_metadata p w of (r, w) \<Rightarrow> (\<not> isl r, w))"

definition read_archive :: "path \<Rightarrow> world \<Rightarrow> (migrate_error + string) \<times> world" where
  "read_archive archive_path w =
     (case path_exists archive_path w of
        (False, w) \<Rightarrow> (Inr [], w)
      | (True, w) \<Rightarrow>
          (case fs_read_to_string archive_path w of (Inl k, w) \<Rightarrow> (Inl (MigIo k), w) | (Inr c, w) \<Rightarrow> (Inr c, w)))"

definition with_newline :: "string \<Rightarrow> string" where
  "with_newline s = (if s \<noteq> [] \<and> \<not> ends_with [nl] s then s @ [nl] else s)"

definition write_io :: "path \<Rightarrow> string \<Rightarrow> world \<Rightarrow> (migrate_error + unit) \<times> world" where
  "write_io p c w = (case write_atomic p c w of (Inl k, w) \<Rightarrow> (Inl (MigIo k), w) | (Inr _, w) \<Rightarrow> (Inr (), w))"

definition make_parent :: "path \<Rightarrow> world \<Rightarrow> (migrate_error + unit) \<times> world" where
  "make_parent p w =
     (case parent p of
        None \<Rightarrow> (Inr (), w)
      | Some d \<Rightarrow> (case fs_create_dir_all d w of (Inl k, w) \<Rightarrow> (Inl (MigIo k), w) | (Inr _, w) \<Rightarrow> (Inr (), w)))"

text \<open>The two writes: first the archive, then the source.\<close>

definition move_items ::
  "mig_env \<Rightarrow> path \<Rightarrow> path \<Rightarrow> string \<Rightarrow> string list \<Rightarrow> string list \<Rightarrow> world \<Rightarrow> (migrate_error + unit) \<times> world"
where
  "move_items env path archive_path raw keep_items moved w =
     (case make_parent archive_path w of
        (Inl e, w) \<Rightarrow> (Inl e, w)
      | (Inr _, w) \<Rightarrow>
     (case read_archive archive_path w of
        (Inl e, w) \<Rightarrow> (Inl e, w)
      | (Inr old, w) \<Rightarrow>
     (let archive_content = with_newline old @ concat moved in
      case validate_changelog_sequence_yaml env archive_content of
        Inl e \<Rightarrow> (Inl e, w)
      | Inr _ \<Rightarrow>
     (case write_io archive_path archive_content w of
        (Inl e, w) \<Rightarrow> (Inl e, w)
      | (Inr _, w) \<Rightarrow>
     (case rewrite_source_after_rotation path raw keep_items archive_path of
        Inl e \<Rightarrow> (Inl e, w)
      | Inr new_raw \<Rightarrow>
     (case validate_frontmatter_yaml env new_raw of
        Inl e \<Rightarrow> (Inl e, w)
      | Inr _ \<Rightarrow> write_io path new_raw w))))))"

definition rotate_changelog_at ::
  "mig_env \<Rightarrow> path \<Rightarrow> path \<Rightarrow> nat \<Rightarrow> migration_mode \<Rightarrow> world \<Rightarrow> (migrate_error + rotation_report) \<times> world"
where
  "rotate_changelog_at env path archive_path keep_recent mode w =
     (case parse_frontmatter path w of
        (Inl e, w) \<Rightarrow> (Inl e, w)
      | (Inr doc, w) \<Rightarrow>
          if ParentDir \<in> set archive_path
          then (Inl (InvalidPath ''archive_path must not contain parent-directory (..) traversal components''), w)
          else let items = fd_changelog_items_raw doc; total = length items in
            if total \<le> keep_recent then (Inr \<lparr>rr_items_moved = 0, rr_mutated = False\<rparr>, w)
            else let moved_count = total - keep_recent in
              if mode = Check then (Inr \<lparr>rr_items_moved = moved_count, rr_mutated = False\<rparr>, w)
              else (case move_items env path archive_path (fd_raw doc) (take keep_recent items) (drop keep_recent items) w of
                  (Inl e, w) \<Rightarrow> (Inl e, w)
                | (Inr _, w) \<Rightarrow> (Inr \<lparr>rr_items_moved = moved_count, rr_mutated = True\<rparr>, w)))"

definition rotate_changelog ::
  "mig_env \<Rightarrow> path \<Rightarrow> string \<Rightarrow> nat \<Rightarrow> migration_mode \<Rightarrow> world \<Rightarrow> (migrate_error + rotation_report) \<times> world"
where
  "rotate_changelog env path cycle_name keep_recent mode w =
     (case resolve_archive_path path cycle_name of
        Inl e \<Rightarrow> (Inl e, w)
      | Inr archive_path \<Rightarrow> rotate_changelog_at env path archive_path keep_recent mode w)"

section \<open>One-file migration\<close>

record migration_report =
  mr_eligibility :: eligibility
  mr_changelog_mutation :: changelog_mutation
  mr_escape_fixed :: bool
  mr_entries_relocated :: nat
  mr_entries_discarded :: nat
  mr_mutated :: bool

definition is_state_file :: "path \<Rightarrow> bool" where
  "is_state_file p \<longleftrightarrow> file_name p = Some ''STATE.md''"

definition fix_value :: "string \<Rightarrow> bool \<times> string" where
  "fix_value v = (if needs_escaping v then (True, escape_value v) else (False, v))"

text \<open>An entry of the chain as a changelog item, and whether a field needed a repair.\<close>

definition item_of_entry :: "string \<Rightarrow> bool \<times> changelog_item" where
  "item_of_entry entry_text =
     (case parse_dated_entry entry_text of (date, version, summary) \<Rightarrow>
      (case fix_value date of (f1, date) \<Rightarrow>
      (case (case version of None \<Rightarrow> (False, None) | Some v \<Rightarrow> (case fix_value v of (f, v) \<Rightarrow> (f, Some v))) of (f2, version) \<Rightarrow>
      (case fix_value summary of (f3, summary) \<Rightarrow>
        (f1 \<or> f2 \<or> f3, \<lparr>ci_date = date, ci_version = version, ci_summary = summary\<rparr>)))))"

fun prepend_entries :: "string list \<Rightarrow> bool \<times> frontmatter_doc \<Rightarrow> bool \<times> frontmatter_doc" where
  "prepend_entries [] acc = acc"
| "prepend_entries (entry # rest) (fixed, doc) =
     (case item_of_entry entry of (f, item) \<Rightarrow> prepend_entries rest (fixed \<or> f, prepend_changelog_item doc item))"

definition migrate_doc ::
  "frontmatter_doc \<Rightarrow> string \<Rightarrow> bool \<Rightarrow> bool \<Rightarrow> migrate_error + (migration_report \<times> frontmatter_doc)"
where
  "migrate_doc doc raw_last_amended is_state discard_state_chain =
     (case check_eligibility raw_last_amended of
        CurrentEntryOnly \<Rightarrow>
          (case ensure_changelog_field doc is_state of (mutation, doc) \<Rightarrow>
             let report = (\<lambda>fixed. \<lparr>mr_eligibility = CurrentEntryOnly, mr_changelog_mutation = mutation, mr_escape_fixed = fixed,
                   mr_entries_relocated = 0, mr_entries_discarded = 0, mr_mutated = (mutation = Added \<or> fixed)\<rparr>) in
             if needs_escaping raw_last_amended then
               (case set_last_amended doc (escape_value raw_last_amended) of
                  Inl e \<Rightarrow> Inl e | Inr doc \<Rightarrow> Inr (report True, doc))
             else Inr (report False, doc))
      | PriorChainSplit \<Rightarrow>
          (let marker_pos = (case find_sub chain_marker raw_last_amended of Some i \<Rightarrow> i | None \<Rightarrow> length raw_last_amended);
               entries = split_tail_entries (drop marker_pos raw_last_amended) in
           if is_state \<and> \<not> discard_state_chain then Inl (StateChainDiscardNotAuthorized (length entries))
           else (case fix_value (take marker_pos raw_last_amended) of (fixed, new_current) \<Rightarrow>
             (case set_last_amended doc new_current of
                Inl e \<Rightarrow> Inl e
              | Inr doc \<Rightarrow>
                  (case ensure_changelog_field doc is_state of (mutation, doc) \<Rightarrow>
                    (case (if is_state then (fixed, doc) else prepend_entries (rev entries) (fixed, doc)) of (fixed, doc) \<Rightarrow>
                       Inr (\<lparr>mr_eligibility = PriorChainSplit, mr_changelog_mutation = mutation, mr_escape_fixed = fixed,
                         mr_entries_relocated = (if is_state then 0 else length entries),
                         mr_entries_discarded = (if is_state then length entries else 0), mr_mutated = True\<rparr>, doc)))))))"

definition migrate_file ::
  "mig_env \<Rightarrow> path \<Rightarrow> migration_mode \<Rightarrow> bool \<Rightarrow> world \<Rightarrow> (migrate_error + migration_report) \<times> world"
where
  "migrate_file env path mode discard_state_chain w =
     (case parse_frontmatter path w of
        (Inl e, w) \<Rightarrow> (Inl e, w)
      | (Inr doc, w) \<Rightarrow>
          (case fd_last_amended_raw doc of
             None \<Rightarrow> (Inl NotEligible, w)
           | Some raw_last_amended \<Rightarrow>
               (case migrate_doc doc raw_last_amended (is_state_file path) discard_state_chain of
                  Inl e \<Rightarrow> (Inl e, w)
                | Inr (report, doc) \<Rightarrow>
                    if mr_mutated report \<and> mode = Apply
                    then (case validate_frontmatter_yaml env (fd_raw doc) of
                        Inl e \<Rightarrow> (Inl e, w)
                      | Inr _ \<Rightarrow> (case write_io path (fd_raw doc) w of (Inl e, w) \<Rightarrow> (Inl e, w) | (Inr _, w) \<Rightarrow> (Inr report, w)))
                    else (Inr report, w))))"

definition target_files :: "string list" where
  "target_files = [''stories/STORY-INDEX.md'', ''specs/behavioral-contracts/BC-INDEX.md'',
     ''specs/architecture/ARCH-INDEX.md'', ''specs/verification-properties/VP-INDEX.md'', ''STATE.md'']"

fun migrate_files ::
  "mig_env \<Rightarrow> path \<Rightarrow> migration_mode \<Rightarrow> bool \<Rightarrow> string list \<Rightarrow> world \<Rightarrow> (migrate_error + migration_report list) \<times> world"
where
  "migrate_files env factory_root mode discard [] w = (Inr [], w)"
| "migrate_files env factory_root mode discard (rel # rest) w =
     (case migrate_file env (join_name factory_root rel) mode discard w of
        (Inl e, w) \<Rightarrow> (Inl e, w)
      | (Inr report, w) \<Rightarrow>
          (case migrate_files env factory_root mode discard rest w of
             (Inl e, w) \<Rightarrow> (Inl e, w) | (Inr reports, w) \<Rightarrow> (Inr (report # reports), w)))"

definition migrate_all ::
  "mig_env \<Rightarrow> path \<Rightarrow> migration_mode \<Rightarrow> bool \<Rightarrow> world \<Rightarrow> (migrate_error + migration_report list) \<times> world"
where
  "migrate_all env factory_root mode discard w = migrate_files env factory_root mode discard target_files w"

end
