(* ===== verification/MigrateClaims.thy ===== *)
theory MigrateClaims
  imports MigrateRotate
begin

text \<open>
  A rotation of the changelog never loses an item, whatever fails; on a file in the usual layout it
  keeps exactly the recent items and moves exactly the others.
\<close>

section \<open>Safety under faults\<close>

definition rotation_setting :: "world \<Rightarrow> path \<Rightarrow> path \<Rightarrow> bool" where
  "rotation_setting w p a \<longleftrightarrow> p \<noteq> a \<and> atomic_tmp_path (pid w) p \<noteq> a \<and> atomic_tmp_path (pid w) a \<noteq> p \<and>
     atomic_tmp_path (pid w) p \<noteq> atomic_tmp_path (pid w) a \<and>
     tmp_ok w (atomic_tmp_path (pid w) p) p \<and> tmp_ok w (atomic_tmp_path (pid w) a) a"

lemma make_dirs_pid: "make_dirs p cs w = (r, w') \<Longrightarrow> pid w' = pid w \<and> (faults w = [] \<longrightarrow> faults w' = [])"
  by (induction cs arbitrary: p w) (auto simp: Let_def split: option.splits node.splits if_splits)

lemma make_parent_spec:
  assumes "make_parent a w = (r, w')"
  shows "only_dirs w w' \<and> pid w' = pid w \<and> (faults w = [] \<longrightarrow> faults w' = [])"
proof (cases "parent a")
  case (Some d)
  obtain b v where m: "fs_create_dir_all d w = (b, v)" by fastforce
  then have v: "v = w'" using assms Some by (auto simp: make_parent_def split: sum.splits)
  have "pid v = pid w"
    using m unfolding fs_create_dir_all_def by (auto elim!: syscall_cases dest!: make_dirs_pid simp: frame_pid)
  moreover have "faults w = [] \<longrightarrow> faults v = []"
    using m make_dirs_pid by (auto simp: fs_create_dir_all_def)
  ultimately have "pid v = pid w \<and> (faults w = [] \<longrightarrow> faults v = [])" by simp
  then show ?thesis using create_dir_all_spec[OF m] v by simp
qed (use assms in \<open>simp add: make_parent_def only_dirs_refl\<close>)

lemma read_archive_frame:
  assumes "read_archive a w = (r, w')"
  shows "frame {} w w'"
  using assms
  by (auto simp: read_archive_def path_exists_def intro: frame_trans split: prod.splits sum.splits bool.splits
      dest!: fs_metadata_frame fs_read_to_string_frame)

text \<open>What is read is the archive, or nothing when the existence probe fails.\<close>

lemma read_archive_content:
  assumes "read_archive a w = (Inr old, w')"
  shows "look w a = Some (File c) \<Longrightarrow> old = c \<or> old = []"
    "look w a = None \<Longrightarrow> old = []"
    "faults w = [] \<Longrightarrow> look w a = Some (File c) \<Longrightarrow> old = c"
proof -
  obtain m v where m: "fs_metadata a w = (m, v)" by fastforce
  note f = frame_empty_look[OF fs_metadata_frame[OF m]]
  have read: "old = d" if "\<not> isl m" "look w a = Some (File d)" for d
  proof -
    obtain x u where x: "fs_read_to_string a v = (x, u)" by fastforce
    then have "x = Inr old" using assms m that(1) by (auto simp: read_archive_def path_exists_def split: sum.splits)
    then show ?thesis
      using x that(2) f fs_read_to_string_result(2)[of a v x u old] by (simp add: get_node_follow_plain get_node_def)
  qed
  have none: "old = []" if "isl m" using assms m that by (simp add: read_archive_def path_exists_def)
  show "look w a = Some (File c) \<Longrightarrow> old = c \<or> old = []" using read none by blast
  show "look w a = None \<Longrightarrow> old = []"
  proof -
    assume n: "look w a = None"
    then have "get_node_follow w a = Inl (missing_error w a)" by (simp add: get_node_follow_plain get_node_def)
    then have "isl m" using m unfolding fs_metadata_def
      by (auto elim!: syscall_cases simp: look_cong(2)[OF frame_empty_look] look_cong(3)[OF frame_empty_look])
    then show "old = []" by (rule none)
  qed
  show "faults w = [] \<Longrightarrow> look w a = Some (File c) \<Longrightarrow> old = c"
  proof -
    assume "faults w = []" and l: "look w a = Some (File c)"
    then have "\<not> isl m" using m by (auto simp: fs_metadata_def get_node_follow_plain get_node_def)
    then show "old = c" using read l by blast
  qed
qed

lemma tmp_ok_keep: "tmp_ok w t p \<Longrightarrow> only_dirs w v \<Longrightarrow> tmp_ok v t p"
  unfolding tmp_ok_def only_dirs_def by (metis node.distinct(7) node.distinct(11) option.inject)

lemma frame_tmp_ok: "tmp_ok w t p \<Longrightarrow> frame S w v \<Longrightarrow> t \<notin> S \<Longrightarrow> tmp_ok v t p"
  by (simp add: tmp_ok_def frame_look)

text \<open>
  The archive holds what it held (or, when its probe failed, nothing) and then the moved items; the
  source is only rewritten after that.
\<close>

definition archived :: "world \<Rightarrow> path \<Rightarrow> string \<Rightarrow> world \<Rightarrow> bool" where
  "archived w a moved w' \<longleftrightarrow> (\<exists>old. look w' a = Some (File (with_newline old @ moved)) \<and>
     (\<forall>c. look w a = Some (File c) \<longrightarrow> old = c \<or> old = [] \<and> faults w \<noteq> []))"

lemma move_items_safe:
  assumes run: "move_items env p a raw keep moved w = (r, w')" and setting: "rotation_setting w p a"
    and src: "look w p = Some (File raw)"
  shows "case r of
      Inr _ \<Rightarrow> archived w a (concat moved) w' \<and> (\<exists>new. rewrite_source_after_rotation p raw keep a = Inr new \<and> look w' p = Some (File new))
    | Inl _ \<Rightarrow> look w' p = Some (File raw) \<and>
        (archived w a (concat moved) w' \<or> look w' a = look w a \<or> look w a = None)"
proof -
  let ?ta = "atomic_tmp_path (pid w) a" and ?tp = "atomic_tmp_path (pid w) p"
  have d: "p \<noteq> a" "?tp \<noteq> a" "?ta \<noteq> p" "tmp_ok w ?tp p" "tmp_ok w ?ta a" "?tp \<noteq> ?ta" using setting by (auto simp: rotation_setting_def)
  obtain mp w1 where c1: "make_parent a w = (mp, w1)" by fastforce
  note s1 = make_parent_spec[OF c1]
  have p1: "look w1 p = Some (File raw)" using s1 src unfolding only_dirs_def by (metis option.distinct(1))
  have a1: "look w1 a = look w a \<or> look w a = None" using s1 by (auto simp: only_dirs_def)
  obtain ra w2 where c2: "read_archive a w1 = (ra, w2)" by fastforce
  have f2: "frame {} w1 w2" "pid w2 = pid w" using read_archive_frame[OF c2] frame_pid s1 by auto
  have p2: "look w2 p = Some (File raw)" "look w2 a = look w1 a" using frame_empty_look[OF f2(1)] p1 by simp_all
  have ok: "tmp_ok w2 ?ta a" "tmp_ok w2 ?tp p"
    using tmp_ok_keep[OF d(5)] tmp_ok_keep[OF d(4)] s1 frame_tmp_ok[OF _ f2(1)] by auto
  show ?thesis
  proof (cases "isl mp \<or> isl ra \<or> validate_changelog_sequence_yaml env (with_newline (projr ra) @ concat moved) \<noteq> Inr ()")
    case True
    then have "(w' = w1 \<or> w' = w2) \<and> isl r"
      using run c1 c2 by (cases "validate_changelog_sequence_yaml env (with_newline (projr ra) @ concat moved)"; cases mp; cases ra)
        (auto simp: move_items_def Let_def dest!: sym[where s = "Inl _"])
    then show ?thesis using p1 p2 a1 by (auto split: sum.splits)
  next
    case False
    then obtain old where old: "ra = Inr old" "mp = Inr ()" and val: "validate_changelog_sequence_yaml env (with_newline old @ concat moved) = Inr ()"
      by (cases ra; cases mp) auto
    obtain wa w3 where c3: "write_atomic a (with_newline old @ concat moved) w2 = (wa, w3)" by fastforce
    have ok2: "tmp_ok w2 (atomic_tmp_path (pid w2) a) a" using ok f2 by simp
    note s3 = atomic.old_or_new[OF c3 ok2] and f3 = atomic.replace_frame[OF c3 ok2]
    have p3: "look w3 p = Some (File raw)" using frame_look[OF f3] d f2 p2 by simp
    have arch: "archived w a (concat moved) v" if "look v a = Some (File (with_newline old @ concat moved))" for v
    proof -
      have "old = c \<or> old = [] \<and> faults w \<noteq> []" if "look w a = Some (File c)" for c
      proof -
        have l1: "look w1 a = Some (File c)" using a1 that by simp
        show ?thesis
          using read_archive_content(1,3)[OF c2[unfolded old] ] l1 s1 by (cases "faults w = []") auto
      qed
      then show ?thesis using that by (auto simp: archived_def)
    qed
    show ?thesis
    proof (cases wa)
      case (Inl k)
      then have "w' = w3 \<and> isl r" using run c1 c2 old val c3 by (auto simp: move_items_def Let_def write_io_def)
      then show ?thesis using s3 Inl p3 p2 a1 by (auto split: sum.splits)
    next
      case (Inr u)
      then have a3: "look w3 a = Some (File (with_newline old @ concat moved))" using s3 by simp
      show ?thesis
      proof (cases "case rewrite_source_after_rotation p raw keep a of Inl e \<Rightarrow> None | Inr new \<Rightarrow>
          (case validate_frontmatter_yaml env new of Inl e \<Rightarrow> None | Inr _ \<Rightarrow> Some new)")
        case None
        then have "w' = w3 \<and> isl r"
          using run c1 c2 old val c3 Inr
          by (auto simp: move_items_def Let_def write_io_def split: sum.splits dest!: sym[where s = "Inl _"])
        then show ?thesis using p3 arch[OF a3] by (auto split: sum.splits)
      next
        case (Some new)
        then have new: "rewrite_source_after_rotation p raw keep a = Inr new" "validate_frontmatter_yaml env new = Inr ()"
          by (auto split: sum.splits)
        obtain wp w4 where c4: "write_atomic p new w3 = (wp, w4)" by fastforce
        have pid3: "pid w3 = pid w" using frame_pid[OF f3] f2 by simp
        have "tmp_ok w3 ?tp p"
          using frame_tmp_ok[OF ok(2) f3] d f2 by auto
        then have ok3: "tmp_ok w3 (atomic_tmp_path (pid w3) p) p" using pid3 by simp
        note s4 = atomic.old_or_new[OF c4 ok3] and f4 = atomic.replace_frame[OF c4 ok3]
        have a4: "look w4 a = look w3 a" using frame_look[OF f4] d pid3 by simp
        have "w' = w4 \<and> (isl r \<longleftrightarrow> isl wp)"
          using run unfolding move_items_def Let_def write_io_def c1 old(2) prod.case sum.case c2 old(1) val c3 Inr new c4
          by (cases wp) auto
        then show ?thesis
          using s4 p3 arch[of w4] a3 a4 new(1) by (cases r; cases wp) auto
      qed
    qed
  qed
qed

section \<open>Items of a text\<close>

lemma split_items_concat: "concat (split_items_loop cur ls) = cur @ concat ls"
  by (induction cur ls rule: split_items_loop.induct) auto

definition items_of :: "string \<Rightarrow> string list" where
  "items_of raw = (case doc_of_text raw of Inr doc \<Rightarrow> fd_changelog_items_raw doc | Inl _ \<Rightarrow> [])"


section \<open>The usual layout\<close>

definition yaml_line :: "string \<Rightarrow> bool" where
  "yaml_line l \<longleftrightarrow> l \<noteq> [] \<and> nl \<notin> set l \<and> \<not> starts_with ''---'' l"

definition item_lines :: "string list \<Rightarrow> bool" where
  "item_lines it = (case it of [] \<Rightarrow> False | h # t \<Rightarrow> starts_with ''  - '' h \<and>
     list_all (\<lambda>l. yaml_line l \<and> starts_with '' '' l) it \<and> list_all (\<lambda>l. \<not> starts_with ''  - '' l) t)"

lemma item_lines_iff:
  "item_lines it \<longleftrightarrow> (\<exists>h t. it = h # t \<and> starts_with ''  - '' h \<and>
     (\<forall>l\<in>set it. yaml_line l \<and> starts_with '' '' l) \<and> (\<forall>l\<in>set t. \<not> starts_with ''  - '' l))"
  by (cases it) (auto simp: item_lines_def list_all_iff)

definition changelog_layout :: "string list \<Rightarrow> string list list \<Rightarrow> string list \<Rightarrow> bool" where
  "changelog_layout pre items post \<longleftrightarrow> (\<forall>l\<in>set pre. yaml_line l \<and> l \<noteq> changelog_key) \<and> list_all item_lines items \<and>
     list_all yaml_line post \<and> post \<noteq> [] \<and> \<not> starts_with '' '' (hd post)"

definition changelog_file :: "string list \<Rightarrow> string list list \<Rightarrow> string list \<Rightarrow> string \<Rightarrow> string" where
  "changelog_file pre items post body =
     ''---'' @ nl # unlines (pre @ changelog_key # concat items @ post) @ ''---'' @ nl # body"

lemma find_fence:
  "\<forall>l\<in>set ls. yaml_line l \<Longrightarrow> ls \<noteq> [] \<Longrightarrow> find_sub (nl # ''---'') (unlines ls @ ''---'' @ s) = Some (length (unlines ls) - 1)"
proof (induction ls)
  case (Cons l ls)
  show ?case
  proof (cases ls)
    case Nil
    then show ?thesis using Cons.prems find_in_line[of l "''---''" "''---'' @ s"] by (simp add: yaml_line_def)
  next
    case (Cons k ks)
    have k: "nl \<notin> set k" "\<not> starts_with ''---'' k" using Cons.prems Cons by (auto simp: yaml_line_def)
    have "\<not> starts_with ''---'' (k @ nl # t)" for t
      using k by (cases k rule: list.exhaust[case_product list.exhaust[of "tl k"]]; cases "tl (tl k)")
        (auto simp: starts_with_def)
    then show ?thesis
      using Cons.IH Cons.prems Cons find_in_line[of l "''---''" "unlines ls @ ''---'' @ s"] by (simp add: yaml_line_def)
  qed
qed simp

lemma split_block:
  assumes "\<forall>l\<in>set ls. yaml_line l" "ls \<noteq> []"
  shows "split_inclusive (butlast (unlines ls)) = map (\<lambda>l. l @ [nl]) (butlast ls) @ [last ls]"
proof -
  obtain ks k where ls: "ls = ks @ [k]" using assms(2) by (metis rev_exhaust)
  then show ?thesis
    using assms(1) by (simp add: butlast_append split_inclusive_unlines split_inclusive_last yaml_line_def)
qed

lemma find_line_from_hit:
  "\<forall>x\<in>set xs. \<not> P x \<Longrightarrow> P y \<Longrightarrow> find_line_from P off (xs @ y # ys) = Some (off + length (concat xs), y)"
  by (induction xs arbitrary: off) auto

lemma split_item:
  assumes "item_lines it"
  shows "split_items_loop cur (map (\<lambda>l. l @ [nl]) it @ rest) =
     (if cur \<noteq> [] then cur # split_items_loop (unlines it) rest else split_items_loop (unlines it) rest)"
proof -
  obtain h t where it: "it = h # t" "starts_with ''  - '' h" "\<forall>l\<in>set t. yaml_line l \<and> \<not> starts_with ''  - '' l"
    using assms by (auto simp: item_lines_iff)
  have line: "starts_with ''  - '' (l @ [nl]) \<longleftrightarrow> starts_with ''  - '' l" for l
    by (cases l rule: list.exhaust[case_product list.exhaust[of "tl l"]]; cases "tl (tl l)"; cases "tl (tl (tl l))")
      (auto simp: starts_with_def)
  have tail: "split_items_loop c (map (\<lambda>l. l @ [nl]) t @ rest) = split_items_loop (c @ unlines t) rest" for c
    using it(3) by (induction t arbitrary: c) (auto simp: line)
  show ?thesis using it(1,2) tail by (auto simp: line)
qed

lemma split_items_lines:
  "list_all item_lines items \<Longrightarrow> cur \<noteq> [] \<Longrightarrow>
     split_items_loop cur (map (\<lambda>l. l @ [nl]) (concat items)) = cur # map unlines items"
proof (induction items arbitrary: cur)
  case (Cons it items)
  then have "unlines it \<noteq> []" by (auto simp: item_lines_iff)
  then show ?case using Cons split_item[of it cur "map (\<lambda>l. l @ [nl]) (concat items)"] by simp
qed simp

lemma items_of_block:
  assumes "list_all item_lines items"
  shows "split_into_items (unlines (concat items)) = map unlines items"
proof (cases items)
  case (Cons it its)
  have nonl: "\<forall>l\<in>set (concat items). nl \<notin> set l"
    using assms by (auto simp: list_all_iff item_lines_iff yaml_line_def)
  have "unlines it \<noteq> []" using assms Cons by (auto simp: item_lines_iff)
  then show ?thesis
    using assms Cons split_inclusive_unlines[OF nonl, of "[]"] split_item[of it "[]"] split_items_lines[of its "unlines it"]
    by (simp add: split_into_items_def)
qed (simp add: split_into_items_def)

text \<open>What the reader finds in a file in the usual layout.\<close>

lemma front_lines:
  assumes "changelog_layout pre items post"
  shows "\<forall>l\<in>set (pre @ changelog_key # concat items @ post). yaml_line l"
  using assms by (auto simp: changelog_layout_def list_all_iff item_lines_iff yaml_line_def changelog_key_def starts_with_def)

lemma front_matter_of_layout:
  assumes "changelog_layout pre items post"
  defines "ls \<equiv> pre @ changelog_key # concat items @ post"
  shows "frontmatter_bounds (changelog_file pre items post body) = Inr (4, 4 + (length (unlines ls) - 1))"
    "seg 4 (4 + (length (unlines ls) - 1)) (changelog_file pre items post body) = butlast (unlines ls)"
proof -
  have ok: "\<forall>l\<in>set ls. yaml_line l" "ls \<noteq> []" using front_lines[OF assms(1)] by (simp_all add: ls_def)
  have f: "changelog_file pre items post body = (''---'' @ [nl]) @ unlines ls @ ''---'' @ nl # body"
    by (simp add: changelog_file_def ls_def)
  have d: "drop 4 (changelog_file pre items post body) = unlines ls @ ''---'' @ nl # body" by (simp add: f)
  show "frontmatter_bounds (changelog_file pre items post body) = Inr (4, 4 + (length (unlines ls) - 1))"
    unfolding frontmatter_bounds_def d using find_fence[OF ok, of "nl # body"] starts_with_append[of "''---'' @ [nl]"]
    by (simp add: f)
  show "seg 4 (4 + (length (unlines ls) - 1)) (changelog_file pre items post body) = butlast (unlines ls)"
    using ok(2) by (simp add: seg_def d butlast_conv_take)
qed

lemma sequence_of_layout:
  assumes lay: "changelog_layout pre items post"
  defines "st \<equiv> length (''---'' @ nl # unlines (pre @ [changelog_key]))"
  shows "changelog_sequence_bounds (changelog_file pre items post body) = Some (st, st + length (unlines (concat items)))"
proof -
  let ?raw = "changelog_file pre items post body" and ?X = "concat items @ post"
  let ?ls = "pre @ changelog_key # ?X"
  define fm where "fm = 4 + (length (unlines ?ls) - 1)"
  have X: "\<forall>l\<in>set ?X. yaml_line l" "?X \<noteq> []" and pre: "\<forall>l\<in>set pre. yaml_line l \<and> l \<noteq> changelog_key"
    using front_lines[OF lay] lay by (auto simp: changelog_layout_def)
  have all: "\<forall>l\<in>set ?ls. yaml_line l" by (rule front_lines[OF lay])
  note fr = front_matter_of_layout[OF lay, of body, folded fm_def]
  have sp: "split_inclusive (butlast (unlines ?ls)) =
      map (\<lambda>l. l @ [nl]) pre @ (changelog_key @ [nl]) # map (\<lambda>l. l @ [nl]) (butlast ?X) @ [last ?X]"
    using split_block[OF all] X(2) by (simp add: butlast_append)
  have len: "4 + length (concat (map (\<lambda>l. l @ [nl]) pre)) + length (changelog_key @ [nl]) = st"
    by (simp add: st_def unlines_def)
  have key: "find_line_from (\<lambda>line. line = changelog_key @ [nl] \<or> line = changelog_key) 4 (split_inclusive (seg 4 fm ?raw)) =
      Some (4 + length (concat (map (\<lambda>l. l @ [nl]) pre)), changelog_key @ [nl])"
    unfolding fr(2) sp by (rule find_line_from_hit) (use pre in \<open>auto simp: changelog_key_def yaml_line_def\<close>)
  have raw: "?raw = (''---'' @ nl # unlines (pre @ [changelog_key])) @ unlines ?X @ ''---'' @ nl # body"
    by (simp add: changelog_file_def)
  have "fm = st + (length (unlines ?X) - 1)"
    using X(2) by (auto simp: fm_def st_def Suc_le_eq)
  then have segX: "seg st fm ?raw = butlast (unlines ?X)"
    using X(2) by (simp add: raw seg_def st_def butlast_conv_take)
  obtain q qs where q: "post = q # qs" using lay by (cases post) (auto simp: changelog_layout_def)
  have spX: "\<exists>y ys. split_inclusive (seg st fm ?raw) = map (\<lambda>l. l @ [nl]) (concat items) @ y # ys \<and> (y = q \<or> y = q @ [nl])"
    unfolding segX split_block[OF X] by (cases qs) (auto simp: q butlast_append)
  then obtain y ys where y: "split_inclusive (seg st fm ?raw) = map (\<lambda>l. l @ [nl]) (concat items) @ y # ys" "y = q \<or> y = q @ [nl]"
    by blast
  have trim: "trim_end_char nl l = l" "trim_end_char nl (l @ [nl]) = l" if "nl \<notin> set l" for l
  proof -
    have "dropWhile (\<lambda>x. x = nl) (rev l) = rev l" using that by (cases "rev l") (auto dest: arg_cong[of _ _ set])
    then show "trim_end_char nl l = l" "trim_end_char nl (l @ [nl]) = l" by (simp_all add: trim_end_char_def)
  qed
  let ?P = "\<lambda>line. let content = trim_end_char nl line in content \<noteq> [] \<and> \<not> starts_with '' '' content"
  have "\<forall>l\<in>set (concat items). nl \<notin> set l \<and> starts_with '' '' l"
    using lay by (auto simp: changelog_layout_def list_all_iff item_lines_iff yaml_line_def)
  then have none: "\<forall>x\<in>set (map (\<lambda>l. l @ [nl]) (concat items)). \<not> ?P x"
    using trim(2) by auto
  have qline: "nl \<notin> set q" "q \<noteq> []" "\<not> starts_with '' '' q" using lay q by (auto simp: changelog_layout_def yaml_line_def)
  have hit: "?P y" using y(2) qline trim[OF qline(1)] by auto
  have "find_line_from ?P st (split_inclusive (seg st fm ?raw)) = Some (st + length (unlines (concat items)), y)"
    unfolding y(1) using find_line_from_hit[where P = ?P, OF none hit] by (simp add: unlines_def)
  then show ?thesis
    unfolding changelog_sequence_bounds_def fr(1) sum.case prod.case key option.case len Let_def by simp
qed

lemma items_of_layout:
  assumes lay: "changelog_layout pre items post"
  shows "items_of (changelog_file pre items post body) = map unlines items"
proof -
  let ?raw = "changelog_file pre items post body" and ?ls = "pre @ changelog_key # concat items @ post"
  define st where "st = length (''---'' @ nl # unlines (pre @ [changelog_key]))"
  define fm where "fm = 4 + (length (unlines ?ls) - 1)"
  note fr = front_matter_of_layout[OF lay, of body, folded fm_def]
  note sq = sequence_of_layout[OF lay, of body, folded st_def]
  have "post \<noteq> []" using lay by (simp add: changelog_layout_def)
  then have "unlines post \<noteq> []" by simp
  then have in_fm: "4 \<le> st" "st + length (unlines (concat items)) \<le> fm"
    by (auto simp: st_def fm_def Suc_le_eq)
  have raw: "?raw = (''---'' @ nl # unlines (pre @ [changelog_key])) @ unlines (concat items) @ unlines post @ ''---'' @ nl # body"
    by (simp add: changelog_file_def)
  have sg: "seg st (st + length (unlines (concat items))) ?raw = unlines (concat items)"
    by (simp add: raw seg_def st_def)
  have "\<exists>i. find_key_line_start ?raw (4, fm) changelog_key = Some i"
  proof -
    have mem: "changelog_key @ [nl] \<in> set (split_inclusive (seg 4 fm ?raw))"
      unfolding fr(2) using split_block[OF front_lines[OF lay]] \<open>post \<noteq> []\<close> by (simp add: butlast_append)
    have "find_line_from P off ls \<noteq> None" if "x \<in> set ls" "P x" for x P off ls
      using that by (induction ls arbitrary: off) auto
    from this[OF mem, of "starts_with changelog_key"] show ?thesis
      by (auto simp: find_key_line_start_def)
  qed
  then show ?thesis
    using in_fm sg items_of_block lay
    by (auto simp: items_of_def doc_of_text_def fr(1) extract_changelog_def sq changelog_layout_def)
qed

lemma starts_with_snoc: "c \<notin> set p \<Longrightarrow> starts_with p (l @ [c]) \<longleftrightarrow> starts_with p l"
proof (induction p arbitrary: l)
  case (Cons a p)
  then show ?case by (cases l) (auto simp: starts_with_def[of _ "[]"])
qed simp

lemma remove_lines_unlines:
  assumes "\<forall>l\<in>set ls. nl \<notin> set l" "nl \<notin> set k"
  shows "remove_lines_with_prefix (unlines ls @ s) k =
    unlines (filter (\<lambda>l. \<not> starts_with k l) ls) @ remove_lines_with_prefix s k"
  using assms by (induction ls) (simp_all add: remove_lines_with_prefix_def split_inclusive_line starts_with_snoc)

lemma escape_raw_value_no_nl: "nl \<notin> set (escape_raw_value s)"
proof -
  have "nl \<noteq> hex_upper n" if "n < 16" for n
  proof
    assume "nl = hex_upper n"
    then have "is_ascii_hexdigit nl" using hex_upper_digit[OF that] by simp
    then show False by (simp add: is_ascii_hexdigit_def is_ascii_digit_def)
  qed
  moreover have "byte c div 16 < 16" "byte c mod 16 < 16" for c :: char
    using nat_of_char_less_256[of c] by (simp_all add: less_mult_imp_div_less)
  ultimately have "nl \<notin> set (escape_char c)" for c
    by (auto simp: escape_char_def backslash_def dquote_def)
  then show ?thesis by (auto simp: escape_raw_value_def)
qed

lemma pointer_line_yaml: "yaml_line (pointer_line p a)" "\<not> starts_with '' '' (pointer_line p a)"
  using escape_raw_value_no_nl
  by (auto simp: yaml_line_def pointer_line_def archive_key_def quoted_value_def dquote_def)

text \<open>The file after a rotation: the kept items, the pointer, and no older pointer.\<close>

definition rotated_file ::
  "path \<Rightarrow> path \<Rightarrow> nat \<Rightarrow> string list \<Rightarrow> string list list \<Rightarrow> string list \<Rightarrow> string \<Rightarrow> string"
where
  "rotated_file p a k pre items post body = changelog_file pre (take k items)
     (pointer_line p a # filter (\<lambda>l. \<not> starts_with archive_key l) post) (remove_lines_with_prefix body archive_key)"

lemma rewrite_of_layout:
  assumes lay: "changelog_layout pre items post"
  shows "rewrite_source_after_rotation p (changelog_file pre items post body) (take k (map unlines items)) a =
    Inr (rotated_file p a k pre items post body)"
proof -
  let ?h = "''---'' @ nl # unlines (pre @ [changelog_key])"
  have raw: "changelog_file pre items post body = ?h @ unlines (concat items) @ unlines post @ ''---'' @ nl # body"
    by (simp add: changelog_file_def)
  have nonl: "\<forall>l\<in>set (post @ [''---'']). nl \<notin> set l" "nl \<notin> set archive_key"
    using lay by (auto simp: changelog_layout_def list_all_iff yaml_line_def archive_key_def)
  have "unlines post @ ''---'' @ nl # body = unlines (post @ [''---'']) @ body" by simp
  then have rem: "remove_lines_with_prefix (unlines post @ ''---'' @ nl # body) archive_key =
      unlines (filter (\<lambda>l. \<not> starts_with archive_key l) post) @ ''---'' @ nl # remove_lines_with_prefix body archive_key"
    using remove_lines_unlines[OF nonl, of body] by (simp add: archive_key_def)
  have cut: "take (length ?h) (changelog_file pre items post body) = ?h"
    "drop (length ?h + length (unlines (concat items))) (changelog_file pre items post body) = unlines post @ ''---'' @ nl # body"
    by (simp_all add: raw del: append_Cons unlines_simps)
  have kept: "concat (take k (map unlines items)) = unlines (concat (take k items))"
  proof -
    have "concat (map unlines its) = unlines (concat its)" for its by (induction its) auto
    then show ?thesis by (simp add: take_map)
  qed
  show ?thesis
    unfolding rewrite_source_after_rotation_def sequence_of_layout[OF lay] option.case prod.case cut rem kept
    by (simp add: rotated_file_def changelog_file_def)
qed

lemma rotated_layout:
  assumes "changelog_layout pre items post"
  shows "changelog_layout pre (take k items) (pointer_line p a # filter (\<lambda>l. \<not> starts_with archive_key l) post)"
  using assms pointer_line_yaml by (auto simp: changelog_layout_def list_all_iff dest: in_set_takeD)

text \<open>
  Claim C34.  Rotating a file in the usual layout that reports success keeps exactly the most recent items and
  moves the others, in order, to the end of the archive; the file is in the usual layout again with
  one pointer to the archive, so a second rotation finds nothing to move.
\<close>

theorem rotation_keeps_recent:
  assumes run: "rotate_changelog_at env p a k Apply w = (Inr rep, w')" and setting: "rotation_setting w p a"
    and src: "look w p = Some (File (changelog_file pre items post body))" and lay: "changelog_layout pre items post"
  shows "rr_items_moved rep = length items - k \<and> rr_mutated rep = (k < length items) \<and>
    (if k < length items
     then look w' p = Some (File (rotated_file p a k pre items post body)) \<and>
        items_of (rotated_file p a k pre items post body) = map unlines (take k items) \<and>
        archived w a (unlines (concat (drop k items))) w'
     else look w' = look w)"
proof -
  let ?raw = "changelog_file pre items post body"
  obtain c1 w1 where c1: "fs_read_to_string p w = (c1, w1)" by fastforce
  have f1: "frame {} w w1" and raw: "c1 = Inr c \<Longrightarrow> c = ?raw" for c
    using fs_read_to_string_frame[OF c1] fs_read_to_string_file[of p w c w1 ?raw] c1 src by auto
  have keep1: "look w1 = look w" using frame_empty_look[OF f1] .
  obtain doc where doc: "c1 = Inr ?raw" "doc_of_text ?raw = Inr doc" "ParentDir \<notin> set a"
  proof (cases c1)
    case (Inl e)
    then show ?thesis using run c1 by (simp add: rotate_changelog_at_def parse_frontmatter_def)
  next
    case (Inr c)
    then have c: "c1 = Inr ?raw" using raw by simp
    obtain doc where d: "doc_of_text ?raw = Inr doc"
      unfolding doc_of_text_def front_matter_of_layout(1)[OF lay] by (auto simp: case_prod_unfold)
    have "ParentDir \<notin> set a"
      using run c1 c d by (auto simp: rotate_changelog_at_def parse_frontmatter_def)
    then show ?thesis using that c d by blast
  qed
  have it: "fd_changelog_items_raw doc = map unlines items" "fd_raw doc = ?raw"
    using doc(2) items_of_layout[OF lay, of body] by (auto simp: items_of_def doc_of_text_def split: sum.splits prod.splits)
  have dk: "concat (drop k (map unlines items)) = unlines (concat (drop k items))"
  proof -
    have "concat (map unlines its) = unlines (concat its)" for its by (induction its) auto
    then show ?thesis by (simp add: drop_map)
  qed
  obtain m w2 where c2: "move_items env p a ?raw (take k (map unlines items)) (drop k (map unlines items)) w1 = (m, w2)" by fastforce
  have start: "rotate_changelog_at env p a k Apply w =
     (if length items \<le> k then (Inr \<lparr>rr_items_moved = 0, rr_mutated = False\<rparr>, w1)
      else case m of Inl e \<Rightarrow> (Inl e, w2) | Inr _ \<Rightarrow> (Inr \<lparr>rr_items_moved = length items - k, rr_mutated = True\<rparr>, w2))"
    using c1 c2 doc it by (simp add: rotate_changelog_at_def parse_frontmatter_def Let_def split: sum.splits)
  show ?thesis
  proof (cases "length items \<le> k")
    case True
    then show ?thesis using run start keep1 by auto
  next
    case False
    then obtain u where m: "m = Inr u" and rep: "rep = \<lparr>rr_items_moved = length items - k, rr_mutated = True\<rparr>" "w' = w2"
      using run start by (cases m) auto
    have set1: "rotation_setting w1 p a"
      using setting frame_pid[OF f1] frame_tmp_ok[OF _ f1] by (auto simp: rotation_setting_def)
    have "archived w1 a c v \<Longrightarrow> archived w a c v" for c v
      using c1 keep1 by (auto simp: archived_def fs_read_to_string_def fs_read_def split: prod.splits sum.splits node.splits if_splits)
    then have "look w2 p = Some (File (rotated_file p a k pre items post body)) \<and> archived w a (unlines (concat (drop k items))) w2"
      using move_items_safe[OF c2 set1] keep1 src m dk rewrite_of_layout[OF lay, of p body k a] by auto
    moreover have "items_of (rotated_file p a k pre items post body) = map unlines (take k items)"
      unfolding rotated_file_def by (rule items_of_layout[OF rotated_layout[OF lay]])
    ultimately show ?thesis using False rep by simp
  qed
qed

section \<open>Witnesses and what goes wrong\<close>

definition rot_pre :: "string list" where "rot_pre = [''v: 1'']"
definition rot_post :: "string list" where "rot_post = [''x: 2'']"
definition rot_items :: "string list list" where "rot_items = [[''  - date: b''], [''  - date: a'']]"
definition rot_env :: mig_env where "rot_env = \<lparr>my_frontmatter = (\<lambda>_. Inr ()), my_changelog = (\<lambda>_. Inr ())\<rparr>"
definition rot_src :: path where "rot_src = [Normal ''s'']"
definition rot_arch :: path where "rot_arch = [Normal ''a'']"

definition rot_world :: "fault option list \<Rightarrow> world" where
  "rot_world fs = \<lparr>nodes = [(rot_src, File (changelog_file rot_pre rot_items rot_post [])), (rot_arch, File (''  - old'' @ [nl]))],
     faults = fs, nonces = [], pid = 7\<rparr>"

definition rot_done :: world where
  "rot_done = \<lparr>nodes = [(rot_src, File (rotated_file rot_src rot_arch 1 rot_pre rot_items rot_post [])),
     (rot_arch, File (''  - old'' @ [nl] @ ''  - date: a'' @ [nl]))], faults = [], nonces = [], pid = 7\<rparr>"

lemma rot_run:
  "rotate_changelog_at rot_env rot_src rot_arch 1 Apply (rot_world []) =
     (Inr \<lparr>rr_items_moved = 1, rr_mutated = True\<rparr>, rot_done)"
  by code_simp

lemma rot_setting: "rotation_setting (rot_world fs) rot_src rot_arch"
proof -
  have t: "atomic_tmp_path 7 rot_src = [Normal ''.s.tmp-7'']" "atomic_tmp_path 7 rot_arch = [Normal ''.a.tmp-7'']" by code_simp+
  have "pid (rot_world fs) = 7" by (simp add: rot_world_def)
  then show ?thesis by (simp add: rotation_setting_def tmp_ok_def t) (simp add: rot_world_def look_def rot_src_def rot_arch_def)
qed

lemma rot_layout: "changelog_layout rot_pre rot_items rot_post"
  by code_simp

lemma rot_world_source: "look (rot_world fs) rot_src = Some (File (changelog_file rot_pre rot_items rot_post []))"
  by (simp add: rot_world_def look_def)

theorem rotation_keeps_recent_witness:
  "look rot_done rot_src = Some (File (rotated_file rot_src rot_arch 1 rot_pre rot_items rot_post [])) \<and>
   items_of (rotated_file rot_src rot_arch 1 rot_pre rot_items rot_post []) = [''  - date: b'' @ [nl]] \<and>
   archived (rot_world []) rot_arch (''  - date: a'' @ [nl]) rot_done"
  using rotation_keeps_recent[OF rot_run rot_setting rot_world_source rot_layout] by (simp add: rot_items_def)

text \<open>The write of the source fails: the moved item is in both files.\<close>

definition rot_faults :: "fault option list" where "rot_faults = replicate 8 None @ [Some (Fault 0)]"

definition rot_failed :: world where
  "rot_failed = snd (rotate_changelog_at rot_env rot_src rot_arch 1 Apply (rot_world rot_faults))"

lemma rot_failed_run: "rotate_changelog_at rot_env rot_src rot_arch 1 Apply (rot_world rot_faults) = (Inl (MigIo OtherIo), rot_failed)"
  by code_simp

lemma rot_items_of:
  "items_of (changelog_file rot_pre rot_items rot_post []) = [''  - date: b'' @ [nl], ''  - date: a'' @ [nl]]"
  using items_of_layout[OF rot_layout, of "[]"] by (simp add: rot_items_def)


text \<open>
  An existence probe that fails is read as an archive that is not there: a rotation that reports
  success then replaces the archive by the moved items alone.
\<close>

lemma failed_probe_drops_archive:
  "rotate_changelog_at rot_env rot_src rot_arch 1 Apply (rot_world [None, None, Some (Fault 0)]) =
     (Inr \<lparr>rr_items_moved = 1, rr_mutated = True\<rparr>,
      rot_done\<lparr>nodes := AList.update rot_arch (File (''  - date: a'' @ [nl])) (nodes rot_done)\<rparr>)"
  by code_simp

text \<open>Lines of the document body that look like a pointer are removed with the pointer.\<close>

lemma rotation_drops_body_lines:
  "rotated_file rot_src rot_arch 1 rot_pre rot_items rot_post (''changelog_archive: see below'' @ [nl] @ ''end'') =
   rotated_file rot_src rot_arch 1 rot_pre rot_items rot_post ''end''"
  by code_simp

end
