(* ===== verification/ShardGate.thy ===== *)
theory ShardGate
  imports ShardHealClaims ShardTriggers MigrateRotate Executor
begin

text \<open>
  The shard-cap gate: \<^verbatim>\<open>shard_cap_gate_check\<close> of \<^verbatim>\<open>shard_manager.rs\<close> with the readers it calls, the
  adapter \<^verbatim>\<open>shard_cap_precheck\<close> of \<^verbatim>\<open>executor.rs\<close>, and the reconciliation after a \<^verbatim>\<open>replace_all\<close> edit of
  \<^verbatim>\<open>invoke.rs\<close>.  Verdicts keep the values of their errors; the printing of an error is a parameter, the
  block reasons are the texts of the source.  Parameters besides: the readers of the registry file
  and of the changelog sequence.
\<close>

section \<open>Errors and verdicts\<close>

datatype gate_error =
    GateConfig shard_config_error
  | GateRoll shard_roll_error
  | FieldNotString string string string  \<comment> \<open>field, tool, stem\<close>
  | FieldMissing string string string
  | StatFailed string path io_kind
  | EditsMissing string
  | ItemCountUnreadable string path io_kind
  | NoArchiveParent path
  | RotateStalled string path
  | RotateFailed string migrate_error
  | FilePathMissing string

datatype gate_verdict = GateContinue | GateBlock string | GateFail gate_error

record gate_env =
  ge_shard :: shard_env
  ge_migrate :: mig_env
  ge_changelog_items :: "string \<Rightarrow> nat option"
  ge_registry :: "string \<Rightarrow> shard_registry option"

section \<open>Reading sizes\<close>

definition current_shard_bytes_flat :: "path \<Rightarrow> world \<Rightarrow> (io_kind + u64) \<times> world" where
  "current_shard_bytes_flat p w =
     (case fs_metadata p w of
        (Inr meta, w) \<Rightarrow> (Inr (of_nat (node_len meta)), w)
      | (Inl e, w) \<Rightarrow>
          (case is_genuinely_missing e p w of (missing, w) \<Rightarrow>
             if missing then (Inr 0, w) else (Inl e, w)))"

definition required_str_len_bytes :: "json \<Rightarrow> string \<Rightarrow> string \<Rightarrow> string \<Rightarrow> gate_error + u64" where
  "required_str_len_bytes payload field tool_name stem =
     (case jget field payload of
        Some (JStr s) \<Rightarrow> Inr (of_nat (length s))
      | Some _ \<Rightarrow> Inl (FieldNotString field tool_name stem)
      | None \<Rightarrow> Inl (FieldMissing field tool_name stem))"

definition max_changelog_target_read_bytes :: u64 where
  "max_changelog_target_read_bytes = 8 * 1024 * 1024"

text \<open>\<open>File::open\<close> and then \<open>take(n).read_to_string\<close> on the handle.\<close>

definition fs_open :: "path \<Rightarrow> world \<Rightarrow> (io_kind + node) \<times> world" where
  "fs_open p = syscall (\<lambda>w. (get_node_follow w p, w))"

definition fs_take :: "nat \<Rightarrow> node \<Rightarrow> world \<Rightarrow> (io_kind + string) \<times> world" where
  "fs_take n file = syscall (\<lambda>w. (case file of
     File c \<Rightarrow> (if utf8_valid (take n c) then Inr (take n c) else Inl InvalidData) | _ \<Rightarrow> Inl OtherIo, w))"

definition strip_last :: "char \<Rightarrow> string \<Rightarrow> string" where
  "strip_last c s = (case strip_suffix [c] s of Some t \<Rightarrow> t | None \<Rightarrow> s)"

definition changelog_items_of_text :: "gate_env \<Rightarrow> string \<Rightarrow> io_kind + u64" where
  "changelog_items_of_text env raw =
     (case (case strip_prefix (''---'' @ [cr, nl]) raw of Some s \<Rightarrow> Some s | None \<Rightarrow> strip_prefix (''---'' @ [nl]) raw) of
        None \<Rightarrow> Inr 0
      | Some after_open \<Rightarrow>
          (case find_line_from (\<lambda>line. strip_last cr (strip_last nl line) = ''---'') 0 (split_inclusive after_open) of
             None \<Rightarrow> Inr 0
           | Some (end_at, _) \<Rightarrow>
               (case ge_changelog_items env (take end_at after_open) of
                  None \<Rightarrow> Inl InvalidData | Some items \<Rightarrow> Inr (of_nat items))))"

definition read_changelog_item_count :: "gate_env \<Rightarrow> path \<Rightarrow> world \<Rightarrow> (io_kind + u64) \<times> world" where
  "read_changelog_item_count env target_path w =
     (case fs_open target_path w of
        (Inl e, w) \<Rightarrow>
          (case is_genuinely_missing e target_path w of (missing, w) \<Rightarrow>
             if missing then (Inr 0, w) else (Inl e, w))
      | (Inr file, w) \<Rightarrow>
          (case fs_take (unat (max_changelog_target_read_bytes + 1)) file w of
             (Inl e, w) \<Rightarrow> (Inl e, w)
           | (Inr raw, w) \<Rightarrow>
               (if of_nat (length raw) > max_changelog_target_read_bytes then Inl FileTooLarge
                else changelog_items_of_text env raw, w)))"

section \<open>Block reasons\<close>

definition tick :: string where "tick = ''`''"

definition build_roll_retry_block_reason :: "string \<Rightarrow> u64 \<Rightarrow> string \<Rightarrow> string" where
  "build_roll_retry_block_reason stem cap sealed_path =
     ''Shard '' @ tick @ stem @ tick @ '' rotated (cap '' @ show_nat (unat cap) @
     '' bytes reached); the current shard is now empty. Retry your write against the CURRENT (post-roll, empty) file '' @
     em_dash @ '' do not resubmit your original payload unchanged: if you used '' @ tick @ ''Edit'' @ tick @ '' or '' @
     tick @ ''MultiEdit'' @ tick @ '', your '' @ tick @ ''old_string'' @ tick @
     '' will no longer match (the content it targeted is now in '' @ tick @ sealed_path @ tick @ '') '' @ em_dash @
     '' reissue as a fresh '' @ tick @ ''Write'' @ tick @ '' containing ONLY your new entry; if you used '' @
     tick @ ''Write'' @ tick @ '', recompute '' @ tick @ ''content'' @ tick @
     '' to contain ONLY your new entry (not your original full pre-roll payload, which reflects discarded state and will exceed the cap again if resubmitted).''"

definition build_empty_roll_retry_block_reason :: "string \<Rightarrow> u64 \<Rightarrow> u64 \<Rightarrow> bool \<Rightarrow> string" where
  "build_empty_roll_retry_block_reason stem cap payload_len preceded_by_backstop_roll =
     (if preceded_by_backstop_roll
      then ''Shard '' @ tick @ stem @ tick @
        '' is now empty (a prior over-cap shard was retroactively rotated by this same call before your payload was evaluated); your own payload alone ('' @
        show_nat (unat payload_len) @ '' bytes) exceeds the cap ('' @ show_nat (unat cap) @
        '' bytes). Recompute or split your payload into multiple smaller calls.''
      else ''Shard '' @ tick @ stem @ tick @ '' is already empty; your own payload alone ('' @
        show_nat (unat payload_len) @ '' bytes) exceeds the cap ('' @ show_nat (unat cap) @
        '' bytes). Recompute or split your payload into multiple smaller calls '' @ em_dash @
        '' no roll was performed, because there is no existing content to rotate away; the shard remains exactly as it was before this call.'')"

definition build_b1_block_reason :: "string \<Rightarrow> path \<Rightarrow> nat \<Rightarrow> string" where
  "build_b1_block_reason stem archive_path keep_recent =
     tick @ stem @ tick @ [CHR 0x27] @ ''s '' @ tick @ ''changelog:'' @ tick @
     '' sequence was rotated to make room (oldest item(s) appended to '' @ tick @ path_display archive_path @ tick @
     ''); the frontmatter now has '' @ show_nat keep_recent @ '' items. Retry your write: if you used '' @
     tick @ ''Edit'' @ tick @ '', reissue as a fresh '' @ tick @ ''Write'' @ tick @ '' or a fresh '' @ tick @ ''Edit'' @ tick @
     '' re-read against the current (post-rotation) file, since your original '' @ tick @ ''old_string'' @ tick @ ''/'' @
     tick @ ''new_string'' @ tick @ '' pair may no longer match; if you used '' @ tick @ ''Write'' @ tick @
     '', recompute your '' @ tick @ ''content'' @ tick @
     '' payload against the current (post-rotation) file before retrying '' @ em_dash @
     '' do not resubmit your original payload unchanged, since it reflects pre-rotation state.''"

section \<open>The flat shape\<close>

text \<open>The size of an edited shard, after rolling one that is already over its cap.\<close>

definition gate_edit_bytes :: "gate_env \<Rightarrow> shard_entry \<Rightarrow> path \<Rightarrow> world \<Rightarrow> (gate_error + (u64 \<times> bool)) \<times> world" where
  "gate_edit_bytes env e p w =
     (case current_shard_bytes_flat p w of
        (Inl k, w) \<Rightarrow> (Inl (StatFailed (artifact_stem e) p k), w)
      | (Inr current_bytes, w) \<Rightarrow>
          if current_bytes > shard_cap_bytes e
          then (case reconcile_leading_probe_backstop (ge_shard env) e p w of
              (Inl err, w) \<Rightarrow> (Inl (GateRoll err), w)
            | (Inr _, w) \<Rightarrow> (Inr (0, True), w))
          else (Inr (current_bytes, False), w))"

definition gate_write_probe :: "gate_env \<Rightarrow> shard_entry \<Rightarrow> path \<Rightarrow> world \<Rightarrow> (gate_error + bool) \<times> world" where
  "gate_write_probe env e p w =
     (case current_shard_bytes_flat p w of
        (Inl k, w) \<Rightarrow> (Inl (GateRoll (BackstopProbeFailed (artifact_stem e) p k)), w)
      | (Inr current_bytes, w) \<Rightarrow>
          if current_bytes > shard_cap_bytes e
          then (case reconcile_leading_probe_backstop (ge_shard env) e p w of
              (Inl err, w) \<Rightarrow> (Inl (GateRoll err), w)
            | (Inr _, w) \<Rightarrow> (Inr True, w))
          else (Inr False, w))"

definition edit_delta_of :: "string \<Rightarrow> string \<Rightarrow> json \<Rightarrow> gate_error + edit_delta" where
  "edit_delta_of tool_name stem edit =
     (case required_str_len_bytes edit ''old_string'' tool_name stem of
        Inl err \<Rightarrow> Inl err
      | Inr old_len \<Rightarrow>
          (case required_str_len_bytes edit ''new_string'' tool_name stem of
             Inl err \<Rightarrow> Inl err
           | Inr new_len \<Rightarrow> Inr \<lparr>old_len_bytes = old_len, new_len_bytes = new_len\<rparr>))"

fun edit_deltas :: "string \<Rightarrow> json list \<Rightarrow> gate_error + edit_delta list" where
  "edit_deltas stem [] = Inr []"
| "edit_deltas stem (edit # rest) =
     (case edit_delta_of ''MultiEdit'' stem edit of
        Inl err \<Rightarrow> Inl err
      | Inr d \<Rightarrow> (case edit_deltas stem rest of Inl err \<Rightarrow> Inl err | Inr ds \<Rightarrow> Inr (d # ds)))"

text \<open>What the call would add to the shard, per tool; for a write, the new content.\<close>

definition payload_size :: "tool_kind \<Rightarrow> string \<Rightarrow> json \<Rightarrow> u64 \<Rightarrow> gate_error + u64" where
  "payload_size kind stem tool_input current_bytes =
     (case kind of
        Write \<Rightarrow> (case required_str_len_bytes tool_input ''content'' ''Write'' stem of
            Inl err \<Rightarrow> Inl err | Inr len \<Rightarrow> Inr (projected_size_write len))
      | Edit \<Rightarrow> (case edit_delta_of ''Edit'' stem tool_input of
            Inl err \<Rightarrow> Inl err
          | Inr d \<Rightarrow> Inr (projected_size_edit current_bytes (net_delta_bytes_for_edit (old_len_bytes d) (new_len_bytes d))))
      | MultiEdit \<Rightarrow> (case Option.bind (jget ''edits'' tool_input) jarr of
            None \<Rightarrow> Inl (EditsMissing stem)
          | Some edits \<Rightarrow> (case edit_deltas stem edits of
              Inl err \<Rightarrow> Inl err
            | Inr ds \<Rightarrow> Inr (projected_size_edit current_bytes (net_delta_bytes_for_multi_edit ds)))))"

definition gate_projected_size ::
  "gate_env \<Rightarrow> shard_entry \<Rightarrow> tool_kind \<Rightarrow> path \<Rightarrow> json \<Rightarrow> world \<Rightarrow> (gate_error + (u64 \<times> bool)) \<times> world"
where
  "gate_projected_size env e kind p tool_input w =
     (case (if kind = Write
            then (case gate_write_probe env e p w of (Inl err, w) \<Rightarrow> (Inl err, w) | (Inr rolled, w) \<Rightarrow> (Inr (0, rolled), w))
            else gate_edit_bytes env e p w) of
        (Inl err, w) \<Rightarrow> (Inl err, w)
      | (Inr (current_bytes, rolled), w) \<Rightarrow>
          (case payload_size kind (artifact_stem e) tool_input current_bytes of
             Inl err \<Rightarrow> (Inl err, w)
           | Inr projected_size \<Rightarrow> (Inr (projected_size, rolled), w)))"

definition gate_flat ::
  "gate_env \<Rightarrow> shard_entry \<Rightarrow> string \<Rightarrow> path \<Rightarrow> json \<Rightarrow> world \<Rightarrow> gate_verdict \<times> world"
where
  "gate_flat env e tool_name p tool_input w =
     (case tool_kind_from_name tool_name of
        None \<Rightarrow> (GateContinue, w)
      | Some kind \<Rightarrow>
     (case run_self_heal_if_plausible (ge_shard env) e p w of
        (Inl err, w) \<Rightarrow> (GateFail (GateRoll err), w)
      | (Inr _, w) \<Rightarrow>
     (case reject_canonical_symlink (artifact_stem e) p w of
        (Inl err, w) \<Rightarrow> (GateFail (GateRoll err), w)
      | (Inr _, w) \<Rightarrow>
     (case gate_projected_size env e kind p tool_input w of
        (Inl err, w) \<Rightarrow> (GateFail err, w)
      | (Inr (projected_size, rolled), w) \<Rightarrow>
          if size_trigger_fires projected_size (shard_cap_bytes e)
          then (case execute_roll (ge_shard env) e p False w of
              (Inl err, w) \<Rightarrow> (GateFail (GateRoll err), w)
            | (Inr (Some sealed), w) \<Rightarrow>
                (GateBlock (build_roll_retry_block_reason (artifact_stem e) (shard_cap_bytes e) (shard_path sealed)), w)
            | (Inr None, w) \<Rightarrow>
                (GateBlock (build_empty_roll_retry_block_reason (artifact_stem e) (shard_cap_bytes e) projected_size rolled), w))
          else (GateContinue, w)))))"

section \<open>The changelog shape\<close>

definition gate_changelog ::
  "gate_env \<Rightarrow> shard_entry \<Rightarrow> string \<Rightarrow> path \<Rightarrow> world \<Rightarrow> gate_verdict \<times> world"
where
  "gate_changelog env e tool_name p w =
     (if tool_kind_from_name tool_name = None then (GateContinue, w)
      else case entry_n e of
        None \<Rightarrow> (GateFail (GateConfig (MissingN (artifact_stem e))), w)
      | Some n \<Rightarrow>
     (case reject_canonical_symlink (artifact_stem e) p w of
        (Inl err, w) \<Rightarrow> (GateFail (GateRoll err), w)
      | (Inr _, w) \<Rightarrow>
     (case read_changelog_item_count env p w of
        (Inl k, w) \<Rightarrow> (GateFail (ItemCountUnreadable (artifact_stem e) p k), w)
      | (Inr current_item_count, w) \<Rightarrow>
      if \<not> item_count_trigger_fires current_item_count n then (GateContinue, w)
      else case parent p of
        None \<Rightarrow> (GateFail (NoArchiveParent p), w)
      | Some par \<Rightarrow>
          (let archive_path = join_name par (artifact_stem e @ ''-changelog-archive.md'');
               keep_recent = unat (resolved_low_water_mark n (entry_low_water_mark e)) in
           case rotate_changelog_at (ge_migrate env) p archive_path keep_recent Apply w of
             (Inl err, w) \<Rightarrow> (GateFail (RotateFailed (artifact_stem e) err), w)
           | (Inr report, w) \<Rightarrow>
               if \<not> rr_mutated report then (GateFail (RotateStalled (artifact_stem e) p), w)
               else (GateBlock (build_b1_block_reason (artifact_stem e) archive_path keep_recent), w)))))"

section \<open>The gate\<close>

definition shard_cap_gate_check ::
  "gate_env \<Rightarrow> shard_registry \<Rightarrow> string \<Rightarrow> path \<Rightarrow> json \<Rightarrow> world \<Rightarrow> gate_verdict \<times> world"
where
  "shard_cap_gate_check env registry tool_name p tool_input w =
     (case find_matching_entry registry p of
        Inl err \<Rightarrow> (GateFail (GateConfig err), w)
      | Inr None \<Rightarrow> (GateContinue, w)
      | Inr (Some e) \<Rightarrow>
          (case validate_entry e of
             Inl err \<Rightarrow> (GateFail (GateConfig err), w)
           | Inr _ \<Rightarrow>
               (case entry_shape e of
                  None \<Rightarrow> (GateFail (GateConfig (MissingShape (artifact_stem e))), w)
                | Some Flat \<Rightarrow> gate_flat env e tool_name p tool_input w
                | Some FrontmatterChangelogArray \<Rightarrow> gate_changelog env e tool_name p w)))"

text \<open>The adapter: events and tools outside the gate, and projects without a registry, pass unexamined.\<close>

datatype hook_event = PreToolUse | PostToolUse | PreCompact | PostCompact | OtherEvent

definition event_type_of :: "string \<Rightarrow> hook_event" where
  "event_type_of event =
     (if event = ''PreToolUse'' then PreToolUse
      else if event = ''PostToolUse'' then PostToolUse
      else if event = ''PreCompact'' then PreCompact
      else if event = ''PostCompact'' then PostCompact
      else OtherEvent)"

record hook_payload =
  hp_event_name :: string
  hp_tool_name :: string
  hp_tool_input :: json

definition shard_config_relative_path :: string where
  "shard_config_relative_path = ''.factory/shard-config.toml''"

definition load_registry :: "gate_env \<Rightarrow> path \<Rightarrow> world \<Rightarrow> (shard_config_error + shard_registry) \<times> world" where
  "load_registry env p w =
     (case fs_read_to_string p w of
        (Inl k, w) \<Rightarrow> (Inl (ConfigIo k), w)
      | (Inr t, w) \<Rightarrow> ((case ge_registry env t of None \<Rightarrow> Inl ConfigToml | Some r \<Rightarrow> Inr r), w))"

definition shard_cap_precheck :: "gate_env \<Rightarrow> hook_payload \<Rightarrow> path \<Rightarrow> world \<Rightarrow> gate_verdict option \<times> world" where
  "shard_cap_precheck env payload cwd w =
     (let tool_name = hp_tool_name payload in
      if event_type_of (hp_event_name payload) \<noteq> PreToolUse then (None, w)
      else if tool_name \<notin> {''Edit'', ''Write'', ''MultiEdit''} then (None, w)
      else let shard_config_path = join_name cwd shard_config_relative_path in
      case path_exists shard_config_path w of
        (False, w) \<Rightarrow> (None, w)
      | (True, w) \<Rightarrow>
     (case load_registry env shard_config_path w of
        (Inl err, w) \<Rightarrow> (Some (GateFail (GateConfig err)), w)
      | (Inr registry, w) \<Rightarrow>
     (case jget_str ''file_path'' (hp_tool_input payload) of
        None \<Rightarrow> (Some (GateFail (FilePathMissing tool_name)), w)
      | Some target \<Rightarrow>
          (case shard_cap_gate_check env registry tool_name (path_of target) (hp_tool_input payload) w of
             (v, w) \<Rightarrow> (Some v, w)))))"

definition hook_result_of :: "(gate_error \<Rightarrow> string) \<Rightarrow> gate_verdict \<Rightarrow> hook_result" where
  "hook_result_of display v =
     (case v of GateContinue \<Rightarrow> HookContinue | GateBlock reason \<Rightarrow> HookBlock reason | GateFail e \<Rightarrow> HookError (display e))"

section \<open>After a replace-all edit\<close>

definition replace_all_true :: "json \<Rightarrow> bool" where
  "replace_all_true v \<longleftrightarrow> Option.bind (jget ''replace_all'' v) jbool = Some True"

definition tool_input_has_replace_all_true :: "json \<Rightarrow> bool" where
  "tool_input_has_replace_all_true tool_input \<longleftrightarrow> replace_all_true tool_input \<or>
     (case Option.bind (jget ''edits'' tool_input) jarr of None \<Rightarrow> False | Some edits \<Rightarrow> list_ex replace_all_true edits)"

definition detect_replace_all_overcap_candidate ::
  "gate_env \<Rightarrow> hook_payload \<Rightarrow> path \<Rightarrow> world \<Rightarrow> (shard_entry \<times> path) option \<times> world"
where
  "detect_replace_all_overcap_candidate env payload cwd w =
     (if hp_event_name payload \<noteq> ''PostToolUse'' then (None, w)
      else if hp_tool_name payload \<notin> {''Edit'', ''MultiEdit''} then (None, w)
      else if \<not> tool_input_has_replace_all_true (hp_tool_input payload) then (None, w)
      else case jget_str ''file_path'' (hp_tool_input payload) of
        None \<Rightarrow> (None, w)
      | Some target \<Rightarrow>
     (let target_path = path_of target; shard_config_path = join_name cwd shard_config_relative_path in
      case path_exists shard_config_path w of
        (False, w) \<Rightarrow> (None, w)
      | (True, w) \<Rightarrow>
     (case load_registry env shard_config_path w of
        (Inl _, w) \<Rightarrow> (None, w)
      | (Inr registry, w) \<Rightarrow>
     (case find_matching_entry registry target_path of
        Inr (Some e) \<Rightarrow>
          (case validate_entry e of
             Inl _ \<Rightarrow> (None, w)
           | Inr _ \<Rightarrow> if entry_shape e \<noteq> Some Flat then (None, w) else (Some (e, target_path), w))
      | _ \<Rightarrow> (None, w)))))"

definition reconcile_replace_all_overcap_if_qualifying :: "gate_env \<Rightarrow> hook_payload \<Rightarrow> path \<Rightarrow> world \<Rightarrow> world" where
  "reconcile_replace_all_overcap_if_qualifying env payload cwd w =
     (case detect_replace_all_overcap_candidate env payload cwd w of
        (None, w) \<Rightarrow> w
      | (Some (e, target_path), w) \<Rightarrow> snd (reconcile_post_write_replace_all_overcap (ge_shard env) e target_path w))"

end
