(* ===== verification/ShardTame.thy ===== *)
theory ShardTame
  imports ShardHealReconcile
begin

text \<open>
  No step of the shard manager plants a symbolic link or a device, so the setting a roll needs survives
  every step.  The rules follow the shape of the code: one per form of case distinction, one per operation.
\<close>

named_theorems tame_rules

abbreviation tame_after :: "world \<Rightarrow> ('a \<times> world) \<Rightarrow> bool" where
  "tame_after w m \<equiv> tame w (snd m)"

lemma tame_pair [tame_rules]: "tame w v \<Longrightarrow> tame_after w (r, v)"
  by simp

lemma tame_case [tame_rules]:
  "tame_after w m \<Longrightarrow> (\<And>a v. m = (a, v) \<Longrightarrow> tame w v \<Longrightarrow> tame_after w (F a v)) \<Longrightarrow> tame_after w (case m of (a, v) \<Rightarrow> F a v)"
  by (cases m) simp

lemma tame_sum [tame_rules]:
  "(\<And>e. a = Inl e \<Longrightarrow> tame_after w (G e)) \<Longrightarrow> (\<And>x. a = Inr x \<Longrightarrow> tame_after w (H x)) \<Longrightarrow>
     tame_after w (case a of Inl e \<Rightarrow> G e | Inr x \<Rightarrow> H x)"
  by (cases a) simp_all

lemma tame_option [tame_rules]:
  "(a = None \<Longrightarrow> tame_after w G) \<Longrightarrow> (\<And>x. a = Some x \<Longrightarrow> tame_after w (H x)) \<Longrightarrow>
     tame_after w (case a of None \<Rightarrow> G | Some x \<Rightarrow> H x)"
  by (cases a) simp_all

lemma tame_if [tame_rules]:
  "(b \<Longrightarrow> tame_after w G) \<Longrightarrow> (\<not> b \<Longrightarrow> tame_after w H) \<Longrightarrow> tame_after w (if b then G else H)"
  by simp

lemma tame_let [tame_rules]: "tame_after w (F x) \<Longrightarrow> tame_after w (Let x F)"
  by (simp add: Let_def)

lemma tame_errors [tame_rules]:
  "(\<And>k. a = TempPathOccupied k \<Longrightarrow> tame_after w (F1 k)) \<Longrightarrow> (a = DestinationOccupied \<Longrightarrow> tame_after w F2) \<Longrightarrow>
     (\<And>k. a = WriteIo k \<Longrightarrow> tame_after w (F3 k)) \<Longrightarrow>
     tame_after w (case a of TempPathOccupied k \<Rightarrow> F1 k | DestinationOccupied \<Rightarrow> F2 | WriteIo k \<Rightarrow> F3 k)"
  "(\<And>k. b = StageTempPathOccupied k \<Longrightarrow> tame_after w (G1 k)) \<Longrightarrow> (\<And>k. b = StageIo k \<Longrightarrow> tame_after w (G2 k)) \<Longrightarrow>
     tame_after w (case b of StageTempPathOccupied k \<Rightarrow> G1 k | StageIo k \<Rightarrow> G2 k)"
  "(c = PublishDestinationOccupied \<Longrightarrow> tame_after w H1) \<Longrightarrow> (\<And>k. c = PublishIo k \<Longrightarrow> tame_after w (H2 k)) \<Longrightarrow>
     tame_after w (case c of PublishDestinationOccupied \<Rightarrow> H1 | PublishIo k \<Rightarrow> H2 k)"
  "tame_after w K \<Longrightarrow> tame_after w L \<Longrightarrow> tame_after w (case k of AlreadyExists \<Rightarrow> K | _ \<Rightarrow> L)"
  by (auto split: write_exclusive_error.splits stage_error.splits publish_error.splits io_kind.splits)

lemma tame_reads [tame_rules]:
  "tame w v \<Longrightarrow> tame_after w (fs_symlink_metadata p v)" "tame w v \<Longrightarrow> tame_after w (fs_metadata p v)"
  "tame w v \<Longrightarrow> tame_after w (fs_read p v)" "tame w v \<Longrightarrow> tame_after w (fs_read_to_string p v)"
  "tame w v \<Longrightarrow> tame_after w (fs_read_dir p v)" "tame w v \<Longrightarrow> tame_after w (fs_sync_all v)"
  "tame w v \<Longrightarrow> tame_after w (fs_remove_file p v)" "tame w v \<Longrightarrow> tame_after w (fs_write_all p c v)"
  "tame w v \<Longrightarrow> tame_after w (is_genuinely_missing k p v)"
  by (auto intro: tame_trans frame_tame fs_read_tames remove_tame fs_write_all_tame fs_sync_all_frame is_genuinely_missing_frame
      prod.collapse[symmetric] elim!: tame_trans)

section \<open>The primitives\<close>

lemma tame_random_nonce [tame_rules]: "tame w v \<Longrightarrow> tame_after w (random_nonce v)"
  by (auto simp: random_nonce_def tame_def split: list.splits)

lemma tame_create_new [tame_rules]: "tame w v \<Longrightarrow> tame_after w (fs_create_new p v)"
proof -
  obtain r v' where c: "fs_create_new p v = (r, v')" by fastforce
  note s = fs_create_new_spec[OF c]
  have "tame v v'" by (rule frame_one_tame[OF s(1)]) (use s(2,3) in \<open>cases r; auto\<close>)
  then show "tame w v \<Longrightarrow> tame_after w (fs_create_new p v)" using c tame_trans by simp
qed

lemma write_atomic_tame:
  assumes "tame w v" "tmp_ok v (atomic_tmp_path (pid v) p) p"
  shows "tame_after w (write_atomic p c v)"
proof -
  let ?t = "atomic_tmp_path (pid v) p"
  have np: "not_planted v ?t" and tp: "?t \<noteq> p" using assms(2) by (auto simp: tmp_ok_def not_planted_def)
  obtain r v' where c: "write_and_sync_temp ?t c v = (r, v')" by fastforce
  note s = write_and_sync_temp_spec[OF c assms(2)]
  have t: "tame_after w (write_and_sync_temp ?t c v)"
    unfolding write_and_sync_temp_def
  proof (intro tame_rules assms(1); assumption?)
    show "tame_after w (fs_create ?t v)"
      using fs_create_tame[OF _ np] tame_trans[OF assms(1)] by (metis prod.collapse)
  qed
  have ren: "tame_after w (fs_rename ?t p v')" if "r = Inr ()"
    using fs_rename_tame[OF prod.collapse[symmetric] tp] s(2)[OF that] tame_trans[of w v'] t c by fastforce
  show ?thesis
    unfolding write_atomic_def Let_def c prod.case
    by (intro tame_rules) (use t c ren in \<open>simp_all add: c\<close>)
qed

lemma stage_temp_file_tame [tame_rules]: "tame w v \<Longrightarrow> tame_after w (stage_temp_file p c v)"
  unfolding stage_temp_file_def stage_temp_file_with_nonce_def
  by (intro tame_rules; assumption?) (auto split: io_kind.splits)

section \<open>Publishing\<close>

definition file_or_none :: "world \<Rightarrow> path \<Rightarrow> bool" where
  "file_or_none w p \<longleftrightarrow> look w p = None \<or> (\<exists>c. look w p = Some (File c))"

lemma tame_file_or_none: "tame w v \<Longrightarrow> file_or_none w p \<Longrightarrow> file_or_none v p"
  unfolding tame_def file_or_none_def by metis

lemma hard_link_tame:
  assumes "tame w v" "file_or_none v src"
  shows "tame_after w (fs_hard_link src dst v)"
proof -
  obtain r v' where c: "fs_hard_link src dst v = (r, v')" by fastforce
  note s = fs_hard_link_spec[OF c]
  have "tame v v'"
    by (rule frame_one_tame[OF s(1)]) (use s(2,3) assms(2) in \<open>cases r; auto simp: file_or_none_def\<close>)
  then show ?thesis using c tame_trans[OF assms(1)] by simp
qed

lemma publish_staged_tame:
  "tame w v \<Longrightarrow> file_or_none v t \<Longrightarrow> tame_after w (publish_staged_temp_file t p v)"
  unfolding publish_staged_temp_file_def
  by (intro tame_rules hard_link_tame; assumption?) (auto split: io_kind.splits intro!: tame_rules)

lemma staged_is_file: "stage_temp_file p c w = (Inr t, v) \<Longrightarrow> file_or_none v t"
  using stage_temp_file_spec(2) by (auto simp: file_or_none_def)

lemma write_exclusive_tame [tame_rules]: "tame w v \<Longrightarrow> tame_after w (write_exclusive p c v)"
  unfolding write_exclusive_def
  by (intro tame_rules publish_staged_tame; (assumption | simp add: staged_is_file)?)

lemma reclaim_frame: "reclaim_identity_still_safe p w = (b, v) \<Longrightarrow> frame {} w v"
  by (auto simp: reclaim_identity_still_safe_def fs_open_nofollow_def intro: frame_trans elim!: syscall_cases
      split: prod.splits sum.splits)

lemma reclaim_tame [tame_rules]: "tame w v \<Longrightarrow> tame_after w (reclaim_identity_still_safe p v)"
  using reclaim_frame[OF prod.collapse[symmetric]] frame_tame tame_trans by blast

lemma publish_sealed_shard_tame [tame_rules]:
  assumes "tame w v" shows "tame_after w (publish_sealed_shard p c v)"
proof -
  have staged: "file_or_none v3 t" if "stage_temp_file p c v1 = (Inr t, v2)" "reclaim_identity_still_safe p v2 = (b, v4)"
      "fs_remove_file p v4 = (r, v3)" for v1 v2 v3 v4 t b r
    using tame_file_or_none[OF _ staged_is_file[OF that(1)]] tame_trans[OF frame_tame[OF reclaim_frame[OF that(2)]]
        fs_remove_file_tame[OF that(3)]] by blast
  have after: "tame_after w (publish_staged_temp_file t p v3)" if "stage_temp_file p c v1 = (Inr t, v2)"
      "reclaim_identity_still_safe p v2 = (b, v4)" "fs_remove_file p v4 = (r, v3)" "tame w v3" for v1 v2 v3 v4 t b r
    by (rule publish_staged_tame[OF that(4) staged[OF that(1-3)]])
  show ?thesis
    unfolding publish_sealed_shard_def
    by (intro tame_rules assms after; (assumption | simp)?)
qed

section \<open>The steps of a roll and of the recovery\<close>

lemma roll_setting_tame: "roll_setting w dir cname e p \<Longrightarrow> tame w v \<Longrightarrow> roll_setting v dir cname e p"
  unfolding roll_setting_def
  by (auto simp: tame_not_planted tame_pid) (metis tame_def node.distinct(1) option.distinct(1) option.inject)

lemma load_shard_index_tame [tame_rules]: "tame w v \<Longrightarrow> tame_after w (load_shard_index env idx v)"
  using load_shard_index_spec(1)[OF prod.collapse[symmetric]] frame_tame tame_trans by blast

lemma next_seal_seq_tame [tame_rules]: "tame w v \<Longrightarrow> tame_after w (next_seal_seq env idx v)"
  unfolding next_seal_seq_def by (intro tame_rules)

lemma reject_tame [tame_rules]: "tame w v \<Longrightarrow> tame_after w (reject_canonical_symlink stem p v)"
  unfolding reject_canonical_symlink_def
  by (auto split: prod.splits sum.splits node.splits dest!: fs_read_tames(1) elim: tame_trans)

lemma read_canonical_tame [tame_rules]: "tame w v \<Longrightarrow> tame_after w (read_canonical_content p v)"
  unfolding read_canonical_content_def by (intro tame_rules)

lemma write_canonical_tame:
  assumes "roll_setting w dir cname e p" "tame w v"
  shows "tame_after w (write_atomic p c v)"
proof -
  have s: "roll_setting v dir cname e p" using assms by (rule roll_setting_tame)
  show ?thesis
    using s roll_setting_names(3)[OF s, of "pid v"] roll_setting_path[OF s]
    by (intro write_atomic_tame assms(2)) (simp add: roll_setting_def tmp_ok_def not_planted_def atomic_tmp_neq_self)
qed

lemma write_index_tame:
  assumes "roll_setting w dir cname e p" "tame w v"
  shows "tame_after w (write_atomic (index_in dir e) c v)"
  using write_atomic_tame[OF assms(2)] setting_tmp_ok[OF roll_setting_tame[OF assms]] by blast

lemma truncate_tame: "roll_setting w dir cname e p \<Longrightarrow> tame w v \<Longrightarrow> tame_after w (truncate_canonical_to_empty p v)"
  unfolding truncate_canonical_to_empty_def by (intro tame_rules write_canonical_tame)

lemma publish_index_tame:
  "roll_setting w dir cname e p \<Longrightarrow> tame w v \<Longrightarrow> tame_after w (publish_shard_index_update env (index_in dir e) e x v)"
  unfolding publish_shard_index_update_def by (intro tame_rules write_index_tame)

lemma execute_roll_tame:
  assumes setting: "roll_setting w dir cname e p" and v: "tame w v"
  shows "tame_after w (execute_roll env e p retro v)"
  unfolding execute_roll_def
  by (intro tame_rules v truncate_tame[OF setting] publish_index_tame[OF setting, folded roll_setting_names(1)[OF setting]]; assumption?)

lemma resume_tame:
  assumes setting: "roll_setting w dir cname e p" and v: "tame w v"
  shows "tame_after w (self_heal_resume_from_truncate env e p v)"
  unfolding self_heal_resume_from_truncate_def
  by (intro tame_rules v truncate_tame[OF setting] publish_index_tame[OF setting, folded roll_setting_names(1)[OF setting]]; assumption?)

lemma fs_dir_next_tame [tame_rules]: "tame w v \<Longrightarrow> tame_after w (fs_dir_next v)"
  using fs_dir_next_frame[OF prod.collapse[symmetric]] frame_tame tame_trans by blast

text \<open>The reconciliation touches the index and its temporary file only, also when it fails.\<close>

definition index_files :: "path \<Rightarrow> shard_entry \<Rightarrow> nat \<Rightarrow> path set" where
  "index_files dir e process = {index_in dir e, child dir (atomic_tmp_name process (index_name (artifact_stem e)))}"

lemma publish_index_frame:
  assumes "publish_shard_index_update env (index_in dir e) e x w = (r, w')" "roll_setting w dir cname e p"
  shows "frame (index_files dir e (pid w)) w w'"
  using publish_index_spec(1)[OF assms(1) setting_tmp_ok[OF assms(2)]] roll_setting_names(4)[OF assms(2)]
  by (simp add: index_files_def)

lemma reconcile_append_safe:
  assumes "reconcile_append env (index_in dir e) e rows w = (r, w')" "roll_setting w dir cname e p"
  shows "frame (index_files dir e (pid w)) w w' \<and> tame w w'"
  using assms
proof (induction rows arbitrary: w r w')
  case (Cons row rows)
  obtain n f len where row: "row = (n, f, len)" by (cases row)
  obtain a w1 where c1: "publish_shard_index_update env (index_in dir e) e (healed_entry env e n f len) w = (a, w1)" by fastforce
  note f1 = publish_index_frame[OF c1 Cons.prems(2)]
  have t1: "tame w w1" using publish_index_tame[OF Cons.prems(2) tame_refl] c1 by (metis snd_conv)
  have rest: "frame (index_files dir e (pid w)) w v \<and> tame w v" if "reconcile_append env (index_in dir e) e rows w1 = (b, v)" for b v
  proof -
    from Cons.IH[OF that roll_setting_tame[OF Cons.prems(2) t1]]
    have "frame (index_files dir e (pid w1)) w1 v" "tame w1 v" by blast+
    then show ?thesis using frame_trans[OF f1, of v] tame_trans[OF t1] tame_pid[OF t1] by simp
  qed
  show ?case
  proof (cases a)
    case (Inl err)
    then show ?thesis using Cons.prems(1) row c1 f1 t1 by simp
  next
    case (Inr j)
    obtain b v where c2: "reconcile_append env (index_in dir e) e rows w1 = (b, v)" by fastforce
    have "w' = v" using Cons.prems(1) row c1 c2 Inr by (auto split: sum.splits)
    then show ?thesis using rest[OF c2] by simp
  qed
qed simp

lemma reconcile_safe:
  assumes run: "self_heal_reconcile_missing_index_entries env e p w = (r, w')" and setting: "roll_setting w dir cname e p"
  shows "frame (index_files dir e (pid w)) w w' \<and> tame w w'"
proof -
  let ?idx = "index_in dir e"
  note names = roll_setting_names[OF setting]
  obtain l w1 where c1: "load_shard_index env ?idx w = (l, w1)" by fastforce
  obtain d w2 where c2: "fs_read_dir dir w1 = (d, w2)" by fastforce
  have f2: "frame {} w w1" "frame {} w w2"
    using load_shard_index_spec(1)[OF c1] frame_trans fs_read_dir_frame[OF c2] by blast+
  have quiet: ?thesis if "frame {} w w'" using frame_mono[OF that] frame_tame[OF that] by simp
  show ?thesis
  proof (cases "\<exists>index ns. l = Inr index \<and> d = Inr ns")
    case False
    then have "w' = w1 \<or> w' = w2"
      using run c1 c2 by (cases l; cases d) (auto simp: self_heal_reconcile_missing_index_entries_def Let_def names
          roll_setting_parent[OF setting])
    then show ?thesis using quiet f2 by blast
  next
    case True
    then obtain index ns where i: "l = Inr index" "d = Inr ns" by blast
    obtain s w3 where c3: "reconcile_scan dir (artifact_stem e) (indexed_seqs index) ns w2 = (s, w3)" by fastforce
    have f3: "frame {} w w3" using frame_trans[OF f2(2)] reconcile_scan_spec[OF c3] by blast
    show ?thesis
    proof (cases s)
      case (Inl k)
      then have "w' = w3" using run c1 c2 c3 i by (simp add: self_heal_reconcile_missing_index_entries_def Let_def names
          roll_setting_parent[OF setting])
      then show ?thesis using quiet f3 by blast
    next
      case (Inr rows)
      then have "reconcile_append env ?idx e (sort_key fst rows) w3 = (r, w')"
        using run c1 c2 c3 i by (simp add: self_heal_reconcile_missing_index_entries_def Let_def names roll_setting_parent[OF setting])
      from reconcile_append_safe[OF this roll_setting_tame[OF setting frame_tame[OF f3]]]
      have "frame (index_files dir e (pid w)) w3 w'" "tame w3 w'" using frame_pid[OF f3] by simp_all
      then show ?thesis using frame_trans[OF frame_mono[OF f3]] tame_trans[OF frame_tame[OF f3]] by blast
    qed
  qed
qed

end
