(* ===== verification/ShardGateClaims.thy ===== *)
theory ShardGateClaims
  imports ShardGate ShardTame
begin

text \<open>
  What the shard-cap gate guarantees about the file it guards, under every fault schedule: it loses no
  byte, it lets a call pass only when the result fits the cap, and when it asks for a retry the shard
  is empty and its content sealed.
\<close>

section \<open>No byte is lost\<close>

definition content_kept :: "path \<Rightarrow> shard_entry \<Rightarrow> path \<Rightarrow> bytes \<Rightarrow> world \<Rightarrow> bool" where
  "content_kept dir e p c w \<longleftrightarrow> look w p = Some (File c) \<or>
     look w p = Some (File []) \<and> (\<exists>n. look w (sealed_in dir e n) = Some (File c))"

lemma content_kept_frame: "frame {} w v \<Longrightarrow> content_kept dir e p c w \<Longrightarrow> content_kept dir e p c v"
  using frame_empty_look by (fastforce simp: content_kept_def)

lemma content_kept_file: "content_kept dir e p c w \<Longrightarrow> \<exists>d. look w p = Some (File d) \<and> (d = c \<or> d = [])"
  by (auto simp: content_kept_def)

lemma roll_keeps:
  assumes run: "execute_roll env e p retro w = (r, w')" and setting: "roll_setting w dir cname e p"
    and kept: "content_kept dir e p c w"
  shows "content_kept dir e p c w'" "tame w w'" "\<not> isl r \<Longrightarrow> look w' p = Some (File [])"
proof -
  note path = roll_setting_path[OF setting]
  note neq = roll_setting_cname[OF setting] roll_setting_cname[OF setting, symmetric] name_neq
  show "tame w w'" using execute_roll_tame[OF setting tame_refl] run by (metis snd_conv)
  obtain d where here: "look w p = Some (File d)" "d = c \<or> d = []" using content_kept_file[OF kept] by blast
  from roll_outcome_core[OF run setting here(1)] obtain n
    where f: "frame (roll_files dir cname e (pid w) n) w w'" and out: "roll_outcome env e dir cname d retro n r w w'"
      and occ: "\<not> shard_vacant (look w (sealed_in dir e n)) \<longrightarrow> look w' (sealed_in dir e n) = look w (sealed_in dir e n)"
    by blast
  have result: "look w' p = Some (File d) \<or> look w' p = Some (File []) \<and> look w' (sealed_in dir e n) = Some (File d)"
    using out here(1) path
    by (auto simp: roll_outcome_def roll_error_outcome_def Let_def split: sum.splits option.splits shard_roll_error.splits)
  show "\<not> isl r \<Longrightarrow> look w' p = Some (File [])"
    using out here(1) path by (auto simp: roll_outcome_def split: sum.splits option.splits)
  show "content_kept dir e p c w'"
  proof (cases "d = c")
    case True
    then show ?thesis using result by (auto simp: content_kept_def)
  next
    case False
    then have d: "d = []" using here(2) by blast
    then obtain m where m: "look w (sealed_in dir e m) = Some (File c)" and c: "c \<noteq> []"
      using kept here(1) False by (auto simp: content_kept_def)
    have "look w' (sealed_in dir e m) = look w (sealed_in dir e m)"
    proof (cases "sealed_in dir e m = sealed_in dir e n")
      case True
      then show ?thesis using occ m c by (simp add: shard_vacant_def)
    next
      case False
      then have "sealed_in dir e m \<notin> roll_files dir cname e (pid w) n"
        by (auto simp: roll_files_def neq)
      with f show ?thesis by (rule frame_look)
    qed
    then show ?thesis using result d m by (auto simp: content_kept_def)
  qed
qed

lemma plausible_scan_frame: "plausible_scan dir stem known names w = (r, w') \<Longrightarrow> frame {} w w'"
proof (induction names arbitrary: w)
  case (Cons name names)
  obtain a w1 where c1: "fs_dir_next w = (a, w1)" by fastforce
  obtain m w2 where c2: "fs_symlink_metadata (dir @ [Normal name]) w1 = (m, w2)" by fastforce
  note f1 = fs_dir_next_frame[OF c1]
  note f2 = frame_trans[OF f1 fs_symlink_metadata_frame[OF c2]]
  have "w' = w1 \<or> w' = w2 \<or> plausible_scan dir stem known names w1 = (r, w') \<or> plausible_scan dir stem known names w2 = (r, w')"
    using Cons.prems c1 c2 by (cases a) (auto split: option.splits if_splits)
  then show ?case using Cons.IH f1 f2 frame_trans by blast
qed simp

lemma recovery_plausible_frame: "self_heal_recovery_plausible env e p w = (r, w') \<Longrightarrow> frame {} w w'"
proof -
  assume run: "self_heal_recovery_plausible env e p w = (r, w')"
  let ?dir = "parent_or [CurDir] p" and ?idx = "shard_index_path_for p (artifact_stem e)"
  obtain l w1 where c1: "load_shard_index env ?idx w = (l, w1)" by fastforce
  obtain d w2 where c2: "fs_read_dir ?dir w1 = (d, w2)" by fastforce
  have f: "frame {} w w1" "frame {} w w2"
    using load_shard_index_spec(1)[OF c1] frame_trans fs_read_dir_frame[OF c2] by blast+
  have "w' = w1 \<or> (\<exists>k b. is_genuinely_missing k ?dir w2 = (b, w')) \<or>
      (\<exists>known names. plausible_scan ?dir (artifact_stem e) known names w2 = (r, w'))"
    using run c1 c2 by (cases l; cases d) (auto simp: self_heal_recovery_plausible_def Let_def split: prod.splits if_splits)
  then show ?thesis using f frame_trans is_genuinely_missing_frame plausible_scan_frame by blast
qed

lemma self_heal_keeps:
  assumes run: "run_self_heal_if_plausible env e p w = (r, w')" and setting: "roll_setting w dir cname e p"
    and plain: "sealed_not_linked w dir e" and here: "look w p = Some (File c)"
  shows "content_kept dir e p c w'" "tame w w'"
proof -
  note path = roll_setting_path[OF setting]
  note neq = roll_setting_cname[OF setting] roll_setting_cname[OF setting, symmetric] name_neq
  obtain b w1 where c1: "self_heal_recovery_plausible env e p w = (b, w1)" by fastforce
  note f1 = recovery_plausible_frame[OF c1]
  have kept1: "content_kept dir e p c w1" using content_kept_frame[OF f1] here by (simp add: content_kept_def)
  have quiet: "content_kept dir e p c w' \<and> tame w w'" if "w' = w1" using that kept1 frame_tame[OF f1] by simp
  have setting1: "roll_setting w1 dir cname e p" using roll_setting_tame[OF setting frame_tame[OF f1]] .
  have here1: "look w1 p = Some (File c)" and plain1: "sealed_not_linked w1 dir e"
    using here plain frame_empty_look[OF f1] by (simp_all add: sealed_not_linked_def)
  have "content_kept dir e p c w' \<and> tame w w'"
  proof (cases "b = Inr True")
    case False
    then have "w' = w1" using run c1 by (cases b) (auto simp: run_self_heal_if_plausible_def)
    then show ?thesis by (rule quiet)
  next
    case True
    obtain a w2 where c2: "self_heal_resume_from_truncate env e p w1 = (a, w2)" by fastforce
    have t2: "tame w w2" using resume_tame[OF setting frame_tame[OF f1], of env] c2 by simp
    obtain n where f2: "frame (resume_files dir cname e (pid w1)) w1 w2"
      and out: "resume_outcome env e dir cname c n a w1 w2"
      using resume_core[OF c2 setting1 here1 plain1] by blast
    have "sealed_in dir e n \<notin> resume_files dir cname e (pid w1)" by (simp add: resume_files_def neq)
    then have "look w2 (sealed_in dir e n) = look w1 (sealed_in dir e n)" using f2 by (simp add: frame_look)
    then have kept2: "content_kept dir e p c w2"
      using out here1 path by (auto simp: resume_outcome_def content_kept_def Let_def split: sum.splits option.splits)
    show ?thesis
    proof (cases "a = Inr None")
      case False
      then have "w' = w2" using run c1 c2 True by (auto simp: run_self_heal_if_plausible_def split: sum.splits option.splits)
      then show ?thesis using kept2 t2 by simp
    next
      case none: True
      have look2: "look w2 = look w1" using out none by (simp add: resume_outcome_def)
      obtain d w3 where c3: "self_heal_reconcile_missing_index_entries env e p w2 = (d, w3)" by fastforce
      have w': "w' = w3" using run c1 c2 c3 True none by (auto simp: run_self_heal_if_plausible_def split: sum.splits)
      note s3 = reconcile_safe[OF c3 roll_setting_tame[OF setting t2]]
      have "child dir cname \<notin> index_files dir e (pid w2)" by (simp add: index_files_def neq)
      then have "look w3 p = look w2 p" using s3 path by (metis frame_look)
      then show ?thesis
        using s3 t2 tame_trans w' look2 here1 by (auto simp: content_kept_def)
    qed
  qed
  then show "content_kept dir e p c w'" "tame w w'" by blast+
qed

lemma shard_bytes_result:
  assumes "current_shard_bytes_flat p w = (r, w')" "look w p = Some (File c)"
  shows "frame {} w w'" "r = Inr s \<Longrightarrow> s = of_nat (length c)"
proof -
  obtain m v where m: "fs_metadata p w = (m, v)" by fastforce
  note f = fs_metadata_frame[OF m]
  show "frame {} w w'"
    using assms(1) m f frame_trans is_genuinely_missing_frame
    by (auto simp: current_shard_bytes_flat_def split: sum.splits prod.splits if_splits)
  have node: "m = Inr (File c) \<or> m = Inl OtherIo"
    using m assms(2) unfolding fs_metadata_def
    by (auto elim!: syscall_cases simp: get_node_follow_plain get_node_def look_cong(2)[OF frame_empty_look])
  show "r = Inr s \<Longrightarrow> s = of_nat (length c)"
    using assms(1) m node by (auto simp: current_shard_bytes_flat_def is_genuinely_missing_def)
qed

text \<open>The sizing step: the size it reckons with is that of the file it leaves.\<close>

lemma sizing_keeps:
  assumes run: "gate_projected_size env e kind p tool_input w = (r, w')" and setting: "roll_setting w dir cname e p"
    and kept: "content_kept dir e p c w"
  shows "content_kept dir e p c w'" "tame w w'"
    "r = Inr (sz, rolled) \<Longrightarrow> \<exists>d. look w' p = Some (File d) \<and>
       payload_size kind (artifact_stem e) tool_input (of_nat (length d)) = Inr sz"
proof -
  obtain d where here: "look w p = Some (File d)" using content_kept_file[OF kept] by blast
  obtain s w1 where c1: "current_shard_bytes_flat p w = (s, w1)" by fastforce
  note f1 = shard_bytes_result[OF c1 here]
  have kept1: "content_kept dir e p c w1" using content_kept_frame[OF f1(1) kept] .
  obtain a w2 where c2: "reconcile_leading_probe_backstop (ge_shard env) e p w1 = (a, w2)" by fastforce
  note s2 = roll_keeps[OF c2[unfolded reconcile_leading_probe_backstop_def] roll_setting_tame[OF setting frame_tame[OF f1(1)]] kept1]
  have t2: "tame w w2" using tame_trans[OF frame_tame[OF f1(1)] s2(2)] .
  have ignores: "payload_size Write st inp x = payload_size Write st inp y" for st inp x y
    by (simp add: payload_size_def)
  have here1: "look w1 p = Some (File d)" using here frame_empty_look[OF f1(1)] by simp
  have main: "(w' = w1 \<or> w' = w2) \<and> (\<forall>sz rolled. r = Inr (sz, rolled) \<longrightarrow> (\<exists>f. look w' p = Some (File f) \<and>
       payload_size kind (artifact_stem e) tool_input (of_nat (length f)) = Inr sz))"
  proof (cases s)
    case (Inl k)
    then show ?thesis
      using run c1 by (auto simp: gate_projected_size_def gate_write_probe_def gate_edit_bytes_def split: if_splits)
  next
    case (Inr n)
    then have n: "n = of_nat (length d)" using f1(2) by blast
    show ?thesis
    proof (cases "n > shard_cap_bytes e")
      case False
      then have "w' = w1 \<and> r = (case payload_size kind (artifact_stem e) tool_input (if kind = Write then 0 else n) of
          Inl err \<Rightarrow> Inl err | Inr sz \<Rightarrow> Inr (sz, False))"
        using run c1 Inr by (auto simp: gate_projected_size_def gate_write_probe_def gate_edit_bytes_def split: sum.splits)
      then show ?thesis using here1 n ignores[of _ _ 0 n] by (auto split: sum.splits if_splits)
    next
      case True
      show ?thesis
      proof (cases a)
        case (Inl err)
        then show ?thesis using run c1 c2 Inr True \<open>s = Inr n\<close>
          by (auto simp: gate_projected_size_def gate_write_probe_def gate_edit_bytes_def split: if_splits)
      next
        case (Inr u)
        then have "w' = w2 \<and> r = (case payload_size kind (artifact_stem e) tool_input 0 of
            Inl err \<Rightarrow> Inl err | Inr sz \<Rightarrow> Inr (sz, True))"
          using run c1 c2 True \<open>s = Inr n\<close>
          by (auto simp: gate_projected_size_def gate_write_probe_def gate_edit_bytes_def split: sum.splits if_splits)
        then show ?thesis using s2(3) Inr by (auto split: sum.splits)
      qed
    qed
  qed
  then show "content_kept dir e p c w'" "tame w w'" using kept1 s2(1) frame_tame[OF f1(1)] t2 by blast+
  show "r = Inr (sz, rolled) \<Longrightarrow> \<exists>d. look w' p = Some (File d) \<and>
       payload_size kind (artifact_stem e) tool_input (of_nat (length d)) = Inr sz" using main by blast
qed

section \<open>The whole gate\<close>

text \<open>The call passes: its tool is not gated, or the shard with the call applied fits the cap.\<close>

definition call_fits :: "shard_entry \<Rightarrow> string \<Rightarrow> json \<Rightarrow> path \<Rightarrow> world \<Rightarrow> bool" where
  "call_fits e tool_name tool_input p w \<longleftrightarrow>
     (case tool_kind_from_name tool_name of None \<Rightarrow> True
      | Some kind \<Rightarrow> (\<exists>d sz. look w p = Some (File d) \<and>
          payload_size kind (artifact_stem e) tool_input (of_nat (length d)) = Inr sz \<and> sz \<le> shard_cap_bytes e))"

lemma reject_frame: "reject_canonical_symlink stem p w = (r, w') \<Longrightarrow> frame {} w w'"
  using reject_canonical_symlink_spec(1) .

lemma gate_flat_outcome:
  assumes run: "gate_flat env e tool_name p tool_input w = (v, w')" and setting: "roll_setting w dir cname e p"
    and plain: "sealed_not_linked w dir e" and here: "look w p = Some (File c)"
  shows "content_kept dir e p c w'"
    "v = GateContinue \<Longrightarrow> call_fits e tool_name tool_input p w'"
    "v = GateBlock reason \<Longrightarrow> look w' p = Some (File [])"
proof -
  have "content_kept dir e p c w' \<and> (v = GateContinue \<longrightarrow> call_fits e tool_name tool_input p w') \<and>
      ((\<exists>reason. v = GateBlock reason) \<longrightarrow> look w' p = Some (File []))"
  proof (cases "tool_kind_from_name tool_name")
    case None
    then have "w' = w \<and> v = GateContinue" using run by (auto simp: gate_flat_def)
    then show ?thesis using None here by (simp add: content_kept_def call_fits_def)
  next
    case (Some kind)
    obtain h w1 where c1: "run_self_heal_if_plausible (ge_shard env) e p w = (h, w1)" by fastforce
    note s1 = self_heal_keeps[OF c1 setting plain here]
    obtain q w2 where c2: "reject_canonical_symlink (artifact_stem e) p w1 = (q, w2)" by fastforce
    have k2: "content_kept dir e p c w2" using content_kept_frame[OF reject_frame[OF c2] s1(1)] .
    have t2: "tame w w2" using tame_trans[OF s1(2) frame_tame[OF reject_frame[OF c2]]] .
    obtain z w3 where c3: "gate_projected_size env e kind p tool_input w2 = (z, w3)" by fastforce
    note s3 = sizing_keeps[OF c3 roll_setting_tame[OF setting t2] k2]
    obtain x w4 where c4: "execute_roll (ge_shard env) e p False w3 = (x, w4)" by fastforce
    note s4 = roll_keeps[OF c4 roll_setting_tame[OF setting tame_trans[OF t2 s3(2)]] s3(1)]
    show ?thesis
    proof (cases "isl h \<or> isl q \<or> isl z")
      case True
      then have "(w' = w1 \<or> w' = w2 \<or> w' = w3) \<and> (\<exists>err. v = GateFail err)"
        using run c1 c2 c3 Some by (cases h; cases q; cases z) (auto simp: gate_flat_def)
      then show ?thesis using s1(1) k2 s3(1) by blast
    next
      case False
      then obtain hu qu sz rolled where r: "h = Inr hu" "q = Inr qu" "z = Inr (sz, rolled)" by (cases h; cases q; cases z) auto
      show ?thesis
      proof (cases "sz > shard_cap_bytes e")
        case True
        then have "w' = w4 \<and> v \<noteq> GateContinue \<and> ((\<exists>reason. v = GateBlock reason) \<longrightarrow> \<not> isl x)"
          using run c1 c2 c3 c4 Some r
          by (cases x) (auto simp: gate_flat_def size_trigger_fires_def split: option.splits)
        then show ?thesis using s4 by blast
      next
        case False
        then have "w' = w3 \<and> v = GateContinue"
          using run c1 c2 c3 Some r by (auto simp: gate_flat_def size_trigger_fires_def)
        then show ?thesis using s3(1) s3(3)[OF r(3)] False Some by (auto simp: call_fits_def)
      qed
    qed
  qed
  then show "content_kept dir e p c w'"
    "v = GateContinue \<Longrightarrow> call_fits e tool_name tool_input p w'"
    "v = GateBlock reason \<Longrightarrow> look w' p = Some (File [])" by blast+
qed

lemma gate_reaches_flat:
  assumes "shard_cap_gate_check env registry tool_name p tool_input w = (v, w')"
    "find_matching_entry registry p = Inr (Some e)" "entry_shape e = Some Flat"
  shows "(\<exists>err. v = GateFail err) \<and> w' = w \<or> gate_flat env e tool_name p tool_input w = (v, w')"
  using assms by (cases "validate_entry e") (auto simp: shard_cap_gate_check_def)



section \<open>Witnesses\<close>

definition gated_entry :: shard_entry where
  "gated_entry = sample_entry\<lparr>artifact_path := ''burst-log.md''\<rparr>"

definition gated_env :: gate_env where
  "gated_env = \<lparr>ge_shard = sample_env, ge_migrate = \<lparr>my_frontmatter = (\<lambda>_. Inr ()), my_changelog = (\<lambda>_. Inr ())\<rparr>,
     ge_changelog_items = (\<lambda>_. Some 0), ge_registry = (\<lambda>_. Some [gated_entry])\<rparr>"

definition write_of :: "string \<Rightarrow> json" where "write_of content = JObj [(''content'', JStr content)]"

lemma gated_setting: "roll_setting (sample_world fs c) sample_dir ''burst-log.md'' gated_entry sample_canonical"
  "sealed_not_linked (sample_world fs c) sample_dir gated_entry"
  using sample_setting sample_sealed_not_linked by (simp_all add: roll_setting_def sealed_not_linked_def gated_entry_def)

lemma gated_match: "find_matching_entry [gated_entry] sample_canonical = Inr (Some gated_entry)"
  "entry_shape gated_entry = Some Flat"
  by code_simp+

lemma gated_valid: "validate_entry gated_entry = Inr ()"
proof -
  have "list_ex (\<lambda>c. c \<noteq> CurDir) (path_of ''burst-log.md'')" by code_simp
  then show ?thesis
    by (simp add: validate_entry_def gated_entry_def sample_entry_def sample_eval compute_shard_cap_bytes_def
        entry_cap_formula_inputs_def sat_sub_def)
qed

lemma gated_is_flat: "shard_cap_gate_check gated_env [gated_entry] tool_name sample_canonical input w =
    gate_flat gated_env gated_entry tool_name sample_canonical input w"
  by (simp add: shard_cap_gate_check_def gated_match gated_valid)

lemma gated_fresh: "roll_setting (fresh_world fs c) sample_dir ''burst-log.md'' gated_entry sample_canonical"
  "sealed_not_linked (fresh_world fs c) sample_dir gated_entry" "look (fresh_world fs c) sample_canonical = Some (File c)"
  using fresh_setting by (auto simp: roll_setting_def sealed_not_linked_def gated_entry_def look_fresh sample_canonical_def sample_dir_def)


lemma gated_write_passes: "fst (gate_flat gated_env gated_entry ''Write'' sample_canonical (write_of ''xy'') (fresh_world [] ''abc'')) = GateContinue"
  by code_simp


end
