(* ===== verification/ShardRetention.thy ===== *)
theory ShardRetention
  imports ShardHeal "HOL-Library.List_Lexorder"
begin

text \<open>
  Retention of sealed shards: the oldest active shards beyond the retention count move to an archive
  directory, and the listing of all shards of an artifact, with or without the archive.
\<close>

section \<open>The order of paths\<close>

text \<open>\<open>Path\<close> compares component by component: root, current, parent, then names by their bytes.\<close>

fun component_code :: "component \<Rightarrow> nat list" where
  "component_code RootDir = [0]"
| "component_code CurDir = [1]"
| "component_code ParentDir = [2]"
| "component_code (Normal s) = 3 # map of_char s"

lemma component_code_inj: "component_code a = component_code b \<Longrightarrow> a = b"
  by (cases a; cases b) (auto simp: inj_map_eq_map[OF inj_of_char])

instantiation component :: linorder
begin

definition less_eq_component :: "component \<Rightarrow> component \<Rightarrow> bool" where
  "a \<le> b \<longleftrightarrow> component_code a \<le> component_code b"

definition less_component :: "component \<Rightarrow> component \<Rightarrow> bool" where
  "a < b \<longleftrightarrow> component_code a < component_code b"

instance
  by intro_classes (auto simp: less_eq_component_def less_component_def dest: component_code_inj)

end

section \<open>Archive names\<close>

definition archived_shard_path :: "path \<Rightarrow> string \<Rightarrow> string \<Rightarrow> path" where
  "archived_shard_path cycle_root stem sealed_filename =
     join_name (join_name (join cycle_root [Normal ''archive'']) stem) sealed_filename"

definition archived_shard_index_path_string :: "string \<Rightarrow> string \<Rightarrow> string" where
  "archived_shard_index_path_string stem sealed_filename = ''archive/'' @ stem @ ''/'' @ sealed_filename"

definition shard_index_entry_is_archived :: "shard_index_entry \<Rightarrow> bool" where
  "shard_index_entry_is_archived x \<longleftrightarrow> starts_with ''archive/'' (shard_path x)"

datatype shard_retention_error =
    IndexUnavailable string io_kind
  | ArchivalMoveFailed string string io_kind
  | ArchivalIndexEntryVanished string u32

definition load_shard_index_for_retention_check ::
  "shard_env \<Rightarrow> path \<Rightarrow> string \<Rightarrow> world \<Rightarrow> (shard_retention_error + shard_index) \<times> world"
where
  "load_shard_index_for_retention_check env canonical_path stem w =
     (case load_shard_index env (shard_index_path_for canonical_path stem) w of
        (Inr (Some index), w) \<Rightarrow> (Inr index, w)
      | (Inr None, w) \<Rightarrow> (Inl (IndexUnavailable stem NotFound), w)
      | (Inl source, w) \<Rightarrow> (Inl (IndexUnavailable stem source), w))"

section \<open>Archiving\<close>

definition active_shards :: "shard_index \<Rightarrow> shard_index_entry list" where
  "active_shards index = filter (\<lambda>x. \<not> shard_index_entry_is_archived x) (shards index)"

definition retention_overflow_count :: "shard_index \<Rightarrow> nat" where
  "retention_overflow_count index = length (active_shards index) - unat (retention_count index)"

text \<open>\<open>position\<close> of the first match.\<close>

fun position :: "('a \<Rightarrow> bool) \<Rightarrow> 'a list \<Rightarrow> nat option" where
  "position P [] = None"
| "position P (x # xs) = (if P x then Some 0 else map_option Suc (position P xs))"

definition move_shard :: "path \<Rightarrow> path \<Rightarrow> world \<Rightarrow> (io_kind + unit) \<times> world" where
  "move_shard old_path new_path w =
     (case parent new_path of
        None \<Rightarrow> fs_rename old_path new_path w
      | Some d \<Rightarrow> (case fs_create_dir_all d w of
            (Inl source, w) \<Rightarrow> (Inl source, w) | (Inr _, w) \<Rightarrow> fs_rename old_path new_path w))"

text \<open>The index is changed in place, so a failure leaves what was done before it.\<close>

fun archive_loop ::
  "path \<Rightarrow> u32 list \<Rightarrow> shard_index_entry list \<Rightarrow> shard_index \<Rightarrow> world \<Rightarrow>
   (shard_retention_error + shard_index_entry list) \<times> shard_index \<times> world"
where
  "archive_loop canonical_path [] archived index w = (Inr archived, index, w)"
| "archive_loop canonical_path (n # rest) archived index w =
     (case position (\<lambda>x. seq x = n) (shards index) of
        None \<Rightarrow> (Inl (ArchivalIndexEntryVanished (ix_artifact_stem index) n), index, w)
      | Some i \<Rightarrow>
          (let sealed_filename = shard_path (shards index ! i);
               old_path = shard_sibling_path canonical_path sealed_filename;
               new_path = archived_shard_path (parent_or [] canonical_path) (ix_artifact_stem index) sealed_filename in
           case move_shard old_path new_path w of
             (Inl source, w) \<Rightarrow> (Inl (ArchivalMoveFailed (ix_artifact_stem index) sealed_filename source), index, w)
           | (Inr _, w) \<Rightarrow>
               (let row = (shards index ! i)\<lparr>shard_path := archived_shard_index_path_string (ix_artifact_stem index) sealed_filename\<rparr> in
                archive_loop canonical_path rest (archived @ [row]) (index\<lparr>shards := (shards index)[i := row]\<rparr>) w)))"

definition archive_overflow_shards ::
  "shard_index \<Rightarrow> path \<Rightarrow> world \<Rightarrow> (shard_retention_error + shard_index_entry list) \<times> shard_index \<times> world"
where
  "archive_overflow_shards index canonical_path w =
     (let overflow = retention_overflow_count index in
      if overflow = 0 then (Inr [], index, w)
      else archive_loop canonical_path (take overflow (sort (map seq (active_shards index)))) [] index w)"

section \<open>Listing the corpus\<close>

definition is_shard_file_for_stem :: "string \<Rightarrow> string \<Rightarrow> bool" where
  "is_shard_file_for_stem name stem \<longleftrightarrow> name = stem @ ''.md'' \<or>
     (case Option.bind (strip_prefix (stem @ ''.'') name) (strip_suffix ''.md'') of
        Some seq_part \<Rightarrow> seq_part \<noteq> [] \<and> list_all is_ascii_digit seq_part | None \<Rightarrow> False)"

fun collect_entries :: "path \<Rightarrow> string \<Rightarrow> string list \<Rightarrow> world \<Rightarrow> (io_kind + path list) \<times> world" where
  "collect_entries dir stem [] w = (Inr [], w)"
| "collect_entries dir stem (name # rest) w =
     (case fs_dir_next w of
        (Inl e, w) \<Rightarrow> (Inl e, w)
      | (Inr _, w) \<Rightarrow>
          (let is_file = (case look w (dir @ [Normal name]) of Some (File _) \<Rightarrow> True | _ \<Rightarrow> False) in
           if is_file \<and> is_shard_file_for_stem name stem
           then (case collect_entries dir stem rest w of
               (Inl e, w) \<Rightarrow> (Inl e, w) | (Inr ps, w) \<Rightarrow> (Inr ((dir @ [Normal name]) # ps), w))
           else collect_entries dir stem rest w))"

definition collect_shard_files_in_dir :: "path \<Rightarrow> string \<Rightarrow> world \<Rightarrow> (io_kind + path list) \<times> world" where
  "collect_shard_files_in_dir dir stem w =
     (case fs_read_dir dir w of (Inl e, w) \<Rightarrow> (Inl e, w) | (Inr names, w) \<Rightarrow> collect_entries dir stem names w)"

datatype whole_corpus_glob_scope = DefaultExcluded | ArchiveInclusive

definition whole_corpus_shard_paths ::
  "path \<Rightarrow> string \<Rightarrow> whole_corpus_glob_scope \<Rightarrow> world \<Rightarrow> (io_kind + path list) \<times> world"
where
  "whole_corpus_shard_paths cycle_root stem scope w =
     (case collect_shard_files_in_dir cycle_root stem w of
        (Inl e, w) \<Rightarrow> (Inl e, w)
      | (Inr paths, w) \<Rightarrow>
          if scope = ArchiveInclusive
          then (case collect_shard_files_in_dir (join_name (join cycle_root [Normal ''archive'']) stem) stem w of
              (Inr archived, w) \<Rightarrow> (Inr (sort (paths @ archived)), w)
            | (Inl e, w) \<Rightarrow> if e = NotFound then (Inr (sort paths), w) else (Inl e, w))
          else (Inr (sort paths), w))"

end
