(* ===== verification/ShardRetentionClaims.thy ===== *)
theory ShardRetentionClaims
  imports ShardRetention
begin

text \<open>
  Archiving never loses a shard: at every point, and after every failure, the index names for each row a
  file with the content the row had, and a pass that succeeds leaves the newest shards active.
\<close>

section \<open>Where the files are\<close>

definition row_file :: "path \<Rightarrow> shard_index_entry \<Rightarrow> path" where
  "row_file dir x = join_name dir (shard_path x)"

text \<open>A row names a file of the shard directory, or of its archive.\<close>

inductive row_name :: "string \<Rightarrow> shard_index_entry \<Rightarrow> bool \<Rightarrow> string \<Rightarrow> bool" for stem where
  active: "plain_name n \<Longrightarrow> shard_path x = n \<Longrightarrow> row_name stem x False n"
| archived: "plain_name n \<Longrightarrow> shard_path x = ''archive/'' @ stem @ ''/'' @ n \<Longrightarrow> row_name stem x True n"

inductive_cases row_nameE: "row_name stem x b n"

definition retention_setting :: "path \<Rightarrow> path \<Rightarrow> shard_index \<Rightarrow> bool" where
  "retention_setting dir p index \<longleftrightarrow> parent p = Some dir \<and> plain_name (ix_artifact_stem index) \<and>
     distinct (map seq (shards index)) \<and>
     (\<forall>x\<in>set (shards index). \<exists>b n. row_name (ix_artifact_stem index) x b n) \<and>
     (\<forall>i j bi bj n. i < length (shards index) \<longrightarrow> j < length (shards index) \<longrightarrow> i \<noteq> j \<longrightarrow>
        row_name (ix_artifact_stem index) (shards index ! i) bi n \<longrightarrow> \<not> row_name (ix_artifact_stem index) (shards index ! j) bj n)"

lemma split_slash_append: "CHR ''/'' \<notin> set a \<Longrightarrow> split_slash (a @ CHR ''/'' # b) = a # split_slash b"
  by (induction a) auto

lemma path_of_archived:
  assumes "plain_name stem" "plain_name n"
  shows "path_of (''archive/'' @ stem @ ''/'' @ n) = [Normal ''archive'', Normal stem, Normal n]"
proof -
  have s: "split_slash (''archive'' @ CHR ''/'' # stem @ CHR ''/'' # n) = [''archive'', stem, n]"
    using assms by (subst split_slash_append) (simp_all add: plain_name_def split_slash_append split_slash_plain)
  then show ?thesis
    using assms by (simp add: path_of_def read_component_def plain_name_def)
qed

lemma row_name_not_both: "row_name stem x b n \<Longrightarrow> shard_index_entry_is_archived x = b"
  by (erule row_nameE) (auto simp: shard_index_entry_is_archived_def plain_name_def starts_with_iff)

lemma row_file_eq:
  assumes "row_name stem x b n" "plain_name stem"
  shows "row_file dir x = dir @ (if b then [Normal ''archive'', Normal stem] else []) @ [Normal n]"
  using assms(1)
  by cases (simp_all add: row_file_def path_of_archived[OF assms(2)] join_def is_absolute_def del: append.simps)

lemma archived_path_eq:
  assumes "plain_name stem" "plain_name n"
  shows "archived_shard_path dir stem n = dir @ [Normal ''archive'', Normal stem, Normal n]"
  using assms by (simp add: archived_shard_path_def)

section \<open>One move\<close>

lemma move_shard_keeps:
  assumes run: "move_shard old_path new_path w = (r, w')" and neq: "old_path \<noteq> new_path"
  shows "isl r \<Longrightarrow> look w q \<noteq> None \<Longrightarrow> look w' q = look w q"
    "\<not> isl r \<Longrightarrow> look w old_path = Some (File c) \<Longrightarrow> look w' new_path = Some (File c)"
    "\<not> isl r \<Longrightarrow> q \<noteq> old_path \<Longrightarrow> q \<noteq> new_path \<Longrightarrow> look w q \<noteq> None \<Longrightarrow> look w' q = look w q"
proof -
  obtain v where v: "only_dirs w v" "fs_rename old_path new_path v = (r, w') \<or> isl r \<and> w' = v"
  proof (cases "parent new_path")
    case None
    then show ?thesis using run that[of w] by (simp add: move_shard_def only_dirs_refl)
  next
    case (Some d)
    obtain m v where m: "fs_create_dir_all d w = (m, v)" by fastforce
    show ?thesis
      using run Some m that[OF create_dir_all_spec[OF m]] by (cases m) (auto simp: move_shard_def)
  qed
  have keep: "look w x \<noteq> None \<Longrightarrow> look v x = look w x" for x using v(1) unfolding only_dirs_def by metis
  show "isl r \<Longrightarrow> look w q \<noteq> None \<Longrightarrow> look w' q = look w q"
    using v(2) keep fs_rename_spec(3)[OF _ neq, of v] by (cases r) auto
  show "\<not> isl r \<Longrightarrow> look w old_path = Some (File c) \<Longrightarrow> look w' new_path = Some (File c)"
    using v(2) keep fs_rename_spec(2)[OF _ neq, of v] by (cases r) auto
  show "\<not> isl r \<Longrightarrow> q \<noteq> old_path \<Longrightarrow> q \<noteq> new_path \<Longrightarrow> look w q \<noteq> None \<Longrightarrow> look w' q = look w q"
    using v(2) keep frame_look[OF fs_rename_spec(1)[OF _ neq, of v r w']] by auto
qed

text \<open>Outside a set of paths only missing directories of another set may have appeared.\<close>

definition drifted :: "path set \<Rightarrow> path set \<Rightarrow> world \<Rightarrow> world \<Rightarrow> bool" where
  "drifted S D w w' \<longleftrightarrow> pid w' = pid w \<and>
     (\<forall>q. q \<notin> S \<longrightarrow> look w' q = look w q \<or> q \<in> D \<and> look w q = None \<and> look w' q = Some Directory)"

lemma drifted_refl: "drifted S D w w"
  by (simp add: drifted_def)

lemma drifted_trans: "drifted S D w v \<Longrightarrow> drifted T D v u \<Longrightarrow> T \<subseteq> S \<Longrightarrow> drifted S D w u"
  unfolding drifted_def by (metis subsetD option.distinct(1))

definition prefixes_of :: "path \<Rightarrow> path set" where
  "prefixes_of p = {q. \<exists>r. p = q @ r}"

lemma make_dirs_drifted:
  "make_dirs p cs w = (r, w') \<Longrightarrow> drifted {} (prefixes_of (p @ cs)) w w'"
proof (induction cs arbitrary: p w)
  case (Cons c cs)
  let ?p = "p @ [c]" and ?v = "if c = RootDir then w else put (p @ [c]) Directory w" and ?D = "prefixes_of (p @ c # cs)"
  have D: "?p \<in> ?D" "(p @ [c]) @ cs = p @ c # cs" by (simp_all add: prefixes_of_def)
  consider (new) "look w ?p = None" | (old) "look w ?p = Some Directory" | (other) "w' = w"
    using Cons.prems by (auto simp: Let_def split: option.splits node.splits)
  then show ?case
  proof cases
    case new
    then have run: "make_dirs ?p cs ?v = (r, w')" using Cons.prems by (simp add: Let_def)
    have step: "drifted {} ?D w ?v" using new D(1) by (simp add: drifted_def)
    from drifted_trans[OF step Cons.IH[OF run, unfolded D(2)]] show ?thesis by simp
  next
    case old
    then have "make_dirs ?p cs w = (r, w')" using Cons.prems by (simp add: Let_def)
    from Cons.IH[OF this, unfolded D(2)] show ?thesis .
  qed (simp add: drifted_refl)
qed (simp add: drifted_refl)

lemma create_dir_all_drifted: "fs_create_dir_all p w = (r, w') \<Longrightarrow> drifted {} (prefixes_of p) w w'"
  unfolding fs_create_dir_all_def
  by (erule syscall_cases) (auto simp: drifted_def frame_def dest!: make_dirs_drifted)

lemma move_shard_drifted:
  assumes run: "move_shard old_path new_path w = (r, w')" and neq: "old_path \<noteq> new_path"
    and S: "old_path \<in> S" "new_path \<in> S" and D: "\<And>d. parent new_path = Some d \<Longrightarrow> D = prefixes_of d"
  shows "drifted S D w w'"
proof -
  have ren: "drifted S D v w'" if "fs_rename old_path new_path v = (r, w')" for v
    using fs_rename_spec(1)[OF that neq] S by (auto simp: drifted_def frame_def)
  show ?thesis
  proof (cases "parent new_path")
    case None
    then show ?thesis using run ren by (simp add: move_shard_def)
  next
    case (Some d)
    obtain m v where m: "fs_create_dir_all d w = (m, v)" by fastforce
    have dirs: "drifted S D w v" using create_dir_all_drifted[OF m] D[OF Some] by (simp add: drifted_def)
    show ?thesis
    proof (cases m)
      case (Inl e)
      then show ?thesis using run Some m dirs by (simp add: move_shard_def)
    next
      case (Inr u)
      then have "fs_rename old_path new_path v = (r, w')" using run Some m by (simp add: move_shard_def)
      from drifted_trans[OF dirs ren[OF this]] show ?thesis by simp
    qed
  qed
qed

section \<open>The loop\<close>

definition archive_area :: "path \<Rightarrow> shard_index \<Rightarrow> path set" where
  "archive_area dir index = row_file dir ` set (shards index) \<union>
     range (\<lambda>n. dir @ [Normal ''archive'', Normal (ix_artifact_stem index), Normal n])"

definition archive_dirs :: "path \<Rightarrow> shard_index \<Rightarrow> path set" where
  "archive_dirs dir index = prefixes_of (dir @ [Normal ''archive'', Normal (ix_artifact_stem index)])"

definition rows_have_files :: "path \<Rightarrow> world \<Rightarrow> shard_index \<Rightarrow> bool" where
  "rows_have_files dir w index \<longleftrightarrow> (\<forall>x\<in>set (shards index). \<exists>c. look w (row_file dir x) = Some (File c))"

definition same_rows :: "path \<Rightarrow> world \<Rightarrow> shard_index \<Rightarrow> world \<Rightarrow> shard_index \<Rightarrow> bool" where
  "same_rows dir w index w' index' \<longleftrightarrow> ix_artifact_stem index' = ix_artifact_stem index \<and>
     map seq (shards index') = map seq (shards index) \<and>
     (\<forall>i<length (shards index). look w' (row_file dir (shards index' ! i)) = look w (row_file dir (shards index ! i)))"

lemma same_rows_refl: "same_rows dir w index w index"
  by (simp add: same_rows_def)

lemma same_rows_length: "same_rows dir w index w' index' \<Longrightarrow> length (shards index') = length (shards index)"
  unfolding same_rows_def by (metis length_map)

lemma same_rows_trans: "same_rows dir w a v b \<Longrightarrow> same_rows dir v b u c \<Longrightarrow> same_rows dir w a u c"
  using same_rows_length[of dir w a v b] by (simp add: same_rows_def)

lemma same_rows_files: "same_rows dir w a v b \<Longrightarrow> rows_have_files dir w a \<Longrightarrow> rows_have_files dir v b"
  using same_rows_length[of dir w a v b]
  by (fastforce simp: same_rows_def rows_have_files_def in_set_conv_nth)

lemma position_Some: "position P xs = Some i \<Longrightarrow> i < length xs \<and> P (xs ! i)"
  by (induction xs arbitrary: i) (auto split: if_splits)

lemma position_exists: "x \<in> set xs \<Longrightarrow> P x \<Longrightarrow> \<exists>i. position P xs = Some i"
  by (induction xs) auto

lemma archive_step:
  assumes setting: "retention_setting dir p index" and files: "rows_have_files dir w index"
    and i: "i < length (shards index)" "row_name (ix_artifact_stem index) (shards index ! i) False n"
    and run: "move_shard (row_file dir (shards index ! i)) (archived_shard_path dir (ix_artifact_stem index) n) w = (r, w')"
  defines "row \<equiv> (shards index ! i)\<lparr>shard_path := archived_shard_index_path_string (ix_artifact_stem index) n\<rparr>"
  defines "index2 \<equiv> index\<lparr>shards := (shards index)[i := row]\<rparr>"
  shows "isl r \<Longrightarrow> same_rows dir w index w' index"
    "\<not> isl r \<Longrightarrow> retention_setting dir p index2 \<and> same_rows dir w index w' index2"
    "active_shards index2 = filter (\<lambda>x. \<not> shard_index_entry_is_archived x) ((shards index)[i := row])" "shard_index_entry_is_archived row"
proof -
  let ?stem = "ix_artifact_stem index" and ?xs = "shards index"
  have stem: "plain_name ?stem" using setting by (simp add: retention_setting_def)
  have n: "plain_name n" using i(2) by cases
  have row: "row_name ?stem row True n" "seq row = seq (?xs ! i)"
    using row_name.archived[OF n, of row ?stem] by (simp_all add: row_def archived_shard_index_path_string_def)
  show "shard_index_entry_is_archived row" using row_name_not_both[OF row(1)] by simp
  show "active_shards index2 = filter (\<lambda>x. \<not> shard_index_entry_is_archived x) (?xs[i := row])"
    by (simp add: active_shards_def index2_def)
  have old: "row_file dir (?xs ! i) = dir @ [Normal n]" using row_file_eq[OF i(2) stem] by simp
  have new: "row_file dir row = dir @ [Normal ''archive'', Normal ?stem, Normal n]" using row_file_eq[OF row(1) stem] by simp
  note keep = move_shard_keeps[OF run, unfolded old archived_path_eq[OF stem n]]
  have present: "\<exists>c. look w (row_file dir (?xs ! j)) = Some (File c)" if "j < length ?xs" for j
    using files that by (auto simp: rows_have_files_def)
  show "isl r \<Longrightarrow> same_rows dir w index w' index"
    using keep(1) present unfolding same_rows_def by fastforce
  assume ok: "\<not> isl r"
  have other: "look w' (row_file dir (?xs ! j)) = look w (row_file dir (?xs ! j))" if j: "j < length ?xs" "j \<noteq> i" for j
  proof -
    obtain b m where m: "row_name ?stem (?xs ! j) b m" using setting j(1) unfolding retention_setting_def by (meson nth_mem)
    have "m \<noteq> n"
      using setting i j m unfolding retention_setting_def by metis
    then have "row_file dir (?xs ! j) \<noteq> dir @ [Normal n]" "row_file dir (?xs ! j) \<noteq> dir @ [Normal ''archive'', Normal ?stem, Normal n]"
      by (auto simp: row_file_eq[OF m stem] dest: arg_cong[of _ _ last])
    then show ?thesis using keep(3)[OF _ ok] present[OF j(1)] by fastforce
  qed
  have this_row: "look w' (row_file dir row) = look w (row_file dir (?xs ! i))"
    using keep(2)[OF _ ok] present[OF i(1)] unfolding new old by fastforce
  have names: "row_name ?stem (?xs[i := row] ! j) b m \<Longrightarrow> \<exists>b'. row_name ?stem (?xs ! j) b' m" if "j < length ?xs" for j b m
  proof (cases "j = i")
    case True
    assume "row_name ?stem (?xs[i := row] ! j) b m"
    then have "row_name ?stem row b m" using True i(1) by simp
    then have "b = True \<and> shard_path row = ''archive/'' @ ?stem @ ''/'' @ m"
      using row_name_not_both row_name_not_both[OF row(1)] by (auto elim: row_nameE)
    then have "m = n" by (simp add: row_def archived_shard_index_path_string_def)
    then show ?thesis using i(2) True by blast
  qed auto
  have "retention_setting dir p index2"
    unfolding retention_setting_def
  proof (intro conjI ballI allI impI)
    show "parent p = Some dir" "plain_name (ix_artifact_stem index2)" using setting by (simp_all add: retention_setting_def index2_def)
    have "map seq (?xs[i := row]) = map seq ?xs" by (simp add: map_update row(2) list_update_same_conv i(1))
    then show "distinct (map seq (shards index2))" using setting by (simp add: retention_setting_def index2_def)
  next
    fix x assume "x \<in> set (shards index2)"
    then have "x = row \<or> x \<in> set ?xs" using set_update_subset_insert[of ?xs i row] by (auto simp: index2_def)
    then show "\<exists>b m. row_name (ix_artifact_stem index2) x b m"
      using row(1) setting by (auto simp: retention_setting_def index2_def)
  next
    fix j k bj bk m assume "j < length (shards index2)" "k < length (shards index2)" "j \<noteq> k"
      "row_name (ix_artifact_stem index2) (shards index2 ! j) bj m"
    then show "\<not> row_name (ix_artifact_stem index2) (shards index2 ! k) bk m"
      using names setting unfolding retention_setting_def index2_def by simp metis
  qed
  moreover have "same_rows dir w index w' index2"
    using other this_row i(1) by (auto simp: same_rows_def index2_def map_update row(2) list_update_same_conv nth_list_update)
  ultimately show "retention_setting dir p index2 \<and> same_rows dir w index w' index2" by blast
qed

lemma active_after_archiving:
  assumes "distinct (map seq xs)" "i < length xs" "\<not> A (xs ! i)" "A row" "seq row = seq (xs ! i)"
  shows "set (map seq (filter (\<lambda>x. \<not> A x) (xs[i := row]))) = set (map seq (filter (\<lambda>x. \<not> A x) xs)) - {seq (xs ! i)}"
proof -
  have inj: "seq (xs ! j) = seq (xs ! k) \<longleftrightarrow> j = k" if "j < length xs" "k < length xs" for j k
    using assms(1) that by (metis distinct_conv_nth length_map nth_map)
  have "s \<in> set (map seq (filter (\<lambda>x. \<not> A x) (xs[i := row]))) \<longleftrightarrow>
      (\<exists>j<length xs. j \<noteq> i \<and> \<not> A (xs ! j) \<and> s = seq (xs ! j))" for s
    using assms(2,4) by (auto simp: in_set_conv_nth nth_list_update image_iff split: if_splits)
  moreover have "s \<in> set (map seq (filter (\<lambda>x. \<not> A x) xs)) - {seq (xs ! i)} \<longleftrightarrow>
      (\<exists>j<length xs. j \<noteq> i \<and> \<not> A (xs ! j) \<and> s = seq (xs ! j))" for s
    using assms(2,3) inj by (auto simp: in_set_conv_nth image_iff)
  ultimately show ?thesis by blast
qed

lemma archive_loop_keeps:
  assumes "archive_loop p ns acc index w = (r, index', w')" "retention_setting dir p index" "rows_have_files dir w index"
    "distinct ns" "set ns \<subseteq> seq ` set (active_shards index)"
  shows "same_rows dir w index w' index' \<and> retention_setting dir p index' \<and>
    drifted (archive_area dir index) (archive_dirs dir index) w w' \<and> index' = index\<lparr>shards := shards index'\<rparr> \<and>
    set (active_shards index') \<subseteq> set (active_shards index) \<and>
    (\<forall>out. r = Inr out \<longrightarrow> map seq out = map seq acc @ ns \<and>
       seq ` set (active_shards index') = seq ` set (active_shards index) - set ns)"
  using assms
proof (induction ns arbitrary: acc index w)
  case Nil
  then show ?case by (auto simp: same_rows_refl drifted_refl)
next
  case (Cons n ns)
  let ?stem = "ix_artifact_stem index" and ?xs = "shards index"
  have stem: "plain_name ?stem" and dir: "parent p = Some dir" and dist: "distinct (map seq ?xs)"
    using Cons.prems(2) by (simp_all add: retention_setting_def)
  obtain y where y: "y \<in> set ?xs" "\<not> shard_index_entry_is_archived y" "seq y = n"
    using Cons.prems(5) by (auto simp: active_shards_def)
  then obtain i where pos: "position (\<lambda>x. seq x = n) ?xs = Some i" using position_exists[of y ?xs "\<lambda>x. seq x = n"] by blast
  note i = position_Some[OF pos]
  have "?xs ! i = y"
    using i y dist by (metis distinct_map inj_onD nth_mem)
  then have act: "\<not> shard_index_entry_is_archived (?xs ! i)" using y(2) by simp
  obtain b m where m: "row_name ?stem (?xs ! i) b m" using Cons.prems(2) i unfolding retention_setting_def by (meson nth_mem)
  then have b: "row_name ?stem (?xs ! i) False m" using row_name_not_both[OF m] act by simp
  then have path: "shard_path (?xs ! i) = m" by cases auto
  obtain q v where mv: "move_shard (row_file dir (?xs ! i)) (archived_shard_path dir ?stem m) w = (q, v)" by fastforce
  note step = archive_step[OF Cons.prems(2,3) _ b mv]
  let ?row = "(?xs ! i)\<lparr>shard_path := archived_shard_index_path_string ?stem m\<rparr>"
  let ?index2 = "index\<lparr>shards := ?xs[i := ?row]\<rparr>"
  have src: "shard_sibling_path p m = row_file dir (?xs ! i)" and root: "parent_or [] p = dir"
    using dir path by (simp_all add: shard_sibling_path_def row_file_def parent_or_def)
  have run: "(case q of Inl source \<Rightarrow> (Inl (ArchivalMoveFailed ?stem m source), index, v)
      | Inr _ \<Rightarrow> archive_loop p ns (acc @ [?row]) ?index2 v) = (r, index', w')"
    using Cons.prems(1) pos mv path src root by (cases q) (auto simp: Let_def)
  have new: "archived_shard_path dir ?stem m = dir @ [Normal ''archive'', Normal ?stem, Normal m]"
    using archived_path_eq[OF stem, of m dir] b by (auto elim: row_nameE)
  have old: "row_file dir (?xs ! i) = dir @ [Normal m]" using row_file_eq[OF b stem] by simp
  have moved: "drifted (archive_area dir index) (archive_dirs dir index) w v"
  proof (rule move_shard_drifted[OF mv])
    show "row_file dir (?xs ! i) \<noteq> archived_shard_path dir ?stem m" by (simp add: old new)
    show "row_file dir (?xs ! i) \<in> archive_area dir index" using i by (simp add: archive_area_def)
    show "archived_shard_path dir ?stem m \<in> archive_area dir index" by (simp add: archive_area_def new)
    show "archive_dirs dir index = prefixes_of d" if "parent (archived_shard_path dir ?stem m) = Some d" for d
      using that unfolding new by (auto simp: archive_dirs_def parent_def butlast_append)
  qed
  show ?case
  proof (cases q)
    case (Inl source)
    then show ?thesis using run step(1) i Cons.prems(2) moved by auto
  next
    case (Inr u)
    then have s2: "retention_setting dir p ?index2" "same_rows dir w index v ?index2" using step(2) i by simp_all
    have files2: "rows_have_files dir v ?index2" using same_rows_files[OF s2(2) Cons.prems(3)] .
    have arch: "shard_index_entry_is_archived ?row" "active_shards ?index2 = filter (\<lambda>x. \<not> shard_index_entry_is_archived x) (?xs[i := ?row])"
      using step(3,4) i by blast+
    have acts: "seq ` set (active_shards ?index2) = seq ` set (active_shards index) - {n}"
      using active_after_archiving[OF dist _ act arch(1)] i by (simp add: active_shards_def arch(2))
    have sub: "set ns \<subseteq> seq ` set (active_shards ?index2)" and d: "distinct ns" using Cons.prems(4,5) acts by auto
    have rest: "archive_loop p ns (acc @ [?row]) ?index2 v = (r, index', w')" using run Inr by simp
    have "row_file dir ?row \<in> archive_area dir index"
      using row_file_eq[OF row_name.archived[of m ?row ?stem] stem, of dir] b
      by (auto simp: archive_area_def archived_shard_index_path_string_def elim!: row_nameE)
    moreover have "row_file dir x \<in> archive_area dir index" if "x \<in> set ?xs" for x
      using that by (simp add: archive_area_def)
    moreover have dirs: "archive_dirs dir ?index2 = archive_dirs dir index" by (simp add: archive_dirs_def)
    moreover have fewer: "set (active_shards ?index2) \<subseteq> set (active_shards index)"
      using arch(1) set_update_subset_insert[of ?xs i ?row] unfolding arch(2) active_shards_def by auto
    ultimately have area: "archive_area dir ?index2 \<subseteq> archive_area dir index"
      using set_update_subset_insert[of ?xs i ?row] by (auto simp: archive_area_def)
    have ih: "same_rows dir v ?index2 w' index' \<and> retention_setting dir p index' \<and>
        drifted (archive_area dir ?index2) (archive_dirs dir ?index2) v w' \<and> index' = ?index2\<lparr>shards := shards index'\<rparr> \<and>
        set (active_shards index') \<subseteq> set (active_shards ?index2) \<and>
        (\<forall>out. r = Inr out \<longrightarrow> map seq out = map seq (acc @ [?row]) @ ns \<and>
           seq ` set (active_shards index') = seq ` set (active_shards ?index2) - set ns)"
      by (rule Cons.IH[OF rest s2(1) files2 d sub])
    then show ?thesis
      using same_rows_trans[OF s2(2)] acts i drifted_trans[OF moved _ area] fewer dirs by auto
  qed
qed

lemma archive_overflow_keeps:
  assumes run: "archive_overflow_shards index p w = (r, index', w')"
    and setting: "retention_setting dir p index" and files: "rows_have_files dir w index"
  shows "same_rows dir w index w' index'" "retention_setting dir p index'" "drifted (archive_area dir index) (archive_dirs dir index) w w'"
    "index' = index\<lparr>shards := shards index'\<rparr>" "set (active_shards index') \<subseteq> set (active_shards index)"
proof -
  have "same_rows dir w index w' index' \<and> retention_setting dir p index' \<and> drifted (archive_area dir index) (archive_dirs dir index) w w' \<and>
    index' = index\<lparr>shards := shards index'\<rparr> \<and> set (active_shards index') \<subseteq> set (active_shards index)"
  proof (cases "retention_overflow_count index = 0")
    case True
    then show ?thesis using run setting by (auto simp: archive_overflow_shards_def same_rows_refl drifted_refl)
  next
    case False
    let ?ns = "take (retention_overflow_count index) (sort (map seq (active_shards index)))"
    have "distinct (map seq (active_shards index))"
      using setting by (simp add: retention_setting_def active_shards_def distinct_map_filter)
    then have d: "distinct ?ns" by simp
    have sub: "set ?ns \<subseteq> seq ` set (active_shards index)"
      using set_take_subset[of "retention_overflow_count index" "sort (map seq (active_shards index))"] by simp
    have run2: "archive_loop p ?ns [] index w = (r, index', w')"
      using run False by (simp add: archive_overflow_shards_def)
    show ?thesis using archive_loop_keeps[OF run2 setting files d sub] by blast
  qed
  then show "same_rows dir w index w' index'" "retention_setting dir p index'" "drifted (archive_area dir index) (archive_dirs dir index) w w'"
    "index' = index\<lparr>shards := shards index'\<rparr>" "set (active_shards index') \<subseteq> set (active_shards index)" by blast+
qed

text \<open>
  Claim C38.  Archiving loses no shard: after every pass, failed passes included, the index has the same rows
  and the file each row names holds what the row's file held before; a pass that succeeds leaves no
  more active shards than the retention count, and every shard it archived is older than those left.
\<close>

theorem retention_keeps_shards:
  assumes run: "archive_overflow_shards index p w = (r, index', w')"
    and setting: "retention_setting dir p index" and files: "rows_have_files dir w index"
  shows "same_rows dir w index w' index' \<and>
    (\<forall>archived. r = Inr archived \<longrightarrow>
       length (active_shards index') = min (length (active_shards index)) (unat (retention_count index)) \<and>
       (\<forall>x\<in>set archived. \<forall>y\<in>set (active_shards index'). seq x < seq y))"
proof (cases "retention_overflow_count index = 0")
  case True
  then show ?thesis using run by (auto simp: archive_overflow_shards_def same_rows_refl retention_overflow_count_def)
next
  case False
  let ?k = "retention_overflow_count index" and ?s = "sort (map seq (active_shards index))"
  have "distinct (map seq (active_shards index))"
    using setting by (simp add: retention_setting_def active_shards_def distinct_map_filter)
  then have s: "distinct ?s" "sorted ?s" "set ?s = seq ` set (active_shards index)" "length ?s = length (active_shards index)"
    by simp_all
  have run2: "archive_loop p (take ?k ?s) [] index w = (r, index', w')"
    using run False by (simp add: archive_overflow_shards_def)
  have sub: "set (take ?k ?s) \<subseteq> seq ` set (active_shards index)" using set_take_subset[of ?k ?s] s(3) by simp
  note out = archive_loop_keeps[OF run2 setting files distinct_take[OF s(1)] sub]
  have "length (active_shards index') = min (length (active_shards index)) (unat (retention_count index)) \<and>
      (\<forall>x\<in>set archived. \<forall>y\<in>set (active_shards index'). seq x < seq y)" if r: "r = Inr archived" for archived
  proof -
    have done1: "map seq archived = take ?k ?s" "seq ` set (active_shards index') = set ?s - set (take ?k ?s)"
      using out r s(3) by auto
    have split: "set ?s = set (take ?k ?s) \<union> set (drop ?k ?s)" "set (take ?k ?s) \<inter> set (drop ?k ?s) = {}"
      using s(1) by (metis append_take_drop_id set_append) (rule set_take_disj_set_drop_if_distinct[OF s(1)], simp)
    then have left: "seq ` set (active_shards index') = set (drop ?k ?s)" using done1(2) by auto
    have dist': "distinct (map seq (active_shards index'))"
      using out by (auto simp: retention_setting_def active_shards_def distinct_map_filter)
    have "length (active_shards index') = card (seq ` set (active_shards index'))"
      using distinct_card[OF dist'] by simp
    also have "\<dots> = length ?s - ?k" using left distinct_card[OF distinct_drop[OF s(1), of ?k]] by simp
    finally have len: "length (active_shards index') = min (length (active_shards index)) (unat (retention_count index))"
      using False s(4) by (simp add: retention_overflow_count_def)
    have "a < b" if "a \<in> set (take ?k ?s)" "b \<in> set (drop ?k ?s)" for a b
    proof -
      have "a \<le> b" using s(2) that sorted_append[of "take ?k ?s" "drop ?k ?s"] by simp
      then show ?thesis using that split(2) by fastforce
    qed
    then have "\<forall>x\<in>set archived. \<forall>y\<in>set (active_shards index'). seq x < seq y"
      using arg_cong[OF done1(1), of set] left by (metis image_eqI image_set)
    then show ?thesis using len by blast
  qed
  then show ?thesis using out by blast
qed

section \<open>Witness and divergences\<close>

definition kept_row :: "u32 \<Rightarrow> string \<Rightarrow> shard_index_entry" where
  "kept_row n f = \<lparr>seq = n, shard_path = f, sealed_at = ''now'', bytes_at_seal = 1, sealed_retroactively = False,
     oversized_record = False, is_preamble_shard = False, records = 0\<rparr>"

definition kept_index :: shard_index where
  "kept_index = \<lparr>schema_version = 1, ix_artifact_stem = ''s'', current_shard = ''s.md'', ix_shard_cap_bytes = 1,
     ix_max_single_record_bytes = 1, ix_safety_margin_bytes = 1, ix_practical_fuel_ceiling = 1, ix_worst_case_fuel_per_byte = F64_Fin 1,
     retention_count = 1, manifest_of = None, shards = [kept_row 1 ''s.1.md'', kept_row 2 ''s.2.md'', kept_row 3 ''s.3.md'']\<rparr>"

definition kept_world :: "fault option list \<Rightarrow> (path \<times> node) list \<Rightarrow> world" where
  "kept_world fs extra = \<lparr>nodes = [([RootDir], Directory), ([RootDir, Normal ''f''], Directory), ([RootDir, Normal ''f'', Normal ''s.1.md''], File ''a''),
     ([RootDir, Normal ''f'', Normal ''s.2.md''], File ''b''), ([RootDir, Normal ''f'', Normal ''s.3.md''], File ''c'')] @ extra,
     faults = fs, nonces = [], pid = 7\<rparr>"

definition kept_canonical :: path where "kept_canonical = [RootDir, Normal ''f'', Normal ''s.md'']"

definition archived_index :: "nat \<Rightarrow> shard_index" where
  "archived_index k = kept_index\<lparr>shards := take k [kept_row 1 ''archive/s/s.1.md'', kept_row 2 ''archive/s/s.2.md''] @ drop k (shards kept_index)\<rparr>"

lemma kept_run: "fst (archive_overflow_shards kept_index kept_canonical (kept_world [] [])) =
    Inr [kept_row 1 ''archive/s/s.1.md'', kept_row 2 ''archive/s/s.2.md'']"
  "fst (snd (archive_overflow_shards kept_index kept_canonical (kept_world [] []))) = archived_index 2"
  by code_simp+

lemma kept_names:
  "row_name ''s'' (kept_row 1 ''s.1.md'') b n \<longleftrightarrow> b = False \<and> n = ''s.1.md''"
  "row_name ''s'' (kept_row 2 ''s.2.md'') b n \<longleftrightarrow> b = False \<and> n = ''s.2.md''"
  "row_name ''s'' (kept_row 3 ''s.3.md'') b n \<longleftrightarrow> b = False \<and> n = ''s.3.md''"
  by (auto simp: row_name.simps kept_row_def plain_name_def)

lemma kept_setting: "retention_setting [RootDir, Normal ''f''] kept_canonical kept_index"
proof -
  have rows: "ix_artifact_stem kept_index = ''s''" "shards kept_index = [kept_row 1 ''s.1.md'', kept_row 2 ''s.2.md'', kept_row 3 ''s.3.md'']"
    by (simp_all add: kept_index_def)
  have below: "i < length (shards kept_index) \<Longrightarrow> i = 0 \<or> i = 1 \<or> i = 2" for i by (auto simp: rows)
  have other: "\<not> row_name ''s'' (shards kept_index ! j) bj n" if "i < length (shards kept_index)" "j < length (shards kept_index)" "i \<noteq> j"
      "row_name ''s'' (shards kept_index ! i) bi n" for i j bi bj n
    using below[OF that(1)] below[OF that(2)] that(3,4) by (elim disjE) (simp_all add: rows kept_names)
  have "distinct (map seq (shards kept_index))" by (simp add: rows kept_row_def)
  moreover have "\<exists>b n. row_name ''s'' x b n" if "x \<in> set (shards kept_index)" for x
  proof -
    have "x = kept_row 1 ''s.1.md'' \<or> x = kept_row 2 ''s.2.md'' \<or> x = kept_row 3 ''s.3.md''" using that by (auto simp: rows)
    then have "row_name ''s'' x False (shard_path x)" by (elim disjE) (simp_all add: kept_names, simp_all add: kept_row_def)
    then show ?thesis by (intro exI)
  qed
  moreover have "plain_name ''s''" by (simp add: plain_name_def)
  ultimately show ?thesis
    using other unfolding retention_setting_def rows(1) by (simp add: kept_canonical_def parent_def)
qed

lemma kept_files: "rows_have_files [RootDir, Normal ''f''] (kept_world fs []) kept_index"
  by (simp add: rows_have_files_def kept_index_def kept_row_def row_file_def plain_name_def kept_world_def look_def)

theorem retention_keeps_shards_witness:
  "same_rows [RootDir, Normal ''f''] (kept_world [] []) kept_index
     (snd (snd (archive_overflow_shards kept_index kept_canonical (kept_world [] [])))) (archived_index 2) \<and>
   length (active_shards (archived_index 2)) = min (length (active_shards kept_index)) 1"
proof -
  have "archive_overflow_shards kept_index kept_canonical (kept_world [] []) =
     (Inr [kept_row 1 ''archive/s/s.1.md'', kept_row 2 ''archive/s/s.2.md''], archived_index 2,
      snd (snd (archive_overflow_shards kept_index kept_canonical (kept_world [] []))))"
    using kept_run by (simp add: prod_eq_iff)
  from retention_keeps_shards[OF this kept_setting kept_files] show ?thesis by (simp add: kept_index_def)
qed

text \<open>
  A move that fails after another one succeeded has changed the index, although its message says that
  no change was applied; and a file that is already in the archive under the name is replaced.
\<close>

lemma failed_archiving_changes_index:
  "fst (archive_overflow_shards kept_index kept_canonical (kept_world [None, None, Some (Fault 0)] [])) =
     Inl (ArchivalMoveFailed ''s'' ''s.2.md'' OtherIo)"
  "fst (snd (archive_overflow_shards kept_index kept_canonical (kept_world [None, None, Some (Fault 0)] []))) = archived_index 1"
  by code_simp+

lemma archiving_replaces_file:
  "look (snd (move_shard [Normal ''s.1.md''] [Normal ''archive'', Normal ''s'', Normal ''s.1.md'']
     \<lparr>nodes = [([Normal ''s.1.md''], File ''a''), ([Normal ''archive''], Directory), ([Normal ''archive'', Normal ''s''], Directory),
        ([Normal ''archive'', Normal ''s'', Normal ''s.1.md''], File ''old'')], faults = [], nonces = [], pid = 7\<rparr>))
     [Normal ''archive'', Normal ''s'', Normal ''s.1.md''] = Some (File ''a'')"
  by (simp add: move_shard_def parent_def fs_create_dir_all_def fs_rename_def look_def put_def del_def dir_present_def parent_or_def)

end
