(* ===== verification/ShardBackfill.thy ===== *)
theory ShardBackfill
  imports ShardRetention ShardPartition ShardBoundary
begin

text \<open>
  The one-time backfill split of \<^verbatim>\<open>crates/factory-dispatcher/src/shard_manager.rs\<close>: an oversized append
  log becomes sealed shards and a current file, in one operation that verifies its parts before it
  writes, reads back what it wrote, publishes the index with a recovery manifest before it replaces
  the canonical file, and heals a run that stopped between the two.  The digest function, the TOML
  codec of the index, the clock and the Unicode letter test are parameters.
\<close>

section \<open>Data\<close>

record backfill_env =
  be_shard :: shard_env
  sha256_digest :: "bytes \<Rightarrow> bytes"
  be_alphanumeric :: "string \<Rightarrow> bool"

text \<open>What the detail of a message reports.\<close>

datatype backfill_detail =
    OffsetsNotWellFormed "nat list" nat
  | OffsetsMissing "nat list"
  | OffsetsUncorroborated string "nat list"
  | OffsetsDiverge "nat list" "nat list"
  | PartsDifferFromContent
  | RecordCountsDiffer
  | PartExceedsCap u64
  | SealedReadBackDiffers path nat nat

datatype slice_detail =
    ManifestInconsistent u64 u64
  | SliceOffsetBeyondEnd nat u64
  | SliceUnverified u64 string u64 string
  | HealReadBackDiffers path u64 string u64 string

datatype mechanism_a_backfill_error =
    ContentPreservationFailed string backfill_detail
  | BackfillIo string io_kind
  | AmbiguousRecoveryState string u64 string u64 string u64 string
  | MissingBackfillManifest string
  | SliceVerificationFailed string slice_detail
  | CanonicalWriteVerificationFailed string u64 string u64 string

datatype mechanism_a_backfill_outcome = AlreadyMigrated | Migrated u32 u32 | Healed u32

definition sha256_hex :: "backfill_env \<Rightarrow> bytes \<Rightarrow> string" where
  "sha256_hex env c = concat (map (\<lambda>b. [hex_digit (byte b div 16), hex_digit (byte b mod 16)]) (sha256_digest env c))"

section \<open>Writing\<close>

definition write_atomic_bytes :: "path \<Rightarrow> bytes \<Rightarrow> string \<Rightarrow> world \<Rightarrow> (mechanism_a_backfill_error + unit) \<times> world" where
  "write_atomic_bytes p content stem w =
     (if \<not> utf8_valid content then (Inl (BackfillIo stem InvalidData), w)
      else (case write_atomic p content w of
          (Inl e, w) \<Rightarrow> (Inl (BackfillIo stem e), w) | (Inr _, w) \<Rightarrow> (Inr (), w)))"

definition write_and_read_back :: "path \<Rightarrow> bytes \<Rightarrow> string \<Rightarrow> world \<Rightarrow> (mechanism_a_backfill_error + bytes) \<times> world" where
  "write_and_read_back p c stem w =
     (case write_atomic_bytes p c stem w of
        (Inl e, w) \<Rightarrow> (Inl e, w)
      | (Inr _, w) \<Rightarrow> (case fs_read p w of
            (Inl source, w) \<Rightarrow> (Inl (BackfillIo stem source), w) | (Inr r, w) \<Rightarrow> (Inr r, w)))"

definition mechanism_a_write_and_verify_sealed_shard ::
  "path \<Rightarrow> bytes \<Rightarrow> string \<Rightarrow> world \<Rightarrow> (mechanism_a_backfill_error + unit) \<times> world"
where
  "mechanism_a_write_and_verify_sealed_shard sealed_path c stem w =
     (case write_and_read_back sealed_path c stem w of
        (Inl e, w) \<Rightarrow> (Inl e, w)
      | (Inr read_back, w) \<Rightarrow>
          if read_back \<noteq> c
          then (Inl (ContentPreservationFailed stem (SealedReadBackDiffers sealed_path (length read_back) (length c))), w)
          else (Inr (), w))"

definition write_shard_index_for_backfill ::
  "backfill_env \<Rightarrow> path \<Rightarrow> shard_index \<Rightarrow> string \<Rightarrow> world \<Rightarrow> (mechanism_a_backfill_error + unit) \<times> world"
where
  "write_shard_index_for_backfill env index_path index stem w =
     (case toml_to (be_shard env) index of
        None \<Rightarrow> (Inl (BackfillIo stem OtherIo), w)
      | Some serialized \<Rightarrow> (case write_atomic index_path serialized w of
            (Inl e, w) \<Rightarrow> (Inl (BackfillIo stem e), w) | (Inr _, w) \<Rightarrow> (Inr (), w)))"

definition fresh_backfill_shard_index :: "shard_entry \<Rightarrow> u32 \<Rightarrow> shard_index_entry list \<Rightarrow> shard_index" where
  "fresh_backfill_shard_index e keep rows =
     \<lparr>schema_version = 1, ix_artifact_stem = artifact_stem e, current_shard = artifact_path e,
      ix_shard_cap_bytes = shard_cap_bytes e, ix_max_single_record_bytes = max_single_record_bytes e,
      ix_safety_margin_bytes = safety_margin e, ix_practical_fuel_ceiling = practical_fuel_ceiling e,
      ix_worst_case_fuel_per_byte = worst_case_fuel_per_byte e, retention_count = keep, manifest_of = None, shards = rows\<rparr>"

section \<open>A run that was interrupted\<close>

definition mechanism_a_backfill_already_migrated ::
  "backfill_env \<Rightarrow> path \<Rightarrow> string \<Rightarrow> world \<Rightarrow> (io_kind + bool) \<times> world"
where
  "mechanism_a_backfill_already_migrated env canonical_path stem w =
     (case load_shard_index (be_shard env) (shard_index_path_for canonical_path stem) w of
        (Inl e, w) \<Rightarrow> (Inl e, w)
      | (Inr (Some index), w) \<Rightarrow> (Inr (manifest_of index \<noteq> None), w)
      | (Inr None, w) \<Rightarrow> (Inr False, w))"

definition heal_slice :: "backfill_env \<Rightarrow> string \<Rightarrow> backfill_manifest \<Rightarrow> bytes \<Rightarrow> mechanism_a_backfill_error + bytes" where
  "heal_slice env stem m canonical_bytes =
     (if original_bytes m < final_bytes m
      then Inl (SliceVerificationFailed stem (ManifestInconsistent (final_bytes m) (original_bytes m)))
      else
        (let offset = unat (original_bytes m - final_bytes m) in
         if length canonical_bytes < offset
         then Inl (SliceVerificationFailed stem (SliceOffsetBeyondEnd offset (of_nat (length canonical_bytes))))
         else
           (let sliced = drop offset canonical_bytes; n = of_nat (length sliced); h = sha256_hex env sliced in
            if n \<noteq> final_bytes m \<or> h \<noteq> final_sha256 m
            then Inl (SliceVerificationFailed stem (SliceUnverified n h (final_bytes m) (final_sha256 m)))
            else Inr sliced)))"

definition heal_or_confirm_already_migrated ::
  "backfill_env \<Rightarrow> shard_entry \<Rightarrow> path \<Rightarrow> path \<Rightarrow> world \<Rightarrow>
   (mechanism_a_backfill_error + mechanism_a_backfill_outcome) \<times> world"
where
  "heal_or_confirm_already_migrated env e canonical_path index_path w =
     (let stem = artifact_stem e in
      case load_shard_index (be_shard env) index_path w of
        (Inl source, w) \<Rightarrow> (Inl (BackfillIo stem source), w)
      | (Inr None, w) \<Rightarrow> (Inl (BackfillIo stem OtherIo), w)
      | (Inr (Some index), w) \<Rightarrow>
          if shards index = [] then (Inr AlreadyMigrated, w)
          else (case manifest_of index of
            None \<Rightarrow> (Inl (MissingBackfillManifest stem), w)
          | Some m \<Rightarrow>
              (case fs_read canonical_path w of
                 (Inl source, w) \<Rightarrow> (Inl (BackfillIo stem source), w)
               | (Inr canonical_bytes, w) \<Rightarrow>
                   (let n = of_nat (length canonical_bytes); h = sha256_hex env canonical_bytes in
                    if n = final_bytes m \<and> h = final_sha256 m then (Inr AlreadyMigrated, w)
                    else if n = original_bytes m \<and> h = original_sha256 m then
                      (case heal_slice env stem m canonical_bytes of
                         Inl err \<Rightarrow> (Inl err, w)
                       | Inr sliced \<Rightarrow>
                           (case write_and_read_back canonical_path sliced stem w of
                              (Inl err, w) \<Rightarrow> (Inl err, w)
                            | (Inr read_back, w) \<Rightarrow>
                                if of_nat (length read_back) \<noteq> final_bytes m \<or> sha256_hex env read_back \<noteq> final_sha256 m
                                then (Inl (SliceVerificationFailed stem (HealReadBackDiffers canonical_path
                                       (of_nat (length read_back)) (sha256_hex env read_back) (final_bytes m) (final_sha256 m))), w)
                                else (Inr (Healed (of_nat (length (shards index)))), w)))
                    else (Inl (AmbiguousRecoveryState stem n h (original_bytes m) (original_sha256 m)
                           (final_bytes m) (final_sha256 m)), w)))))"

section \<open>The gate before any write\<close>

definition original_record_count ::
  "backfill_env \<Rightarrow> string \<Rightarrow> nat list \<Rightarrow> bytes \<Rightarrow> mechanism_a_backfill_error + nat"
where
  "original_record_count env stem offsets content =
     (let true_boundary_offsets = mechanism_a_record_boundary_offsets (be_alphanumeric env) stem content in
      if offsets = [] then
        (if true_boundary_offsets \<noteq> []
         then Inl (ContentPreservationFailed stem (OffsetsMissing true_boundary_offsets))
         else Inr (if content \<noteq> [] then 1 else 0))
      else if true_boundary_offsets = [] then
        (if \<not> is_known_mechanism_a_artifact_stem stem
         then Inl (ContentPreservationFailed stem (OffsetsUncorroborated stem offsets))
         else Inr (length offsets))
      else if remdups_adj (sort offsets) \<noteq> sort true_boundary_offsets
      then Inl (ContentPreservationFailed stem (OffsetsDiverge offsets (sort true_boundary_offsets)))
      else Inr (length offsets))"

definition backfill_parts ::
  "backfill_env \<Rightarrow> shard_entry \<Rightarrow> nat list \<Rightarrow> bytes \<Rightarrow> mechanism_a_backfill_error + mechanism_a_backfill_partition list"
where
  "backfill_parts env e offsets content =
     (let stem = artifact_stem e in
      if offsets \<noteq> [] \<and> \<not> record_boundary_offsets_are_well_formed (length content) offsets
      then Inl (ContentPreservationFailed stem (OffsetsNotWellFormed offsets (length content)))
      else
        (let partitions = mechanism_a_partition_for_backfill content offsets (shard_cap_bytes e) in
         case original_record_count env stem offsets content of
           Inl err \<Rightarrow> Inl err
         | Inr n \<Rightarrow>
             if \<not> mechanism_a_verify_backfill_content_preserved content partitions
             then Inl (ContentPreservationFailed stem PartsDifferFromContent)
             else if \<not> mechanism_a_verify_backfill_record_counts_preserved n partitions
             then Inl (ContentPreservationFailed stem RecordCountsDiffer)
             else if \<not> mechanism_a_verify_backfill_per_shard_cap_preserved partitions (shard_cap_bytes e)
             then Inl (ContentPreservationFailed stem (PartExceedsCap (shard_cap_bytes e)))
             else Inr partitions))"

section \<open>The split\<close>

definition backfill_manifest_for :: "backfill_env \<Rightarrow> bytes \<Rightarrow> bytes \<Rightarrow> backfill_manifest" where
  "backfill_manifest_for env original final =
     \<lparr>original_bytes = of_nat (length original), original_sha256 = sha256_hex env original,
      final_bytes = of_nat (length final), final_sha256 = sha256_hex env final\<rparr>"

definition backfill_row :: "string \<Rightarrow> string \<Rightarrow> u32 \<Rightarrow> mechanism_a_backfill_partition \<Rightarrow> shard_index_entry" where
  "backfill_row now stem n part =
     \<lparr>seq = n, shard_path = sealed_name stem n, sealed_at = now, bytes_at_seal = of_nat (length (part_bytes part)),
      sealed_retroactively = False, oversized_record = part_oversized part,
      is_preamble_shard = (record_count part = 0), records = of_nat (record_count part)\<rparr>"

text \<open>The numbering adds without a check; here it wraps, as a release build does.\<close>

fun seal_parts ::
  "backfill_env \<Rightarrow> string \<Rightarrow> path \<Rightarrow> u32 \<Rightarrow> nat \<Rightarrow> mechanism_a_backfill_partition list \<Rightarrow> world \<Rightarrow>
   (mechanism_a_backfill_error + shard_index_entry list) \<times> world"
where
  "seal_parts env stem canonical_path existing_max_seq i [] w = (Inr [], w)"
| "seal_parts env stem canonical_path existing_max_seq i (part # rest) w =
     (let n = existing_max_seq + of_nat i + 1 in
      case mechanism_a_write_and_verify_sealed_shard (shard_sibling_path canonical_path (sealed_name stem n)) (part_bytes part) stem w of
        (Inl err, w) \<Rightarrow> (Inl err, w)
      | (Inr _, w) \<Rightarrow>
          (case seal_parts env stem canonical_path existing_max_seq (Suc i) rest w of
             (Inl err, w) \<Rightarrow> (Inl err, w)
           | (Inr rows, w) \<Rightarrow> (Inr (backfill_row (utc_now (be_shard env)) stem n part # rows), w)))"

definition replace_canonical ::
  "backfill_env \<Rightarrow> string \<Rightarrow> path \<Rightarrow> backfill_manifest \<Rightarrow> bytes \<Rightarrow> mechanism_a_backfill_outcome \<Rightarrow> world \<Rightarrow>
   (mechanism_a_backfill_error + mechanism_a_backfill_outcome) \<times> world"
where
  "replace_canonical env stem canonical_path m final outcome w =
     (case write_and_read_back canonical_path final stem w of
        (Inl err, w) \<Rightarrow> (Inl err, w)
      | (Inr read_back, w) \<Rightarrow>
          (let n = of_nat (length read_back); h = sha256_hex env read_back in
           if n \<noteq> final_bytes m \<or> h \<noteq> final_sha256 m
           then (Inl (CanonicalWriteVerificationFailed stem n h (final_bytes m) (final_sha256 m)), w)
           else (Inr outcome, w)))"

definition split_parts ::
  "backfill_env \<Rightarrow> shard_entry \<Rightarrow> path \<Rightarrow> u32 \<Rightarrow> shard_index_entry list \<Rightarrow> bytes \<Rightarrow> mechanism_a_backfill_partition list \<Rightarrow>
   world \<Rightarrow> (mechanism_a_backfill_error + mechanism_a_backfill_outcome) \<times> world"
where
  "split_parts env e canonical_path keep existing_shards original partitions w =
     (let stem = artifact_stem e; index_path = shard_index_path_for canonical_path stem;
          sealed = butlast partitions; final = part_bytes (last partitions) in
      case seal_parts env stem canonical_path (max_seq existing_shards) 0 sealed w of
        (Inl err, w) \<Rightarrow> (Inl err, w)
      | (Inr rows, w) \<Rightarrow>
          (case archive_overflow_shards (fresh_backfill_shard_index e keep (existing_shards @ rows)) canonical_path w of
             (Inl _, _, w) \<Rightarrow> (Inl (BackfillIo stem OtherIo), w)
           | (Inr archived, index, w) \<Rightarrow>
               (let m = backfill_manifest_for env original final in
                case write_shard_index_for_backfill env index_path (index\<lparr>manifest_of := Some m\<rparr>) stem w of
                  (Inl err, w) \<Rightarrow> (Inl err, w)
                | (Inr _, w) \<Rightarrow>
                    replace_canonical env stem canonical_path m final
                      (Migrated (of_nat (length sealed)) (of_nat (length archived))) w)))"

definition register_unsplit ::
  "backfill_env \<Rightarrow> shard_entry \<Rightarrow> path \<Rightarrow> u32 \<Rightarrow> shard_index_entry list \<Rightarrow> bytes \<Rightarrow> world \<Rightarrow>
   (mechanism_a_backfill_error + mechanism_a_backfill_outcome) \<times> world"
where
  "register_unsplit env e canonical_path keep existing_shards original w =
     (let stem = artifact_stem e in
      case write_shard_index_for_backfill env (shard_index_path_for canonical_path stem)
          ((fresh_backfill_shard_index e keep existing_shards)\<lparr>manifest_of := Some (backfill_manifest_for env original original)\<rparr>) stem w of
        (Inl err, w) \<Rightarrow> (Inl err, w)
      | (Inr _, w) \<Rightarrow> (Inr (Migrated 0 0), w))"

definition run_mechanism_a_backfill_split ::
  "backfill_env \<Rightarrow> shard_entry \<Rightarrow> path \<Rightarrow> nat list \<Rightarrow> u32 \<Rightarrow> world \<Rightarrow>
   (mechanism_a_backfill_error + mechanism_a_backfill_outcome) \<times> world"
where
  "run_mechanism_a_backfill_split env e canonical_path offsets keep w =
     (let stem = artifact_stem e; index_path = shard_index_path_for canonical_path stem in
      case mechanism_a_backfill_already_migrated env canonical_path stem w of
        (Inl source, w) \<Rightarrow> (Inl (BackfillIo stem source), w)
      | (Inr True, w) \<Rightarrow> heal_or_confirm_already_migrated env e canonical_path index_path w
      | (Inr False, w) \<Rightarrow>
     (case load_shard_index (be_shard env) index_path w of
        (Inl source, w) \<Rightarrow> (Inl (BackfillIo stem source), w)
      | (Inr loaded, w) \<Rightarrow>
     (let existing_shards = (case loaded of Some index \<Rightarrow> shards index | None \<Rightarrow> []) in
      case fs_read canonical_path w of
        (Inl source, w) \<Rightarrow> (Inl (BackfillIo stem source), w)
      | (Inr original_content, w) \<Rightarrow>
     (case backfill_parts env e offsets original_content of
        Inl err \<Rightarrow> (Inl err, w)
      | Inr partitions \<Rightarrow>
          if length partitions \<le> 1 then register_unsplit env e canonical_path keep existing_shards original_content w
          else split_parts env e canonical_path keep existing_shards original_content partitions w))))"

end
