(* ===== verification/ShardBackfillSteps.thy ===== *)
theory ShardBackfillSteps
  imports ShardBackfill ShardRetentionClaims ShardTame
begin

text \<open>
  What the steps of the backfill split promise under every fault schedule: the verified write, the
  sealing of the parts, the archiving of the overflow, the publication of the index.
\<close>

section \<open>Verified writes\<close>

lemma tmp_ok_plain: "tmp_ok w t p \<Longrightarrow> t \<noteq> p"
  by (simp add: tmp_ok_def)

lemma write_and_read_back_spec:
  assumes run: "write_and_read_back p c stem w = (r, w')" and ok: "tmp_ok w (atomic_tmp_path (pid w) p) p"
  shows "frame {p, atomic_tmp_path (pid w) p} w w'" "look w' p = look w p \<or> look w' p = Some (File c)"
    "r = Inr rb \<Longrightarrow> rb = c \<and> look w' p = Some (File c) \<and> utf8_valid c"
proof -
  let ?f = "{p, atomic_tmp_path (pid w) p}"
  have "frame ?f w w' \<and> (look w' p = look w p \<or> look w' p = Some (File c)) \<and>
      (\<forall>rb. r = Inr rb \<longrightarrow> rb = c \<and> look w' p = Some (File c) \<and> utf8_valid c)"
  proof (cases "utf8_valid c")
    case False
    then show ?thesis using run by (auto simp: write_and_read_back_def write_atomic_bytes_def)
  next
    case True
    obtain a v where a: "write_atomic p c w = (a, v)" by fastforce
    note s = write_atomic_spec[OF a ok]
    show ?thesis
    proof (cases a)
      case (Inl e)
      then show ?thesis using run a True s by (auto simp: write_and_read_back_def write_atomic_bytes_def)
    next
      case (Inr u)
      then have here: "look v p = Some (File c)" using s(2) by simp
      obtain b v' where b: "fs_read p v = (b, v')" by fastforce
      note f = fs_read_frame[OF b]
      have out: "w' = v'" "r = Inr rb \<Longrightarrow> b = Inr rb" for rb
        using run a b Inr True by (auto simp: write_and_read_back_def write_atomic_bytes_def split: sum.splits)
      have "b = Inr rb \<Longrightarrow> rb = c" for rb using fs_read_content[of p v rb v'] b here by auto
      moreover have "frame ?f w v'" by (rule frame_step[OF s(1) f]) auto
      ultimately show ?thesis using out here True frame_empty_look[OF f] by auto
    qed
  qed
  then show "frame ?f w w'" "look w' p = look w p \<or> look w' p = Some (File c)"
    "r = Inr rb \<Longrightarrow> rb = c \<and> look w' p = Some (File c) \<and> utf8_valid c" by auto
qed

lemma verified_shard_spec:
  assumes run: "mechanism_a_write_and_verify_sealed_shard p c stem w = (r, w')" and ok: "tmp_ok w (atomic_tmp_path (pid w) p) p"
  shows "frame {p, atomic_tmp_path (pid w) p} w w'" "\<not> isl r \<Longrightarrow> look w' p = Some (File c) \<and> utf8_valid c"
proof -
  obtain a v where a: "write_and_read_back p c stem w = (a, v)" by fastforce
  note s = write_and_read_back_spec[OF a ok]
  have "w' = v" "\<not> isl r \<Longrightarrow> \<exists>rb. a = Inr rb"
    using run a by (auto simp: mechanism_a_write_and_verify_sealed_shard_def split: sum.splits if_splits)
  then show "frame {p, atomic_tmp_path (pid w) p} w w'" "\<not> isl r \<Longrightarrow> look w' p = Some (File c) \<and> utf8_valid c"
    using s by auto
qed

lemma backfill_publish_spec:
  assumes run: "write_shard_index_for_backfill env p index stem w = (r, w')" and ok: "tmp_ok w (atomic_tmp_path (pid w) p) p"
  shows "frame {p, atomic_tmp_path (pid w) p} w w'"
    "\<not> isl r \<Longrightarrow> \<exists>s. toml_to (be_shard env) index = Some s \<and> look w' p = Some (File s)"
    "isl r \<Longrightarrow> look w' p = look w p"
proof -
  have "frame {p, atomic_tmp_path (pid w) p} w w' \<and>
      (if isl r then look w' p = look w p else \<exists>s. toml_to (be_shard env) index = Some s \<and> look w' p = Some (File s))"
  proof (cases "toml_to (be_shard env) index")
    case None
    then show ?thesis using run by (auto simp: write_shard_index_for_backfill_def)
  next
    case (Some s)
    obtain a v where a: "write_atomic p s w = (a, v)" by fastforce
    note spec = write_atomic_spec[OF a ok]
    show ?thesis using run a Some spec by (cases a) (auto simp: write_shard_index_for_backfill_def)
  qed
  then show "frame {p, atomic_tmp_path (pid w) p} w w'"
    "\<not> isl r \<Longrightarrow> \<exists>s. toml_to (be_shard env) index = Some s \<and> look w' p = Some (File s)"
    "isl r \<Longrightarrow> look w' p = look w p" by (auto split: if_splits)
qed

section \<open>Numbers\<close>

lemma unat_next_part:
  "unat (m :: u32) + i + 1 < 2 ^ 32 \<Longrightarrow> unat (m + of_nat i + 1) = unat m + i + 1"
  by (simp add: unat_word_ariths(1) unat_of_nat)

section \<open>Sealing the parts\<close>

text \<open>Names with a number above \<open>lo\<close>, and the temporary names next to them.\<close>

definition sealing_names :: "path \<Rightarrow> shard_entry \<Rightarrow> nat \<Rightarrow> nat \<Rightarrow> path set" where
  "sealing_names dir e process lo = {q. \<exists>n. lo < unat n \<and>
     (q = sealed_in dir e n \<or> q = child dir (atomic_tmp_name process (sealed_name (artifact_stem e) n)))}"

lemma sealing_names_mono: "lo \<le> hi \<Longrightarrow> sealing_names dir e process hi \<subseteq> sealing_names dir e process lo"
  by (auto simp: sealing_names_def intro: le_less_trans)

definition seal_room :: "world \<Rightarrow> path \<Rightarrow> shard_entry \<Rightarrow> nat \<Rightarrow> bool" where
  "seal_room w dir e lo \<longleftrightarrow> (\<forall>n. lo < unat n \<longrightarrow>
     not_planted w (child dir (atomic_tmp_name (pid w) (sealed_name (artifact_stem e) n))))"

lemma seal_parts_spec:
  assumes "seal_parts env (artifact_stem e) p m i parts w = (r, w')"
    "canonical_path_of dir cname p (artifact_stem e)" "seal_room w dir e (unat m + i)"
    "unat m + i + length parts < 2 ^ 32"
  shows "frame (sealing_names dir e (pid w) (unat m + i)) w w' \<and>
    (\<forall>rows. r = Inr rows \<longrightarrow> (\<forall>part\<in>set parts. utf8_valid (part_bytes part)) \<and> rows = map (\<lambda>(j, part). backfill_row (utc_now (be_shard env)) (artifact_stem e) (m + of_nat j + 1) part)
        (enumerate i parts) \<and>
      (\<forall>(j, part) \<in> set (enumerate i parts). look w' (sealed_in dir e (m + of_nat j + 1)) = Some (File (part_bytes part))))"
  using assms
proof (induction parts arbitrary: i w r w')
  case Nil
  then show ?case by auto
next
  case (Cons part parts)
  let ?n = "m + of_nat i + 1" and ?stem = "artifact_stem e"
  have n: "unat ?n = unat m + i + 1" by (rule unat_next_part) (use Cons.prems(4) in simp)
  have slash: "noslash (sealed_name ?stem ?n)" using Cons.prems(2) by (simp add: canonical_path_of_def noslash_sealed)
  have tmp: "atomic_tmp_path (pid w) (sealed_in dir e ?n) = child dir (atomic_tmp_name (pid w) (sealed_name ?stem ?n))"
    by (rule atomic_tmp_path_eq[OF slash])
  have ok: "tmp_ok w (atomic_tmp_path (pid w) (sealed_in dir e ?n)) (sealed_in dir e ?n)"
    unfolding tmp using Cons.prems(3) n by (auto simp: tmp_ok_def seal_room_def not_planted_def atomic_tmp_neq_self)
  obtain a v where a: "mechanism_a_write_and_verify_sealed_shard (sealed_in dir e ?n) (part_bytes part) ?stem w = (a, v)" by fastforce
  note s = verified_shard_spec[OF a ok, unfolded tmp]
  have run: "(case a of Inl err \<Rightarrow> (Inl err, v) | Inr _ \<Rightarrow>
      (case seal_parts env ?stem p m (Suc i) parts v of (Inl err, w) \<Rightarrow> (Inl err, w)
       | (Inr rows, w) \<Rightarrow> (Inr (backfill_row (utc_now (be_shard env)) ?stem ?n part # rows), w))) = (r, w')"
    using Cons.prems(1) a by (cases a) (simp_all add: Let_def sibling_sealed[OF Cons.prems(2)])
  have head: "frame (sealing_names dir e (pid w) (unat m + i)) w v"
    by (rule frame_mono[OF s(1)]) (use n in \<open>auto simp: sealing_names_def intro!: exI[of _ ?n]\<close>)
  show ?case
  proof (cases a)
    case (Inl err)
    then show ?thesis using run head by auto
  next
    case (Inr u)
    obtain b v' where b: "seal_parts env ?stem p m (Suc i) parts v = (b, v')" by fastforce
    have pv: "pid v = pid w" using frame_pid[OF head] .
    have here: "look v (sealed_in dir e ?n) = Some (File (part_bytes part))" "utf8_valid (part_bytes part)" using s(2) Inr by simp_all
    have room: "seal_room v dir e (unat m + Suc i)"
      unfolding seal_room_def pv
    proof (intro allI impI)
      fix k :: u32 assume k: "unat m + Suc i < unat k"
      then have "k \<noteq> ?n" using n by auto
      then have "child dir (atomic_tmp_name (pid w) (sealed_name ?stem k)) \<notin>
          {sealed_in dir e ?n, child dir (atomic_tmp_name (pid w) (sealed_name ?stem ?n))}"
        using atomic_tmp_neq_sealed atomic_tmp_inj sealed_name_inj by blast
      from frame_look[OF s(1) this] show "not_planted v (child dir (atomic_tmp_name (pid w) (sealed_name ?stem k)))"
        using Cons.prems(3) k by (simp add: seal_room_def not_planted_def)
    qed
    have ih: "frame (sealing_names dir e (pid w) (unat m + Suc i)) v v' \<and>
      (\<forall>rows. b = Inr rows \<longrightarrow> (\<forall>part\<in>set parts. utf8_valid (part_bytes part)) \<and> rows = map (\<lambda>(j, part). backfill_row (utc_now (be_shard env)) ?stem (m + of_nat j + 1) part) (enumerate (Suc i) parts) \<and>
        (\<forall>(j, part) \<in> set (enumerate (Suc i) parts). look v' (sealed_in dir e (m + of_nat j + 1)) = Some (File (part_bytes part))))"
      using Cons.IH[OF b Cons.prems(2) room] Cons.prems(4) pv by simp
    have out: "w' = v'" "\<And>rows. r = Inr rows \<Longrightarrow> \<exists>rest. b = Inr rest \<and> rows = backfill_row (utc_now (be_shard env)) ?stem ?n part # rest"
      using run Inr b by (auto split: sum.splits)
    have "sealed_in dir e ?n \<notin> sealing_names dir e (pid w) (unat m + Suc i)"
    proof
      assume "sealed_in dir e ?n \<in> sealing_names dir e (pid w) (unat m + Suc i)"
      then obtain k :: u32 where k: "unat m + Suc i < unat k" "sealed_name ?stem ?n = sealed_name ?stem k"
        using atomic_tmp_neq_sealed[symmetric] by (auto simp: sealing_names_def)
      from sealed_name_inj[OF this(2)] k(1) n show False by simp
    qed
    then have still: "look v' (sealed_in dir e ?n) = Some (File (part_bytes part))" using frame_look[OF conjunct1[OF ih]] here by simp
    have f: "frame (sealing_names dir e (pid w) (unat m + i)) w v'"
    proof -
      have ihf: "frame (sealing_names dir e (pid w) (unat m + Suc i)) v v'" by (rule conjunct1[OF ih])
      have le: "unat m + i \<le> unat m + Suc i" by linarith
      show ?thesis by (rule frame_trans[OF head frame_mono[OF ihf sealing_names_mono[OF le]]])
    qed
    have "(\<forall>x\<in>set (part # parts). utf8_valid (part_bytes x)) \<and> rows = map (\<lambda>(j, part). backfill_row (utc_now (be_shard env)) ?stem (m + of_nat j + 1) part) (enumerate i (part # parts)) \<and>
        (\<forall>(j, part) \<in> set (enumerate i (part # parts)). look v' (sealed_in dir e (m + of_nat j + 1)) = Some (File (part_bytes part)))"
      if rows: "r = Inr rows" for rows
    proof -
      obtain rest where rest: "b = Inr rest" "rows = backfill_row (utc_now (be_shard env)) ?stem ?n part # rest" using out(2)[OF rows] by blast
      note t = conjunct2[OF ih, rule_format, OF rest(1)]
      have "\<forall>(j, x) \<in> insert (i, part) (set (enumerate (Suc i) parts)). look v' (sealed_in dir e (m + of_nat j + 1)) = Some (File (part_bytes x))"
        using t still by simp
      then show ?thesis using t rest(2) here(2) by simp
    qed
    then show ?thesis using f out(1) by blast
  qed
qed

end
