(* ===== verification/ShardBackfillClaims.thy ===== *)
theory ShardBackfillClaims
  imports ShardBackfillSteps
begin

text \<open>
  The backfill split loses no byte, and a split that stopped before it replaced the canonical file is
  completed by the next run.
\<close>

section \<open>The number of parts\<close>

lemma length_partition_loop: "length (partition_records_loop content cap start pb pr offs) \<le> 2 * length offs + 1"
proof (induction offs arbitrary: start pb pr)
  case (Cons a offs)
  have "length (partition_records_loop content cap s b r offs) \<le> Suc (2 * length offs)" for s b r using Cons[of s b r] by simp
  then show ?case by (simp add: Let_def le_SucI)
qed simp

lemma length_partition: "length (mechanism_a_partition_for_backfill content offs cap) \<le> 2 * length offs + 2"
  using length_partition_loop[of content cap _ _ _ offs]
  by (auto simp: mechanism_a_partition_for_backfill_def Let_def le_SucI)

section \<open>Paths that are apart\<close>

lemma canonical_neq_sealed_tmp:
  assumes "stem_of_name cname = stem" shows "cname \<noteq> atomic_tmp_name process (sealed_name stem n)"
proof
  assume "cname = atomic_tmp_name process (sealed_name stem n)"
  then have "stem = ''.'' @ sealed_name stem n" using assms by (simp add: stem_atomic_tmp)
  from arg_cong[OF this, of length] show False by (simp add: sealed_name_def)
qed

text \<open>The four paths of the canonical file and the index, and the files of the rows.\<close>

definition own_paths :: "path \<Rightarrow> string \<Rightarrow> shard_entry \<Rightarrow> nat \<Rightarrow> path set" where
  "own_paths dir cname e process = {child dir cname, child dir (atomic_tmp_name process cname), index_in dir e,
     child dir (atomic_tmp_name process (index_name (artifact_stem e)))}"

lemma own_paths_apart:
  assumes "canonical_path_of dir cname p (artifact_stem e)" "q \<in> own_paths dir cname e process"
  shows "q \<notin> sealing_names dir e process lo" "q \<noteq> sealed_in dir e n" "q \<noteq> dir @ [a, b, c]"
proof -
  have st: "stem_of_name cname = artifact_stem e" using assms(1) by (simp add: canonical_path_of_def)
  note neq = canonical_neq[OF st] canonical_neq_sealed_tmp[OF st] sealed_neq_index[symmetric]
  obtain m where q: "q = child dir m" "m = cname \<or> m = atomic_tmp_name process cname \<or> m = index_name (artifact_stem e) \<or>
      m = atomic_tmp_name process (index_name (artifact_stem e))"
    using assms(2) by (auto simp: own_paths_def)
  have sealed: "m \<noteq> sealed_name (artifact_stem e) k" for k
    using q(2) neq atomic_tmp_neq_sealed by metis
  have tmp: "m \<noteq> atomic_tmp_name process (sealed_name (artifact_stem e) k)" for k
    using q(2) neq atomic_tmp_inj atomic_tmp_neq_index[symmetric] by metis
  show "q \<notin> sealing_names dir e process lo" using sealed tmp q(1) by (auto simp: sealing_names_def)
  show "q \<noteq> sealed_in dir e n" "q \<noteq> dir @ [a, b, c]" using sealed q(1) by simp_all
qed

text \<open>Rows named by their numbers.\<close>

definition numbered_row :: "string \<Rightarrow> shard_index_entry \<Rightarrow> bool" where
  "numbered_row stem x \<longleftrightarrow> row_name stem x False (sealed_name stem (seq x)) \<or> row_name stem x True (sealed_name stem (seq x))"

lemma numbered_row_file:
  assumes "numbered_row (artifact_stem e) x" "plain_name (artifact_stem e)"
  shows "row_file dir x = sealed_in dir e (seq x) \<or>
    row_file dir x = dir @ [Normal ''archive'', Normal (artifact_stem e), Normal (sealed_name (artifact_stem e) (seq x))]"
  using assms row_file_eq[of "artifact_stem e" x _ _ dir] by (auto simp: numbered_row_def)

lemma numbered_row_unique:
  "numbered_row stem x \<Longrightarrow> row_name stem x b n \<Longrightarrow> plain_name stem \<Longrightarrow> n = sealed_name stem (seq x)"
proof -
  assume a: "numbered_row stem x" "row_name stem x b n" "plain_name stem"
  then obtain b' where b': "row_name stem x b' (sealed_name stem (seq x))" by (auto simp: numbered_row_def)
  have "b = b'" using row_name_not_both[OF a(2)] row_name_not_both[OF b'] by simp
  then show ?thesis using row_file_eq[OF a(2,3), of "[]"] row_file_eq[OF b' a(3), of "[]"] by simp
qed

section \<open>The setting\<close>

definition backfill_setting :: "world \<Rightarrow> path \<Rightarrow> string \<Rightarrow> shard_entry \<Rightarrow> path \<Rightarrow> shard_index_entry list \<Rightarrow> nat \<Rightarrow> bool" where
  "backfill_setting w dir cname e p existing k \<longleftrightarrow> roll_setting w dir cname e p \<and> plain_name (artifact_stem e) \<and>
     seal_room w dir e 0 \<and> distinct (map seq existing) \<and>
     (\<forall>x\<in>set existing. numbered_row (artifact_stem e) x \<and> (\<exists>c. look w (row_file dir x) = Some (File c))) \<and>
     unat (max_seq existing) + k < 2 ^ 32"

text \<open>Where shards are: beside the canonical file under a numbered name, or in its archive.\<close>

definition shard_places :: "path \<Rightarrow> shard_entry \<Rightarrow> path set" where
  "shard_places dir e = range (sealed_in dir e) \<union> range (\<lambda>n. dir @ [Normal ''archive'', Normal (artifact_stem e), Normal n])"

lemma shard_places_apart:
  "canonical_path_of dir cname p (artifact_stem e) \<Longrightarrow> q \<in> shard_places dir e \<Longrightarrow> q \<notin> own_paths dir cname e process"
  using own_paths_apart(2,3)[of dir cname p e q process] by (auto simp: shard_places_def)

text \<open>
  The split is indexed: the published index has the old rows and one row per part but the last, with consecutive
  new numbers; the files of the old rows hold what they held, those of the new rows hold the parts.
\<close>

definition split_indexed ::
  "backfill_env \<Rightarrow> path \<Rightarrow> shard_entry \<Rightarrow> shard_index_entry list \<Rightarrow> bytes \<Rightarrow> bytes \<Rightarrow> world \<Rightarrow> world \<Rightarrow> bool"
where
  "split_indexed env dir e existing c final w w' \<longleftrightarrow> (\<exists>(parts :: mechanism_a_backfill_partition list) index s.
     c = concat (map part_bytes parts) @ final \<and> parts \<noteq> [] \<and> (\<forall>part\<in>set parts. utf8_valid (part_bytes part)) \<and>
     look w' (index_in dir e) = Some (File s) \<and> toml_to (be_shard env) index = Some s \<and>
     manifest_of index = Some (backfill_manifest_for env c final) \<and>
     map seq (shards index) = map seq existing @ map (\<lambda>j. max_seq existing + of_nat j + 1) [0..<length parts] \<and>
     (\<forall>i<length existing. look w' (row_file dir (shards index ! i)) = look w (row_file dir (existing ! i))) \<and>
     (\<forall>j<length parts. look w' (row_file dir (shards index ! (length existing + j))) = Some (File (part_bytes (parts ! j)))) \<and>
     (\<forall>x\<in>set (shards index). row_file dir x \<in> shard_places dir e))"

lemma setting_fields:
  assumes "backfill_setting w dir cname e p existing k"
  shows "canonical_path_of dir cname p (artifact_stem e)" "p = child dir cname" "parent p = Some dir" "plain_name (artifact_stem e)"
    "shard_index_path_for p (artifact_stem e) = index_in dir e"
    "atomic_tmp_path process p = child dir (atomic_tmp_name process cname)"
    "atomic_tmp_path process (index_in dir e) = child dir (atomic_tmp_name process (index_name (artifact_stem e)))"
    "not_planted w (child dir (atomic_tmp_name (pid w) cname))"
    "not_planted w (child dir (atomic_tmp_name (pid w) (index_name (artifact_stem e))))"
    "\<forall>l. look w (index_in dir e) \<noteq> Some (Symlink l)"
proof -
  have s: "roll_setting w dir cname e p" "plain_name (artifact_stem e)" using assms by (simp_all add: backfill_setting_def)
  show "canonical_path_of dir cname p (artifact_stem e)" "plain_name (artifact_stem e)"
    "not_planted w (child dir (atomic_tmp_name (pid w) cname))"
    "not_planted w (child dir (atomic_tmp_name (pid w) (index_name (artifact_stem e))))"
    "\<forall>l. look w (index_in dir e) \<noteq> Some (Symlink l)" using s by (simp_all add: roll_setting_def)
  show "p = child dir cname" by (rule roll_setting_path[OF s(1)])
  then show "parent p = Some dir" by (simp add: parent_def)
  show "shard_index_path_for p (artifact_stem e) = index_in dir e" "atomic_tmp_path process p = child dir (atomic_tmp_name process cname)"
    "atomic_tmp_path process (index_in dir e) = child dir (atomic_tmp_name process (index_name (artifact_stem e)))"
    using roll_setting_names[OF s(1)] by blast+
qed

section \<open>The rows of the new index\<close>

text \<open>After the seals, the old rows followed by the new ones are rows with files, named by their numbers.\<close>

definition new_rows :: "string \<Rightarrow> string \<Rightarrow> u32 \<Rightarrow> mechanism_a_backfill_partition list \<Rightarrow> shard_index_entry list" where
  "new_rows now stem m parts = map (\<lambda>(j, part). backfill_row now stem (m + of_nat j + 1) part) (enumerate 0 parts)"

lemma new_rows_seqs: "map seq (new_rows now stem m parts) = map (\<lambda>j. m + of_nat j + 1) [0..<length parts]"
  by (rule nth_equalityI) (simp_all add: new_rows_def nth_enumerate_eq backfill_row_def)

lemma new_row_nth: "j < length parts \<Longrightarrow> new_rows now stem m parts ! j = backfill_row now stem (m + of_nat j + 1) (parts ! j)"
  by (simp add: new_rows_def nth_enumerate_eq)

lemma length_new_rows [simp]: "length (new_rows now stem m parts) = length parts"
  by (simp add: new_rows_def)

lemma new_rows_numbered: "noslash stem \<Longrightarrow> x \<in> set (new_rows now stem m parts) \<Longrightarrow> numbered_row stem x"
  using row_name.active[OF plain_sealed, of stem]
  by (auto simp: new_rows_def backfill_row_def numbered_row_def)

lemma next_numbers_distinct:
  assumes "unat (m :: u32) + k < 2 ^ 32"
  shows "distinct (map (\<lambda>j. m + of_nat j + 1) [0..<k])" "n \<in> set (map (\<lambda>j. m + of_nat j + 1) [0..<k]) \<Longrightarrow> m < n"
proof -
  have num: "unat (m + of_nat j + 1) = unat m + j + 1" if "j < k" for j
    by (rule unat_next_part) (use assms that in simp)
  have "inj_on (\<lambda>j. m + of_nat j + 1) {0..<k}" by (rule inj_onI) (metis num atLeastLessThan_iff add_left_imp_eq add_right_imp_eq)
  then show "distinct (map (\<lambda>j. m + of_nat j + 1) [0..<k])" by (simp add: distinct_map)
  show "n \<in> set (map (\<lambda>j. m + of_nat j + 1) [0..<k]) \<Longrightarrow> m < n" using num by (auto simp: word_less_nat_alt)
qed

lemma numbered_retention_setting:
  assumes "parent p = Some dir" "plain_name (ix_artifact_stem index)" "distinct (map seq (shards index))"
    "\<And>x. x \<in> set (shards index) \<Longrightarrow> numbered_row (ix_artifact_stem index) x"
  shows "retention_setting dir p index"
proof -
  let ?stem = "ix_artifact_stem index" and ?xs = "shards index"
  have "\<not> row_name ?stem (?xs ! j) bj n" if "i < length ?xs" "j < length ?xs" "i \<noteq> j" "row_name ?stem (?xs ! i) bi n" for i j bi bj n
  proof
    assume "row_name ?stem (?xs ! j) bj n"
    then have "sealed_name ?stem (seq (?xs ! i)) = sealed_name ?stem (seq (?xs ! j))"
      using numbered_row_unique[OF assms(4) _ assms(2)] that by (metis nth_mem)
    then have "seq (?xs ! i) = seq (?xs ! j)" by (rule sealed_name_inj)
    then show False using assms(3) that by (metis distinct_conv_nth length_map nth_map)
  qed
  moreover have "\<exists>b n. row_name ?stem x b n" if "x \<in> set ?xs" for x using assms(4)[OF that] by (auto simp: numbered_row_def)
  ultimately show ?thesis using assms(1,2,3) unfolding retention_setting_def by blast
qed

lemma sealed_state:
  assumes setting: "backfill_setting w dir cname e p existing (length parts)"
    and run: "seal_parts env (artifact_stem e) p (max_seq existing) 0 parts w = (r, v)"
  shows "pid v = pid w" "q \<in> own_paths dir cname e (pid w) \<Longrightarrow> look v q = look w q"
    "x \<in> set existing \<Longrightarrow> look v (row_file dir x) = look w (row_file dir x)"
    "r = Inr rows \<Longrightarrow> rows = new_rows (utc_now (be_shard env)) (artifact_stem e) (max_seq existing) parts \<and>
       (\<forall>part\<in>set parts. utf8_valid (part_bytes part)) \<and>
       (\<forall>j<length parts. look v (row_file dir (rows ! j)) = Some (File (part_bytes (parts ! j))))"
proof -
  let ?stem = "artifact_stem e" and ?m = "max_seq existing"
  note fields = setting_fields[OF setting]
  have room: "seal_room w dir e (unat ?m + 0)" using setting by (auto simp: backfill_setting_def seal_room_def)
  have bound: "unat ?m + 0 + length parts < 2 ^ 32" using setting by (simp add: backfill_setting_def)
  note s = seal_parts_spec[OF run fields(1) room bound]
  have f: "frame (sealing_names dir e (pid w) (unat ?m)) w v" using s by simp
  show "pid v = pid w" by (rule frame_pid[OF f])
  show "q \<in> own_paths dir cname e (pid w) \<Longrightarrow> look v q = look w q"
    using frame_look[OF f own_paths_apart(1)[OF fields(1)]] .
  show "look v (row_file dir x) = look w (row_file dir x)" if x: "x \<in> set existing"
  proof (rule frame_look[OF f])
    have num: "numbered_row ?stem x" using setting x by (auto simp: backfill_setting_def)
    have "unat (seq x) \<le> unat ?m" using max_seq_ge[OF x] by (simp add: word_le_nat_alt)
    then show "row_file dir x \<notin> sealing_names dir e (pid w) (unat ?m)"
      using numbered_row_file[OF num fields(4), of dir] sealed_name_inj atomic_tmp_neq_sealed[symmetric]
      by (fastforce simp: sealing_names_def)
  qed
  assume r: "r = Inr rows"
  have rows: "rows = new_rows (utc_now (be_shard env)) ?stem ?m parts" "\<forall>part\<in>set parts. utf8_valid (part_bytes part)"
    and files: "\<forall>(j, part) \<in> set (enumerate 0 parts). look v (sealed_in dir e (?m + of_nat j + 1)) = Some (File (part_bytes part))"
    using s r by (simp_all add: new_rows_def)
  have "look v (row_file dir (rows ! j)) = Some (File (part_bytes (parts ! j)))" if j: "j < length parts" for j
  proof -
    have mem: "(j, parts ! j) \<in> set (enumerate 0 parts)" using j by (simp add: in_set_enumerate_eq)
    have "look v (sealed_in dir e (?m + of_nat j + 1)) = Some (File (part_bytes (parts ! j)))" using files mem by fastforce
    moreover have "row_file dir (rows ! j) = sealed_in dir e (?m + of_nat j + 1)"
      using fields(1) unfolding rows(1) new_row_nth[OF j]
      by (simp add: row_file_def backfill_row_def plain_sealed canonical_path_of_def)
    ultimately show ?thesis by simp
  qed
  then show "rows = new_rows (utc_now (be_shard env)) ?stem ?m parts \<and>
      (\<forall>part\<in>set parts. utf8_valid (part_bytes part)) \<and> (\<forall>j<length parts. look v (row_file dir (rows ! j)) = Some (File (part_bytes (parts ! j))))"
    using rows by blast
qed

lemma new_index_ok:
  assumes setting: "backfill_setting w dir cname e p existing (length parts)"
    and run: "seal_parts env (artifact_stem e) p (max_seq existing) 0 parts w = (Inr rows, v)"
    and index: "index = fresh_backfill_shard_index e keep (existing @ rows)"
  shows "retention_setting dir p index" "rows_have_files dir v index" "x \<in> set (shards index) \<Longrightarrow> numbered_row (artifact_stem e) x"
proof -
  let ?stem = "artifact_stem e" and ?m = "max_seq existing"
  note fields = setting_fields[OF setting]
  note st = sealed_state[OF setting run]
  have rows: "rows = new_rows (utc_now (be_shard env)) ?stem ?m parts" using st(4) by simp
  have slash: "noslash ?stem" using fields(1) by (simp add: canonical_path_of_def)
  have ix: "shards index = existing @ rows" "ix_artifact_stem index = ?stem" by (simp_all add: index fresh_backfill_shard_index_def)
  show num: "x \<in> set (shards index) \<Longrightarrow> numbered_row ?stem x" for x
    using setting new_rows_numbered[OF slash] unfolding ix rows by (auto simp: backfill_setting_def)
  have bound: "unat ?m + length parts < 2 ^ 32" using setting by (simp add: backfill_setting_def)
  have "set (map seq existing) \<inter> set (map (\<lambda>j. ?m + of_nat j + 1) [0..<length parts]) = {}"
    using next_numbers_distinct(2)[OF bound] max_seq_ge[of _ existing] by fastforce
  then have "distinct (map seq (shards index))"
    using setting next_numbers_distinct(1)[OF bound] unfolding ix map_append rows new_rows_seqs
    by (simp add: backfill_setting_def)
  then show "retention_setting dir p index"
    using numbered_retention_setting[of p dir index] fields(3,4) num ix(2) by simp
  have "\<exists>c. look v (row_file dir x) = Some (File c)" if "x \<in> set existing" for x
    using setting that st(3)[OF that] by (auto simp: backfill_setting_def)
  moreover have "\<exists>c. look v (row_file dir x) = Some (File c)" if "x \<in> set rows" for x
    using that st(4)[OF refl] rows by (auto simp: in_set_conv_nth)
  ultimately show "rows_have_files dir v index" by (auto simp: rows_have_files_def ix)
qed

section \<open>The split\<close>

lemma own_paths_not_archived:
  assumes num: "\<And>x. x \<in> set (shards index) \<Longrightarrow> numbered_row (artifact_stem e) x" and fields: "canonical_path_of dir cname p (artifact_stem e)"
    "plain_name (artifact_stem e)" and q: "q \<in> own_paths dir cname e process"
  shows "q \<notin> archive_area dir index"
proof -
  have "q \<noteq> row_file dir x" if "x \<in> set (shards index)" for x
    using numbered_row_file[OF num[OF that] fields(2), of dir] own_paths_apart(2,3)[OF fields(1) q] by metis
  moreover have "q \<noteq> dir @ [a, b, c]" for a b c by (rule own_paths_apart(3)[OF fields(1) q])
  ultimately show ?thesis by (auto simp: archive_area_def)
qed

lemma archived_rows_places:
  assumes "retention_setting dir p index'" "set (active_shards index') \<subseteq> set (active_shards index)"
    "ix_artifact_stem index' = artifact_stem e" "\<And>x. x \<in> set (shards index) \<Longrightarrow> numbered_row (artifact_stem e) x"
    "plain_name (artifact_stem e)" "x \<in> set (shards index')"
  shows "row_file dir x \<in> shard_places dir e"
proof -
  obtain b n where n: "row_name (artifact_stem e) x b n" using assms(1,3,6) by (auto simp: retention_setting_def)
  show ?thesis
  proof (cases "shard_index_entry_is_archived x")
    case True
    then have "b" using row_name_not_both[OF n] by simp
    then show ?thesis using row_file_eq[OF n assms(5), of dir] by (simp add: shard_places_def)
  next
    case False
    then have "x \<in> set (shards index)" using assms(2,6) by (auto simp: active_shards_def)
    from numbered_row_file[OF assms(4)[OF this] assms(5), of dir] show ?thesis by (auto simp: shard_places_def)
  qed
qed

lemma index_not_archive_dir: "index_in dir e \<notin> archive_dirs dir index"
proof
  assume "index_in dir e \<in> archive_dirs dir index"
  then obtain r where r: "dir @ [Normal ''archive'', Normal (ix_artifact_stem index)] = index_in dir e @ r"
    by (auto simp: archive_dirs_def prefixes_of_def)
  then have "''archive'' = index_name (artifact_stem e)" by simp
  from arg_cong[OF this, of last] show False by (simp add: last_index)
qed

lemma split_indexed_keep:
  assumes "split_indexed env dir e existing c final w v" "canonical_path_of dir cname (child dir cname) (artifact_stem e)"
    "frame {child dir cname, child dir (atomic_tmp_name process cname)} v w'"
  shows "split_indexed env dir e existing c final w w'"
proof -
  have idx: "look w' (index_in dir e) = look v (index_in dir e)"
    using assms(2) canonical_neq(2)[of cname "artifact_stem e"] atomic_tmp_neq_index[symmetric]
    by (intro frame_look[OF assms(3)]) (auto simp: canonical_path_of_def)
  have rows: "look w' q = look v q" if "q \<in> shard_places dir e" for q
    using shard_places_apart[OF assms(2) that, of process] by (intro frame_look[OF assms(3)]) (simp add: own_paths_def)
  obtain parts :: "mechanism_a_backfill_partition list" and index s where i:
    "c = concat (map part_bytes parts) @ final" "parts \<noteq> []" "\<forall>part\<in>set parts. utf8_valid (part_bytes part)"
    "look v (index_in dir e) = Some (File s)" "toml_to (be_shard env) index = Some s"
    "manifest_of index = Some (backfill_manifest_for env c final)"
    "map seq (shards index) = map seq existing @ map (\<lambda>j. max_seq existing + of_nat j + 1) [0..<length parts]"
    "\<forall>i<length existing. look v (row_file dir (shards index ! i)) = look w (row_file dir (existing ! i))"
    "\<forall>j<length parts. look v (row_file dir (shards index ! (length existing + j))) = Some (File (part_bytes (parts ! j)))"
    "\<forall>x\<in>set (shards index). row_file dir x \<in> shard_places dir e"
    using assms(1) unfolding split_indexed_def by blast
  have len: "length (shards index) = length existing + length parts" using arg_cong[OF i(7), of length] by simp
  have "look w' (row_file dir (shards index ! i)) = look v (row_file dir (shards index ! i))"
    if "i < length existing + length parts" for i using rows i(10) that len by simp
  then show ?thesis
    unfolding split_indexed_def using i idx by (intro exI[of _ parts] exI[of _ index] exI[of _ s]) simp
qed

text \<open>What a step may leave: nothing happened to the canonical file and the index, or the split is indexed.\<close>

definition split_outcome ::
  "backfill_env \<Rightarrow> path \<Rightarrow> string \<Rightarrow> shard_entry \<Rightarrow> shard_index_entry list \<Rightarrow> bytes \<Rightarrow> world \<Rightarrow>
   (mechanism_a_backfill_error + mechanism_a_backfill_outcome) \<Rightarrow> world \<Rightarrow> bool"
where
  "split_outcome env dir cname e existing c w r w' \<longleftrightarrow>
     look w' (child dir cname) = Some (File c) \<and> look w' (index_in dir e) = look w (index_in dir e) \<and> isl r \<or>
     look w' (child dir cname) = Some (File c) \<and> r = Inr (Migrated 0 0) \<or>
     (\<exists>final. split_indexed env dir e existing c final w w' \<and>
        (look w' (child dir cname) = Some (File final) \<or> look w' (child dir cname) = Some (File c) \<and> isl r))"

lemma replace_core:
  assumes indexed: "split_indexed env dir e existing c final w v" and here: "look v (child dir cname) = Some (File c)"
    and run: "replace_canonical env stem (child dir cname) m final (Migrated n k) v = (r, w')"
    and path: "canonical_path_of dir cname (child dir cname) (artifact_stem e)"
    and tmp: "not_planted v (child dir (atomic_tmp_name (pid v) cname))"
  shows "split_outcome env dir cname e existing c w r w'"
proof -
  let ?p = "child dir cname" and ?t = "child dir (atomic_tmp_name (pid v) cname)"
  have t: "atomic_tmp_path (pid v) ?p = ?t" using path by (simp add: canonical_path_of_def atomic_tmp_path_eq)
  have ok: "tmp_ok v (atomic_tmp_path (pid v) ?p) ?p"
    unfolding t using tmp by (simp add: tmp_ok_def not_planted_def atomic_tmp_neq_self)
  obtain a v' where a: "write_and_read_back ?p final stem v = (a, v')" by fastforce
  note s = write_and_read_back_spec[OF a ok, unfolded t]
  have w': "w' = v'" "isl a \<Longrightarrow> isl r"
    using run a by (auto simp: replace_canonical_def Let_def split: sum.splits if_splits)
  have "split_indexed env dir e existing c final w w'"
    using split_indexed_keep[OF indexed path s(1)] w'(1) by simp
  moreover have "look w' ?p = Some (File final) \<or> look w' ?p = Some (File c) \<and> isl r"
    using s(2,3) w' here by (cases a) auto
  ultimately show ?thesis by (auto simp: split_outcome_def)
qed

lemma archive_core:
  assumes setting: "backfill_setting w dir cname e p existing (length parts)" and ne: "parts \<noteq> []"
    and seal: "seal_parts env (artifact_stem e) p (max_seq existing) 0 parts w = (Inr rows, v)"
    and run: "archive_overflow_shards (fresh_backfill_shard_index e keep (existing @ rows)) p v = (r, index, v2)"
  shows "pid v2 = pid w"
    "q \<in> own_paths dir cname e (pid w) \<Longrightarrow> look v2 q = look w q \<or> look w q = None \<and> look v2 q = Some Directory"
    "look v2 (index_in dir e) = look w (index_in dir e)"
    "map seq (shards index) = map seq existing @ map (\<lambda>j. max_seq existing + of_nat j + 1) [0..<length parts]"
    "\<forall>i<length existing. look v2 (row_file dir (shards index ! i)) = look w (row_file dir (existing ! i))"
    "\<forall>j<length parts. look v2 (row_file dir (shards index ! (length existing + j))) = Some (File (part_bytes (parts ! j)))"
    "\<forall>x\<in>set (shards index). row_file dir x \<in> shard_places dir e"
proof -
  let ?index0 = "fresh_backfill_shard_index e keep (existing @ rows)"
  note fields = setting_fields[OF setting]
  note st = sealed_state[OF setting seal] and ok = new_index_ok[where keep = keep, OF setting seal refl]
  note rows = st(4)[OF refl] and keeps = archive_overflow_keeps[OF run ok(1,2)]
  show "pid v2 = pid w" using keeps(3) st(1) by (simp add: drifted_def)
  show "q \<in> own_paths dir cname e (pid w) \<Longrightarrow> look v2 q = look w q \<or> look w q = None \<and> look v2 q = Some Directory"
    using keeps(3) own_paths_not_archived[OF ok(3) fields(1,4)] st(2) by (fastforce simp: drifted_def)
  have idx: "index_in dir e \<in> own_paths dir cname e (pid w)" by (simp add: own_paths_def)
  show "look v2 (index_in dir e) = look w (index_in dir e)"
  proof -
    have "index_in dir e \<notin> archive_area dir ?index0" by (rule own_paths_not_archived[OF ok(3) fields(1,4) idx])
    then show ?thesis using keeps(3) index_not_archive_dir[of dir e ?index0] st(2)[OF idx] unfolding drifted_def by auto
  qed
  show "map seq (shards index) = map seq existing @ map (\<lambda>j. max_seq existing + of_nat j + 1) [0..<length parts]"
    using keeps(1) rows new_rows_seqs by (simp add: same_rows_def fresh_backfill_shard_index_def)
  have len: "length (shards index) = length existing + length parts"
    using same_rows_length[OF keeps(1)] rows by (simp add: fresh_backfill_shard_index_def)
  have row2: "look v2 (row_file dir (shards index ! i)) = look v (row_file dir ((existing @ rows) ! i))"
    if "i < length existing + length parts" for i
    using keeps(1) that rows by (simp add: same_rows_def fresh_backfill_shard_index_def)
  show "\<forall>i<length existing. look v2 (row_file dir (shards index ! i)) = look w (row_file dir (existing ! i))"
    using row2 st(3) by (simp add: nth_append)
  show "\<forall>j<length parts. look v2 (row_file dir (shards index ! (length existing + j))) = Some (File (part_bytes (parts ! j)))"
  proof (intro allI impI)
    fix j assume j: "j < length parts"
    have "look v (row_file dir (rows ! j)) = Some (File (part_bytes (parts ! j)))" using rows j by blast
    then show "look v2 (row_file dir (shards index ! (length existing + j))) = Some (File (part_bytes (parts ! j)))"
      using row2[of "length existing + j"] j by simp
  qed
  have stem': "ix_artifact_stem index = artifact_stem e" using keeps(1) by (simp add: same_rows_def fresh_backfill_shard_index_def)
  show "\<forall>x\<in>set (shards index). row_file dir x \<in> shard_places dir e"
    using archived_rows_places[OF keeps(2,5) stem' ok(3) fields(4)] by blast
qed

lemma split_core:
  assumes setting: "backfill_setting w dir cname e p existing (length (butlast parts))" and two: "1 < length parts"
    and content: "concat (map part_bytes parts) = c" and here: "look w p = Some (File c)"
    and run: "split_parts env e p keep existing c parts w = (r, w')"
  shows "split_outcome env dir cname e existing c w r w'"
proof -
  let ?sealed = "butlast parts" and ?final = "part_bytes (last parts)" and ?stem = "artifact_stem e" and ?own = "own_paths dir cname e (pid w)"
  let ?idx = "index_in dir e" and ?t = "child dir (atomic_tmp_name (pid w) (index_name (artifact_stem e)))"
  let ?tc = "child dir (atomic_tmp_name (pid w) cname)"
  note fields = setting_fields[OF setting]
  have own: "p \<in> ?own" "?idx \<in> ?own" "?tc \<in> ?own" "?t \<in> ?own" by (simp_all add: own_paths_def fields(2))
  have ne: "?sealed \<noteq> []" using two by (cases parts rule: rev_cases) auto
  have cut: "c = concat (map part_bytes ?sealed) @ ?final"
  proof -
    have "concat (map part_bytes parts) = concat (map part_bytes (?sealed @ [last parts]))"
      using two by (metis append_butlast_last_id list.size(3) not_one_less_zero)
    then show ?thesis using content by (simp del: append_butlast_last_id)
  qed
  obtain r1 v where c1: "seal_parts env ?stem p (max_seq existing) 0 ?sealed w = (r1, v)" by fastforce
  note st = sealed_state[OF setting c1]
  note run1 = run[unfolded split_parts_def Let_def fields(5) c1 prod.case]
  have early: "split_outcome env dir cname e existing c w r u"
    if "isl r" "look u p = look w p" "look u ?idx = look w ?idx" for u
    using that here fields(2) by (auto simp: split_outcome_def)
  show ?thesis
  proof (cases r1)
    case (Inl err)
    then show ?thesis using run1 early[of v] st(2) own by auto
  next
    case (Inr rows)
    obtain r2 index v2 where c2: "archive_overflow_shards (fresh_backfill_shard_index e keep (existing @ rows)) p v = (r2, index, v2)"
      by (metis prod_cases3)
    note arch = archive_core[OF setting ne c1[unfolded Inr] c2]
    show ?thesis
    proof (cases r2)
      case (Inl err)
      then have "w' = v2" "isl r" using run1 \<open>r1 = Inr rows\<close> c2 by auto
      then show ?thesis using early[of v2] arch(2)[OF own(1)] arch(3) here by auto
    next
      case (Inr archived)
      let ?m = "backfill_manifest_for env c ?final"
      let ?index = "index\<lparr>manifest_of := Some ?m\<rparr>"
      have planted: "not_planted v2 q" if "not_planted w q" "q \<in> ?own" for q
        using arch(2)[OF that(2)] that(1) unfolding not_planted_def by (elim disjE conjE) simp_all
      obtain r3 v3 where c3: "write_shard_index_for_backfill env ?idx ?index ?stem v2 = (r3, v3)" by fastforce
      have tmp3: "atomic_tmp_path (pid v2) ?idx = ?t" using fields(7) arch(1) by simp
      have ok3: "tmp_ok v2 (atomic_tmp_path (pid v2) ?idx) ?idx"
        unfolding tmp3 using planted[OF fields(9) own(4)] by (simp add: tmp_ok_def not_planted_def atomic_tmp_neq_self)
      note s3 = backfill_publish_spec[OF c3 ok3, unfolded tmp3]
      have neq3: "p \<notin> {?idx, ?t}" "?tc \<notin> {?idx, ?t}"
        using fields(2) roll_setting_cname[of w dir cname e p] setting atomic_tmp_neq_index
        by (auto simp: backfill_setting_def)
      have p3: "look v3 p = Some (File c)" using frame_look[OF s3(1) neq3(1)] arch(2)[OF own(1)] here by simp
      note run3 = run1[unfolded \<open>r1 = Inr rows\<close> sum.case c2 prod.case Inr c3]
      show ?thesis
      proof (cases r3)
        case (Inl err)
        then show ?thesis using run3 early[of v3] p3 here s3(3) arch(3) by auto
      next
        case (Inr u)
        have keepfile: "look v3 (row_file dir x) = look v2 (row_file dir x)" if x: "x \<in> set (shards index)" for x
          using shard_places_apart[OF fields(1) bspec[OF arch(7) x], of "pid w"]
          by (intro frame_look[OF s3(1)]) (auto simp: own_paths_def)
        have len: "length (shards index) = length existing + length ?sealed" using arg_cong[OF arch(4), of length] by simp
        obtain s where s: "toml_to (be_shard env) ?index = Some s" "look v3 ?idx = Some (File s)" using s3(2) Inr by auto
        have "split_indexed env dir e existing c ?final w v3"
          unfolding split_indexed_def
        proof (intro exI[of _ ?sealed] exI[of _ ?index] exI[of _ s] conjI)
          show "\<forall>part\<in>set ?sealed. utf8_valid (part_bytes part)" using st(4)[OF \<open>r1 = Inr rows\<close>] by blast
          show "\<forall>i<length existing. look v3 (row_file dir (shards ?index ! i)) = look w (row_file dir (existing ! i))"
            using arch(5) keepfile len by simp
          show "\<forall>j<length ?sealed. look v3 (row_file dir (shards ?index ! (length existing + j))) = Some (File (part_bytes (?sealed ! j)))"
            using arch(6) keepfile len by (simp del: length_butlast)
        qed (use cut ne s arch(4,7) in \<open>simp_all del: length_butlast\<close>)
        moreover have "pid v3 = pid w" using frame_pid[OF s3(1)] arch(1) by simp
        moreover have "not_planted v3 ?tc"
          using planted[OF fields(8) own(3)] frame_look[OF s3(1) neq3(2)] by (simp add: not_planted_def)
        moreover have "replace_canonical env ?stem p ?m ?final (Migrated (of_nat (length ?sealed)) (of_nat (length archived))) v3 = (r, w')"
          using run3 Inr by simp
        ultimately show ?thesis using replace_core fields(1,2) p3 by metis
      qed
    qed
  qed
qed

section \<open>The whole run\<close>

definition stored_rows :: "backfill_env \<Rightarrow> world \<Rightarrow> path \<Rightarrow> shard_entry \<Rightarrow> shard_index_entry list" where
  "stored_rows env w dir e = (case stored_index (be_shard env) w (index_in dir e) of Some i \<Rightarrow> shards i | None \<Rightarrow> [])"

lemma backfill_setting_frame:
  assumes "frame {} w v" shows "backfill_setting v dir cname e p existing k = backfill_setting w dir cname e p existing k"
  by (simp add: backfill_setting_def roll_setting_def seal_room_def not_planted_def frame_empty_look[OF assms] frame_pid[OF assms])

lemma backfill_setting_mono: "backfill_setting w dir cname e p existing k \<Longrightarrow> j \<le> k \<Longrightarrow> backfill_setting w dir cname e p existing j"
  by (auto simp: backfill_setting_def)

lemma split_outcome_frame: "frame {} w v \<Longrightarrow> split_outcome env dir cname e existing c v r w' = split_outcome env dir cname e existing c w r w'"
  by (simp add: split_outcome_def split_indexed_def frame_empty_look)

lemma backfill_parts_spec:
  assumes "backfill_parts env e offsets c = Inr parts"
  shows "concat (map part_bytes parts) = c" "length parts \<le> 2 * length offsets + 2"
  using assms length_partition[of c offsets "shard_cap_bytes e"]
  by (auto simp: backfill_parts_def Let_def mechanism_a_verify_backfill_content_preserved_def split: if_splits sum.splits)

lemma register_unsplit_spec:
  assumes run: "register_unsplit env e p keep existing c w = (r, w')" and setting: "backfill_setting w dir cname e p existing k"
  shows "look w' p = look w p" "\<not> isl r \<Longrightarrow> r = Inr (Migrated 0 0)"
    "isl r \<Longrightarrow> look w' (index_in dir e) = look w (index_in dir e)"
proof -
  note fields = setting_fields[OF setting]
  let ?idx = "index_in dir e" and ?t = "child dir (atomic_tmp_name (pid w) (index_name (artifact_stem e)))"
  obtain a v where a: "write_shard_index_for_backfill env ?idx
      ((fresh_backfill_shard_index e keep existing)\<lparr>manifest_of := Some (backfill_manifest_for env c c)\<rparr>) (artifact_stem e) w = (a, v)" by fastforce
  have ok: "tmp_ok w (atomic_tmp_path (pid w) ?idx) ?idx"
    unfolding fields(7) using fields(9) by (simp add: tmp_ok_def not_planted_def atomic_tmp_neq_self)
  note s = backfill_publish_spec[OF a ok, unfolded fields(7)]
  have "p \<notin> {?idx, ?t}"
    using fields(2) roll_setting_cname[of w dir cname e p] setting by (auto simp: backfill_setting_def)
  then have "look v p = look w p" using frame_look[OF s(1)] by simp
  moreover have "w' = v" "\<not> isl r \<Longrightarrow> r = Inr (Migrated 0 0)" "isl r \<Longrightarrow> isl a"
    using run unfolding register_unsplit_def Let_def fields(5) a by (auto split: sum.splits)
  ultimately show "look w' p = look w p" "\<not> isl r \<Longrightarrow> r = Inr (Migrated 0 0)"
    "isl r \<Longrightarrow> look w' (index_in dir e) = look w (index_in dir e)" using s(3) by simp_all
qed


end
