(* ===== verification/ShardBackfillHeal.thy ===== *)
theory ShardBackfillHeal
  imports ShardBackfillClaims ShardCodec
begin

text \<open>
  A split that was indexed but not finished is completed by the next run, and every recovery leaves the
  canonical file as it was or with exactly the last part.
\<close>

section \<open>Suffixes of valid text\<close>

lemma utf8_suffix: "utf8_valid a \<Longrightarrow> utf8_valid (a @ b) = utf8_valid b"
proof (induction a rule: utf8_valid.induct)
  case (2 x s)
  then show ?case by (auto split: if_splits list.splits)
qed simp

lemma utf8_parts: "\<forall>part\<in>set parts. utf8_valid (part_bytes part) \<Longrightarrow>
    utf8_valid (concat (map part_bytes (parts :: mechanism_a_backfill_partition list)) @ b) = utf8_valid b"
  by (induction parts) (simp_all add: utf8_suffix)

section \<open>The slice\<close>

lemma heal_slice_spec:
  assumes "heal_slice env stem m c = Inr sliced"
  shows "\<exists>pre. c = pre @ sliced" "of_nat (length sliced) = final_bytes m" "sha256_hex env sliced = final_sha256 m"
proof -
  let ?k = "unat (original_bytes m - final_bytes m)"
  have "sliced = drop ?k c" "of_nat (length sliced) = final_bytes m" "sha256_hex env sliced = final_sha256 m"
    using assms by (auto simp: heal_slice_def Let_def split: if_splits)
  moreover from this(1) have "c = take ?k c @ sliced" by simp
  ultimately show "\<exists>pre. c = pre @ sliced" "of_nat (length sliced) = final_bytes m" "sha256_hex env sliced = final_sha256 m" by blast+
qed

lemma unat_len64: "n < 2 ^ 64 \<Longrightarrow> unat (of_nat n :: u64) = n"
  by (simp add: unat_of_nat)

lemma heal_slice_of_manifest:
  assumes "c = pre @ final" "length c < 2 ^ 64"
  shows "heal_slice env stem (backfill_manifest_for env c final) c = Inr final"
proof -
  have n: "unat (of_nat (length c) :: u64) = length c" "unat (of_nat (length final) :: u64) = length final"
    using assms unat_len64[of "length c"] unat_len64[of "length final"] by simp_all
  have le: "\<not> (of_nat (length c) :: u64) < of_nat (length final)"
    using n assms(1) by (simp add: word_less_nat_alt)
  have "unat (of_nat (length c) - of_nat (length final) :: u64) = length pre"
    using n le assms(1) by (subst unat_sub) (simp_all add: word_le_nat_alt)
  then show ?thesis using le assms(1) unfolding heal_slice_def Let_def backfill_manifest_for_def by simp
qed

section \<open>Finishing an indexed split\<close>

definition heal_room :: "world \<Rightarrow> path \<Rightarrow> string \<Rightarrow> bool" where
  "heal_room w dir cname \<longleftrightarrow> dir_ok w dir \<and> look w (child dir (atomic_tmp_name (pid w) cname)) \<noteq> Some Directory"

lemma fs_read_calm: "faults w = [] \<Longrightarrow> look w p = Some (File c) \<Longrightarrow> fs_read p w = (Inr c, w)"
  by (simp add: fs_read_def get_follow_ok get_node_def)

lemma write_and_read_back_calm:
  assumes "faults w = []" "heal_room w dir cname" "noslash cname" "not_planted w (child dir (atomic_tmp_name (pid w) cname))"
    "look w (child dir cname) \<noteq> Some Directory" "utf8_valid c"
  obtains w' where "write_and_read_back (child dir cname) c stem w = (Inr c, w')"
    "frame {child dir cname, child dir (atomic_tmp_name (pid w) cname)} w w'" "look w' (child dir cname) = Some (File c)"
proof -
  have tmp: "tmp_ok w (atomic_tmp_path (pid w) (child dir cname)) (child dir cname)"
    using assms(4) by (simp add: atomic_tmp_path_eq[OF assms(3)] tmp_ok_def not_planted_def atomic_tmp_neq_self)
  have room: "dir_ok w dir" "look w (child dir (atomic_tmp_name (pid w) cname)) \<noteq> Some Directory" using assms(2) by (simp_all add: heal_room_def)
  obtain v where v: "write_atomic (child dir cname) c w = (Inr (), v)" "faults v = []"
    by (rule write_atomic_succeeds[OF assms(1) room(1) atomic_tmp_path_eq[OF assms(3)] atomic_tmp_neq_self assms(4) room(2) assms(5)])
  note s = write_atomic_spec[OF v(1) tmp]
  have here: "look v (child dir cname) = Some (File c)" using s(2) by simp
  have run: "write_and_read_back (child dir cname) c stem w = (Inr c, v)"
    using v(1) assms(6) fs_read_calm[OF v(2) here] by (simp add: write_and_read_back_def write_atomic_bytes_def)
  show ?thesis by (rule that[OF run s(1)[unfolded atomic_tmp_path_eq[OF assms(3)]] here])
qed

lemma indexed_split_stored:
  assumes "split_indexed env dir e existing c final w0 w" "codec_ok (be_shard env)"
  obtains index pre where "stored_index (be_shard env) w (index_in dir e) = Some index" "shards index \<noteq> []"
    "manifest_of index = Some (backfill_manifest_for env c final)" "c = pre @ final" "utf8_valid c = utf8_valid final"
    "\<forall>l. look w (index_in dir e) \<noteq> Some (Symlink l)"
proof -
  obtain parts :: "mechanism_a_backfill_partition list" and index s where i:
    "c = concat (map part_bytes parts) @ final" "parts \<noteq> []" "\<forall>part\<in>set parts. utf8_valid (part_bytes part)"
    "look w (index_in dir e) = Some (File s)" "toml_to (be_shard env) index = Some s"
    "manifest_of index = Some (backfill_manifest_for env c final)"
    "map seq (shards index) = map seq existing @ map (\<lambda>j. max_seq existing + of_nat j + 1) [0..<length parts]"
    using assms(1) unfolding split_indexed_def by blast
  have plain: "\<forall>l. look w (index_in dir e) \<noteq> Some (Symlink l)" using i(4) by simp
  have "stored_index (be_shard env) w (index_in dir e) = Some index"
    using assms(2) i(4,5) plain by (simp add: stored_index_plain codec_ok_def)
  moreover have "shards index \<noteq> []" using i(2) arg_cong[OF i(7), of length] by auto
  ultimately show ?thesis using that i(1,6) utf8_parts[OF i(3)] plain by blast
qed

lemma heal_finishes:
  assumes indexed: "split_indexed env dir e existing c final w0 w" and codec: "codec_ok (be_shard env)"
    and calm: "faults w = []" and setting: "roll_setting w dir cname e p" and room: "heal_room w dir cname"
    and here: "look w p = Some (File c) \<or> look w p = Some (File final)" and c: "utf8_valid c" "length c < 2 ^ 64"
  shows "\<exists>r w'. heal_or_confirm_already_migrated env e p (index_in dir e) w = (Inr r, w') \<and> (r = AlreadyMigrated \<or> (\<exists>n. r = Healed n)) \<and>
    look w' p = Some (File final) \<and> split_indexed env dir e existing c final w0 w'"
proof -
  let ?idx = "index_in dir e" and ?m = "backfill_manifest_for env c final"
  have path: "canonical_path_of dir cname p (artifact_stem e)" "p = child dir cname" "noslash cname"
    using setting roll_setting_path[OF setting] by (simp_all add: roll_setting_def canonical_path_of_def)
  obtain index pre where ix: "stored_index (be_shard env) w ?idx = Some index" "shards index \<noteq> []" "manifest_of index = Some ?m"
    "c = pre @ final" "utf8_valid c = utf8_valid final" "\<forall>l. look w ?idx \<noteq> Some (Symlink l)"
    using indexed_split_stored[OF indexed codec] by metis
  have dir: "dir_ok w dir" using room by (simp add: heal_room_def)
  have load: "load_shard_index (be_shard env) ?idx w = (Inr (Some index), w)"
    using load_index_calm[OF calm dir ix(6), of "be_shard env"] ix(1) by simp
  obtain b where b: "look w p = Some (File b)" "b = c \<or> b = final" using here by blast
  note unfolded = heal_or_confirm_already_migrated_def Let_def load prod.case sum.case option.case if_not_P[OF ix(2)] ix(3)
    fs_read_calm[OF calm b(1)]
  have m: "final_bytes ?m = of_nat (length final)" "final_sha256 ?m = sha256_hex env final"
    "original_bytes ?m = of_nat (length c)" "original_sha256 ?m = sha256_hex env c" by (simp_all add: backfill_manifest_for_def)
  show ?thesis
  proof (cases "of_nat (length b) = final_bytes ?m \<and> sha256_hex env b = final_sha256 ?m")
    case True
    have "b = final"
    proof (cases "b = c")
      case c: True
      have "(of_nat (length c) :: u64) = of_nat (length final)" using True m(1) c by simp
      moreover have "length final < 2 ^ 64" using assms(8) ix(4) by simp
      ultimately have "length c = length final" using unat_len64 assms(8) by metis
      then show ?thesis using ix(4) c by simp
    qed (use b(2) in simp)
    then show ?thesis using True indexed b(1) unfolding unfolded by simp
  next
    case False
    then have bc: "b = c" using b(2) m by auto
    note slice = heal_slice_of_manifest[OF ix(4) c(2), of env "artifact_stem e"]
    obtain w' where w': "write_and_read_back (child dir cname) final (artifact_stem e) w = (Inr final, w')"
      "frame {child dir cname, child dir (atomic_tmp_name (pid w) cname)} w w'" "look w' (child dir cname) = Some (File final)"
      by (rule write_and_read_back_calm[OF calm room path(3)]) (use setting b(1) path(2) c(1) ix(5) in \<open>auto simp: roll_setting_def\<close>)
    have "heal_or_confirm_already_migrated env e p ?idx w = (Inr (Healed (of_nat (length (shards index)))), w')"
      unfolding unfolded if_not_P[OF False] using bc m slice w'(1) path(2) by simp
    moreover have "split_indexed env dir e existing c final w0 w'"
      using split_indexed_keep[OF indexed _ w'(2)] path(1,2) by simp
    ultimately show ?thesis using w'(3) path(2) by blast
  qed
qed


section \<open>Examples\<close>

definition burst_text :: bytes where
  "burst_text = ''## a'' @ [CHR 0x0A] @ ''## b'' @ [CHR 0x0A] @ ''## c'' @ [CHR 0x0A]"

definition burst_env :: "shard_env \<Rightarrow> backfill_env" where
  "burst_env env = \<lparr>be_shard = env, sha256_digest = (\<lambda>c. c), be_alphanumeric = (\<lambda>_. False)\<rparr>"

definition plain_codec :: shard_env where
  "plain_codec = \<lparr>toml_to = \<lambda>_. Some ''i'', toml_from = \<lambda>_. None, utc_now = ''now''\<rparr>"

definition burst_run :: "(mechanism_a_backfill_error + mechanism_a_backfill_outcome) \<times> world" where
  "burst_run = run_mechanism_a_backfill_split (burst_env plain_codec) sample_entry sample_canonical [0, 5, 10] 3 (fresh_world [] burst_text)"

lemma burst_run_eval: "fst burst_run = Inr (Migrated 1 0)"
  by code_simp

lemma fresh_no_index: "stored_index env (fresh_world fs c) (index_in sample_dir sample_entry) = None"
  by (simp add: stored_index_plain look_fresh sample_canonical_def sample_dir_def sample_entry_def sample_names)

lemma burst_setting: "backfill_setting (fresh_world fs c) sample_dir ''burst-log.md'' sample_entry sample_canonical [] 8"
proof -
  have "seal_room (fresh_world fs c) sample_dir sample_entry 0"
    by (auto simp: seal_room_def not_planted_def look_fresh)
  then show ?thesis
    using fresh_setting[of fs c] by (simp add: backfill_setting_def sample_entry_def plain_name_def max_seq_def)
qed


definition burst_part :: mechanism_a_backfill_partition where
  "burst_part = \<lparr>part_bytes = take 10 burst_text, record_count = 2, part_oversized = False\<rparr>"

definition burst_index :: shard_index where
  "burst_index = (fresh_backfill_shard_index sample_entry 3 [backfill_row ''now'' ''burst-log'' 1 burst_part])
     \<lparr>manifest_of := Some (backfill_manifest_for (burst_env unary_env) burst_text (drop 10 burst_text))\<rparr>"

definition interrupted_world :: world where
  "interrupted_world = put (index_in sample_dir sample_entry) (File (replicate (to_nat burst_index) CHR ''x''))
     (put (sealed_in sample_dir sample_entry 1) (File (take 10 burst_text)) (fresh_world [] burst_text))"

lemma burst_row_file: "row_file sample_dir (backfill_row ''now'' ''burst-log'' 1 burst_part) = sealed_in sample_dir sample_entry 1"
  by (simp add: row_file_def backfill_row_def sample_entry_def sample_names plain_name_def)

lemma burst_part_content: "part_bytes burst_part = take 10 burst_text"
  by (simp add: burst_part_def)

lemma interrupted_indexed:
  "split_indexed (burst_env unary_env) sample_dir sample_entry [] burst_text (drop 10 burst_text) (fresh_world [] burst_text) interrupted_world"
proof -
  have rows: "shards burst_index = [backfill_row ''now'' ''burst-log'' 1 burst_part]"
    by (simp add: burst_index_def fresh_backfill_shard_index_def)
  have u: "utf8_valid (part_bytes burst_part)" by code_simp
  show ?thesis
    unfolding split_indexed_def
  proof (intro exI[of _ "[burst_part]"] exI[of _ burst_index] exI[of _ "replicate (to_nat burst_index) CHR ''x''"] conjI)
    show "look interrupted_world (index_in sample_dir sample_entry) = Some (File (replicate (to_nat burst_index) CHR ''x''))"
      by (simp add: interrupted_world_def)
    show "\<forall>j<length [burst_part]. look interrupted_world (row_file sample_dir (shards burst_index ! (length ([] :: shard_index_entry list) + j))) =
        Some (File (part_bytes ([burst_part] ! j)))"
      by (simp add: rows burst_row_file interrupted_world_def sealed_neq_index burst_part_content)
  qed (simp_all add: rows burst_row_file shard_places_def u, simp_all add: burst_part_def burst_env_def unary_env_def burst_index_def
      backfill_row_def max_seq_def)
qed


text \<open>
  A first backfill of an artifact that rolls have already sharded: when the archiving of the old shards stops half way,
  the index still names the old place of a shard that has moved, and every later run fails on it.
\<close>

definition rolled_index :: shard_index where
  "rolled_index = (fresh_backfill_shard_index sample_entry 0 [kept_row 1 ''burst-log.0001.md'', kept_row 2 ''burst-log.0002.md''])"

definition rolled_env :: backfill_env where
  "rolled_env = burst_env \<lparr>toml_to = \<lambda>_. Some ''i'', toml_from = \<lambda>_. Some rolled_index, utc_now = ''now''\<rparr>"

definition rolled_world :: "fault option list \<Rightarrow> world" where
  "rolled_world fs = put (index_in sample_dir sample_entry) (File ''i'') (put (sealed_in sample_dir sample_entry 1) (File ''a'')
     (put (sealed_in sample_dir sample_entry 2) (File ''b'') (fresh_world fs burst_text)))"

definition rolled_run :: "world \<Rightarrow> (mechanism_a_backfill_error + mechanism_a_backfill_outcome) \<times> world" where
  "rolled_run = run_mechanism_a_backfill_split rolled_env sample_entry sample_canonical [0, 5, 10] 0"

lemma failed_archiving_blocks_backfill:
  "fst (rolled_run (rolled_world (replicate 10 None @ [Some (Fault 0)]))) = Inl (BackfillIo ''burst-log'' OtherIo)"
  "look (snd (rolled_run (rolled_world (replicate 10 None @ [Some (Fault 0)])))) (child sample_dir ''burst-log.0001.md'') = None"
  "look (snd (rolled_run (rolled_world (replicate 10 None @ [Some (Fault 0)])))) (child sample_dir ''burst-log.shard-index.toml'') = Some (File ''i'')"
  "fst (rolled_run (snd (rolled_run (rolled_world (replicate 10 None @ [Some (Fault 0)]))))) = Inl (BackfillIo ''burst-log'' OtherIo)"
  by code_simp+

end
