(* ===== verification/RustWalk.thy ===== *)
theory RustWalk
  imports RustFs
begin

text \<open>
  Path resolution as the kernel does it: component by component, through symbolic links to directories as
  well, with the limit of forty links.  \<open>canonicalize\<close>, opening a file and \<open>std::fs::write\<close> rest on it.
  Opening a device or a FIFO is outside the model and answers with an error.
\<close>

datatype lookup = Found path | Absent path | NoEntry io_kind
  \<comment> \<open>\<open>Absent\<close>: the directory exists, the last name does not\<close>

definition is_dir :: "world \<Rightarrow> path \<Rightarrow> bool" where
  "is_dir w p \<longleftrightarrow> p = [RootDir] \<or> look w p = Some Directory"

definition dir_up :: "path \<Rightarrow> path" where
  "dir_up p = (if length p \<le> 1 then p else butlast p)"

function namei :: "nat \<Rightarrow> world \<Rightarrow> path \<Rightarrow> path \<Rightarrow> lookup" where
  "namei k w cur [] = Found cur"
| "namei k w cur (RootDir # cs) = namei k w [RootDir] cs"
| "namei k w cur (CurDir # cs) = (if is_dir w cur then namei k w cur cs else NoEntry OtherIo)"
| "namei k w cur (ParentDir # cs) = (if is_dir w cur then namei k w (dir_up cur) cs else NoEntry OtherIo)"
| "namei k w cur (Normal n # cs) =
     (if \<not> is_dir w cur then NoEntry OtherIo
      else (case look w (cur @ [Normal n]) of
          None \<Rightarrow> if cs = [] then Absent (cur @ [Normal n]) else NoEntry NotFound
        | Some (Symlink t) \<Rightarrow> (case k of 0 \<Rightarrow> NoEntry OtherIo | Suc k' \<Rightarrow> namei k' w cur (t @ cs))
        | Some _ \<Rightarrow> namei k w (cur @ [Normal n]) cs))"
  by pat_completeness auto
termination
  by (relation "measures [\<lambda>(k, w, cur, cs). k, \<lambda>(k, w, cur, cs). length cs]") auto

text \<open>
  The text of a path as it reaches the kernel: its components, and whether it ends in a separator or in
  \<^verbatim>\<open>/.\<close>, so that it must name a directory.  The empty path names nothing, a NUL byte is refused.
\<close>

type_synonym os_path = "path \<times> bool"

definition ends_as_dir :: "string \<Rightarrow> bool" where
  "ends_as_dir s \<longleftrightarrow> s = [] \<or> s = ''.'' \<or> ends_with ''/'' s \<or> ends_with ''/.'' s"

definition os_path_of :: "string \<Rightarrow> os_path" where
  "os_path_of s = (path_of s, ends_as_dir s)"

text \<open>\<open>base.join(s)\<close> as it reaches the kernel; joining the empty text ends in a separator.\<close>

definition join_os :: "path \<Rightarrow> string \<Rightarrow> os_path" where
  "join_os base s = (join base (path_of s), ends_as_dir s)"

definition has_nul :: "path \<Rightarrow> bool" where
  "has_nul p \<longleftrightarrow> list_ex (\<lambda>c. case c of Normal n \<Rightarrow> CHR 0x00 \<in> set n | _ \<Rightarrow> False) p"

definition kernel_names :: "os_path \<Rightarrow> path" where
  "kernel_names p = (case p of (cs, d) \<Rightarrow> cs @ (if d then [CurDir] else []))"

definition walk :: "world \<Rightarrow> path \<Rightarrow> os_path \<Rightarrow> lookup" where
  "walk w here p = (if fst p = [] then NoEntry NotFound else if has_nul (fst p) then NoEntry OtherIo
     else namei 40 w here (kernel_names p))"

section \<open>Calls\<close>

definition canonical_of :: "world \<Rightarrow> path \<Rightarrow> os_path \<Rightarrow> io_kind + path" where
  "canonical_of w here p = (case walk w here p of Found q \<Rightarrow> Inr q | Absent _ \<Rightarrow> Inl NotFound | NoEntry e \<Rightarrow> Inl e)"

definition fs_canonicalize :: "path \<Rightarrow> os_path \<Rightarrow> world \<Rightarrow> (io_kind + path) \<times> world" where
  "fs_canonicalize here p = syscall (\<lambda>w. (canonical_of w here p, w))"

text \<open>\<open>File::open\<close>: the node opened, a file or a directory.\<close>

definition fs_open :: "path \<Rightarrow> os_path \<Rightarrow> world \<Rightarrow> (io_kind + path) \<times> world" where
  "fs_open here p = syscall (\<lambda>w. (case walk w here p of
       Found q \<Rightarrow> if is_dir w q then Inr q else (case look w q of Some (File _) \<Rightarrow> Inr q | _ \<Rightarrow> Inl OtherIo)
     | Absent _ \<Rightarrow> Inl NotFound | NoEntry e \<Rightarrow> Inl e, w))"

definition fs_read_open :: "path \<Rightarrow> world \<Rightarrow> (io_kind + bytes) \<times> world" where
  "fs_read_open q = syscall (\<lambda>w. (case look w q of Some (File c) \<Rightarrow> Inr c | _ \<Rightarrow> Inl OtherIo, w))"

text \<open>\<open>std::fs::write\<close>: create or truncate, then write everything; a fault leaves a prefix.\<close>

definition fs_create_at :: "path \<Rightarrow> os_path \<Rightarrow> world \<Rightarrow> (io_kind + path) \<times> world" where
  "fs_create_at here p = syscall (\<lambda>w. case walk w here p of
       Found q \<Rightarrow> if is_dir w q then (Inl OtherIo, w)
         else (case look w q of Some (File _) \<Rightarrow> (Inr q, put q (File []) w) | _ \<Rightarrow> (Inl OtherIo, w))
     | Absent q \<Rightarrow> (Inr q, put q (File []) w)
     | NoEntry e \<Rightarrow> (Inl e, w))"

definition fs_write_at :: "path \<Rightarrow> os_path \<Rightarrow> bytes \<Rightarrow> world \<Rightarrow> (io_kind + unit) \<times> world" where
  "fs_write_at here p c w = (case fs_create_at here p w of
       (Inl e, w) \<Rightarrow> (Inl e, w) | (Inr q, w) \<Rightarrow> if c = [] then (Inr (), w) else fs_write_all q c w)"

section \<open>Canonical paths\<close>

text \<open>An absolute path of names only.\<close>

definition canonical :: "path \<Rightarrow> bool" where
  "canonical p \<longleftrightarrow> (\<exists>ns. p = RootDir # map Normal ns)"

lemma canonical_root: "canonical [RootDir]"
  by (auto simp: canonical_def intro: exI[of _ "[]"])

lemma canonical_snoc [simp]: "canonical (p @ [Normal n]) \<longleftrightarrow> canonical p"
proof
  assume "canonical (p @ [Normal n])"
  then obtain ns where ns: "p @ [Normal n] = RootDir # map Normal ns" by (auto simp: canonical_def)
  then have "ns \<noteq> []" by (cases p) auto
  then have "p = RootDir # map Normal (butlast ns)"
    using ns by (metis butlast.simps(2) butlast_snoc list.map_disc_iff map_butlast)
  then show "canonical p" by (auto simp: canonical_def)
next
  assume "canonical p"
  then obtain ns where "p = RootDir # map Normal ns" by (auto simp: canonical_def)
  then have "p @ [Normal n] = RootDir # map Normal (ns @ [n])" by simp
  then show "canonical (p @ [Normal n])" unfolding canonical_def by blast
qed

lemma canonical_up: "canonical p \<Longrightarrow> canonical (dir_up p)"
proof -
  assume "canonical p"
  then obtain ns where ns: "p = RootDir # map Normal ns" by (auto simp: canonical_def)
  show ?thesis
  proof (cases ns rule: rev_cases)
    case Nil
    then show ?thesis using ns by (simp add: dir_up_def canonical_root)
  next
    case (snoc ms m)
    then have "dir_up p = RootDir # map Normal ms" using ns by (simp add: dir_up_def butlast_append)
    then show ?thesis by (auto simp: canonical_def)
  qed
qed

lemma namei_canonical:
  "canonical cur \<Longrightarrow> namei k w cur cs = Found q \<or> namei k w cur cs = Absent q \<Longrightarrow> canonical q"
proof (induction k w cur cs rule: namei.induct)
  case (5 k w cur n cs)
  show ?case
  proof (cases "is_dir w cur")
    case True
    then show ?thesis
      using 5 by (auto split: option.splits node.splits nat.splits if_splits)
  qed (use 5 in simp)
qed (auto simp: canonical_root canonical_up split: if_splits)

lemma walk_canonical: "canonical here \<Longrightarrow> walk w here p = Found q \<or> walk w here p = Absent q \<Longrightarrow> canonical q"
  unfolding walk_def using namei_canonical[of here 40 w] by (auto split: if_splits)

text \<open>A walk depends on the tree only.\<close>

lemma namei_cong: "look v = look w \<Longrightarrow> namei k v cur cs = namei k w cur cs"
  by (induction k v cur cs rule: namei.induct) (auto simp: is_dir_def split: option.splits node.splits nat.splits)

lemma walk_frame: "frame {} w v \<Longrightarrow> walk v here p = walk w here p"
  unfolding walk_def namei_cong[OF frame_empty_look] ..

lemma canonical_of_frame: "frame {} w v \<Longrightarrow> canonical_of v here p = canonical_of w here p"
  unfolding canonical_of_def by (simp only: walk_frame)

lemma canonical_of_Inr: "canonical_of w here p = Inr q \<longleftrightarrow> walk w here p = Found q"
  by (simp add: canonical_of_def split: lookup.splits)

lemma fs_canonicalize_frame: "fs_canonicalize here p w = (r, w') \<Longrightarrow> frame {} w w'"
  unfolding fs_canonicalize_def by (elim syscall_cases) simp_all

lemma fs_open_frame: "fs_open here p w = (r, w') \<Longrightarrow> frame {} w w'"
  unfolding fs_open_def by (elim syscall_cases) simp_all

lemma fs_read_open_frame: "fs_read_open q w = (r, w') \<Longrightarrow> frame {} w w'"
  unfolding fs_read_open_def by (elim syscall_cases) simp_all

lemmas walk_frames = fs_canonicalize_frame fs_open_frame fs_read_open_frame

lemma fs_canonicalize_result:
  assumes "fs_canonicalize here p w = (Inr q, w')"
  shows "walk w here p = Found q"
proof -
  obtain v where v: "frame {} w v" "canonical_of v here p = Inr q"
    using assms unfolding fs_canonicalize_def by (elim syscall_cases) simp_all
  show ?thesis using v(2) unfolding canonical_of_Inr walk_frame[OF v(1)] .
qed

lemma fs_open_result:
  assumes "fs_open here p w = (Inr q, w')"
  shows "walk w here p = Found q" "is_dir w q \<or> (\<exists>c. look w q = Some (File c))"
proof -
  obtain v where v: "frame {} w v" "(case walk v here p of
       Found q \<Rightarrow> if is_dir v q then Inr q else (case look v q of Some (File _) \<Rightarrow> Inr q | _ \<Rightarrow> Inl OtherIo)
     | Absent _ \<Rightarrow> Inl NotFound | NoEntry e \<Rightarrow> Inl e) = (Inr q :: io_kind + path)"
    using assms unfolding fs_open_def by (elim syscall_cases) simp_all
  have "look v = look w" by (rule frame_empty_look[OF v(1)])
  moreover have "is_dir v q = is_dir w q" by (simp add: is_dir_def \<open>look v = look w\<close>)
  ultimately show "walk w here p = Found q" "is_dir w q \<or> (\<exists>c. look w q = Some (File c))"
    using v(2) unfolding walk_frame[OF v(1)]
    by (auto split: lookup.splits if_splits option.splits node.splits)
qed

lemma fs_read_open_result:
  assumes "fs_read_open q w = (Inr c, w')"
  shows "look w q = Some (File c)"
proof -
  obtain v where v: "frame {} w v" "(case look v q of Some (File c) \<Rightarrow> Inr c | _ \<Rightarrow> Inl OtherIo) = (Inr c :: io_kind + bytes)"
    using assms unfolding fs_read_open_def by (elim syscall_cases) simp_all
  show ?thesis using v(2) unfolding frame_empty_look[OF v(1)] by (auto split: option.splits node.splits)
qed

lemma fs_create_at_error: "fs_create_at here p w = (Inl e, v) \<Longrightarrow> frame {} w v"
  unfolding fs_create_at_def
  by (elim syscall_cases) (auto split: lookup.splits if_splits option.splits node.splits)

lemma fs_create_at_opened:
  assumes "fs_create_at here p w = (Inr q, w')"
  shows "walk w here p = Found q \<or> walk w here p = Absent q" "frame {q} w w'" "look w' q = Some (File [])"
proof -
  obtain v where v: "frame {} w v" and f: "(case walk v here p of
       Found q \<Rightarrow> if is_dir v q then (Inl OtherIo, v)
         else (case look v q of Some (File _) \<Rightarrow> (Inr q, put q (File []) v) | _ \<Rightarrow> (Inl OtherIo, v))
     | Absent q \<Rightarrow> (Inr q, put q (File []) v)
     | NoEntry e \<Rightarrow> (Inl e, v)) = (Inr q, w')"
    using assms unfolding fs_create_at_def by (elim syscall_cases) simp_all
  have q: "(walk v here p = Found q \<or> walk v here p = Absent q) \<and> w' = put q (File []) v"
    using f by (auto split: lookup.splits if_splits option.splits node.splits)
  then show "walk w here p = Found q \<or> walk w here p = Absent q" using walk_frame[OF v] by simp
  have "pid v = pid w" by (rule frame_pid[OF v])
  then show "frame {q} w w'" using q frame_look[OF v] by (simp add: frame_def)
  show "look w' q = Some (File [])" using q by simp
qed

text \<open>A write that returns an error before opening, or opens one file and leaves every other alone.\<close>

lemma fs_write_at_spec:
  assumes "fs_write_at here p c w = (r, w')"
  shows "(isl r \<and> frame {} w w') \<or> (\<exists>q. (walk w here p = Found q \<or> walk w here p = Absent q) \<and> frame {q} w w' \<and>
     (r = Inr () \<longrightarrow> look w' q = Some (File c)))"
proof -
  obtain a v where a: "fs_create_at here p w = (a, v)" by fastforce
  show ?thesis
  proof (cases a)
    case (Inl e)
    have "frame {} w v" using fs_create_at_error a Inl by blast
    moreover have "r = Inl e" "w' = v" using assms unfolding fs_write_at_def a Inl by simp_all
    ultimately show ?thesis by simp
  next
    case (Inr q)
    note q = fs_create_at_opened[OF a[unfolded Inr]]
    show ?thesis
    proof (cases "c = []")
      case True
      then have "w' = v" using assms unfolding fs_write_at_def a Inr by simp
      then show ?thesis using q True by blast
    next
      case False
      then have run: "fs_write_all q c v = (r, w')" using assms unfolding fs_write_at_def a Inr by simp
      have "frame {q} w w'" using q(2) fs_write_all_spec(1)[OF run] by (rule frame_trans)
      moreover have "r = Inr () \<longrightarrow> look w' q = Some (File c)" using fs_write_all_spec(2)[OF run] q(3) by simp
      ultimately show ?thesis using q(1) by blast
    qed
  qed
qed

end
