(* ===== verification/HostWire.thy ===== *)
theory HostWire
  imports RustStr Prelude
begin

text \<open>
  The byte formats at the WASM boundary: the SDK (\<^verbatim>\<open>hook-sdk/src/host.rs\<close>) writes length-prefixed strings and
  the dispatcher (\<^verbatim>\<open>host/exec_subprocess.rs\<close>, \<^verbatim>\<open>host/emit_event.rs\<close>) reads them; the result of a subprocess
  goes the other way.  Lengths are little-endian \<open>u32\<close>, so a longer string is announced by its length modulo
  \<open>2 ^ 32\<close>.
\<close>

section \<open>Little-endian integers\<close>

fun le_bytes :: "nat \<Rightarrow> nat \<Rightarrow> bytes" where
  "le_bytes 0 n = []"
| "le_bytes (Suc k) n = char_of (n mod 256) # le_bytes k (n div 256)"

fun le_value :: "bytes \<Rightarrow> nat" where
  "le_value [] = 0"
| "le_value (c # cs) = byte c + 256 * le_value cs"

abbreviation le32 :: "nat \<Rightarrow> bytes" where "le32 \<equiv> le_bytes 4"  \<comment> \<open>\<open>(n as u32).to_le_bytes()\<close>\<close>

lemma length_le_bytes [simp]: "length (le_bytes k n) = k"
  by (induction k arbitrary: n) auto

lemma le_value_le_bytes: "le_value (le_bytes k n) = n mod 256 ^ k"
proof (induction k arbitrary: n)
  case (Suc k)
  have "n mod 256 + 256 * (n div 256 mod 256 ^ k) = n mod 256 ^ Suc k"
    by (metis add.commute mod_mult2_eq power_Suc)
  then show ?case by (simp add: Suc)
qed simp

lemma le_value_le32: "n < 2 ^ 32 \<Longrightarrow> le_value (le32 n) = n"
  by (simp add: le_value_le_bytes)

lemma le_value_bound: "le_value cs < 256 ^ length cs"
proof (induction cs)
  case (Cons c cs)
  have "le_value cs + 1 \<le> 256 ^ length cs" using Cons by simp
  then have "256 * (le_value cs + 1) \<le> 256 * 256 ^ length cs" by (rule mult_le_mono2)
  moreover have "byte c + 256 * le_value cs < 256 * (le_value cs + 1)"
    using nat_of_char_less_256[of c] by (simp only: distrib_left add_less_cancel_right mult_1_right add.commute[of "byte c"] add_less_cancel_left)
  ultimately have "byte c + 256 * le_value cs < 256 * 256 ^ length cs" by (rule less_le_trans[rotated])
  then show ?case by simp
qed simp

section \<open>Lossy UTF-8\<close>

text \<open>
  \<open>String::from_utf8_lossy\<close> replaces every maximal ill-formed part by U+FFFD.  \<open>next_char\<close> is the length of
  the first character and whether it is well formed.
\<close>

definition replacement :: string where
  "replacement = [CHR 0xEF, CHR 0xBF, CHR 0xBD]"

definition second_ok :: "char \<Rightarrow> char \<Rightarrow> bool" where
  "second_ok a b \<longleftrightarrow> is_cont b \<and> (byte a = 224 \<longrightarrow> 160 \<le> byte b) \<and> (byte a = 237 \<longrightarrow> byte b \<le> 159) \<and>
     (byte a = 240 \<longrightarrow> 144 \<le> byte b) \<and> (byte a = 244 \<longrightarrow> byte b \<le> 143)"

definition char_width :: "char \<Rightarrow> nat" where
  "char_width a = (if byte a < 128 then 1 else if 194 \<le> byte a \<and> byte a \<le> 223 then 2
     else if 224 \<le> byte a \<and> byte a \<le> 239 then 3 else if 240 \<le> byte a \<and> byte a \<le> 244 then 4 else 0)"

fun conts :: "nat \<Rightarrow> string \<Rightarrow> nat" where
  "conts 0 s = 0"
| "conts (Suc k) [] = 0"
| "conts (Suc k) (c # s) = (if is_cont c then Suc (conts k s) else 0)"

definition next_char :: "char \<Rightarrow> string \<Rightarrow> nat \<times> bool" where
  "next_char a s = (let w = char_width a in
     if w = 0 then (1, False) else if w = 1 then (1, True)
     else (case s of [] \<Rightarrow> (1, False)
       | b # s' \<Rightarrow> if \<not> second_ok a b then (1, False)
           else (let n = 2 + conts (w - 2) s' in (n, n = w))))"

lemma next_char_positive: "0 < fst (next_char a s)"
  by (auto simp: next_char_def Let_def split: list.splits)

function from_utf8_lossy :: "bytes \<Rightarrow> string" where
  "from_utf8_lossy [] = []"
| "from_utf8_lossy (a # s) = (case next_char a s of (n, ok) \<Rightarrow>
     (if ok then take n (a # s) else replacement) @ from_utf8_lossy (drop n (a # s)))"
  by pat_completeness auto
termination
proof (relation "measure length", goal_cases)
  case (2 a s n ok)
  then have "0 < n" using next_char_positive[of a s] by (metis fst_conv)
  then show ?case by simp
qed simp

lemma from_utf8_lossy_valid: "utf8_valid s \<Longrightarrow> from_utf8_lossy s = s"
proof (induction s rule: utf8_valid.induct)
  case (2 a s)
  consider "byte a < 128" | "194 \<le> byte a" "byte a \<le> 223" | "224 \<le> byte a" "byte a \<le> 239"
    | "240 \<le> byte a" "byte a \<le> 244"
    using "2.prems" by (auto split: if_splits)
  then show ?case
  proof cases
    case 1
    then show ?thesis using 2 by (simp add: next_char_def char_width_def)
  next
    case c: 2
    then obtain b s' where s: "s = b # s'" "is_cont b" "utf8_valid s'" using "2.prems" by (auto split: list.splits)
    have "from_utf8_lossy s' = s'" using "2.IH"(2) c s by auto
    then show ?thesis using c s by (simp add: next_char_def char_width_def second_ok_def numeral_2_eq_2)
  next
    case c: 3
    then obtain b d s' where s: "s = b # d # s'" "is_cont b" "is_cont d" "utf8_valid s'"
      and r: "byte a = 224 \<longrightarrow> 160 \<le> byte b" "byte a = 237 \<longrightarrow> byte b \<le> 159"
      using "2.prems" by (auto split: list.splits)
    have "from_utf8_lossy s' = s'" using "2.IH"(3) c s by auto
    then show ?thesis using c s r by (simp add: next_char_def char_width_def second_ok_def eval_nat_numeral)
  next
    case c: 4
    then obtain b d e s' where s: "s = b # d # e # s'" "is_cont b" "is_cont d" "is_cont e" "utf8_valid s'"
      and r: "byte a = 240 \<longrightarrow> 144 \<le> byte b" "byte a = 244 \<longrightarrow> byte b \<le> 143"
      using "2.prems" by (auto split: list.splits)
    have "from_utf8_lossy s' = s'" using "2.IH"(4) c s by auto
    then show ?thesis using c s r by (simp add: next_char_def char_width_def second_ok_def eval_nat_numeral)
  qed
qed simp

section \<open>Arguments\<close>

definition put_string :: "string \<Rightarrow> bytes" where
  "put_string s = le32 (length s) @ s"

definition encode_args :: "string list \<Rightarrow> bytes" where
  "encode_args args = concat (map put_string args)"

text \<open>One length and the bytes it announces, with what follows.\<close>

definition take_counted :: "bytes \<Rightarrow> (bytes \<times> bytes) option" where
  "take_counted s = (if length s < 4 then None
     else let n = le_value (take 4 s); s' = drop 4 s in
       if length s' < n then None else Some (take n s', drop n s'))"

lemma take_counted_shorter: "take_counted s = Some (a, s') \<Longrightarrow> length s' < length s"
  by (auto simp: take_counted_def Let_def split: if_splits)

lemma take_counted_put [simp]: "length a < 2 ^ 32 \<Longrightarrow> take_counted (put_string a @ s) = Some (a, s)"
  unfolding take_counted_def put_string_def Let_def by (simp add: le_value_le32)

lemma put_string_nonempty [simp]: "put_string a \<noteq> []"
proof
  assume "put_string a = []"
  then have "length (put_string a) = 0" by simp
  then show False by (simp add: put_string_def)
qed

function decode_args :: "bytes \<Rightarrow> string list option" where
  "decode_args s = (if s = [] then Some [] else
     (case take_counted s of None \<Rightarrow> None
      | Some (a, s') \<Rightarrow> map_option (\<lambda>out. from_utf8_lossy a # out) (decode_args s')))"
  by pat_completeness auto
termination
  by (relation "measure length") (auto dest: take_counted_shorter)

declare decode_args.simps [simp del]

lemma args_round_trip_core:
  "\<forall>a\<in>set args. utf8_valid a \<and> length a < 2 ^ 32 \<Longrightarrow> decode_args (encode_args args) = Some args"
proof (induction args)
  case (Cons a args)
  then have "decode_args (put_string a @ encode_args args) = Some (a # args)"
    by (subst decode_args.simps) (simp add: from_utf8_lossy_valid)
  then show ?case by (simp add: encode_args_def)
qed (simp add: encode_args_def decode_args.simps)

section \<open>Event fields\<close>

datatype field_error = TruncatedKeyLength | TruncatedKeyBytes | TruncatedValueLength | TruncatedValueBytes

definition encode_fields :: "(string \<times> string) list \<Rightarrow> bytes" where
  "encode_fields kvs = concat (map (\<lambda>(k, v). put_string k @ put_string v) kvs)"

function decode_fields :: "bytes \<Rightarrow> field_error + (string \<times> string) list" where
  "decode_fields s = (if s = [] then Inr []
     else if length s < 4 then Inl TruncatedKeyLength
     else (case take_counted s of None \<Rightarrow> Inl TruncatedKeyBytes
      | Some (k, s1) \<Rightarrow>
     if length s1 < 4 then Inl TruncatedValueLength
     else (case take_counted s1 of None \<Rightarrow> Inl TruncatedValueBytes
      | Some (v, s2) \<Rightarrow>
     (case decode_fields s2 of Inl e \<Rightarrow> Inl e | Inr out \<Rightarrow> Inr ((from_utf8_lossy k, from_utf8_lossy v) # out)))))"
  by pat_completeness auto
termination
  by (relation "measure length") (auto dest!: take_counted_shorter)

declare decode_fields.simps [simp del]

lemma put_string_long [simp]: "\<not> length (put_string a @ s) < 4"
  by (simp add: put_string_def)

lemma fields_round_trip_core:
  assumes "\<forall>(k, v)\<in>set kvs. utf8_valid k \<and> utf8_valid v \<and> length k < 2 ^ 32 \<and> length v < 2 ^ 32"
  shows "decode_fields (encode_fields kvs) = Inr kvs"
  using assms
proof (induction kvs)
  case (Cons kv kvs)
  obtain k v where kv: "kv = (k, v)" by fastforce
  have len: "length k < 2 ^ 32" "length v < 2 ^ 32" and valid: "utf8_valid k" "utf8_valid v"
    using Cons.prems kv by auto
  have ih: "decode_fields (encode_fields kvs) = Inr kvs" using Cons by simp
  have "encode_fields (kv # kvs) = put_string k @ put_string v @ encode_fields kvs"
    by (simp add: encode_fields_def kv)
  moreover have "decode_fields (put_string k @ put_string v @ encode_fields kvs) = Inr (kv # kvs)"
    unfolding decode_fields.simps[of "put_string k @ _"] if_not_P[OF put_string_long] take_counted_put[OF len(1)]
      take_counted_put[OF len(2)] option.case prod.case ih sum.case
    by (simp add: kv from_utf8_lossy_valid valid)
  ultimately show ?case by simp
qed (simp add: encode_fields_def decode_fields.simps)

section \<open>The result of a subprocess\<close>

definition encode_envelope :: "i32 \<Rightarrow> bytes \<Rightarrow> bytes \<Rightarrow> bytes" where
  "encode_envelope code out err = le32 (unat code) @ le32 (length out) @ out @ le32 (length err) @ err"

record subprocess_result =
  exit_code :: i32
  sub_stdout :: bytes
  sub_stderr :: bytes

text \<open>
  The guest's \<open>usize\<close> has 32 bits.  A slice index out of order, or past the end, panics; the sums
  that overflow would index out of order, or panic themselves where overflow checks are on.
\<close>

datatype 'a decoded = Decoded 'a | Undecodable | Panics

definition decode_subprocess_result :: "bytes \<Rightarrow> subprocess_result decoded" where
  "decode_subprocess_result s =
     (if length s < 4 then Undecodable
      else if length s < 8 then Panics
      else let stdout_end = 8 + le_value (take 4 (drop 4 s)) in
      if 2 ^ 32 \<le> stdout_end + 4 then Panics
      else if length s < stdout_end + 4 then Undecodable
      else let stderr_end = stdout_end + 4 + le_value (take 4 (drop stdout_end s)) in
      if 2 ^ 32 \<le> stderr_end then Panics
      else if length s < stderr_end then Undecodable
      else Decoded \<lparr>exit_code = of_nat (le_value (take 4 s)), sub_stdout = seg 8 stdout_end s,
        sub_stderr = seg (stdout_end + 4) stderr_end s\<rparr>)"

lemma envelope_round_trip_core:
  assumes "length out + length err + 12 < 2 ^ 32"
  shows "decode_subprocess_result (encode_envelope code out err) =
    Decoded \<lparr>exit_code = code, sub_stdout = out, sub_stderr = err\<rparr>"
proof -
  have len: "length out < 2 ^ 32" "length err < 2 ^ 32" using assms by auto
  have code: "unat code < 2 ^ 32" using unsigned_less[of code, where ?'a = nat] by simp
  let ?s = "encode_envelope code out err"
  have "take 4 ?s = le32 (unat code)" "take 4 (drop 4 ?s) = le32 (length out)"
    by (simp_all add: encode_envelope_def)
  moreover have "drop (8 + length out) ?s = le32 (length err) @ err" by (simp add: encode_envelope_def)
  moreover have "seg 8 (8 + length out) ?s = out" by (simp add: seg_def encode_envelope_def)
  moreover have "seg (8 + length out + 4) (8 + length out + 4 + length err) ?s = err"
    by (simp add: seg_def encode_envelope_def)
  moreover have "length ?s = 12 + length out + length err" by (simp add: encode_envelope_def)
  ultimately show ?thesis
    using assms by (simp add: decode_subprocess_result_def Let_def le_value_le32[OF code] le_value_le32[OF len(1)]
      le_value_le32[OF len(2)])
qed

end
