(* ===== verification/HostPath.thy ===== *)
theory HostPath
  imports Registry RustWalk HostWire
begin

text \<open>
  The file capabilities of a plugin: the allow-list check (\<^verbatim>\<open>host/path_util.rs\<close>) and the bounded reads and
  the write behind it (\<^verbatim>\<open>host/read_file.rs\<close>, \<^verbatim>\<open>host/read_prefix.rs\<close>, \<^verbatim>\<open>host/write_file.rs\<close>).  The size a
  directory reports, the mode bits of a file and the run of a subprocess are parameters.
\<close>

section \<open>Context\<close>

text \<open>
  A subprocess as the code asks for it, and what it sees of it: the polls of its status, in order, and what
  it printed.  \<open>StillRunning\<close> holds the milliseconds that passed beyond the sleeps of the polling loop.
\<close>

record spawn_request =
  sp_program :: string
  sp_args :: "string list"
  sp_stdin :: "bytes option"
  sp_env :: "(string \<times> string) list"
  sp_dir :: "string option"

datatype wait_poll = Exited "i32 option" | StillRunning nat | WaitFailed

datatype child = SpawnFailed | StdinFailed | Child "nat \<Rightarrow> wait_poll" bytes bytes

text \<open>
  What the process contributes: its working directory, the size it sees on directories, the mode bits of a
  file, and what a subprocess does, to the tree as well.
\<close>

record host_env =
  he_here :: path
  he_dir_len :: "path \<Rightarrow> nat"
  he_mode :: "world \<Rightarrow> path \<Rightarrow> u32"
  he_child :: "spawn_request \<Rightarrow> world \<Rightarrow> child \<times> world"

record host_context =
  hc_plugin_name :: string
  hc_plugin_version :: string
  hc_plugin_root :: string
  hc_session_id :: string
  hc_trace_id :: string
  hc_cwd :: string
  hc_capabilities :: capabilities
  hc_env_view :: "(string \<times> string) list"

definition hc_base :: "host_context \<Rightarrow> path" where
  "hc_base ctx = path_of (hc_cwd ctx)"

text \<open>Events without their identity fields, which the context gives.\<close>

datatype host_event =
    CapabilityDenied string string "(string \<times> string) list" "path option"
  | FileNotFound string string path
  | PluginLog string string
  | PluginEvent string "(string \<times> string) list"

definition code_ok :: i32 where "code_ok = 0"
definition code_capability_denied :: i32 where "code_capability_denied = - 1"
definition code_timeout :: i32 where "code_timeout = - 2"
definition code_output_too_large :: i32 where "code_output_too_large = - 3"
definition code_invalid_argument :: i32 where "code_invalid_argument = - 4"
definition code_not_found :: i32 where "code_not_found = - 5"
definition code_internal_error :: i32 where "code_internal_error = - 99"

lemmas host_codes = code_ok_def code_capability_denied_def code_timeout_def code_output_too_large_def
  code_invalid_argument_def code_not_found_def code_internal_error_def

section \<open>Allow list\<close>

datatype path_allow_decision = PathAllowed | DeniedResolutionFailed | DeniedNotAllowed

text \<open>The walk to the deepest ancestor that canonicalizes; \<open>tail\<close> holds the names passed, last first.\<close>

function resolve_ancestor :: "path \<Rightarrow> string list \<Rightarrow> path \<Rightarrow> world \<Rightarrow> path option \<times> world" where
  "resolve_ancestor here tail cur w =
     (case file_name cur of None \<Rightarrow> (None, w)
      | Some name \<Rightarrow>
     (case parent cur of None \<Rightarrow> (None, w)
      | Some up \<Rightarrow>
     (case fs_canonicalize here (up, False) w of
        (Inr canon, w) \<Rightarrow> (Some (fold (\<lambda>c r. join r [Normal c]) (rev (tail @ [name])) canon), w)
      | (Inl _, w) \<Rightarrow> resolve_ancestor here (tail @ [name]) up w)))"
  by pat_completeness auto
termination
  by (relation "measure (\<lambda>(here, tail, cur, w). length cur)") (auto dest: length_parent)

declare resolve_ancestor.simps [simp del]

definition resolve_path_for_allowlist :: "path \<Rightarrow> os_path \<Rightarrow> world \<Rightarrow> path option \<times> world" where
  "resolve_path_for_allowlist here target w =
     (case fs_canonicalize here target w of
        (Inr canon, w) \<Rightarrow> (Some canon, w)
      | (Inl _, w) \<Rightarrow> resolve_ancestor here [] (fst target) w)"

definition resolve_under :: "path \<Rightarrow> string \<Rightarrow> os_path" where
  "resolve_under base s = (if is_absolute (path_of s) then os_path_of s else join_os base s)"

fun prefix_allows :: "path \<Rightarrow> path \<Rightarrow> path \<Rightarrow> string list \<Rightarrow> world \<Rightarrow> bool \<times> world" where
  "prefix_allows here base canon_resolved [] w = (False, w)"
| "prefix_allows here base canon_resolved (pref # allow) w =
     (case resolve_path_for_allowlist here (resolve_under base pref) w of
        (None, w) \<Rightarrow> prefix_allows here base canon_resolved allow w
      | (Some canon_pref, w) \<Rightarrow>
          if path_starts_with canon_resolved canon_pref then (True, w)
          else prefix_allows here base canon_resolved allow w)"

definition check_path_allowed ::
  "path \<Rightarrow> os_path \<Rightarrow> string list \<Rightarrow> path \<Rightarrow> world \<Rightarrow> path_allow_decision \<times> world"
where
  "check_path_allowed here resolved allow base w =
     (case resolve_path_for_allowlist here resolved w of
        (None, w) \<Rightarrow> (DeniedResolutionFailed, w)
      | (Some canon_resolved, w) \<Rightarrow>
          (case prefix_allows here base canon_resolved allow w of
             (True, w) \<Rightarrow> (PathAllowed, w) | (False, w) \<Rightarrow> (DeniedNotAllowed, w)))"

section \<open>Bounded reads\<close>

datatype read_err = TooLarge | ReadNotFound | ReadOther

definition opened_len :: "host_env \<Rightarrow> world \<Rightarrow> path \<Rightarrow> nat" where
  "opened_len env w q = (case look w q of Some (File c) \<Rightarrow> length c | _ \<Rightarrow> he_dir_len env q)"

definition fs_opened_len :: "host_env \<Rightarrow> path \<Rightarrow> world \<Rightarrow> (io_kind + nat) \<times> world" where
  "fs_opened_len env q = syscall (\<lambda>w. (Inr (opened_len env w q), w))"

definition open_error :: "io_kind \<Rightarrow> read_err" where
  "open_error e = (if e = NotFound then ReadNotFound else ReadOther)"

definition read_bounded :: "host_env \<Rightarrow> os_path \<Rightarrow> nat \<Rightarrow> world \<Rightarrow> (read_err + bytes) \<times> world" where
  "read_bounded env p max_bytes w =
     (case fs_open (he_here env) p w of
        (Inl e, w) \<Rightarrow> (Inl (open_error e), w)
      | (Inr q, w) \<Rightarrow>
     (case fs_opened_len env q w of
        (Inl _, w) \<Rightarrow> (Inl ReadOther, w)
      | (Inr len, w) \<Rightarrow>
     if max_bytes < len then (Inl TooLarge, w)
     else (case fs_read_open q w of
        (Inl _, w) \<Rightarrow> (Inl ReadOther, w)
      | (Inr buf, w) \<Rightarrow> if max_bytes < length buf then (Inl TooLarge, w) else (Inr buf, w))))"

definition read_prefix_bounded :: "host_env \<Rightarrow> os_path \<Rightarrow> nat \<Rightarrow> world \<Rightarrow> (read_err + bytes) \<times> world" where
  "read_prefix_bounded env p max_bytes w =
     (case fs_open (he_here env) p w of
        (Inl e, w) \<Rightarrow> (Inl (open_error e), w)
      | (Inr q, w) \<Rightarrow>
     (case fs_read_open q w of
        (Inl _, w) \<Rightarrow> (Inl ReadOther, w) | (Inr buf, w) \<Rightarrow> (Inr (take max_bytes buf), w)))"

section \<open>The host side of the calls\<close>

text \<open>An answer: an error code or a value, the events, the world.\<close>

type_synonym 'a answer = "(i32 + 'a) \<times> host_event list \<times> world"

definition path_denied :: "string \<Rightarrow> string \<Rightarrow> string \<Rightarrow> path option \<Rightarrow> host_event" where
  "path_denied call reason requested resolved = CapabilityDenied call reason [(''path'', requested)] resolved"

text \<open>The prologue of the three calls: capability, then allow list.\<close>

definition path_gate :: "host_env \<Rightarrow> host_context \<Rightarrow> string \<Rightarrow> string \<Rightarrow> string list option \<Rightarrow> world \<Rightarrow> os_path answer" where
  "path_gate env ctx call path caps w =
     (case caps of
        None \<Rightarrow> (Inl code_capability_denied, [path_denied call (''no_'' @ call @ ''_capability'') path None], w)
      | Some allow \<Rightarrow>
          (let resolved = resolve_under (hc_base ctx) path in
           case check_path_allowed (he_here env) resolved allow (hc_base ctx) w of
             (PathAllowed, w) \<Rightarrow> (Inr resolved, [], w)
           | (DeniedResolutionFailed, w) \<Rightarrow>
               (Inl code_capability_denied, [path_denied call ''path_resolution_failed'' path (Some (fst resolved))], w)
           | (DeniedNotAllowed, w) \<Rightarrow>
               (Inl code_capability_denied, [path_denied call ''path_not_allowed'' path (Some (fst resolved))], w)))"

definition read_file_prepare :: "host_env \<Rightarrow> host_context \<Rightarrow> string \<Rightarrow> u32 \<Rightarrow> world \<Rightarrow> bytes answer" where
  "read_file_prepare env ctx path max_bytes w =
     (case path_gate env ctx ''read_file'' path (cap_read_file (hc_capabilities ctx)) w of
        (Inl code, evs, w) \<Rightarrow> (Inl code, evs, w)
      | (Inr resolved, evs, w) \<Rightarrow>
     (case read_bounded env resolved (unat max_bytes) w of
        (Inr body, w) \<Rightarrow> (Inr body, evs, w)
      | (Inl TooLarge, w) \<Rightarrow>
          (Inl code_output_too_large, evs @ [path_denied ''read_file'' ''output_too_large'' path (Some (fst resolved))], w)
      | (Inl ReadNotFound, w) \<Rightarrow> (Inl code_not_found, evs @ [FileNotFound ''read_file'' path (fst resolved)], w)
      | (Inl ReadOther, w) \<Rightarrow> (Inl code_internal_error, evs, w)))"

definition read_prefix_prepare :: "host_env \<Rightarrow> host_context \<Rightarrow> string \<Rightarrow> u32 \<Rightarrow> world \<Rightarrow> bytes answer" where
  "read_prefix_prepare env ctx path max_bytes w =
     (case path_gate env ctx ''read_prefix'' path (cap_read_prefix (hc_capabilities ctx)) w of
        (Inl code, evs, w) \<Rightarrow> (Inl code, evs, w)
      | (Inr resolved, evs, w) \<Rightarrow>
     if max_bytes = 0 then (Inr [], evs, w)
     else (case read_prefix_bounded env resolved (unat max_bytes) w of
        (Inr body, w) \<Rightarrow> (Inr body, evs, w)
      | (Inl ReadNotFound, w) \<Rightarrow> (Inl code_not_found, evs @ [FileNotFound ''read_prefix'' path (fst resolved)], w)
      | (Inl _, w) \<Rightarrow> (Inl code_internal_error, evs, w)))"

definition write_file_prepare ::
  "host_env \<Rightarrow> host_context \<Rightarrow> string \<Rightarrow> bytes \<Rightarrow> u32 \<Rightarrow> world \<Rightarrow> unit answer"
where
  "write_file_prepare env ctx path contents max_bytes w =
     (case path_gate env ctx ''write_file'' path (map_option write_path_allow (cap_write_file (hc_capabilities ctx))) w of
        (Inl code, evs, w) \<Rightarrow> (Inl code, evs, w)
      | (Inr resolved, evs, w) \<Rightarrow>
     (let effective_cap = (case Option.bind (cap_write_file (hc_capabilities ctx)) max_bytes_per_call of
            Some cap_override \<Rightarrow> min max_bytes cap_override | None \<Rightarrow> max_bytes) in
      if unat effective_cap < length contents then
        (Inl code_output_too_large, evs @ [path_denied ''write_file'' ''output_too_large'' path (Some (fst resolved))], w)
      else (case fs_write_at (he_here env) resolved contents w of
          (Inl _, w) \<Rightarrow> (Inl code_internal_error, evs, w) | (Inr _, w) \<Rightarrow> (Inr (), evs, w))))"

end
