(* ===== verification/HostExec.thy ===== *)
theory HostExec
  imports HostPath
begin

unbundle bit_operations_syntax

text \<open>
  Running a subprocess for a plugin (\<^verbatim>\<open>host/exec_subprocess.rs\<close>): the gates and the bounded run.  A poll of the
  child comes at least five milliseconds after the one before it, since the loop sleeps in between.
\<close>

section \<open>Gates\<close>

definition shell_names :: "string list" where
  "shell_names = [''bash'', ''sh'', ''zsh'', ''pwsh'', ''fish'', ''csh'', ''tcsh'', ''ksh'']"

definition base_name :: "string \<Rightarrow> string" where
  "base_name cmd = (case file_name (path_of cmd) of Some n \<Rightarrow> n | None \<Rightarrow> cmd)"

definition binary_allowed :: "string \<Rightarrow> string list \<Rightarrow> bool" where
  "binary_allowed cmd allow \<longleftrightarrow> list_ex (\<lambda>b. b = cmd \<or> b = base_name cmd) allow"

definition is_shell :: "string \<Rightarrow> bool" where
  "is_shell cmd \<longleftrightarrow> list_ex (\<lambda>s. s = base_name cmd) shell_names"

definition fs_mode :: "host_env \<Rightarrow> os_path \<Rightarrow> world \<Rightarrow> (io_kind + u32) \<times> world" where
  "fs_mode env p = syscall (\<lambda>w. (case walk w (he_here env) p of
     Found q \<Rightarrow> Inr (he_mode env w q) | Absent _ \<Rightarrow> Inl NotFound | NoEntry e \<Rightarrow> Inl e, w))"

text \<open>Mode bits \<^verbatim>\<open>0o4000\<close> (setuid) and \<^verbatim>\<open>0o2000\<close> (setgid).\<close>

definition refuse_setuid :: "host_env \<Rightarrow> string \<Rightarrow> world \<Rightarrow> bool \<times> world" where
  "refuse_setuid env cmd w = (case fs_mode env (os_path_of cmd) w of
     (Inl _, w) \<Rightarrow> (False, w) | (Inr mode, w) \<Rightarrow> (mode AND 0xC00 \<noteq> 0, w))"

section \<open>The run\<close>

function wait_loop :: "u32 \<Rightarrow> u32 \<Rightarrow> (nat \<Rightarrow> wait_poll) \<Rightarrow> bytes \<Rightarrow> bytes \<Rightarrow> nat \<Rightarrow> i32 + bytes" where
  "wait_loop timeout_ms max_output_bytes polls out err i =
     (case polls i of
        Exited status \<Rightarrow>
          (let truncated = unat max_output_bytes < length out \<or> unat max_output_bytes < length err in
           if truncated then Inl code_output_too_large
           else Inr (encode_envelope (case status of Some c \<Rightarrow> c | None \<Rightarrow> - 1)
             (take (unat max_output_bytes) out) (take (unat max_output_bytes) err)))
      | StillRunning extra \<Rightarrow>
          if unat timeout_ms \<le> 5 * i + extra then Inl code_timeout
          else wait_loop timeout_ms max_output_bytes polls out err (Suc i)
      | WaitFailed \<Rightarrow> Inl code_internal_error)"
  by pat_completeness auto
termination
  by (relation "measure (\<lambda>(timeout_ms, _, _, _, _, i). unat timeout_ms - 5 * i)") auto

declare wait_loop.simps [simp del]

definition spawn_of ::
  "host_context \<Rightarrow> exec_subprocess_caps \<Rightarrow> string \<Rightarrow> string list \<Rightarrow> bytes \<Rightarrow> spawn_request"
where
  "spawn_of ctx caps cmd args stdin_bytes =
     \<lparr>sp_program = cmd, sp_args = args, sp_stdin = (if stdin_bytes = [] then None else Some stdin_bytes),
      sp_env = List.map_filter (\<lambda>name. map_option (Pair name) (map_of (hc_env_view ctx) name)) (exec_env_allow caps),
      sp_dir = (if hc_cwd ctx = [] then None else Some (hc_cwd ctx))\<rparr>"

definition execute_bounded ::
  "host_env \<Rightarrow> host_context \<Rightarrow> string \<Rightarrow> string list \<Rightarrow> bytes \<Rightarrow> u32 \<Rightarrow> u32 \<Rightarrow> exec_subprocess_caps \<Rightarrow> world \<Rightarrow>
    (i32 + bytes) \<times> world"
where
  "execute_bounded env ctx cmd args stdin_bytes timeout_ms max_output_bytes caps w =
     (case he_child env (spawn_of ctx caps cmd args stdin_bytes) w of
        (SpawnFailed, w) \<Rightarrow> (Inl code_internal_error, w)
      | (StdinFailed, w) \<Rightarrow> (Inl code_internal_error, w)
      | (Child polls out err, w) \<Rightarrow> (wait_loop timeout_ms max_output_bytes polls out err 0, w))"

definition exec_denied :: "string \<Rightarrow> string \<Rightarrow> host_event" where
  "exec_denied cmd reason = CapabilityDenied ''exec_subprocess'' reason [(''command'', cmd)] None"

definition exec_run ::
  "host_env \<Rightarrow> host_context \<Rightarrow> string \<Rightarrow> string list \<Rightarrow> bytes \<Rightarrow> u32 \<Rightarrow> u32 \<Rightarrow> world \<Rightarrow> bytes answer"
where
  "exec_run env ctx cmd args stdin_bytes timeout_ms max_output_bytes w =
     (case cap_exec_subprocess (hc_capabilities ctx) of
        None \<Rightarrow> (Inl code_capability_denied, [exec_denied cmd ''no_exec_subprocess_capability''], w)
      | Some caps \<Rightarrow>
     if \<not> binary_allowed cmd (binary_allow caps) then
       (Inl code_capability_denied, [exec_denied cmd ''binary_not_on_allow_list''], w)
     else if is_shell cmd \<and> shell_bypass_acknowledged caps = None then
       (Inl code_capability_denied, [exec_denied cmd ''shell_bypass_not_acknowledged''], w)
     else (case refuse_setuid env cmd w of
        (True, w) \<Rightarrow> (Inl code_capability_denied, [exec_denied cmd ''setuid_or_setgid_binary''], w)
      | (False, w) \<Rightarrow>
          (case execute_bounded env ctx cmd args stdin_bytes timeout_ms max_output_bytes caps w of
             (r, w) \<Rightarrow> (r, [], w))))"

section \<open>Facts\<close>

lemma wait_loop_result:
  "wait_loop t m polls out err i = Inr e \<Longrightarrow>
     \<exists>j status. polls j = Exited status \<and> e = encode_envelope (case status of Some c \<Rightarrow> c | None \<Rightarrow> - 1) out err \<and>
       length out \<le> unat m \<and> length err \<le> unat m"
  "wait_loop t m polls out err i = Inl k \<Longrightarrow> k \<in> {code_timeout, code_output_too_large, code_internal_error}"
proof (induction t m polls out err i rule: wait_loop.induct)
  case (1 t m polls out err i)
  { case 1
    then show ?case
      using "1.IH" by (subst (asm) wait_loop.simps) (auto simp: Let_def split: wait_poll.splits if_splits) next
    case 2
    then show ?case
      using "1.IH" by (subst (asm) wait_loop.simps) (auto simp: Let_def split: wait_poll.splits if_splits) }
qed

lemma refuse_setuid_frame: "refuse_setuid env cmd w = (b, w') \<Longrightarrow> frame {} w w'"
proof -
  assume run: "refuse_setuid env cmd w = (b, w')"
  obtain a v where v: "fs_mode env (os_path_of cmd) w = (a, v)" by fastforce
  have "frame {} w v" using v unfolding fs_mode_def by (elim syscall_cases) simp_all
  moreover have "w' = v" using run by (cases a) (simp_all add: refuse_setuid_def v)
  ultimately show ?thesis by simp
qed

lemma refuse_setuid_calm: "faults w = [] \<Longrightarrow> snd (refuse_setuid env cmd w) = w"
  by (auto simp: refuse_setuid_def fs_mode_def split: prod.splits sum.splits)

lemma exec_without_capability:
  "cap_exec_subprocess (hc_capabilities ctx) = None \<Longrightarrow>
     exec_run env ctx cmd args i t m w = (Inl code_capability_denied, [exec_denied cmd ''no_exec_subprocess_capability''], w)"
  by (simp add: exec_run_def)

end
