(* ===== verification/HostCalls.thy ===== *)
theory HostCalls
  imports HostExec
begin

text \<open>
  The host functions a plugin imports (\<^verbatim>\<open>setup_host_on_store_data\<close> of \<^verbatim>\<open>invoke.rs\<close>) over the plugin's linear
  memory.  The memory is a byte list of a multiple of 65536 bytes, absent when the plugin exports none; it
  grows up to a limit of at most 4 GiB.  The dispatcher runs on 64 bits, so a \<open>u32\<close> pointer plus a \<open>u32\<close>
  length does not overflow.
\<close>

section \<open>Store\<close>

record store_data =
  sd_memory :: "bytes option"
  sd_limit :: nat
  sd_events :: "host_event list"
  sd_otl :: bool  \<comment> \<open>\<^verbatim>\<open>host_output_too_large_seen\<close>\<close>
  sd_world :: world

datatype host_call_error = MissingMemory | OutOfBounds u32 u32 nat | InvalidUtf8

definition read_wasm_bytes :: "store_data \<Rightarrow> u32 \<Rightarrow> u32 \<Rightarrow> host_call_error + bytes" where
  "read_wasm_bytes st ptr n = (case sd_memory st of None \<Rightarrow> Inl MissingMemory
     | Some data \<Rightarrow>
         (let start = unat ptr; stop = start + unat n in
          if length data < stop then Inl (OutOfBounds ptr n (length data)) else Inr (seg start stop data)))"

definition read_wasm_string :: "store_data \<Rightarrow> u32 \<Rightarrow> u32 \<Rightarrow> host_call_error + string" where
  "read_wasm_string st ptr n = (case read_wasm_bytes st ptr n of
     Inl e \<Rightarrow> Inl e | Inr s \<Rightarrow> if utf8_valid s then Inr s else Inl InvalidUtf8)"

definition overwrite :: "nat \<Rightarrow> bytes \<Rightarrow> bytes \<Rightarrow> bytes" where
  "overwrite start s data = take start data @ s @ drop (start + length s) data"

definition write_wasm_bytes :: "u32 \<Rightarrow> u32 \<Rightarrow> bytes \<Rightarrow> store_data \<Rightarrow> (host_call_error + u32) \<times> store_data" where
  "write_wasm_bytes out_ptr out_cap s st =
     (let needed = of_nat (length s) :: u32 in
      if out_cap < needed then (Inr needed, st)
      else (case sd_memory st of None \<Rightarrow> (Inl MissingMemory, st)
        | Some data \<Rightarrow>
            (let start = unat out_ptr in
             if length data < start + length s then (Inl (OutOfBounds out_ptr needed (length data)), st)
             else (Inr needed, st\<lparr>sd_memory := Some (overwrite start s data)\<rparr>))))"

definition write_wasm_u32 :: "u32 \<Rightarrow> u32 \<Rightarrow> store_data \<Rightarrow> (host_call_error + unit) \<times> store_data" where
  "write_wasm_u32 out_ptr v st = (case write_wasm_bytes out_ptr 4 (le32 (unat v)) st of
     (Inl e, st) \<Rightarrow> (Inl e, st) | (Inr _, st) \<Rightarrow> (Inr (), st))"

text \<open>\<open>memory.grow\<close>: new pages hold zeros.\<close>

definition grow_memory :: "nat \<Rightarrow> bytes \<Rightarrow> store_data \<Rightarrow> store_data option" where
  "grow_memory pages data st = (if sd_limit st < length data + 65536 * pages then None
     else Some (st\<lparr>sd_memory := Some (data @ replicate (65536 * pages) (CHR 0x00))\<rparr>))"

definition emit_internal :: "host_event list \<Rightarrow> store_data \<Rightarrow> store_data" where
  "emit_internal evs st = st\<lparr>sd_events := sd_events st @ evs\<rparr>"

section \<open>Logging, events, context\<close>

definition level_str :: "u32 \<Rightarrow> string" where
  "level_str level = (if level = 0 then ''trace'' else if level = 1 then ''debug'' else if level = 2 then ''info''
     else if level = 3 then ''warn'' else if level = 4 then ''error'' else ''info'')"

definition host_log :: "u32 \<Rightarrow> u32 \<Rightarrow> u32 \<Rightarrow> store_data \<Rightarrow> store_data" where
  "host_log level msg_ptr msg_len st = (case read_wasm_string st msg_ptr msg_len of
     Inl _ \<Rightarrow> st | Inr msg \<Rightarrow> emit_internal [PluginLog (level_str level) msg] st)"

definition reserved_fields :: "string list" where
  "reserved_fields = [''trace_id'', ''dispatcher_trace_id'', ''session_id'', ''plugin_name'', ''plugin_version'',
     ''ts'', ''ts_epoch'', ''schema_version'', ''type'']"

fun with_fields :: "(string \<times> string) list \<Rightarrow> (string \<times> string) list \<Rightarrow> (string \<times> string) list" where
  "with_fields [] fs = fs"
| "with_fields ((k, v) # kvs) fs =
     with_fields kvs (if List.member reserved_fields k then fs else AList.update k v fs)"

definition host_emit_event :: "u32 \<Rightarrow> u32 \<Rightarrow> u32 \<Rightarrow> u32 \<Rightarrow> store_data \<Rightarrow> store_data" where
  "host_emit_event type_ptr type_len fields_ptr fields_len st =
     (case read_wasm_string st type_ptr type_len of Inl _ \<Rightarrow> st
      | Inr event_type \<Rightarrow>
     (case read_wasm_bytes st fields_ptr fields_len of Inl _ \<Rightarrow> st
      | Inr fields_buf \<Rightarrow>
          (let pairs = (case decode_fields fields_buf of Inl _ \<Rightarrow> [] | Inr kvs \<Rightarrow> kvs) in
           emit_internal [PluginEvent event_type (with_fields pairs [])] st)))"

datatype context_getter = GetSessionId | GetTraceId | GetPluginRoot | GetPluginVersion | GetCwd

text \<open>\<open>to_string_lossy\<close> on the two paths.\<close>

definition context_text :: "host_context \<Rightarrow> context_getter \<Rightarrow> string" where
  "context_text ctx g = (case g of GetSessionId \<Rightarrow> hc_session_id ctx | GetTraceId \<Rightarrow> hc_trace_id ctx
     | GetPluginRoot \<Rightarrow> from_utf8_lossy (hc_plugin_root ctx) | GetPluginVersion \<Rightarrow> hc_plugin_version ctx
     | GetCwd \<Rightarrow> from_utf8_lossy (hc_cwd ctx))"

definition context_reader :: "host_context \<Rightarrow> context_getter \<Rightarrow> u32 \<Rightarrow> u32 \<Rightarrow> store_data \<Rightarrow> u32 \<times> store_data" where
  "context_reader ctx g out_ptr out_cap st = (case write_wasm_bytes out_ptr out_cap (context_text ctx g) st of
     (Inl _, st) \<Rightarrow> (0, st) | (Inr n, st) \<Rightarrow> (n, st))"

definition host_env_call :: "host_context \<Rightarrow> u32 \<Rightarrow> u32 \<Rightarrow> u32 \<Rightarrow> u32 \<Rightarrow> store_data \<Rightarrow> i32 \<times> store_data" where
  "host_env_call ctx name_ptr name_len out_ptr out_cap st =
     (case read_wasm_string st name_ptr name_len of Inl _ \<Rightarrow> (code_invalid_argument, st)
      | Inr name \<Rightarrow>
     if \<not> list_ex (\<lambda>n. n = name) (cap_env_allow (hc_capabilities ctx)) then
       (code_capability_denied,
        emit_internal [CapabilityDenied ''env'' ''env_not_on_allow_list'' [(''variable'', name)] None] st)
     else (case map_of (hc_env_view ctx) name of None \<Rightarrow> (0, st)
      | Some v \<Rightarrow>
     (case write_wasm_bytes out_ptr out_cap v st of
        (Inr n, st) \<Rightarrow> (n, st) | (Inl _, st) \<Rightarrow> (code_invalid_argument, st))))"

section \<open>Files\<close>

text \<open>Take over the events and the tree of an answer.\<close>

definition absorb :: "host_event list \<Rightarrow> world \<Rightarrow> store_data \<Rightarrow> store_data" where
  "absorb evs w st = emit_internal evs (st\<lparr>sd_world := w\<rparr>)"

text \<open>The body goes to fresh pages behind the old end of the memory; its address and length to the two out-parameters.\<close>

definition deliver :: "bytes \<Rightarrow> u32 \<Rightarrow> u32 \<Rightarrow> store_data \<Rightarrow> i32 \<times> store_data" where
  "deliver body out_ptr_out out_len_out st =
     (if body = [] then
        (let st = snd (write_wasm_u32 out_ptr_out 0 st); st = snd (write_wasm_u32 out_len_out 0 st) in (code_ok, st))
      else (case sd_memory st of None \<Rightarrow> (code_internal_error, st)
       | Some data \<Rightarrow>
      (case grow_memory ((length body + 65535) div 65536) data st of None \<Rightarrow> (code_internal_error, st)
       | Some st \<Rightarrow>
          (let write_offset = of_nat (length data) :: u32 in
           case write_wasm_bytes write_offset (of_nat (length body)) body st of
             (Inl _, st) \<Rightarrow> (code_internal_error, st)
           | (Inr _, st) \<Rightarrow>
          (case write_wasm_u32 out_ptr_out write_offset st of
             (Inl _, st) \<Rightarrow> (code_invalid_argument, st)
           | (Inr _, st) \<Rightarrow>
          (case write_wasm_u32 out_len_out (of_nat (length body)) st of
             (Inl _, st) \<Rightarrow> (code_invalid_argument, st)
           | (Inr _, st) \<Rightarrow> (code_ok, st)))))))"

definition note_too_large :: "i32 \<Rightarrow> store_data \<Rightarrow> store_data" where
  "note_too_large code st = (if code = code_output_too_large then st\<lparr>sd_otl := True\<rparr> else st)"

definition host_read_file ::
  "host_env \<Rightarrow> host_context \<Rightarrow> u32 \<Rightarrow> u32 \<Rightarrow> u32 \<Rightarrow> u32 \<Rightarrow> u32 \<Rightarrow> store_data \<Rightarrow> i32 \<times> store_data"
where
  "host_read_file env ctx path_ptr path_len max_bytes out_ptr_out out_len_out st =
     (case read_wasm_string st path_ptr path_len of Inl _ \<Rightarrow> (code_invalid_argument, st)
      | Inr path \<Rightarrow>
     (case read_file_prepare env ctx path max_bytes (sd_world st) of
        (Inl code, evs, w) \<Rightarrow> (code, note_too_large code (absorb evs w st))
      | (Inr body, evs, w) \<Rightarrow> deliver body out_ptr_out out_len_out (absorb evs w st)))"

definition host_read_prefix ::
  "host_env \<Rightarrow> host_context \<Rightarrow> u32 \<Rightarrow> u32 \<Rightarrow> u32 \<Rightarrow> u32 \<Rightarrow> u32 \<Rightarrow> store_data \<Rightarrow> i32 \<times> store_data"
where
  "host_read_prefix env ctx path_ptr path_len max_bytes out_ptr_out out_len_out st =
     (case read_wasm_string st path_ptr path_len of Inl _ \<Rightarrow> (code_invalid_argument, st)
      | Inr path \<Rightarrow>
     (case read_prefix_prepare env ctx path max_bytes (sd_world st) of
        (Inl code, evs, w) \<Rightarrow> (code, absorb evs w st)
      | (Inr body, evs, w) \<Rightarrow> deliver body out_ptr_out out_len_out (absorb evs w st)))"

definition host_write_file ::
  "host_env \<Rightarrow> host_context \<Rightarrow> u32 \<Rightarrow> u32 \<Rightarrow> u32 \<Rightarrow> u32 \<Rightarrow> u32 \<Rightarrow> store_data \<Rightarrow> i32 \<times> store_data"
where
  "host_write_file env ctx path_ptr path_len contents_ptr contents_len max_bytes st =
     (case read_wasm_string st path_ptr path_len of Inl _ \<Rightarrow> (code_invalid_argument, st)
      | Inr path \<Rightarrow>
     (case read_wasm_bytes st contents_ptr contents_len of Inl _ \<Rightarrow> (code_invalid_argument, st)
      | Inr contents \<Rightarrow>
     (case write_file_prepare env ctx path contents max_bytes (sd_world st) of
        (Inr _, evs, w) \<Rightarrow> (code_ok, absorb evs w st)
      | (Inl code, evs, w) \<Rightarrow> (code, note_too_large code (absorb evs w st)))))"

section \<open>Subprocesses\<close>

definition host_exec_subprocess ::
  "host_env \<Rightarrow> host_context \<Rightarrow> u32 \<Rightarrow> u32 \<Rightarrow> u32 \<Rightarrow> u32 \<Rightarrow> u32 \<Rightarrow> u32 \<Rightarrow> u32 \<Rightarrow> u32 \<Rightarrow> u32 \<Rightarrow> u32 \<Rightarrow>
    store_data \<Rightarrow> i32 \<times> store_data"
where
  "host_exec_subprocess env ctx cmd_ptr cmd_len args_ptr args_len stdin_ptr stdin_len timeout_ms max_output_bytes
       result_buf_ptr result_buf_cap st =
     (case read_wasm_string st cmd_ptr cmd_len of Inl _ \<Rightarrow> (code_invalid_argument, st)
      | Inr cmd \<Rightarrow>
     (case read_wasm_bytes st args_ptr args_len of Inl _ \<Rightarrow> (code_invalid_argument, st)
      | Inr args_buf \<Rightarrow>
     (case decode_args args_buf of None \<Rightarrow> (code_invalid_argument, st)
      | Some args \<Rightarrow>
     (case (if stdin_len = 0 then Inr [] else read_wasm_bytes st stdin_ptr stdin_len) of
        Inl _ \<Rightarrow> (code_invalid_argument, st)
      | Inr stdin_bytes \<Rightarrow>
     (case exec_run env ctx cmd args stdin_bytes timeout_ms max_output_bytes (sd_world st) of
        (Inl code, evs, w) \<Rightarrow> (code, absorb evs w st)
      | (Inr envelope, evs, w) \<Rightarrow>
          (let st = absorb evs w st in
           if result_buf_cap < of_nat (length envelope) then (code_output_too_large, st\<lparr>sd_otl := True\<rparr>)
           else (case write_wasm_bytes result_buf_ptr result_buf_cap envelope st of
              (Inr written, st) \<Rightarrow> (written, st) | (Inl _, st) \<Rightarrow> (code_invalid_argument, st))))))))"

section \<open>A plugin\<close>

text \<open>
  What a plugin can do: compute, so that its memory has any other content of at least the old size and within
  the limit, and call the host.  The answers land in its memory, so they need not be kept here.
\<close>

datatype guest_op =
    Compute bytes
  | CallLog u32 u32 u32
  | CallEmitEvent u32 u32 u32 u32
  | CallContext context_getter u32 u32
  | CallEnv u32 u32 u32 u32
  | CallReadFile u32 u32 u32 u32 u32
  | CallReadPrefix u32 u32 u32 u32 u32
  | CallWriteFile u32 u32 u32 u32 u32
  | CallExec u32 u32 u32 u32 u32 u32 u32 u32 u32 u32

definition compute :: "bytes \<Rightarrow> store_data \<Rightarrow> store_data" where
  "compute m st = (case sd_memory st of None \<Rightarrow> st
     | Some data \<Rightarrow> if length data \<le> length m \<and> length m \<le> sd_limit st \<and> length m mod 65536 = 0
         then st\<lparr>sd_memory := Some m\<rparr> else st)"

fun guest_step :: "host_env \<Rightarrow> host_context \<Rightarrow> guest_op \<Rightarrow> store_data \<Rightarrow> store_data" where
  "guest_step env ctx (Compute m) st = compute m st"
| "guest_step env ctx (CallLog a b c) st = host_log a b c st"
| "guest_step env ctx (CallEmitEvent a b c d) st = host_emit_event a b c d st"
| "guest_step env ctx (CallContext g a b) st = snd (context_reader ctx g a b st)"
| "guest_step env ctx (CallEnv a b c d) st = snd (host_env_call ctx a b c d st)"
| "guest_step env ctx (CallReadFile a b c d e) st = snd (host_read_file env ctx a b c d e st)"
| "guest_step env ctx (CallReadPrefix a b c d e) st = snd (host_read_prefix env ctx a b c d e st)"
| "guest_step env ctx (CallWriteFile a b c d e) st = snd (host_write_file env ctx a b c d e st)"
| "guest_step env ctx (CallExec a b c d e f g h i j) st = snd (host_exec_subprocess env ctx a b c d e f g h i j st)"

definition guest_run :: "host_env \<Rightarrow> host_context \<Rightarrow> guest_op list \<Rightarrow> store_data \<Rightarrow> store_data" where
  "guest_run env ctx ops st = fold (guest_step env ctx) ops st"

end
