(* ===== verification/HostConfine.thy ===== *)
theory HostConfine
  imports HostPath
begin

text \<open>
  Confinement: what a fault-free call of the file capabilities can reach.  A path is \<open>granted\<close> when it lies
  under the canonical form of an entry of the allow list.
\<close>

section \<open>Walking in two parts\<close>

text \<open>The ways a named component can be stepped over.\<close>

lemma namei_name_cases:
  obtains (no_dir) "\<not> is_dir w cur"
  | (missing) "is_dir w cur" "look w (cur @ [Normal n]) = None"
  | (too_deep) t where "is_dir w cur" "look w (cur @ [Normal n]) = Some (Symlink t)" "k = 0"
  | (link) t k' where "is_dir w cur" "look w (cur @ [Normal n]) = Some (Symlink t)" "k = Suc k'"
  | (node) m where "is_dir w cur" "look w (cur @ [Normal n]) = Some m" "\<And>t. m \<noteq> Symlink t"
  by (cases "look w (cur @ [Normal n])"; cases k) (metis node.exhaust not0_implies_Suc)+

lemma namei_steps:
  "\<not> is_dir w cur \<Longrightarrow> namei k w cur (Normal n # cs) = NoEntry OtherIo"
  "is_dir w cur \<Longrightarrow> look w (cur @ [Normal n]) = None \<Longrightarrow>
     namei k w cur (Normal n # cs) = (if cs = [] then Absent (cur @ [Normal n]) else NoEntry NotFound)"
  "is_dir w cur \<Longrightarrow> look w (cur @ [Normal n]) = Some (Symlink t) \<Longrightarrow> namei 0 w cur (Normal n # cs) = NoEntry OtherIo"
  "is_dir w cur \<Longrightarrow> look w (cur @ [Normal n]) = Some (Symlink t) \<Longrightarrow>
     namei (Suc k) w cur (Normal n # cs) = namei k w cur (t @ cs)"
  "is_dir w cur \<Longrightarrow> look w (cur @ [Normal n]) = Some m \<Longrightarrow> (\<And>t. m \<noteq> Symlink t) \<Longrightarrow>
     namei k w cur (Normal n # cs) = namei k w (cur @ [Normal n]) cs"
  by (auto split: node.splits)

text \<open>Induction along a walk, one case per kind of step.\<close>

lemma namei_walk_induct [case_names stop root here up no_dir missing too_deep link node]:
  assumes "\<And>k cur. P k cur []"
    and "\<And>k cur cs. P k [RootDir] cs \<Longrightarrow> P k cur (RootDir # cs)"
    and "\<And>k cur cs. (is_dir w cur \<Longrightarrow> P k cur cs) \<Longrightarrow> P k cur (CurDir # cs)"
    and "\<And>k cur cs. (is_dir w cur \<Longrightarrow> P k (dir_up cur) cs) \<Longrightarrow> P k cur (ParentDir # cs)"
    and "\<And>k cur n cs. \<not> is_dir w cur \<Longrightarrow> P k cur (Normal n # cs)"
    and "\<And>k cur n cs. is_dir w cur \<Longrightarrow> look w (cur @ [Normal n]) = None \<Longrightarrow> P k cur (Normal n # cs)"
    and "\<And>cur n cs t. is_dir w cur \<Longrightarrow> look w (cur @ [Normal n]) = Some (Symlink t) \<Longrightarrow> P 0 cur (Normal n # cs)"
    and "\<And>k cur n cs t. is_dir w cur \<Longrightarrow> look w (cur @ [Normal n]) = Some (Symlink t) \<Longrightarrow>
           P k cur (t @ cs) \<Longrightarrow> P (Suc k) cur (Normal n # cs)"
    and "\<And>k cur n cs m. is_dir w cur \<Longrightarrow> look w (cur @ [Normal n]) = Some m \<Longrightarrow> (\<And>t. m \<noteq> Symlink t) \<Longrightarrow>
           P k (cur @ [Normal n]) cs \<Longrightarrow> P k cur (Normal n # cs)"
  shows "P k cur cs"
proof -
  have "w = u \<Longrightarrow> P k cur cs" for u
  proof (induction k u cur cs rule: namei.induct)
    case (5 k u cur n cs)
    show ?case
    proof (cases rule: namei_name_cases[where w = w and cur = cur and n = n and k = k])
      case (link t k')
      then show ?thesis using 5 assms(8) by simp
    next
      case (node m)
      have "P k (cur @ [Normal n]) cs"
        using 5 node by (cases m) auto
      then show ?thesis using assms(9) node by blast
    qed (use assms 5 in auto)
  qed (use assms in auto)
  then show ?thesis by simp
qed

lemma namei_append:
  "(\<forall>d. namei k w cur cs = Found d \<longrightarrow> (\<exists>k'\<le>k. \<forall>ds. namei k w cur (cs @ ds) = namei k' w d ds)) \<and>
   ((\<forall>d. namei k w cur cs \<noteq> Found d) \<longrightarrow> (\<forall>ds. ds \<noteq> [] \<longrightarrow> (\<exists>e. namei k w cur (cs @ ds) = NoEntry e)))"
proof (induction k cur cs rule: namei_walk_induct[where w = w])
  case (link k cur n cs t)
  show ?case
    unfolding append_Cons namei_steps(4)[OF link(1,2)] append_assoc[symmetric]
    using link(3) le_SucI by blast
next
  case (node k cur n cs m)
  show ?case unfolding append_Cons namei_steps(5)[OF node(1,2,3)] using node(4) .
qed (auto simp: namei_steps)

lemma namei_found_append: "namei k w cur cs = Found d \<Longrightarrow> \<exists>k'\<le>k. \<forall>ds. namei k w cur (cs @ ds) = namei k' w d ds"
  using namei_append by blast

lemma namei_lost_append: "ds \<noteq> [] \<Longrightarrow> (\<And>d. namei k w cur cs \<noteq> Found d) \<Longrightarrow> \<exists>e. namei k w cur (cs @ ds) = NoEntry e"
  using namei_append by blast

section \<open>What the check computes\<close>

lemma canonical_append [simp]: "canonical p \<Longrightarrow> canonical (fold (\<lambda>c r. join r [Normal c]) ns p)"
  by (induction ns arbitrary: p) simp_all

lemma fs_canonicalize_canonical: "fs_canonicalize here p w = (Inr q, w') \<Longrightarrow> canonical here \<Longrightarrow> canonical q"
  using walk_canonical fs_canonicalize_result by blast

lemma resolve_ancestor_spec:
  assumes "resolve_ancestor here tail cur w = (r, w')"
  shows "frame {} w w' \<and> (canonical here \<longrightarrow> r = Some p \<longrightarrow> canonical p)"
  using assms
proof (induction here tail cur w rule: resolve_ancestor.induct)
  case (1 here tail cur w)
  show ?case
  proof (cases "file_name cur")
    case None
    then show ?thesis using "1.prems" by (subst (asm) resolve_ancestor.simps) simp
  next
    case name: (Some name)
    show ?thesis
    proof (cases "parent cur")
      case None
      then show ?thesis using "1.prems" name by (subst (asm) resolve_ancestor.simps) simp
    next
      case up: (Some up)
      obtain a v where v: "fs_canonicalize here (up, False) w = (a, v)" by fastforce
      note f = fs_canonicalize_frame[OF v]
      show ?thesis
      proof (cases a)
        case (Inl e)
        have "resolve_ancestor here (tail @ [name]) up v = (r, w')"
          using "1.prems" unfolding resolve_ancestor.simps[of here tail cur w] by (simp add: name up v Inl)
        then have "frame {} v w' \<and> (canonical here \<longrightarrow> r = Some p \<longrightarrow> canonical p)"
          using "1.IH"[OF name up v[unfolded Inl, symmetric] refl] by simp
        then show ?thesis using f frame_trans by blast
      next
        case (Inr canon)
        then have "r = Some (fold (\<lambda>c r. join r [Normal c]) (rev (tail @ [name])) canon)" "w' = v"
          using "1.prems" unfolding resolve_ancestor.simps[of here tail cur w] by (simp_all add: name up v Inr)
        moreover have "canonical here \<longrightarrow> canonical canon"
          using fs_canonicalize_canonical[OF v[unfolded Inr]] by simp
        ultimately show ?thesis using f by (auto simp del: fold_simps join_Normal rev_append)
      qed
    qed
  qed
qed

lemma resolve_path_spec:
  assumes "resolve_path_for_allowlist here target w = (r, w')"
  shows "frame {} w w'" "canonical here \<Longrightarrow> r = Some p \<Longrightarrow> canonical p"
proof -
  obtain a v where v: "fs_canonicalize here target w = (a, v)" by fastforce
  note f = fs_canonicalize_frame[OF v]
  have "frame {} w w' \<and> (canonical here \<longrightarrow> r = Some p \<longrightarrow> canonical p)"
  proof (cases a)
    case (Inl e)
    then have "resolve_ancestor here [] (fst target) v = (r, w')"
      using assms unfolding resolve_path_for_allowlist_def v by simp
    then show ?thesis using f frame_trans resolve_ancestor_spec by blast
  next
    case (Inr canon)
    then have "r = Some canon" "w' = v" using assms unfolding resolve_path_for_allowlist_def v by simp_all
    then show ?thesis using f fs_canonicalize_canonical[OF v[unfolded Inr]] by auto
  qed
  then show "frame {} w w'" "canonical here \<Longrightarrow> r = Some p \<Longrightarrow> canonical p" by blast+
qed

lemma prefix_allows_frame: "prefix_allows here base p allow w = (b, w') \<Longrightarrow> frame {} w w'"
proof (induction allow arbitrary: w)
  case (Cons pref allow)
  obtain r v where v: "resolve_path_for_allowlist here (resolve_under base pref) w = (r, v)" by fastforce
  note f = resolve_path_spec(1)[OF v]
  have "w' = v \<or> prefix_allows here base p allow v = (b, w')"
    using Cons.prems v by (auto split: option.splits if_splits)
  then show ?case using f Cons.IH frame_trans by blast
qed simp

lemma check_path_allowed_frame:
  assumes "check_path_allowed here p allow base w = (d, w')"
  shows "frame {} w w'"
proof -
  obtain r v where v: "resolve_path_for_allowlist here p w = (r, v)" by fastforce
  note f = resolve_path_spec(1)[OF v]
  show ?thesis
  proof (cases r)
    case (Some c)
    obtain b u where u: "prefix_allows here base c allow v = (b, u)" by fastforce
    have "w' = u" using assms unfolding check_path_allowed_def v Some by (simp add: u split: bool.splits)
    then show ?thesis using f prefix_allows_frame[OF u] frame_trans by blast
  qed (use assms v f in \<open>simp add: check_path_allowed_def\<close>)
qed

lemma path_gate_frame: "path_gate env ctx call path caps w = (r, evs, w') \<Longrightarrow> frame {} w w'"
  unfolding path_gate_def Let_def
  by (auto split: option.splits prod.splits path_allow_decision.splits dest!: check_path_allowed_frame)

section \<open>Without faults\<close>

text \<open>Then every step of the check leaves the world as it is.\<close>

lemma calm_canonicalize: "faults w = [] \<Longrightarrow> fs_canonicalize here p w = (canonical_of w here p, w)"
  by (simp add: fs_canonicalize_def)

lemma calm_resolve_ancestor: "faults w = [] \<Longrightarrow> snd (resolve_ancestor here tail cur w) = w"
proof (induction here tail cur w rule: resolve_ancestor.induct)
  case (1 here tail cur w)
  then show ?case
    by (subst resolve_ancestor.simps) (auto simp: calm_canonicalize split: option.splits sum.splits)
qed

lemma calm_resolve: "faults w = [] \<Longrightarrow> snd (resolve_path_for_allowlist here p w) = w"
  by (simp add: resolve_path_for_allowlist_def calm_canonicalize calm_resolve_ancestor split: sum.splits)

definition resolved :: "world \<Rightarrow> path \<Rightarrow> os_path \<Rightarrow> path option" where
  "resolved w here p = fst (resolve_path_for_allowlist here p w)"

definition granted :: "world \<Rightarrow> path \<Rightarrow> path \<Rightarrow> string list \<Rightarrow> path \<Rightarrow> bool" where
  "granted w here base allow q \<longleftrightarrow>
     (\<exists>pref\<in>set allow. \<exists>P. resolved w here (resolve_under base pref) = Some P \<and> path_starts_with q P)"

lemma calm_resolve_eq: "faults w = [] \<Longrightarrow> resolve_path_for_allowlist here p w = (resolved w here p, w)"
  using calm_resolve[of w here p] by (simp add: resolved_def prod_eq_iff)

lemma calm_prefix_allows: "faults w = [] \<Longrightarrow> prefix_allows here base q allow w = (granted w here base allow q, w)"
  by (induction allow) (auto simp: calm_resolve_eq granted_def split: option.splits)

lemma calm_check_path_allowed:
  "faults w = [] \<Longrightarrow> check_path_allowed here p allow base w =
     ((case resolved w here p of None \<Rightarrow> DeniedResolutionFailed
       | Some q \<Rightarrow> if granted w here base allow q then PathAllowed else DeniedNotAllowed), w)"
  by (simp add: check_path_allowed_def calm_resolve_eq calm_prefix_allows split: option.splits)

lemma calm_path_gate:
  assumes "path_gate env ctx call path caps w = (Inr p, evs, w')" "faults w = []"
  obtains allow q where "caps = Some allow" "p = resolve_under (hc_base ctx) path" "evs = []" "w' = w"
    "resolved w (he_here env) p = Some q" "granted w (he_here env) (hc_base ctx) allow q"
  using assms unfolding path_gate_def Let_def
  by (auto simp: calm_check_path_allowed split: option.splits if_splits)

text \<open>What exists resolves to itself.\<close>

lemma resolved_found:
  assumes "faults w = []" "walk w here p = Found q"
  shows "resolved w here p = Some q"
proof -
  have "canonical_of w here p = Inr q" using assms(2) by (simp add: canonical_of_def)
  then show ?thesis by (simp add: resolved_def resolve_path_for_allowlist_def calm_canonicalize[OF assms(1)])
qed

lemma namei_absent_last: "namei k w cur cs = Absent q \<longrightarrow> cs \<noteq> [] \<and> (\<exists>n. last cs = Normal n)"
proof (induction k cur cs rule: namei_walk_induct[where w = w])
  case (link k cur n cs t)
  show ?case unfolding namei_steps(4)[OF link(1,2)] using link(3) by (cases "cs = []") auto
next
  case (node k cur n cs m)
  show ?case unfolding namei_steps(5)[OF node(1,2,3)] using node(4) by (cases "cs = []") auto
qed (auto simp: namei_steps)

text \<open>
  The links of a tree are in order when none dangles (its target's directory exists, its target does not),
  and when each target has its root, if any, in front, as every target that was read from a text has.
\<close>

definition rooted :: "path \<Rightarrow> bool" where
  "rooted p \<longleftrightarrow> RootDir \<notin> set (tl p)"

definition links_ok :: "world \<Rightarrow> bool" where
  "links_ok w \<longleftrightarrow> (\<forall>d n t. look w (d @ [Normal n]) = Some (Symlink t) \<longrightarrow>
     rooted t \<and> (\<forall>k q. namei k w d t \<noteq> Absent q))"

lemma walk_namei: "walk w here p = r \<Longrightarrow> r = Found q \<or> r = Absent q \<Longrightarrow>
    namei 40 w here (kernel_names p) = r \<and> fst p \<noteq> [] \<and> \<not> has_nul (fst p)"
  by (auto simp: walk_def split: if_splits)

text \<open>A missing last name: the directory before it is found.\<close>

lemma walk_absent_split:
  assumes "walk w here p = Absent q"
  obtains cs n d k where "p = (cs @ [Normal n], False)" "namei 40 w here cs = Found d" "cs \<noteq> [] \<longrightarrow> walk w here (cs, False) = Found d"
    "namei k w d [Normal n] = Absent q"
proof -
  note nm = walk_namei[OF assms, of q, simplified]
  obtain cs n where cs: "kernel_names p = cs @ [Normal n]"
    using namei_absent_last nm by (metis append_butlast_last_id)
  have p: "p = (cs @ [Normal n], False)"
    using cs by (cases p; cases "snd p") (auto simp: kernel_names_def)
  obtain d where d: "namei 40 w here cs = Found d"
    using namei_lost_append[of "[Normal n]" 40 w here cs] nm cs by fastforce
  then obtain k where k: "namei 40 w here (cs @ [Normal n]) = namei k w d [Normal n]"
    using namei_found_append by blast
  have "cs \<noteq> [] \<longrightarrow> walk w here (cs, False) = Found d"
    using d nm by (simp add: walk_def kernel_names_def p has_nul_def)
  moreover have "namei k w d [Normal n] = Absent q" using conjunct1[OF nm] unfolding cs k .
  ultimately show ?thesis using that p d by blast
qed

lemma namei_name_absent:
  assumes "namei k w d [Normal n] = Absent q"
  obtains "q = d @ [Normal n]" "is_dir w d" "look w q = None"
  | t k' where "look w (d @ [Normal n]) = Some (Symlink t)" "namei k' w d t = Absent q"
proof (cases rule: namei_name_cases[where w = w and cur = d and n = n and k = k])
  case missing
  then have "q = d @ [Normal n]" using assms by simp
  then show ?thesis using that(1) missing by blast
next
  case (link t k')
  then have "namei k' w d t = Absent q" using assms namei_steps(4)[OF link(1,2), of k' "[]"] by simp
  then show ?thesis using that(2) link(2) by blast
next
  case (node m)
  then show ?thesis using assms namei_steps(5)[OF node(1,2,3), of k "[]"] by simp
qed (use assms in simp_all)

lemma namei_absent_place: "namei k w cur cs = Absent q \<Longrightarrow> (\<exists>d n. q = d @ [Normal n] \<and> is_dir w d) \<and> look w q = None"
proof (induction k cur cs rule: namei_walk_induct[where w = w])
  case (link k cur n cs t)
  then show ?case using namei_steps(4)[OF link(1,2)] by simp
next
  case (node k cur n cs m)
  then show ?case using namei_steps(5)[OF node(1,2,3)] by simp
qed (auto simp: namei_steps split: if_splits)

lemma canonical_of_found: "walk w here p = Found q \<Longrightarrow> canonical_of w here p = Inr q"
  by (simp add: canonical_of_def)

text \<open>What does not exist resolves to a name in a directory; without dangling links a write goes there.\<close>

lemma absent_place:
  assumes "walk w here p = Absent q" "links_ok w"
  obtains cs n d where "p = (cs @ [Normal n], False)" "cs \<noteq> [] \<longrightarrow> walk w here (cs, False) = Found d" "q = d @ [Normal n]"
proof -
  obtain cs n d k where s: "p = (cs @ [Normal n], False)" "cs \<noteq> [] \<longrightarrow> walk w here (cs, False) = Found d"
    "namei k w d [Normal n] = Absent q"
    using assms(1) by (rule walk_absent_split)
  from s(3) show ?thesis
  proof (cases rule: namei_name_absent)
    case 1
    then show ?thesis using that s by blast
  next
    case (2 t k')
    then show ?thesis using assms(2) unfolding links_ok_def by blast
  qed
qed

section \<open>The resolution as a function of the tree\<close>

lemma fold_snoc [simp]: "fold (\<lambda>c r. r @ [Normal c]) ns p = p @ map Normal ns"
  by (induction ns arbitrary: p) simp_all

definition resolved_plain :: "world \<Rightarrow> path \<Rightarrow> path \<Rightarrow> path option" where
  "resolved_plain w here cur = resolved w here (cur, False)"

lemma calm_ancestor:
  assumes "faults w = []"
  shows "resolve_ancestor here tail cur w =
    ((case file_name cur of None \<Rightarrow> None | Some n \<Rightarrow>
        map_option (\<lambda>r. r @ map Normal (n # rev tail)) (Option.bind (parent cur) (resolved_plain w here))), w)"
proof (induction "length cur" arbitrary: cur tail rule: less_induct)
  case less
  show ?case
  proof (cases "file_name cur")
    case None
    then show ?thesis by (subst resolve_ancestor.simps) simp
  next
    case n: (Some n)
    show ?thesis
    proof (cases "parent cur")
      case None
      then show ?thesis using n by (subst resolve_ancestor.simps) simp
    next
      case up: (Some up)
      have ih: "resolve_ancestor here t up w = ((case file_name up of None \<Rightarrow> None | Some m \<Rightarrow>
          map_option (\<lambda>r. r @ map Normal (m # rev t)) (Option.bind (parent up) (resolved_plain w here))), w)" for t
        using less[OF length_parent[OF up]] .
      show ?thesis
      proof (cases "canonical_of w here (up, False)")
        case (Inr c)
        then have "resolved_plain w here up = Some c"
          by (simp add: resolved_plain_def resolved_def resolve_path_for_allowlist_def calm_canonicalize[OF assms])
        then show ?thesis
          using n up Inr by (subst resolve_ancestor.simps) (simp add: calm_canonicalize[OF assms])
      next
        case (Inl e)
        then have "resolved_plain w here up = fst (resolve_ancestor here [] up w)"
          by (simp add: resolved_plain_def resolved_def resolve_path_for_allowlist_def calm_canonicalize[OF assms])
        then have r: "resolved_plain w here up = (case file_name up of None \<Rightarrow> None | Some m \<Rightarrow>
            map_option (\<lambda>r. r @ [Normal m]) (Option.bind (parent up) (resolved_plain w here)))"
          unfolding ih by (simp split: option.splits)
        have "resolve_ancestor here tail cur w = resolve_ancestor here (tail @ [n]) up w"
          using n up Inl by (subst resolve_ancestor.simps) (simp add: calm_canonicalize[OF assms])
        also have "\<dots> = ((case file_name up of None \<Rightarrow> None | Some m \<Rightarrow>
            map_option (\<lambda>r. r @ map Normal (m # rev (tail @ [n]))) (Option.bind (parent up) (resolved_plain w here))), w)"
          by (rule ih)
        also have "\<dots> = (map_option (\<lambda>r. r @ map Normal (n # rev tail)) (resolved_plain w here up), w)"
          unfolding r by (simp add: option.map_comp comp_def split: option.splits)
        finally show ?thesis using n up by simp
      qed
    qed
  qed
qed

lemma resolved_eq:
  assumes "faults w = []"
  shows "resolved w here p = (case walk w here p of Found q \<Rightarrow> Some q
    | _ \<Rightarrow> (case file_name (fst p) of None \<Rightarrow> None | Some n \<Rightarrow>
        map_option (\<lambda>r. r @ [Normal n]) (Option.bind (parent (fst p)) (resolved_plain w here))))"
  by (cases "file_name (fst p)")
    (simp_all add: resolved_def resolve_path_for_allowlist_def calm_canonicalize[OF assms] canonical_of_def
      calm_ancestor[OF assms] split: lookup.splits)

lemma resolved_absent:
  assumes "faults w = []" "walk w here p = Absent q" "links_ok w" "is_absolute (fst p)"
  shows "resolved w here p = Some q"
proof -
  obtain cs n d where s: "p = (cs @ [Normal n], False)" "cs \<noteq> [] \<longrightarrow> walk w here (cs, False) = Found d" "q = d @ [Normal n]"
    using assms(2,3) by (rule absent_place)
  have "cs \<noteq> []" using assms(4) s(1) by (auto simp: is_absolute_def)
  then have "resolved_plain w here cs = Some d"
    using s(2) resolved_found[OF assms(1)] by (simp add: resolved_plain_def)
  then show ?thesis using s(1,3) assms(2) by (simp add: resolved_eq[OF assms(1)])
qed

section \<open>Reads\<close>

lemma read_bounded_frame: "read_bounded env p n w = (r, w') \<Longrightarrow> frame {} w w'"
proof -
  assume run: "read_bounded env p n w = (r, w')"
  obtain a v where v: "fs_open (he_here env) p w = (a, v)" by fastforce
  note f = fs_open_frame[OF v]
  show ?thesis
  proof (cases a)
    case (Inr q)
    obtain b u where u: "fs_opened_len env q v = (b, u)" by fastforce
    have g: "frame {} v u" using u unfolding fs_opened_len_def by (elim syscall_cases) simp_all
    obtain c x where x: "fs_read_open q u = (c, x)" by fastforce
    have "w' = u \<or> w' = x"
      using run v u x Inr by (auto simp: read_bounded_def split: sum.splits if_splits)
    then show ?thesis using f g fs_read_open_frame[OF x] frame_trans by blast
  qed (use run v f in \<open>simp add: read_bounded_def\<close>)
qed

lemma read_prefix_bounded_frame: "read_prefix_bounded env p n w = (r, w') \<Longrightarrow> frame {} w w'"
proof -
  assume run: "read_prefix_bounded env p n w = (r, w')"
  obtain a v where v: "fs_open (he_here env) p w = (a, v)" by fastforce
  note f = fs_open_frame[OF v]
  show ?thesis
  proof (cases a)
    case (Inr q)
    obtain c x where x: "fs_read_open q v = (c, x)" by fastforce
    have "w' = x" using run v x Inr by (auto simp: read_prefix_bounded_def split: sum.splits)
    then show ?thesis using f fs_read_open_frame[OF x] frame_trans by blast
  qed (use run v f in \<open>simp add: read_prefix_bounded_def\<close>)
qed

lemma read_file_prepare_frame: "read_file_prepare env ctx path n w = (r, evs, w') \<Longrightarrow> frame {} w w'"
proof -
  assume run: "read_file_prepare env ctx path n w = (r, evs, w')"
  obtain a es v where v: "path_gate env ctx ''read_file'' path (cap_read_file (hc_capabilities ctx)) w = (a, es, v)"
    by (cases "path_gate env ctx ''read_file'' path (cap_read_file (hc_capabilities ctx)) w") auto
  note f = path_gate_frame[OF v]
  show ?thesis
  proof (cases a)
    case (Inr p)
    obtain b u where u: "read_bounded env p (unat n) v = (b, u)" by fastforce
    have "w' = u" using run v u Inr by (auto simp: read_file_prepare_def split: sum.splits read_err.splits)
    then show ?thesis using f read_bounded_frame[OF u] frame_trans by blast
  qed (use run v f in \<open>simp add: read_file_prepare_def\<close>)
qed

lemma read_prefix_prepare_frame: "read_prefix_prepare env ctx path n w = (r, evs, w') \<Longrightarrow> frame {} w w'"
proof -
  assume run: "read_prefix_prepare env ctx path n w = (r, evs, w')"
  obtain a es v where v: "path_gate env ctx ''read_prefix'' path (cap_read_prefix (hc_capabilities ctx)) w = (a, es, v)"
    by (cases "path_gate env ctx ''read_prefix'' path (cap_read_prefix (hc_capabilities ctx)) w") auto
  note f = path_gate_frame[OF v]
  show ?thesis
  proof (cases a)
    case (Inr p)
    obtain b u where u: "read_prefix_bounded env p (unat n) v = (b, u)" by fastforce
    have "w' = u \<or> w' = v"
      using run v u Inr by (auto simp: read_prefix_prepare_def split: sum.splits read_err.splits if_splits)
    then show ?thesis using f read_prefix_bounded_frame[OF u] frame_trans by blast
  qed (use run v f in \<open>simp add: read_prefix_prepare_def\<close>)
qed

lemma calm_fs_open:
  "faults w = [] \<Longrightarrow> fs_open here p w = (Inr q, w') \<Longrightarrow> w' = w \<and> walk w here p = Found q"
  using fs_open_result(1)[of here p w q w'] by (auto simp: fs_open_def)

lemma read_bounded_content:
  assumes run: "read_bounded env p n w = (Inr body, w')" and calm: "faults w = []"
  obtains q where "walk w (he_here env) p = Found q" "look w q = Some (File body)" "length body \<le> n"
proof -
  obtain a v where v: "fs_open (he_here env) p w = (a, v)" by fastforce
  with run obtain q where a: "a = Inr q" by (cases a) (auto simp: read_bounded_def)
  note q = calm_fs_open[OF calm v[unfolded a]]
  have v_w: "v = w" using q by simp
  have "fs_read_open q w = (Inr body, w')" "length body \<le> n"
    using run v calm unfolding read_bounded_def a v_w
    by (auto simp: fs_opened_len_def split: if_splits prod.splits sum.splits)
  then show ?thesis using that q fs_read_open_result by blast
qed

lemma read_prefix_bounded_content:
  assumes run: "read_prefix_bounded env p n w = (Inr body, w')" and calm: "faults w = []"
  obtains q c where "walk w (he_here env) p = Found q" "look w q = Some (File c)" "body = take n c"
proof -
  obtain a v where v: "fs_open (he_here env) p w = (a, v)" by fastforce
  with run obtain q where a: "a = Inr q" by (cases a) (auto simp: read_prefix_bounded_def)
  note q = calm_fs_open[OF calm v[unfolded a]]
  have v_w: "v = w" using q by simp
  obtain c where "fs_read_open q w = (Inr c, w')" "body = take n c"
    using run v unfolding read_prefix_bounded_def a v_w by (auto split: prod.splits sum.splits)
  then show ?thesis using that q fs_read_open_result by blast
qed

text \<open>A path that passed the gate and exists is granted.\<close>

lemma gate_found:
  assumes "path_gate env ctx call path caps w = (Inr p, evs, w')" "faults w = []" "walk w (he_here env) p = Found q"
  obtains allow where "caps = Some allow" "granted w (he_here env) (hc_base ctx) allow q" "evs = []" "w' = w"
proof -
  from assms(1,2) obtain allow r where "caps = Some allow" "resolved w (he_here env) p = Some r"
    "granted w (he_here env) (hc_base ctx) allow r" "evs = []" "w' = w"
    by (rule calm_path_gate)
  then show ?thesis using that resolved_found[OF assms(2,3)] by simp
qed

section \<open>Writes\<close>

text \<open>What a plugin's write can do to the tree: give a file new content, or create one.\<close>

definition grows :: "world \<Rightarrow> world \<Rightarrow> bool" where
  "grows w w' \<longleftrightarrow> (\<forall>p. look w' p = look w p \<or>
     (look w p = None \<or> (\<exists>c. look w p = Some (File c))) \<and> (\<exists>c. look w' p = Some (File c)))"

lemma grows_refl [simp, intro]: "grows w w"
  by (simp add: grows_def)

lemma grows_trans [trans]: "grows w v \<Longrightarrow> grows v u \<Longrightarrow> grows w u"
  unfolding grows_def by (metis option.distinct(1))

lemma grows_cases:
  assumes "grows w w'"
  obtains (same) "look w' p = look w p" | (new) c where "look w p = None" "look w' p = Some (File c)"
  | (changed) b c where "look w p = Some (File b)" "look w' p = Some (File c)"
  using assms unfolding grows_def by blast

lemma grows_is_dir: "grows w w' \<Longrightarrow> is_dir w' p = is_dir w p"
  by (rule grows_cases[of w w' p]) (auto simp: is_dir_def)

lemma grows_link: "grows w w' \<Longrightarrow> look w' p = Some (Symlink t) \<longleftrightarrow> look w p = Some (Symlink t)"
  by (rule grows_cases[of w w' p]) auto

lemma rooted_Cons: "rooted (c # cs) \<longleftrightarrow> RootDir \<notin> set cs"
  by (simp add: rooted_def)

lemma rootless_rooted: "RootDir \<notin> set cs \<Longrightarrow> rooted cs"
  by (cases cs) (auto simp: rooted_def)

lemma namei_stuck: "\<not> is_dir w cur \<Longrightarrow> RootDir \<notin> set cs \<Longrightarrow> cs \<noteq> [] \<Longrightarrow> namei k w cur cs = NoEntry OtherIo"
  by (cases cs; cases "hd cs") auto

text \<open>Walks survive: what was found stays, and nothing becomes absent.\<close>

definition walk_kept :: "lookup \<Rightarrow> lookup \<Rightarrow> bool" where
  "walk_kept r r' \<longleftrightarrow> (\<forall>q. r = Found q \<longrightarrow> r' = Found q) \<and> (\<forall>q. r' = Found q \<longrightarrow> r = Found q \<or> r = Absent q) \<and>
     (\<forall>q. r' = Absent q \<longrightarrow> r = Absent q)"

lemma walk_kept_refl [simp]: "walk_kept r r"
  by (simp add: walk_kept_def)

lemma walk_kept_lost [simp]: "walk_kept (NoEntry e) (NoEntry e')"
  by (simp add: walk_kept_def)

lemma namei_grows:
  assumes g: "grows w w'" and links: "links_ok w"
  shows "rooted cs \<longrightarrow> walk_kept (namei k w cur cs) (namei k w' cur cs)"
proof (induction k cur cs rule: namei_walk_induct[where w = w])
  case (root k cur cs)
  then show ?case by (auto simp: rooted_Cons rootless_rooted)
next
  case (here k cur cs)
  then show ?case by (cases "is_dir w cur") (auto simp: rooted_Cons grows_is_dir[OF g] rootless_rooted)
next
  case (up k cur cs)
  then show ?case by (cases "is_dir w cur") (auto simp: rooted_Cons grows_is_dir[OF g] rootless_rooted)
next
  case (no_dir k cur n cs)
  then show ?case by (simp add: grows_is_dir[OF g])
next
  case (missing k cur n cs)
  note d = missing(1)[folded grows_is_dir[OF g]]
  from g show ?case
  proof (cases rule: grows_cases[where p = "cur @ [Normal n]"])
    case same
    then show ?thesis using missing d by simp
  next
    case (new c)
    have f: "\<not> is_dir w' (cur @ [Normal n])" using new(2) by (cases cur) (auto simp: is_dir_def)
    have step: "namei k w' cur (Normal n # cs) = namei k w' (cur @ [Normal n]) cs"
      using namei_steps(5)[OF d new(2), of k cs] by simp
    show ?thesis
    proof (cases "cs = []")
      case True
      then show ?thesis unfolding step using missing by (simp add: walk_kept_def)
    next
      case False
      then show ?thesis unfolding step rooted_Cons using missing namei_stuck[OF f _ False, of k] by simp
    qed
  next
    case (changed b c)
    then show ?thesis using missing by simp
  qed
next
  case (too_deep cur n cs t)
  then have "namei 0 w' cur (Normal n # cs) = NoEntry OtherIo"
    by (intro namei_steps(3)) (simp_all add: grows_is_dir[OF g] grows_link[OF g])
  then show ?case using namei_steps(3)[OF too_deep] by simp
next
  case (link k cur n cs t)
  have l: "look w' (cur @ [Normal n]) = Some (Symlink t)" using link(2) by (simp add: grows_link[OF g])
  have "rooted t" using links link(2) unfolding links_ok_def by blast
  then have "RootDir \<notin> set cs \<longrightarrow> rooted (t @ cs)" by (cases t) (auto simp: rooted_def rootless_rooted[unfolded rooted_def])
  then show ?case
    unfolding namei_steps(4)[OF link(1,2)] namei_steps(4)[OF link(1)[folded grows_is_dir[OF g]] l] rooted_Cons
    using link(3) by blast
next
  case (node k cur n cs m)
  obtain m' where m': "look w' (cur @ [Normal n]) = Some m'" "\<And>t. m' \<noteq> Symlink t"
    using g by (rule grows_cases[of w w' "cur @ [Normal n]"]) (use node in auto)
  have "RootDir \<notin> set cs \<longrightarrow> rooted cs" by (simp add: rootless_rooted)
  then show ?case
    unfolding namei_steps(5)[OF node(1,2,3)] namei_steps(5)[OF node(1)[folded grows_is_dir[OF g]] m'] rooted_Cons
    using node(4) by blast
qed simp

lemma walk_grows:
  assumes "grows w w'" "links_ok w" "rooted (fst p)"
  shows "walk_kept (walk w here p) (walk w' here p)"
proof -
  have "rooted (kernel_names p)"
    using assms(3) by (cases p; cases "fst p") (auto simp: kernel_names_def rooted_def)
  then show ?thesis using namei_grows[OF assms(1,2), of "kernel_names p" 40 here] by (simp add: walk_def)
qed

lemma links_ok_grows: "grows w w' \<Longrightarrow> links_ok w \<Longrightarrow> links_ok w'"
  unfolding links_ok_def by (metis grows_link namei_grows walk_kept_def links_ok_def)

text \<open>So the allow list means the same before and after: an absolute entry resolves to the same path.\<close>

lemma resolved_plain_grows:
  assumes g: "grows w w'" and links: "links_ok w" and calm: "faults w = []" "faults w' = []"
  shows "is_absolute cur \<Longrightarrow> rooted cur \<Longrightarrow> resolved_plain w' here cur = resolved_plain w here cur"
proof (induction "length cur" arbitrary: cur rule: less_induct)
  case less
  have kept: "walk_kept (walk w here (cur, False)) (walk w' here (cur, False))"
    by (rule walk_grows[OF g links]) (simp add: less.prems)
  have rest: "Option.bind (parent cur) (resolved_plain w' here) = Option.bind (parent cur) (resolved_plain w here)"
  proof (cases "parent cur")
    case (Some up)
    have "cur \<noteq> []" "last cur \<noteq> RootDir" "up = butlast cur" using Some by (auto simp: parent_def split: if_splits component.splits)
    then have "is_absolute up \<and> rooted up"
      using less.prems by (cases cur; cases up)
        (auto simp: is_absolute_def rooted_def split: list.splits if_splits component.splits dest: in_set_butlastD)
    then show ?thesis using less.hyps[OF length_parent[OF Some]] Some by simp
  qed simp
  show ?case
  proof (cases "\<exists>q. walk w' here (cur, False) = Found q")
    case True
    then obtain q where q: "walk w' here (cur, False) = Found q" ..
    then have r': "resolved_plain w' here cur = Some q" by (simp add: resolved_plain_def resolved_found[OF calm(2)])
    have "walk w here (cur, False) = Found q \<or> walk w here (cur, False) = Absent q" using kept q by (simp add: walk_kept_def)
    then have "resolved_plain w here cur = Some q"
      using resolved_found[OF calm(1)] resolved_absent[OF calm(1) _ links] less.prems(1) by (auto simp: resolved_plain_def)
    then show ?thesis using r' by simp
  next
    case False
    then have "\<And>q. walk w here (cur, False) \<noteq> Found q" using kept unfolding walk_kept_def by blast
    then show ?thesis
      using False rest
      by (cases "file_name cur"; cases "walk w here (cur, False)"; cases "walk w' here (cur, False)")
        (simp_all add: resolved_plain_def[of _ _ cur] resolved_eq[OF calm(1)] resolved_eq[OF calm(2)])
  qed
qed

lemma resolved_grows:
  assumes g: "grows w w'" and links: "links_ok w" and calm: "faults w = []" "faults w' = []"
    and abs: "is_absolute (fst p)" "rooted (fst p)"
  shows "resolved w' here p = resolved w here p"
proof -
  note kept = walk_grows[OF g links abs(2), of here]
  show ?thesis
  proof (cases "\<exists>q. walk w' here p = Found q")
    case True
    then obtain q where q: "walk w' here p = Found q" ..
    then have "walk w here p = Found q \<or> walk w here p = Absent q" using kept by (simp add: walk_kept_def)
    then have "resolved w here p = Some q"
      using resolved_found[OF calm(1)] resolved_absent[OF calm(1) _ links abs(1)] by blast
    then show ?thesis using resolved_found[OF calm(2) q] by simp
  next
    case False
    then have n: "\<And>q. walk w here p \<noteq> Found q" using kept unfolding walk_kept_def by blast
    have "Option.bind (parent (fst p)) (resolved_plain w' here) = Option.bind (parent (fst p)) (resolved_plain w here)"
    proof (cases "parent (fst p)")
      case (Some up)
      have "fst p \<noteq> []" "last (fst p) \<noteq> RootDir" "up = butlast (fst p)"
        using Some by (auto simp: parent_def split: if_splits component.splits)
      then have "is_absolute up \<and> rooted up"
        using abs by (cases "fst p"; cases up)
          (auto simp: is_absolute_def rooted_def split: list.splits if_splits component.splits dest: in_set_butlastD)
      then show ?thesis using resolved_plain_grows[OF g links calm] Some by simp
    qed simp
    then show ?thesis
      using False n by (cases "file_name (fst p)"; cases "walk w here p"; cases "walk w' here p")
        (simp_all add: resolved_eq[OF calm(1)] resolved_eq[OF calm(2)])
  qed
qed

lemma rootless_components: "RootDir \<notin> set (concat (map read_component ss))"
  by (auto simp: read_component_def split: if_splits)

lemma rooted_path_of: "rooted (path_of s)"
proof -
  let ?cs = "concat (map read_component (split_slash s))"
  have "RootDir \<notin> set ?cs" by (rule rootless_components)
  moreover have "rooted (c # ?cs)" "rooted ?cs" for c using calculation by (auto simp: rooted_Cons rootless_rooted)
  ultimately show ?thesis unfolding path_of_def by simp
qed

lemma resolve_under_absolute:
  assumes "is_absolute base" "rooted base"
  shows "is_absolute (fst (resolve_under base s)) \<and> rooted (fst (resolve_under base s))"
proof (cases "is_absolute (path_of s)")
  case True
  then show ?thesis by (simp add: resolve_under_def os_path_of_def rooted_path_of)
next
  case False
  then have free: "RootDir \<notin> set (path_of s)"
    using rooted_path_of[of s] by (cases "path_of s") (auto simp: is_absolute_def rooted_def split: component.splits)
  obtain cs where base: "base = RootDir # cs" "RootDir \<notin> set cs"
    using assms by (cases base) (auto simp: is_absolute_def rooted_def split: component.splits)
  show ?thesis
    using False free base
    by (auto simp: resolve_under_def join_os_def join_def is_absolute_def rooted_def split: list.splits component.splits)
qed

lemma granted_grows:
  assumes "grows w w'" "links_ok w" "faults w = []" "faults w' = []" "is_absolute base" "rooted base"
  shows "granted w' here base allow q = granted w here base allow q"
  unfolding granted_def using resolved_grows[OF assms(1-4)] resolve_under_absolute[OF assms(5,6)] by simp

text \<open>The effect of a write.\<close>

lemma fs_write_all_calm: "faults w = [] \<Longrightarrow> look w q \<noteq> Some Special \<Longrightarrow> fs_write_all q c w = (Inr (), put q (File c) w)"
  by (simp add: fs_write_all_def)

definition wrote :: "path \<Rightarrow> bytes \<Rightarrow> world \<Rightarrow> world \<Rightarrow> bool" where
  "wrote q c w w' \<longleftrightarrow> frame {q} w w' \<and> look w' q = Some (File c) \<and> (look w q = None \<or> (\<exists>b. look w q = Some (File b))) \<and>
     faults w' = faults w"

lemma wrote_grows: "wrote q c w w' \<Longrightarrow> grows w w'"
  unfolding wrote_def grows_def frame_def by (metis singletonD)

lemma calm_write_at:
  assumes run: "fs_write_at here p c w = (r, w')" and calm: "faults w = []"
  shows "(\<exists>e. r = Inl e) \<and> w' = w \<or>
    r = Inr () \<and> (\<exists>q. (walk w here p = Found q \<or> walk w here p = Absent q) \<and> wrote q c w w')"
proof -
  obtain a v where a: "fs_create_at here p w = (a, v)" by fastforce
  have create: "(\<exists>e. a = Inl e) \<and> v = w \<or> (\<exists>q. a = Inr q \<and> v = put q (File []) w \<and>
      (walk w here p = Found q \<and> (\<exists>b. look w q = Some (File b)) \<or> walk w here p = Absent q))"
    using a unfolding fs_create_at_def syscall_fault_free[OF calm]
    by (auto split: lookup.splits if_splits option.splits node.splits)
  then show ?thesis
  proof
    assume "(\<exists>e. a = Inl e) \<and> v = w"
    then show ?thesis using run a by (auto simp: fs_write_at_def)
  next
    assume "\<exists>q. a = Inr q \<and> v = put q (File []) w \<and>
      (walk w here p = Found q \<and> (\<exists>b. look w q = Some (File b)) \<or> walk w here p = Absent q)"
    then obtain q where q: "a = Inr q" "v = put q (File []) w"
      and place: "walk w here p = Found q \<and> (\<exists>b. look w q = Some (File b)) \<or> walk w here p = Absent q"
      by blast
    have before: "look w q = None \<or> (\<exists>b. look w q = Some (File b))"
      using place namei_absent_place walk_namei by blast
    have "r = Inr ()" "look w' = (look w)(q := Some (File c))" "pid w' = pid w" "faults w' = faults w"
      using run a q fs_write_all_calm[of v q c] calm
      by (cases "c = []"; auto simp: fs_write_at_def fun_eq_iff)+
    then show ?thesis using place before by (auto simp: wrote_def frame_def)
  qed
qed

end
