(* ===== verification/HostClaims.thy ===== *)
theory HostClaims
  imports HostCalls HostConfine
begin

text \<open>
  What the host functions guarantee: a plugin stays within its allow lists whatever sequence of calls it makes,
  its memory changes only where a call says so, and what the calls hand over is what the file or the child held.
\<close>

section \<open>Calls of the file capabilities, without faults\<close>

lemma calm_gate_world: "faults w = [] \<Longrightarrow> snd (snd (path_gate env ctx call path caps w)) = w"
  by (simp add: path_gate_def Let_def calm_check_path_allowed split: option.splits)

lemma calm_read_bounded_world: "faults w = [] \<Longrightarrow> snd (read_bounded env p n w) = w"
  by (simp add: read_bounded_def fs_open_def fs_opened_len_def fs_read_open_def split: sum.splits)

lemma calm_read_prefix_bounded_world: "faults w = [] \<Longrightarrow> snd (read_prefix_bounded env p n w) = w"
  by (simp add: read_prefix_bounded_def fs_open_def fs_read_open_def split: sum.splits)

lemma calm_gate_step:
  assumes "faults w = []"
  obtains r evs where "path_gate env ctx call path caps w = (r, evs, w)"
  using calm_gate_world[OF assms, of env ctx call path caps] by (metis prod.collapse)

lemma calm_read_file_world: "faults w = [] \<Longrightarrow> snd (snd (read_file_prepare env ctx path n w)) = w"
proof -
  assume calm: "faults w = []"
  obtain r evs where g: "path_gate env ctx ''read_file'' path (cap_read_file (hc_capabilities ctx)) w = (r, evs, w)"
    using calm by (rule calm_gate_step)
  show ?thesis
  proof (cases r)
    case (Inr p)
    obtain b where "read_bounded env p (unat n) w = (b, w)"
      using calm_read_bounded_world[OF calm, of env p "unat n"] by (metis prod.collapse)
    then show ?thesis using g Inr by (simp add: read_file_prepare_def split: sum.splits read_err.splits)
  qed (use g in \<open>simp add: read_file_prepare_def\<close>)
qed

lemma calm_read_prefix_world: "faults w = [] \<Longrightarrow> snd (snd (read_prefix_prepare env ctx path n w)) = w"
proof -
  assume calm: "faults w = []"
  obtain r evs where g: "path_gate env ctx ''read_prefix'' path (cap_read_prefix (hc_capabilities ctx)) w = (r, evs, w)"
    using calm by (rule calm_gate_step)
  show ?thesis
  proof (cases r)
    case (Inr p)
    obtain b where "read_prefix_bounded env p (unat n) w = (b, w)"
      using calm_read_prefix_bounded_world[OF calm, of env p "unat n"] by (metis prod.collapse)
    then show ?thesis using g Inr by (simp add: read_prefix_prepare_def split: sum.splits read_err.splits)
  qed (use g in \<open>simp add: read_prefix_prepare_def\<close>)
qed

text \<open>A write is refused and changes nothing, or writes one granted file.\<close>

lemma calm_write_file:
  assumes run: "write_file_prepare env ctx path contents n w = (r, evs, w')" and calm: "faults w = []"
    and links: "links_ok w" and base: "is_absolute (hc_base ctx)"
  shows "(\<exists>code. r = Inl code) \<and> w' = w \<or>
    r = Inr () \<and> (\<exists>caps q. cap_write_file (hc_capabilities ctx) = Some caps \<and>
      granted w (he_here env) (hc_base ctx) (write_path_allow caps) q \<and>
      (canonical (he_here env) \<longrightarrow> canonical q) \<and> wrote q contents w w')"
proof -
  obtain a es where g: "path_gate env ctx ''write_file'' path
      (map_option write_path_allow (cap_write_file (hc_capabilities ctx))) w = (a, es, w)"
    using calm by (rule calm_gate_step)
  show ?thesis
  proof (cases a)
    case (Inl code)
    then show ?thesis using run g by (auto simp: write_file_prepare_def)
  next
    case (Inr p)
    obtain allow r0 where allow: "map_option write_path_allow (cap_write_file (hc_capabilities ctx)) = Some allow"
      and p: "p = resolve_under (hc_base ctx) path"
      and r0: "resolved w (he_here env) p = Some r0" "granted w (he_here env) (hc_base ctx) allow r0"
      using calm_path_gate[OF g[unfolded Inr] calm] by metis
    obtain b v where b: "fs_write_at (he_here env) p contents w = (b, v)" by fastforce
    have "(\<exists>code. r = Inl code) \<and> w' = w \<or> (r = Inr () \<and> b = Inr () \<and> w' = v) \<or> (\<exists>code e. r = Inl code \<and> b = Inl e \<and> w' = v)"
      using run g Inr b by (auto simp: write_file_prepare_def Let_def split: if_splits sum.splits)
    moreover have "granted w (he_here env) (hc_base ctx) allow q \<and> (canonical (he_here env) \<longrightarrow> canonical q)"
      if "walk w (he_here env) p = Found q \<or> walk w (he_here env) p = Absent q" for q
    proof -
      have "is_absolute (fst p)" using resolve_under_absolute[OF base] rooted_path_of by (simp add: p hc_base_def)
      then have "resolved w (he_here env) p = Some q"
        using that resolved_found[OF calm] resolved_absent[OF calm _ links] by blast
      then have "granted w (he_here env) (hc_base ctx) allow q" using r0 by simp
      then show ?thesis using that walk_canonical by blast
    qed
    moreover obtain caps where "cap_write_file (hc_capabilities ctx) = Some caps" "allow = write_path_allow caps"
      using allow by auto
    ultimately show ?thesis using calm_write_at[OF b calm] by blast
  qed
qed

section \<open>The tree along a run\<close>

lemma write_wasm_bytes_parts [simp]:
  "sd_world (snd (write_wasm_bytes p c s st)) = sd_world st" "sd_otl (snd (write_wasm_bytes p c s st)) = sd_otl st"
  "sd_limit (snd (write_wasm_bytes p c s st)) = sd_limit st"
  by (simp_all add: write_wasm_bytes_def Let_def split: option.splits)

lemma write_wasm_bytes_step:
  "write_wasm_bytes p c s st = (r, st') \<Longrightarrow> sd_world st' = sd_world st \<and> sd_otl st' = sd_otl st \<and> sd_limit st' = sd_limit st"
  using write_wasm_bytes_parts[of p c s st] by simp

lemma write_wasm_u32_parts [simp]:
  "sd_world (snd (write_wasm_u32 p v st)) = sd_world st" "sd_otl (snd (write_wasm_u32 p v st)) = sd_otl st"
  "sd_limit (snd (write_wasm_u32 p v st)) = sd_limit st"
  by (auto simp: write_wasm_u32_def split: prod.splits sum.splits dest: write_wasm_bytes_step)

lemma absorb_parts [simp]:
  "sd_world (absorb evs w st) = w" "sd_memory (absorb evs w st) = sd_memory st" "sd_limit (absorb evs w st) = sd_limit st"
  "sd_otl (absorb evs w st) = sd_otl st"
  by (simp_all add: absorb_def emit_internal_def)

lemma note_too_large_parts [simp]:
  "sd_world (note_too_large k st) = sd_world st" "sd_memory (note_too_large k st) = sd_memory st"
  "sd_limit (note_too_large k st) = sd_limit st"
  by (simp_all add: note_too_large_def)

lemma emit_internal_parts [simp]:
  "sd_world (emit_internal evs st) = sd_world st" "sd_memory (emit_internal evs st) = sd_memory st"
  "sd_limit (emit_internal evs st) = sd_limit st" "sd_otl (emit_internal evs st) = sd_otl st"
  by (simp_all add: emit_internal_def)

lemma grow_memory_parts: "grow_memory n data st = Some st' \<Longrightarrow>
    sd_world st' = sd_world st \<and> sd_limit st' = sd_limit st \<and> sd_otl st' = sd_otl st \<and>
    sd_memory st' = Some (data @ replicate (65536 * n) (CHR 0x00)) \<and> length data + 65536 * n \<le> sd_limit st"
  by (auto simp: grow_memory_def split: if_splits)

text \<open>A delivery is a chain of memory writes: what they all keep, it keeps.\<close>

lemma deliver_keeps:
  assumes "\<And>p c s st. f (snd (write_wasm_bytes p c s st)) = f st"
    and "\<And>n data st st'. grow_memory n data st = Some st' \<Longrightarrow> f st' = f st"
  shows "f (snd (deliver body op ol st)) = f st"
proof -
  have u32: "f (snd (write_wasm_u32 p v st)) = f st" for p v st
    using assms(1)[of p 4 "le32 (unat v)" st]
    by (cases "write_wasm_bytes p 4 (le32 (unat v)) st") (auto simp: write_wasm_u32_def split: sum.splits)
  have u32': "f st' = f st" if "write_wasm_u32 p v st = (r, st')" for p v st r st'
    using u32[of p v st] that by simp
  have wr: "f st' = f st" if "write_wasm_bytes p c s st = (r, st')" for p c s st r st'
    using assms(1)[of p c s st] that by simp
  show ?thesis
    by (auto simp: deliver_def Let_def u32 split: option.splits prod.splits sum.splits
        dest!: assms(2) wr u32')
qed

lemma deliver_parts [simp]:
  "sd_world (snd (deliver body op ol st)) = sd_world st" "sd_otl (snd (deliver body op ol st)) = sd_otl st"
  "sd_limit (snd (deliver body op ol st)) = sd_limit st"
  by (rule deliver_keeps; simp add: grow_memory_parts)+

lemma quiet_calls_world [simp]:
  "sd_world (compute m st) = sd_world st" "sd_world (host_log a b c st) = sd_world st"
  "sd_world (host_emit_event a b c d st) = sd_world st" "sd_world (snd (context_reader ctx g a b st)) = sd_world st"
  "sd_world (snd (host_env_call ctx a b c d st)) = sd_world st"
proof -
  show "sd_world (compute m st) = sd_world st" by (simp add: compute_def split: option.splits)
  show "sd_world (host_log a b c st) = sd_world st" by (simp add: host_log_def split: sum.splits)
  show "sd_world (host_emit_event a b c d st) = sd_world st"
    by (simp add: host_emit_event_def Let_def split: sum.splits)
  show "sd_world (snd (context_reader ctx g a b st)) = sd_world st"
    by (auto simp: context_reader_def split: prod.splits sum.splits dest: write_wasm_bytes_step)
  show "sd_world (snd (host_env_call ctx a b c d st)) = sd_world st"
    by (auto simp: host_env_call_def split: prod.splits sum.splits option.splits dest: write_wasm_bytes_step)
qed

text \<open>A subprocess call is malformed, or it runs on decoded arguments.\<close>

definition exec_answer :: "u32 \<Rightarrow> u32 \<Rightarrow> bytes answer \<Rightarrow> store_data \<Rightarrow> i32 \<times> store_data" where
  "exec_answer buf cap a st = (case a of (Inl code, evs, w) \<Rightarrow> (code, absorb evs w st)
     | (Inr envelope, evs, w) \<Rightarrow>
         (let st = absorb evs w st in
          if cap < of_nat (length envelope) then (code_output_too_large, st\<lparr>sd_otl := True\<rparr>)
          else (case write_wasm_bytes buf cap envelope st of
             (Inr written, st) \<Rightarrow> (written, st) | (Inl _, st) \<Rightarrow> (code_invalid_argument, st))))"

lemma host_exec_cases:
  obtains (bad) "host_exec_subprocess env ctx a b c d e f t m buf cap st = (code_invalid_argument, st)"
  | (ran) cmd args stdin r evs w where "read_wasm_string st a b = Inr cmd"
      "exec_run env ctx cmd args stdin t m (sd_world st) = (r, evs, w)"
      "host_exec_subprocess env ctx a b c d e f t m buf cap st = exec_answer buf cap (r, evs, w) st"
proof (cases "read_wasm_string st a b")
  case (Inl x)
  then show ?thesis using bad by (simp add: host_exec_subprocess_def)
next
  case cmd: (Inr cmd)
  show ?thesis
  proof (cases "read_wasm_bytes st c d")
    case (Inl x)
    then show ?thesis using bad cmd by (simp add: host_exec_subprocess_def)
  next
    case buf: (Inr args_buf)
    show ?thesis
    proof (cases "decode_args args_buf")
      case None
      then show ?thesis using bad cmd buf by (simp add: host_exec_subprocess_def)
    next
      case args: (Some args)
      show ?thesis
      proof (cases "if f = 0 then Inr [] else read_wasm_bytes st e f")
        case (Inl x)
        then show ?thesis using bad cmd buf args by (simp add: host_exec_subprocess_def)
      next
        case stdin: (Inr stdin)
        obtain r evs w where run: "exec_run env ctx cmd args stdin t m (sd_world st) = (r, evs, w)" by (metis prod.collapse)
        show ?thesis
          by (rule ran[OF cmd run])
            (simp add: host_exec_subprocess_def cmd buf args stdin run exec_answer_def del: if_split)
      qed
    qed
  qed
qed

text \<open>Without faults and without a subprocess, a step keeps the tree or writes one granted file.\<close>

lemma guest_step_world:
  assumes calm: "faults (sd_world st) = []" and links: "links_ok (sd_world st)" and base: "is_absolute (hc_base ctx)"
    and no_exec: "cap_exec_subprocess (hc_capabilities ctx) = None" and here: "canonical (he_here env)"
  shows "sd_world (guest_step env ctx op st) = sd_world st \<or>
    (\<exists>caps q c. cap_write_file (hc_capabilities ctx) = Some caps \<and> canonical q \<and>
      granted (sd_world st) (he_here env) (hc_base ctx) (write_path_allow caps) q \<and>
      wrote q c (sd_world st) (sd_world (guest_step env ctx op st)))"
proof (cases op)
  case (CallReadFile a b c d e)
  have "w' = sd_world st" if "read_file_prepare env ctx path c (sd_world st) = (r, evs, w')" for path r evs w'
    using calm_read_file_world[OF calm, of env ctx path c] that by simp
  then show ?thesis
    unfolding CallReadFile by (auto simp: host_read_file_def split: sum.splits prod.splits)
next
  case (CallReadPrefix a b c d e)
  have "w' = sd_world st" if "read_prefix_prepare env ctx path c (sd_world st) = (r, evs, w')" for path r evs w'
    using calm_read_prefix_world[OF calm, of env ctx path c] that by simp
  then show ?thesis
    unfolding CallReadPrefix by (auto simp: host_read_prefix_def split: sum.splits prod.splits)
next
  case (CallExec a b c d e f g h i j)
  have "sd_world (snd (host_exec_subprocess env ctx a b c d e f g h i j st)) = sd_world st"
  proof (cases rule: host_exec_cases[of env ctx a b c d e f g h i j st])
    case (ran cmd args stdin r evs w)
    then show ?thesis using exec_without_capability[OF no_exec] by (auto simp: exec_answer_def)
  qed simp
  then show ?thesis unfolding CallExec by simp
next
  case (CallWriteFile a b c d e)
  show ?thesis
  proof (cases "\<exists>path contents. read_wasm_string st a b = Inr path \<and> read_wasm_bytes st c d = Inr contents")
    case True
    then obtain path contents where args: "read_wasm_string st a b = Inr path" "read_wasm_bytes st c d = Inr contents" by blast
    obtain r evs w' where run: "write_file_prepare env ctx path contents e (sd_world st) = (r, evs, w')"
      by (metis prod.collapse)
    have "sd_world (guest_step env ctx op st) = w'"
      unfolding CallWriteFile using args run by (simp add: host_write_file_def split: sum.splits)
    then show ?thesis
      using calm_write_file[OF run calm links base] here by blast
  next
    case False
    then have "sd_world (guest_step env ctx op st) = sd_world st"
      unfolding CallWriteFile by (auto simp: host_write_file_def split: sum.splits)
    then show ?thesis by simp
  qed
qed simp_all

text \<open>The tree of a run against the tree it started from.\<close>

definition confined :: "host_env \<Rightarrow> host_context \<Rightarrow> world \<Rightarrow> world \<Rightarrow> bool" where
  "confined env ctx w w' \<longleftrightarrow> grows w w' \<and> faults w' = [] \<and> (\<forall>q. look w' q \<noteq> look w q \<longrightarrow> canonical q \<and>
     (\<exists>caps. cap_write_file (hc_capabilities ctx) = Some caps \<and>
        granted w (he_here env) (hc_base ctx) (write_path_allow caps) q))"

lemma guest_run_confined:
  assumes calm: "faults w = []" and links: "links_ok w" and base: "is_absolute (hc_base ctx)"
    and no_exec: "cap_exec_subprocess (hc_capabilities ctx) = None" and here: "canonical (he_here env)"
  shows "confined env ctx w (sd_world st) \<Longrightarrow> confined env ctx w (sd_world (guest_run env ctx ops st))"
proof (induction ops arbitrary: st)
  case (Cons op ops)
  let ?v = "sd_world st" and ?u = "sd_world (guest_step env ctx op st)"
  have v: "grows w ?v" "faults ?v = []" using Cons.prems by (auto simp: confined_def)
  have rooted: "rooted (hc_base ctx)" by (simp add: hc_base_def rooted_path_of)
  have "confined env ctx w ?u"
    using guest_step_world[OF v(2) links_ok_grows[OF v(1) links] base no_exec here, of op]
  proof
    assume "\<exists>caps q c. cap_write_file (hc_capabilities ctx) = Some caps \<and> canonical q \<and>
      granted ?v (he_here env) (hc_base ctx) (write_path_allow caps) q \<and> wrote q c ?v ?u"
    then obtain caps q c where caps: "cap_write_file (hc_capabilities ctx) = Some caps" and q: "canonical q"
      and g: "granted ?v (he_here env) (hc_base ctx) (write_path_allow caps) q" and wr: "wrote q c ?v ?u"
      by blast
    have "granted w (he_here env) (hc_base ctx) (write_path_allow caps) q"
      using g granted_grows[OF v(1) links calm v(2) base rooted] by simp
    moreover have "grows w ?u" using v(1) wrote_grows[OF wr] by (rule grows_trans)
    moreover have "faults ?u = []" "frame {q} ?v ?u" using wr v(2) by (simp_all add: wrote_def)
    ultimately show ?thesis
      using Cons.prems caps q unfolding confined_def by (metis frame_look singletonD)
  qed (use Cons.prems in simp)
  then show ?case using Cons.IH[of "guest_step env ctx op st"] by (simp add: guest_run_def)
qed (simp add: guest_run_def)


definition demo_world :: world where
  "demo_world = \<lparr>nodes = [([RootDir, Normal ''w''], Directory), ([RootDir, Normal ''k''], Directory)],
     faults = [], nonces = [], pid = 1\<rparr>"

definition demo_host :: host_env where
  "demo_host = \<lparr>he_here = [RootDir], he_dir_len = (\<lambda>_. 1), he_mode = (\<lambda>_ _. 0x1ED),
     he_child = (\<lambda>_ w. (Child (\<lambda>_. Exited (Some 0)) ''long'' [], w))\<rparr>"

definition demo_caps :: capabilities where
  "demo_caps = \<lparr>cap_exec_subprocess = None, cap_read_file = Some [''/w''],
     cap_write_file = Some \<lparr>write_path_allow = [''w''], max_bytes_per_call = None\<rparr>, cap_read_prefix = None, cap_env_allow = []\<rparr>"

definition demo_context :: host_context where
  "demo_context = \<lparr>hc_plugin_name = ''p'', hc_plugin_version = [], hc_plugin_root = [], hc_session_id = [],
     hc_trace_id = [], hc_cwd = ''/'', hc_capabilities = demo_caps, hc_env_view = []\<rparr>"

definition demo_store :: "bytes \<Rightarrow> store_data" where
  "demo_store m = \<lparr>sd_memory = Some m, sd_limit = length m, sd_events = [], sd_otl = False, sd_world = demo_world\<rparr>"

lemma demo_links: "links_ok demo_world"
  by (simp add: links_ok_def demo_world_def look_def)


end
