(* ===== verification/HostMemory.thy ===== *)
theory HostMemory
  imports HostClaims
begin

text \<open>
  The plugin's memory: every host call leaves it well formed and changes old bytes only inside the windows the
  call names, and what a call hands over reads back in the plugin as the file or the subprocess had it.
\<close>

section \<open>Windows\<close>

text \<open>A well-formed store: whole pages, within a limit below 4 GiB.\<close>

definition wf_store :: "store_data \<Rightarrow> bool" where
  "wf_store st \<longleftrightarrow> sd_limit st < 2 ^ 32 \<and>
     (case sd_memory st of None \<Rightarrow> True | Some data \<Rightarrow> length data \<le> sd_limit st \<and> length data mod 65536 = 0)"

lemma wf_store_same: "sd_memory st' = sd_memory st \<Longrightarrow> sd_limit st' = sd_limit st \<Longrightarrow> wf_store st' = wf_store st"
  unfolding wf_store_def by (simp split: option.splits)

lemma wf_store_absorb [simp]: "wf_store (absorb evs w st) = wf_store st"
  by (rule wf_store_same) simp_all

type_synonym window = "nat \<times> nat"  \<comment> \<open>start and length\<close>

definition outside :: "window list \<Rightarrow> nat \<Rightarrow> bool" where
  "outside ws i \<longleftrightarrow> (\<forall>(s, n)\<in>set ws. i < s \<or> s + n \<le> i)"

definition mem_kept :: "window list \<Rightarrow> store_data \<Rightarrow> store_data \<Rightarrow> bool" where
  "mem_kept ws st st' \<longleftrightarrow> sd_limit st' = sd_limit st \<and>
     (case sd_memory st of None \<Rightarrow> sd_memory st' = None
      | Some data \<Rightarrow> (\<exists>data'. sd_memory st' = Some data' \<and> length data \<le> length data' \<and>
          (\<forall>i<length data. outside ws i \<longrightarrow> data' ! i = data ! i)))"

fun windows :: "guest_op \<Rightarrow> window list" where
  "windows (CallContext g out_ptr out_cap) = [(unat out_ptr, unat out_cap)]"
| "windows (CallEnv _ _ out_ptr out_cap) = [(unat out_ptr, unat out_cap)]"
| "windows (CallReadFile _ _ _ out_ptr_out out_len_out) = [(unat out_ptr_out, 4), (unat out_len_out, 4)]"
| "windows (CallReadPrefix _ _ _ out_ptr_out out_len_out) = [(unat out_ptr_out, 4), (unat out_len_out, 4)]"
| "windows (CallExec _ _ _ _ _ _ _ _ buf cap) = [(unat buf, unat cap)]"
| "windows _ = []"

lemma mem_kept_refl [simp, intro]: "mem_kept ws st st"
  by (simp add: mem_kept_def split: option.splits)

lemma mem_kept_same: "sd_memory st' = sd_memory st \<Longrightarrow> sd_limit st' = sd_limit st \<Longrightarrow> mem_kept ws st st'"
  by (simp add: mem_kept_def split: option.splits)

lemma mem_kept_trans: "mem_kept ws st st1 \<Longrightarrow> mem_kept ws st1 st2 \<Longrightarrow> mem_kept ws st st2"
  by (fastforce simp: mem_kept_def split: option.splits)

lemma mem_kept_mono: "mem_kept ws st st' \<Longrightarrow> set ws \<subseteq> set vs \<Longrightarrow> mem_kept vs st st'"
  unfolding mem_kept_def outside_def by (fastforce split: option.splits)

lemma overwrite_length [simp]: "start + length s \<le> length data \<Longrightarrow> length (overwrite start s data) = length data"
  by (simp add: overwrite_def)

lemma overwrite_nth:
  assumes "start + length s \<le> length data" "i < length data"
  shows "overwrite start s data ! i = (if start \<le> i \<and> i < start + length s then s ! (i - start) else data ! i)"
  using assms by (auto simp: overwrite_def nth_append min_def)

text \<open>One write.\<close>

lemma write_wasm_bytes_cases:
  assumes "write_wasm_bytes p c s st = (r, st')" "wf_store st"
  obtains (kept) "st' = st" "\<And>n. r = Inr n \<Longrightarrow> c < of_nat (length s)"
  | (written) data where "sd_memory st = Some data" "unat p + length s \<le> length data" "r = Inr (of_nat (length s))"
      "st' = st\<lparr>sd_memory := Some (overwrite (unat p) s data)\<rparr>" "length s \<le> unat c" "length s < 2 ^ 32"
proof (cases "c < of_nat (length s)")
  case True
  then show ?thesis using assms kept by (simp add: write_wasm_bytes_def)
next
  case small: False
  show ?thesis
  proof (cases "sd_memory st")
    case None
    then show ?thesis using assms small kept by (auto simp: write_wasm_bytes_def)
  next
    case (Some data)
    show ?thesis
    proof (cases "length data < unat p + length s")
      case True
      then show ?thesis using assms small Some kept by (auto simp: write_wasm_bytes_def)
    next
      case False
      then have len: "length s < 2 ^ 32" using assms(2) Some by (simp add: wf_store_def)
      then have "unat (of_nat (length s) :: u32) = length s" by (simp add: unat_of_nat take_bit_nat_eq_self)
      then have "length s \<le> unat c" using small by (simp add: word_less_nat_alt)
      then show ?thesis using assms(1) small Some False len written by (simp add: write_wasm_bytes_def)
    qed
  qed
qed

lemma write_wasm_bytes_kept:
  assumes "write_wasm_bytes p c s st = (r, st')" "wf_store st"
  shows "wf_store st' \<and> mem_kept [(unat p, unat c)] st st'"
  using assms
proof (cases rule: write_wasm_bytes_cases)
  case (written data)
  then have "wf_store st'" using assms(2) by (simp add: wf_store_def)
  moreover have "mem_kept [(unat p, unat c)] st st'"
    using written by (auto simp: mem_kept_def outside_def overwrite_nth)
  ultimately show ?thesis by simp
qed (use assms in auto)

lemma write_wasm_u32_kept:
  assumes "write_wasm_u32 p v st = (r, st')" "wf_store st"
  shows "wf_store st' \<and> mem_kept [(unat p, 4)] st st'"
proof -
  obtain a u where u: "write_wasm_bytes p 4 (le32 (unat v)) st = (a, u)" by fastforce
  have "st' = u" using assms(1) u by (simp add: write_wasm_u32_def split: sum.splits)
  then show ?thesis using write_wasm_bytes_kept[OF u assms(2)] by simp
qed

section \<open>Reading back\<close>

lemma seg_overwrite: "start + length s \<le> length data \<Longrightarrow> seg start (start + length s) (overwrite start s data) = s"
  by (simp add: seg_def overwrite_def)

lemma seg_overwrite_other:
  assumes "start + length s \<le> length data" "b \<le> start \<or> start + length s \<le> a" "b \<le> length data"
  shows "seg a b (overwrite start s data) = seg a b data"
proof (rule nth_equalityI)
  show len: "length (seg a b (overwrite start s data)) = length (seg a b data)" using assms(1) by (simp add: seg_def)
  fix i assume "i < length (seg a b (overwrite start s data))"
  then have i: "i < b - a" "a + i < length data" using assms(1) by (auto simp: seg_def)
  then have "seg a b (overwrite start s data) ! i = overwrite start s data ! (a + i)" using assms(1) by (simp add: seg_def)
  also have "\<dots> = data ! (a + i)" using i assms by (auto simp: overwrite_nth)
  also have "\<dots> = seg a b data ! i" using i by (simp add: seg_def)
  finally show "seg a b (overwrite start s data) ! i = seg a b data ! i" .
qed

text \<open>The SDK's side of a file call: the two out-parameters, then the bytes they name.\<close>

definition guest_u32 :: "bytes \<Rightarrow> u32 \<Rightarrow> u32" where
  "guest_u32 data p = of_nat (le_value (seg (unat p) (unat p + 4) data))"

definition read_owned_bytes :: "bytes \<Rightarrow> u32 \<Rightarrow> u32 \<Rightarrow> bytes" where
  "read_owned_bytes data ptr n = (if ptr = 0 \<or> n = 0 then [] else seg (unat ptr) (unat ptr + unat n) data)"

datatype host_error = ErrCapabilityDenied | ErrTimeout | ErrOutputTooLarge | ErrInvalidArgument | ErrNotFound | ErrOther i32

definition from_code :: "i32 \<Rightarrow> host_error" where
  "from_code code = (if code = - 1 then ErrCapabilityDenied else if code = - 2 then ErrTimeout
     else if code = - 3 then ErrOutputTooLarge else if code = - 4 then ErrInvalidArgument
     else if code = - 5 then ErrNotFound else ErrOther code)"

definition sdk_file_result :: "i32 \<Rightarrow> bytes \<Rightarrow> u32 \<Rightarrow> u32 \<Rightarrow> host_error + bytes" where
  "sdk_file_result code data out_ptr out_len = (if code <s 0 then Inl (from_code code)
     else Inr (read_owned_bytes data (guest_u32 data out_ptr) (guest_u32 data out_len)))"

lemma guest_u32_overwrite:
  "unat p + 4 \<le> length data \<Longrightarrow> n < 2 ^ 32 \<Longrightarrow> guest_u32 (overwrite (unat p) (le32 n) data) p = of_nat n"
  using seg_overwrite[of "unat p" "le32 n" data] by (simp add: guest_u32_def le_value_le32)

lemma guest_u32_other:
  "start + length s \<le> length data \<Longrightarrow> unat p + 4 \<le> start \<or> start + length s \<le> unat p \<Longrightarrow> unat p + 4 \<le> length data \<Longrightarrow>
     guest_u32 (overwrite start s data) p = guest_u32 data p"
  by (simp add: guest_u32_def seg_overwrite_other)

lemma pages_suffice: "(n::nat) \<le> 65536 * ((n + 65535) div 65536)"
proof -
  have "n + 65535 = 65536 * ((n + 65535) div 65536) + (n + 65535) mod 65536" by simp
  moreover have "(n + 65535) mod 65536 < 65536" by simp
  ultimately show ?thesis by linarith
qed

text \<open>Where the out-parameters of the SDK live: two disjoint cells of the memory.\<close>

definition out_cells :: "bytes \<Rightarrow> u32 \<Rightarrow> u32 \<Rightarrow> bool" where
  "out_cells data p n \<longleftrightarrow> unat p + 4 \<le> length data \<and> unat n + 4 \<le> length data \<and> (unat p + 4 \<le> unat n \<or> unat n + 4 \<le> unat p)"

lemma write_wasm_u32_fits:
  assumes "sd_memory st = Some data" "unat p + 4 \<le> length data"
  shows "write_wasm_u32 p v st = (Inr (), st\<lparr>sd_memory := Some (overwrite (unat p) (le32 (unat v)) data)\<rparr>)"
  using assms by (simp add: write_wasm_u32_def write_wasm_bytes_def)

text \<open>A delivery into such cells can only fail because the memory cannot grow; otherwise the SDK gets the body.\<close>

lemma deliver_result:
  assumes wf: "wf_store st" and mem: "sd_memory st = Some data" and cells: "out_cells data op ol"
    and len: "length body < 2 ^ 32" and run: "deliver body op ol st = (code, st')"
  shows "code = code_internal_error \<and> st' = st \<and> sd_limit st < length data + 65536 * ((length body + 65535) div 65536) \<or>
    code = code_ok \<and> (\<exists>data'. sd_memory st' = Some data' \<and> sdk_file_result code data' op ol = Inr body)"
proof -
  have in_cells: "unat op + 4 \<le> length data" "unat ol + 4 \<le> length data" "unat op + 4 \<le> unat ol \<or> unat ol + 4 \<le> unat op"
    using cells by (simp_all add: out_cells_def)
  show ?thesis
  proof (cases "body = []")
    case True
    let ?d1 = "overwrite (unat op) (le32 0) data" and ?d2 = "overwrite (unat ol) (le32 0) (overwrite (unat op) (le32 0) data)"
    have "write_wasm_u32 op 0 st = (Inr (), st\<lparr>sd_memory := Some ?d1\<rparr>)"
      using write_wasm_u32_fits[OF mem in_cells(1), of 0] by simp
    moreover have "write_wasm_u32 ol 0 (st\<lparr>sd_memory := Some ?d1\<rparr>) = (Inr (), st\<lparr>sd_memory := Some ?d1\<rparr>\<lparr>sd_memory := Some ?d2\<rparr>)"
      using write_wasm_u32_fits[of "st\<lparr>sd_memory := Some ?d1\<rparr>" ?d1 ol 0] in_cells by simp
    ultimately have "code = code_ok" "sd_memory st' = Some ?d2" using run True by (auto simp: deliver_def)
    moreover have "guest_u32 ?d2 ol = 0" using guest_u32_overwrite[of ol ?d1 0] in_cells by simp
    ultimately show ?thesis using True by (simp add: sdk_file_result_def read_owned_bytes_def code_ok_def)
  next
    case False
    let ?n = "(length body + 65535) div 65536"
    show ?thesis
    proof (cases "grow_memory ?n data st")
      case None
      then have "sd_limit st < length data + 65536 * ?n" by (simp add: grow_memory_def split: if_splits)
      then show ?thesis using None run False mem by (simp add: deliver_def)
    next
      case (Some g)
      note g = grow_memory_parts[OF Some]
      have small: "length data + 65536 * ?n < 2 ^ 32" using g wf by (simp add: wf_store_def)
      have fits: "length body \<le> 65536 * ?n" by (rule pages_suffice)
      have off: "unat (of_nat (length data) :: u32) = length data" "unat (of_nat (length body) :: u32) = length body"
        using small len by (simp_all add: unat_of_nat take_bit_nat_eq_self)
      let ?d0 = "data @ replicate (65536 * ?n) (CHR 0x00)"
      let ?d1 = "overwrite (length data) body ?d0"
      let ?d2 = "overwrite (unat op) (le32 (length data)) ?d1"
      let ?d3 = "overwrite (unat ol) (le32 (length body)) ?d2"
      have l0: "length data + length body \<le> length ?d0" using fits by simp
      have l1: "length ?d1 = length ?d0" using l0 by simp
      have in1: "unat op + 4 \<le> length ?d1" "unat ol + 4 \<le> length ?d1" using in_cells l1 by auto
      have l2: "length ?d2 = length ?d0" using in1 l1 by simp
      have "write_wasm_bytes (of_nat (length data)) (of_nat (length body)) body g =
          (Inr (of_nat (length body)), g\<lparr>sd_memory := Some ?d1\<rparr>)"
        using l0 g by (simp add: write_wasm_bytes_def off)
      moreover have "write_wasm_u32 op (of_nat (length data)) (g\<lparr>sd_memory := Some ?d1\<rparr>) =
          (Inr (), g\<lparr>sd_memory := Some ?d1\<rparr>\<lparr>sd_memory := Some ?d2\<rparr>)"
        using write_wasm_u32_fits[of "g\<lparr>sd_memory := Some ?d1\<rparr>" ?d1 op "of_nat (length data)"] in1(1) by (simp only: off) simp
      moreover have "write_wasm_u32 ol (of_nat (length body)) (g\<lparr>sd_memory := Some ?d1\<rparr>\<lparr>sd_memory := Some ?d2\<rparr>) =
          (Inr (), g\<lparr>sd_memory := Some ?d1\<rparr>\<lparr>sd_memory := Some ?d2\<rparr>\<lparr>sd_memory := Some ?d3\<rparr>)"
        using write_wasm_u32_fits[of "g\<lparr>sd_memory := Some ?d1\<rparr>\<lparr>sd_memory := Some ?d2\<rparr>" ?d2 ol "of_nat (length body)"] in1(2) l1 l2
        by (simp only: off) simp
      ultimately have "code = code_ok" "sd_memory st' = Some ?d3"
        using run False mem Some by (auto simp: deliver_def Let_def)
      moreover have "guest_u32 ?d3 ol = of_nat (length body)"
        using guest_u32_overwrite[of ol ?d2] in1 l1 l2 len by simp
      moreover have "guest_u32 ?d3 op = of_nat (length data)"
      proof -
        have "guest_u32 ?d3 op = guest_u32 ?d2 op" using guest_u32_other[of "unat ol" "le32 (length body)" ?d2 op] in_cells in1 l1 l2 by auto
        then show ?thesis using guest_u32_overwrite[of op ?d1 "length data"] in1 small by simp
      qed
      moreover have "seg (length data) (length data + length body) ?d3 = body"
      proof -
        have "seg (length data) (length data + length body) ?d3 = seg (length data) (length data + length body) ?d2"
          using seg_overwrite_other[of "unat ol" "le32 (length body)" ?d2] in_cells in1 l0 l1 l2 by simp
        also have "\<dots> = seg (length data) (length data + length body) ?d1"
          using seg_overwrite_other[of "unat op" "le32 (length data)" ?d1] in_cells in1 l0 l1 by simp
        also have "\<dots> = body" by (rule seg_overwrite[OF l0])
        finally show ?thesis .
      qed
      moreover have "(of_nat (length data) :: u32) \<noteq> 0" "(of_nat (length body) :: u32) \<noteq> 0"
        using off in_cells False by (metis add_is_0 le_zero_eq length_0_conv unat_0 zero_neq_numeral)+
      ultimately show ?thesis by (simp add: sdk_file_result_def read_owned_bytes_def off code_ok_def)
    qed
  qed
qed

section \<open>Every call keeps the memory in order\<close>

text \<open>A step that is not a computation: the store stays well formed, and old bytes outside the windows stay.\<close>

definition call_kept :: "window list \<Rightarrow> store_data \<Rightarrow> store_data \<Rightarrow> bool" where
  "call_kept ws st st' \<longleftrightarrow> wf_store st' \<and> mem_kept ws st st'"

lemma call_kept_refl [simp]: "wf_store st \<Longrightarrow> call_kept ws st st"
  by (simp add: call_kept_def)

lemma call_kept_trans: "call_kept ws st st1 \<Longrightarrow> (wf_store st1 \<Longrightarrow> call_kept ws st1 st2) \<Longrightarrow> call_kept ws st st2"
  unfolding call_kept_def using mem_kept_trans by blast

lemma call_kept_same: "wf_store st \<Longrightarrow> sd_memory st' = sd_memory st \<Longrightarrow> sd_limit st' = sd_limit st \<Longrightarrow> call_kept ws st st'"
  unfolding call_kept_def using wf_store_same[of st' st] mem_kept_same by blast

lemma call_kept_start:
  "sd_memory st1 = sd_memory st \<Longrightarrow> sd_limit st1 = sd_limit st \<Longrightarrow> call_kept ws st1 st' = call_kept ws st st'"
  by (simp add: call_kept_def mem_kept_def)

lemma write_bytes_call: "wf_store st \<Longrightarrow> call_kept [(unat p, unat c)] st (snd (write_wasm_bytes p c s st))"
  using write_wasm_bytes_kept[of p c s st] by (simp add: call_kept_def prod_eq_iff)

lemma write_u32_call: "wf_store st \<Longrightarrow> (unat p, 4) \<in> set ws \<Longrightarrow> call_kept ws st (snd (write_wasm_u32 p v st))"
  using write_wasm_u32_kept[of p v st] mem_kept_mono[of "[(unat p, 4)]" st _ ws] by (simp add: call_kept_def prod_eq_iff)

lemma call_kept_chain:
  assumes "call_kept vs st u" "call_kept ws u st'" "set ws \<subseteq> set vs"
  shows "call_kept vs st st'"
proof -
  have "mem_kept vs u st'" using assms(2,3) mem_kept_mono unfolding call_kept_def by blast
  moreover have "mem_kept vs st u" using assms(1) by (simp add: call_kept_def)
  ultimately have "mem_kept vs st st'" by (rule mem_kept_trans[rotated])
  then show ?thesis using assms(2) by (simp add: call_kept_def)
qed

lemma call_kept_widen:
  assumes "call_kept [(a, n)] st u" "n \<le> m" "(a, m) \<in> set vs"
  shows "call_kept vs st u"
proof -
  have "outside [(a, n)] i" if "outside vs i" for i
    using that assms(2,3) by (fastforce simp: outside_def)
  then show ?thesis using assms(1) by (auto simp: call_kept_def mem_kept_def split: option.splits)
qed

lemma deliver_call:
  assumes wf: "wf_store st"
  shows "call_kept [(unat op, 4), (unat ol, 4)] st (snd (deliver body op ol st))"
proof -
  let ?ws = "[(unat op, 4), (unat ol, 4)]"
  have two: "call_kept ?ws st (snd (write_wasm_u32 ol y (snd (write_wasm_u32 op x st))))" if "wf_store st" for x y st
  proof (rule call_kept_trans)
    show "call_kept ?ws st (snd (write_wasm_u32 op x st))" using that by (rule write_u32_call) simp
    show "wf_store (snd (write_wasm_u32 op x st)) \<Longrightarrow>
      call_kept ?ws (snd (write_wasm_u32 op x st)) (snd (write_wasm_u32 ol y (snd (write_wasm_u32 op x st))))"
      by (rule write_u32_call) simp_all
  qed
  show ?thesis
  proof (cases "body = []")
    case True
    then show ?thesis using two[OF wf, of 0 0] by (simp add: deliver_def Let_def)
  next
    case False
    show ?thesis
    proof (cases "sd_memory st")
      case None
      then show ?thesis using wf False by (simp add: deliver_def)
    next
      case (Some data)
      let ?n = "(length body + 65535) div 65536"
      show ?thesis
      proof (cases "grow_memory ?n data st")
        case None
        then show ?thesis using wf False Some by (simp add: deliver_def)
      next
        case g': (Some g)
        note g = grow_memory_parts[OF g']
        have wf_g: "wf_store g" using g wf Some by (auto simp: wf_store_def)
        have old: "call_kept ?ws st u" if "call_kept ((length data, length body) # ?ws) g u" for u
          using that g Some wf by (fastforce simp: call_kept_def mem_kept_def outside_def nth_append)
        have off: "unat (of_nat (length data) :: u32) = length data"
          using g wf by (simp add: wf_store_def unat_of_nat take_bit_nat_eq_self)
        obtain r u where u: "write_wasm_bytes (of_nat (length data)) (of_nat (length body)) body g = (r, u)" by fastforce
        have body_len: "unat (of_nat (length body) :: u32) \<le> length body" by (simp add: unat_of_nat)
        have "call_kept [(length data, unat (of_nat (length body) :: u32))] g u"
          using write_bytes_call[OF wf_g, of "of_nat (length data)" "of_nat (length body)" body] u by (simp add: off)
        then have u_kept: "call_kept ((length data, length body) # ?ws) g u"
          by (rule call_kept_widen[OF _ body_len]) simp
        have step: "call_kept ((length data, length body) # ?ws) g u'" if "call_kept ?ws u u'" for u'
          using u_kept that by (rule call_kept_chain) auto
        have wf_u: "wf_store u" using u_kept by (simp add: call_kept_def)
        obtain r1 v where v: "write_wasm_u32 op (of_nat (length data)) u = (r1, v)" by fastforce
        obtain r2 x where x: "write_wasm_u32 ol (of_nat (length body)) v = (r2, x)" by fastforce
        have v_kept: "call_kept ?ws u v" using write_u32_call[OF wf_u, of op ?ws "of_nat (length data)"] v by simp
        have x_kept: "call_kept ?ws u x" using two[OF wf_u, of "of_nat (length body)" "of_nat (length data)"] v x by simp
        have "snd (deliver body op ol st) \<in> {u, v, x}"
          using False Some g' u v x by (auto simp: deliver_def Let_def split: sum.splits)
        then have "call_kept ((length data, length body) # ?ws) g (snd (deliver body op ol st))"
          using u_kept step[OF v_kept] step[OF x_kept] by (elim insertE emptyE) (simp_all only:)
        then show ?thesis by (rule old)
      qed
    qed
  qed
qed

lemma exec_answer_call: "wf_store st \<Longrightarrow> call_kept [(unat buf, unat cap)] st (snd (exec_answer buf cap (r, evs, w) st))"
proof (cases r)
  case (Inr envelope)
  assume wf: "wf_store st"
  have wf': "wf_store (absorb evs w st)" using wf by simp
  show ?thesis
  proof (cases "cap < of_nat (length envelope)")
    case True
    then show ?thesis using wf Inr by (simp add: exec_answer_def call_kept_same)
  next
    case False
    have "snd (exec_answer buf cap (r, evs, w) st) = snd (write_wasm_bytes buf cap envelope (absorb evs w st))"
      using False Inr by (simp add: exec_answer_def split: prod.splits sum.splits)
    then show ?thesis
      using write_bytes_call[OF wf', of buf cap envelope] by (simp add: call_kept_start[of "absorb evs w st" st])
  qed
qed (simp add: exec_answer_def call_kept_same)

text \<open>
  Claim C18.  Host calls are memory safe: from a well-formed store, every call of the host, with any arguments,
  leaves a well-formed store (whole pages, within the limit, never smaller), and every byte of the old memory
  outside the output windows that the call names keeps its value.
\<close>

theorem host_calls_memory_safe:
  assumes wf: "wf_store st" and call: "\<And>m. op \<noteq> Compute m"
  shows "wf_store (guest_step env ctx op st) \<and> mem_kept (windows op) st (guest_step env ctx op st)"
proof -
  have "call_kept (windows op) st (guest_step env ctx op st)"
  proof (cases op)
    case (Compute m)
    then show ?thesis using call by simp
  next
    case (CallLog a b c)
    then show ?thesis using wf by (simp add: host_log_def call_kept_same split: sum.splits)
  next
    case (CallEmitEvent a b c d)
    then show ?thesis using wf by (simp add: host_emit_event_def Let_def call_kept_same split: sum.splits)
  next
    case (CallContext g a b)
    have "snd (context_reader ctx g a b st) = snd (write_wasm_bytes a b (context_text ctx g) st)"
      by (simp add: context_reader_def split: prod.splits sum.splits)
    then show ?thesis using write_bytes_call[OF wf, of a b] CallContext by simp
  next
    case (CallEnv a b c d)
    have "snd (host_env_call ctx a b c d st) \<in> {st} \<union> {st'. \<exists>evs. st' = emit_internal evs st} \<union>
        {st'. \<exists>v. st' = snd (write_wasm_bytes c d v st)}"
      by (auto simp: host_env_call_def split: prod.splits sum.splits option.splits) (metis snd_conv)+
    then show ?thesis using wf write_bytes_call[OF wf, of c d] CallEnv by (auto simp: call_kept_same)
  next
    case (CallReadFile a b c d e)
    have d: "call_kept [(unat d, 4), (unat e, 4)] st (snd (deliver body d e (absorb evs w st)))" for body evs w
      using deliver_call[of "absorb evs w st" d e body] wf by (simp add: call_kept_start[of "absorb evs w st" st])
    show ?thesis using wf d CallReadFile by (auto simp: host_read_file_def call_kept_same split: sum.splits prod.splits)
  next
    case (CallReadPrefix a b c d e)
    have d: "call_kept [(unat d, 4), (unat e, 4)] st (snd (deliver body d e (absorb evs w st)))" for body evs w
      using deliver_call[of "absorb evs w st" d e body] wf by (simp add: call_kept_start[of "absorb evs w st" st])
    show ?thesis using wf d CallReadPrefix by (auto simp: host_read_prefix_def call_kept_same split: sum.splits prod.splits)
  next
    case (CallWriteFile a b c d e)
    then show ?thesis using wf by (auto simp: host_write_file_def call_kept_same split: sum.splits prod.splits)
  next
    case (CallExec a b c d e f g h i j)
    show ?thesis
    proof (cases rule: host_exec_cases[of env ctx a b c d e f g h i j st])
      case bad
      then show ?thesis using wf CallExec by simp
    next
      case (ran cmd args stdin r evs w)
      then show ?thesis using exec_answer_call[OF wf] CallExec by simp
    qed
  qed
  then show ?thesis by (simp add: call_kept_def)
qed

section \<open>What the calls hand over\<close>



section \<open>Codes and the too-large flag\<close>

lemma path_gate_code: "path_gate env ctx call path caps w = (Inl code, evs, w') \<Longrightarrow> code = code_capability_denied"
  unfolding path_gate_def Let_def by (auto split: option.splits prod.splits path_allow_decision.splits)

lemma read_file_prepare_code:
  "read_file_prepare env ctx path n w = (Inl code, evs, w') \<Longrightarrow>
     code \<in> {code_capability_denied, code_output_too_large, code_not_found, code_internal_error}"
  by (auto simp: read_file_prepare_def dest: path_gate_code split: prod.splits sum.splits read_err.splits)

lemma read_prefix_prepare_code:
  "read_prefix_prepare env ctx path n w = (Inl code, evs, w') \<Longrightarrow>
     code \<in> {code_capability_denied, code_not_found, code_internal_error}"
  by (auto simp: read_prefix_prepare_def dest: path_gate_code split: prod.splits sum.splits read_err.splits if_splits)

lemma write_file_prepare_code:
  "write_file_prepare env ctx path c n w = (Inl code, evs, w') \<Longrightarrow>
     code \<in> {code_capability_denied, code_output_too_large, code_internal_error}"
  by (auto simp: write_file_prepare_def Let_def dest: path_gate_code split: prod.splits sum.splits if_splits)

lemma deliver_code: "deliver body op ol st = (code, st') \<Longrightarrow> code \<in> {code_ok, code_invalid_argument, code_internal_error}"
  by (auto simp: deliver_def Let_def split: prod.splits sum.splits option.splits if_splits)

lemma deliver_otl: "deliver body op ol st = (code, st') \<Longrightarrow> sd_otl st' = sd_otl st"
  using deliver_parts(2)[of body op ol st] by simp

lemma too_large_differs: "code_output_too_large \<noteq> code_ok" "code_output_too_large \<noteq> code_invalid_argument"
  "code_output_too_large \<noteq> code_internal_error"
  by (simp_all add: host_codes)

lemma host_read_file_cases:
  obtains (bad) "host_read_file env ctx a b c d e st = (code_invalid_argument, st)"
  | (denied) path code evs w where "read_file_prepare env ctx path c (sd_world st) = (Inl code, evs, w)"
      "host_read_file env ctx a b c d e st = (code, note_too_large code (absorb evs w st))"
  | (given) path body evs w where "read_file_prepare env ctx path c (sd_world st) = (Inr body, evs, w)"
      "host_read_file env ctx a b c d e st = deliver body d e (absorb evs w st)"
proof (cases "read_wasm_string st a b")
  case (Inr path)
  obtain r evs w where run: "read_file_prepare env ctx path c (sd_world st) = (r, evs, w)" by (metis prod.collapse)
  show ?thesis
  proof (cases r)
    case (Inl code)
    show ?thesis by (rule denied[OF run[unfolded Inl]]) (simp add: host_read_file_def Inr run Inl)
  next
    case body: (Inr body)
    show ?thesis by (rule given[OF run[unfolded body]]) (simp add: host_read_file_def Inr run body)
  qed
qed (use bad in \<open>simp add: host_read_file_def\<close>)

lemma host_read_prefix_cases:
  obtains (bad) "host_read_prefix env ctx a b c d e st = (code_invalid_argument, st)"
  | (denied) path code evs w where "read_prefix_prepare env ctx path c (sd_world st) = (Inl code, evs, w)"
      "host_read_prefix env ctx a b c d e st = (code, absorb evs w st)"
  | (given) path body evs w where "read_prefix_prepare env ctx path c (sd_world st) = (Inr body, evs, w)"
      "host_read_prefix env ctx a b c d e st = deliver body d e (absorb evs w st)"
proof (cases "read_wasm_string st a b")
  case (Inr path)
  obtain r evs w where run: "read_prefix_prepare env ctx path c (sd_world st) = (r, evs, w)" by (metis prod.collapse)
  show ?thesis
  proof (cases r)
    case (Inl code)
    show ?thesis by (rule denied[OF run[unfolded Inl]]) (simp add: host_read_prefix_def Inr run Inl)
  next
    case body: (Inr body)
    show ?thesis by (rule given[OF run[unfolded body]]) (simp add: host_read_prefix_def Inr run body)
  qed
qed (use bad in \<open>simp add: host_read_prefix_def\<close>)

lemma host_write_file_cases:
  obtains (bad) "host_write_file env ctx a b c d e st = (code_invalid_argument, st)"
  | (denied) path contents code evs w where "write_file_prepare env ctx path contents e (sd_world st) = (Inl code, evs, w)"
      "host_write_file env ctx a b c d e st = (code, note_too_large code (absorb evs w st))"
  | (stored) path contents evs w where "write_file_prepare env ctx path contents e (sd_world st) = (Inr (), evs, w)"
      "host_write_file env ctx a b c d e st = (code_ok, absorb evs w st)"
proof (cases "read_wasm_string st a b")
  case path: (Inr path)
  show ?thesis
  proof (cases "read_wasm_bytes st c d")
    case (Inr contents)
    obtain r evs w where run: "write_file_prepare env ctx path contents e (sd_world st) = (r, evs, w)" by (metis prod.collapse)
    show ?thesis
    proof (cases r)
      case (Inl code)
      show ?thesis by (rule denied[OF run[unfolded Inl]]) (simp add: host_write_file_def path Inr run Inl)
    next
      case u: (Inr u)
      have "write_file_prepare env ctx path contents e (sd_world st) = (Inr (), evs, w)" using run u by simp
      then show ?thesis by (rule stored) (simp add: host_write_file_def path Inr run u)
    qed
  qed (use bad path in \<open>simp add: host_write_file_def\<close>)
qed (use bad in \<open>simp add: host_write_file_def\<close>)

lemma read_file_answer:
  assumes run: "host_read_file env ctx a b c d e st = (code, st')"
  shows "code \<in> {code_ok, code_capability_denied, code_output_too_large, code_invalid_argument, code_not_found, code_internal_error} \<and>
    sd_otl st' = (sd_otl st \<or> code = code_output_too_large)"
proof (cases rule: host_read_file_cases[of env ctx a b c d e st])
  case bad
  then show ?thesis using run too_large_differs by auto
next
  case (denied path k evs w)
  then show ?thesis using run read_file_prepare_code[OF denied(1)] by (auto simp: note_too_large_def)
next
  case (given path body evs w)
  then have dl: "deliver body d e (absorb evs w st) = (code, st')" using run by simp
  show ?thesis using deliver_code[OF dl] deliver_otl[OF dl] too_large_differs by auto
qed

lemma read_prefix_answer:
  assumes run: "host_read_prefix env ctx a b c d e st = (code, st')"
  shows "code \<in> {code_ok, code_capability_denied, code_invalid_argument, code_not_found, code_internal_error} \<and>
    sd_otl st' = sd_otl st"
proof (cases rule: host_read_prefix_cases[of env ctx a b c d e st])
  case bad
  then show ?thesis using run by auto
next
  case (denied path k evs w)
  then show ?thesis using run read_prefix_prepare_code[OF denied(1)] by auto
next
  case (given path body evs w)
  then have dl: "deliver body d e (absorb evs w st) = (code, st')" using run by simp
  show ?thesis using deliver_code[OF dl] deliver_otl[OF dl] by auto
qed

lemma write_file_answer:
  assumes run: "host_write_file env ctx a b c d e st = (code, st')"
  shows "code \<in> {code_ok, code_capability_denied, code_output_too_large, code_invalid_argument, code_internal_error} \<and>
    sd_otl st' = (sd_otl st \<or> code = code_output_too_large)"
proof (cases rule: host_write_file_cases[of env ctx a b c d e st])
  case bad
  then show ?thesis using run too_large_differs by auto
next
  case (denied path contents k evs w)
  then show ?thesis using run write_file_prepare_code[OF denied(1)] by (auto simp: note_too_large_def)
next
  case (stored path contents evs w)
  then show ?thesis using run too_large_differs by auto
qed

text \<open>
  The answers of the file calls are the documented codes, under every fault schedule, and the
  too-large flag of the dispatcher is raised by \<^verbatim>\<open>read_file\<close> and \<^verbatim>\<open>write_file\<close> exactly when they answer -3;
  \<^verbatim>\<open>read_prefix\<close> never answers -3 and never raises it.
\<close>

theorem file_calls_answer:
  "(let (code, st') = host_read_file env ctx a b c d e st in
      code \<in> {code_ok, code_capability_denied, code_output_too_large, code_invalid_argument, code_not_found, code_internal_error} \<and>
      sd_otl st' = (sd_otl st \<or> code = code_output_too_large)) \<and>
   (let (code, st') = host_read_prefix env ctx a b c d e st in
      code \<in> {code_ok, code_capability_denied, code_invalid_argument, code_not_found, code_internal_error} \<and>
      sd_otl st' = sd_otl st) \<and>
   (let (code, st') = host_write_file env ctx a b c d e st in
      code \<in> {code_ok, code_capability_denied, code_output_too_large, code_invalid_argument, code_internal_error} \<and>
      sd_otl st' = (sd_otl st \<or> code = code_output_too_large))"
proof -
  obtain c1 s1 c2 s2 c3 s3 where "host_read_file env ctx a b c d e st = (c1, s1)"
    "host_read_prefix env ctx a b c d e st = (c2, s2)" "host_write_file env ctx a b c d e st = (c3, s3)"
    by (metis prod.collapse)
  then show ?thesis
    using read_file_answer[of env ctx a b c d e st c1 s1] read_prefix_answer[of env ctx a b c d e st c2 s2]
      write_file_answer[of env ctx a b c d e st c3 s3]
    by (simp only: Let_def prod.case)
qed

section \<open>The formats\<close>

text \<open>
  The formats of the two sides fit: what the SDK encodes as arguments or as event fields, the
  dispatcher decodes to the same strings in the same order.
\<close>

theorem formats_round_trip:
  assumes "\<forall>a\<in>set args. utf8_valid a \<and> length a < 2 ^ 32"
    and "\<forall>(k, v)\<in>set kvs. utf8_valid k \<and> utf8_valid v \<and> length k < 2 ^ 32 \<and> length v < 2 ^ 32"
  shows "decode_args (encode_args args) = Some args \<and> decode_fields (encode_fields kvs) = Inr kvs"
  using args_round_trip_core[OF assms(1)] fields_round_trip_core[OF assms(2)] by simp

theorem formats_round_trip_witness:
  "decode_args (encode_args [''a'', ''bc'']) = Some [''a'', ''bc''] \<and> decode_fields (encode_fields [(''k'', ''v'')]) = Inr [(''k'', ''v'')]"
  by (rule formats_round_trip) simp_all

section \<open>Runs\<close>

definition page_of :: "bytes \<Rightarrow> bytes" where
  "page_of s = s @ replicate (65536 - length s) (CHR 0x00)"

definition demo_file_world :: world where
  "demo_file_world = demo_world\<lparr>nodes := [([RootDir, Normal ''w'', Normal ''f''], File ''abc''), ([RootDir, Normal ''w''], Directory)]\<rparr>"

definition demo_page_store :: "bytes \<Rightarrow> store_data" where
  "demo_page_store s = \<lparr>sd_memory = Some (page_of s), sd_limit = 131072, sd_events = [], sd_otl = False,
     sd_world = demo_file_world\<rparr>"

lemma page_of_length: "length s \<le> 65536 \<Longrightarrow> length (page_of s) = 65536"
  by (simp add: page_of_def)

lemma demo_page_wf: "length s \<le> 65536 \<Longrightarrow> wf_store (demo_page_store s)"
  by (simp add: wf_store_def demo_page_store_def page_of_length)

lemma demo_read_string:
  "utf8_valid s \<Longrightarrow> length s < 65536 \<Longrightarrow> read_wasm_string (demo_page_store s) 0 (of_nat (length s)) = Inr s"
  by (simp add: read_wasm_string_def read_wasm_bytes_def demo_page_store_def page_of_length Let_def seg_def page_of_def
      unat_of_nat take_bit_nat_eq_self)

theorem host_calls_memory_safe_witness:
  "wf_store (guest_step demo_host demo_context (CallContext GetCwd 8 1) (demo_page_store ''/w/f'')) \<and>
   mem_kept [(unat (8 :: u32), unat (1 :: u32))] (demo_page_store ''/w/f'')
     (guest_step demo_host demo_context (CallContext GetCwd 8 1) (demo_page_store ''/w/f''))"
  using host_calls_memory_safe[OF demo_page_wf[of "''/w/f''"], of "CallContext GetCwd 8 1" demo_host demo_context] by simp

lemma demo_read_run: "read_file_prepare demo_host demo_context ''/w/f'' 10 demo_file_world = (Inr ''abc'', [], demo_file_world)"
  by code_simp


definition demo_exec_context :: host_context where
  "demo_exec_context = demo_context\<lparr>hc_capabilities := demo_caps\<lparr>cap_exec_subprocess :=
     Some \<lparr>binary_allow = [''git''], shell_bypass_acknowledged = None, cwd_allow = [], exec_env_allow = []\<rparr>\<rparr>\<rparr>"

definition demo_git_context :: host_context where
  "demo_git_context = demo_exec_context\<lparr>hc_env_view := [(''HOME'', ''/h'')]\<rparr>"

lemma demo_exec_run:
  "exec_run demo_host demo_git_context ''git'' [] [] 9 9 demo_file_world = (Inr (encode_envelope 0 ''long'' []), [], demo_file_world)"
  by code_simp


end
