(* ===== verification/HostLimits.thy ===== *)
theory HostLimits
  imports HostMemory
begin

text \<open>
  Where the host functions depart from what they promise, each shown on the model: links and faults that lead out of
  an allow list, a setuid check that does not see bare names, and sizes on which SDK and dispatcher disagree.
\<close>

text \<open>A dangling link below an allowed directory: the write creates its target, outside the allow list.\<close>

definition demo_link_world :: "path \<Rightarrow> (path \<times> node) list \<Rightarrow> fault option list \<Rightarrow> world" where
  "demo_link_world target extra fs = demo_world\<lparr>nodes := [([RootDir, Normal ''w''], Directory), ([RootDir, Normal ''k''], Directory),
     ([RootDir, Normal ''w'', Normal ''l''], Symlink target)] @ extra, faults := fs\<rparr>"

lemma dangling_write_escapes:
  "(let w = demo_link_world [RootDir, Normal ''k'', Normal ''x''] [] [];
        (r, evs, w') = write_file_prepare demo_host demo_context ''/w/l'' ''X'' 10 w
    in r = Inr () \<and> look w [RootDir, Normal ''k'', Normal ''x''] = None \<and>
       look w' [RootDir, Normal ''k'', Normal ''x''] = Some (File ''X''))"
  by code_simp

text \<open>One failing \<open>canonicalize\<close>: the name is taken for an absent file, and the read follows the link out.\<close>

lemma fault_read_escapes:
  "fst (read_file_prepare demo_host demo_context ''/w/l'' 10
      (demo_link_world [RootDir, Normal ''k'', Normal ''s''] [([RootDir, Normal ''k'', Normal ''s''], File ''secret'')] [])) =
     Inl code_capability_denied \<and>
   fst (read_file_prepare demo_host demo_context ''/w/l'' 10
      (demo_link_world [RootDir, Normal ''k'', Normal ''s''] [([RootDir, Normal ''k'', Normal ''s''], File ''secret'')] [Some (Fault 0)])) =
     Inr ''secret''"
  by code_simp

text \<open>A bare program name is looked up in the working directory, not on the search path, so its mode bits are not seen.\<close>

lemma setuid_bare_name:
  assumes "walk w (he_here env) (os_path_of cmd) = Absent q" "faults w = []"
  shows "refuse_setuid env cmd w = (False, w)"
  by (simp add: refuse_setuid_def fs_mode_def assms)

text \<open>
  The SDK's \<^verbatim>\<open>env\<close> offers 1024 bytes and never retries: for a longer value the host writes nothing and answers
  with the length, and the plugin takes its 1024 zero bytes for the value.
\<close>

definition sdk_env :: "i32 \<Rightarrow> bytes \<Rightarrow> host_error + string option" where
  "sdk_env written buf = (if written <s 0 then Inl (from_code written) else if written = 0 then Inr None
     else (let s = take (unat written) buf in Inr (Some (if utf8_valid s then s else []))))"

lemma utf8_valid_nuls: "utf8_valid (replicate n (CHR 0x00))"
  by (induction n) auto

lemma sdk_env_long:
  assumes "read_wasm_string st name_ptr name_len = Inr name" "name \<in> set (cap_env_allow (hc_capabilities ctx))"
    "map_of (hc_env_view ctx) name = Some v" "1024 < length v" "length v < 2 ^ 31"
  shows "host_env_call ctx name_ptr name_len out_ptr 1024 st = (of_nat (length v), st) \<and>
    sdk_env (of_nat (length v)) (replicate 1024 (CHR 0x00)) = Inr (Some (replicate 1024 (CHR 0x00)))"
proof -
  have n: "unat (of_nat (length v) :: u32) = length v" using assms(5) by (simp add: unat_of_nat take_bit_nat_eq_self)
  then have "(1024 :: u32) < of_nat (length v)" using assms(4) by (simp add: word_less_nat_alt)
  then have w: "write_wasm_bytes out_ptr 1024 v st = (Inr (of_nat (length v)), st)" by (simp add: write_wasm_bytes_def)
  have "list_ex (\<lambda>x. x = name) (cap_env_allow (hc_capabilities ctx))" using assms(2) by (auto simp: list_ex_iff)
  then have "host_env_call ctx name_ptr name_len out_ptr 1024 st = (of_nat (length v), st)"
    using assms(1,3) w by (simp add: host_env_call_def)
  moreover have "\<not> (of_nat (length v) :: u32) <s 0"
  proof -
    have "sint (of_nat (length v) :: i32) = int (length v)"
      using assms(5) by (simp add: sint_uint uint_nat n signed_take_bit_int_eq_self)
    then show ?thesis by (simp add: word_sless_alt)
  qed
  moreover have "(of_nat (length v) :: u32) \<noteq> 0" using n assms(4) by (metis not_less_zero unat_0)
  ultimately show ?thesis using assms(4) by (simp add: sdk_env_def n utf8_valid_nuls Let_def)
qed

lemma unat_of_nat_u32: "n < 2 ^ 32 \<Longrightarrow> unat (of_nat n :: u32) = n"
  by (simp add: unat_of_nat take_bit_nat_eq_self)

text \<open>Two outputs that each fit the cap but not together: the SDK's buffer has room for one of them only.\<close>

lemma exec_two_outputs_refused:
  assumes "length out \<le> unat m" "length err \<le> unat m" "unat m + 4 < length out + length err" "unat m < 2 ^ 30"
  shows "fst (exec_answer buf (m + 16) (Inr (encode_envelope code out err), evs, w) st) = code_output_too_large"
proof -
  have len: "length (encode_envelope code out err) = 12 + length out + length err" by (simp add: encode_envelope_def)
  have "unat (m + 16) = unat m + 16" using assms(4) by (simp add: unat_word_ariths)
  moreover have "unat (of_nat (length (encode_envelope code out err)) :: u32) = length (encode_envelope code out err)"
    by (rule unat_of_nat_u32) (use assms(1,2,4) len in simp)
  ultimately have "m + 16 < of_nat (length (encode_envelope code out err))"
    using assms(3) len by (simp add: word_less_nat_alt)
  then show ?thesis by (simp add: exec_answer_def)
qed

text \<open>The subprocess call can answer -3 without raising the flag: when an output is longer than the cap.\<close>

lemma exec_truncation_unflagged:
  assumes "exec_run env ctx cmd args stdin t m (sd_world st) = (Inl code_output_too_large, evs, w)"
  shows "exec_answer buf cap (exec_run env ctx cmd args stdin t m (sd_world st)) st = (code_output_too_large, absorb evs w st) \<and>
    sd_otl (absorb evs w st) = sd_otl st"
  using assms by (simp add: exec_answer_def)

text \<open>A child that prints four bytes, a cap of three: the plugin sees -3, the dispatcher does not.\<close>

lemma exec_truncation_example:
  "(let (code, st) = host_exec_subprocess demo_host demo_exec_context 0 3 3 0 0 0 9 3 0 0 (demo_store ''git'')
    in code = code_output_too_large \<and> \<not> sd_otl st)"
  by code_simp

end
