(* ===== verification/MutationGate.thy ===== *)
theory MutationGate
  imports ExecutorClaims ShardGate
begin

text \<open>
  The next-advance gate of the hook plugin \<^verbatim>\<open>validate-unvalidated-mutation-marker\<close>: while a quarantine marker is
  there it blocks every agent dispatch and every shell command that commits or pushes.  Parameters: the word
  splitting of \<^verbatim>\<open>shell_words\<close>, the TOML parser and the JSON printer.  The plugin runs with the project as its
  working directory.
\<close>

section \<open>Data\<close>

datatype gate_decision = GateAllow | GateBlocked string string string string
  \<comment> \<open>plugin name, artifact path, cause and trace of the marker\<close>

record gate_libs =
  gl_decode :: "string \<Rightarrow> (string \<times> toml) list option"
  gl_words :: "string \<Rightarrow> string list option"
  gl_print :: "json \<Rightarrow> string"

section \<open>The marker\<close>

definition decision_of_table :: "(string \<times> toml) list \<Rightarrow> gate_decision" where
  "decision_of_table table = GateBlocked
     (unwrap_or (table_str table ''plugin_name'') ''<unknown>'') (unwrap_or (table_str table ''artifact_path'') [])
     (unwrap_or (table_str table ''cause'') ''<unknown>'') (unwrap_or (table_str table ''trace_id'') [])"

definition evaluate_gate :: "gate_libs \<Rightarrow> path \<Rightarrow> world \<Rightarrow> gate_decision \<times> world" where
  "evaluate_gate libs marker_path w =
     (case fs_read_to_string marker_path w of
        (Inl NotFound, w) \<Rightarrow> (GateAllow, w)
      | (Inl _, w) \<Rightarrow> (GateAllow, w)
      | (Inr content, w) \<Rightarrow>
          ((case gl_decode libs content of
              None \<Rightarrow> GateBlocked ''<unparseable-marker>'' [] ''<unknown>'' []
            | Some table \<Rightarrow> decision_of_table table), w))"

section \<open>The command filter\<close>

text \<open>The bytes since the last operator, and the rest.\<close>

fun split_from :: "string \<Rightarrow> string \<Rightarrow> string list" where
  "split_from current [] = [current]"
| "split_from current (c # s) =
     (if c = CHR ''&'' \<and> s \<noteq> [] \<and> hd s = CHR ''&'' then current # split_from [] (tl s)
      else if c = CHR ''|'' \<and> s \<noteq> [] \<and> hd s = CHR ''|'' then current # split_from [] (tl s)
      else if c \<in> {CHR ''&'', CHR ''|'', CHR '';'', nl} then current # split_from [] s
      else split_from (current @ [c]) s)"

definition split_shell_segments :: "string \<Rightarrow> string list" where
  "split_shell_segments s = split_from [] s"

definition is_env_assignment :: "string \<Rightarrow> bool" where
  "is_env_assignment token = (case token of [] \<Rightarrow> False
     | c # cs \<Rightarrow> (is_ascii_alphabetic c \<or> c = CHR ''_'') \<and>
         (case dropWhile (\<lambda>c. c \<noteq> CHR ''='' \<and> (is_ascii_alphanumeric c \<or> c = CHR ''_'')) cs of
            [] \<Rightarrow> False | c # _ \<Rightarrow> c = CHR ''=''))"

definition basename :: "string \<Rightarrow> string" where
  "basename executable = (case rfind_char (CHR ''/'') executable of None \<Rightarrow> executable | Some p \<Rightarrow> drop (p + 1) executable)"

definition opts_arg_taking :: "string list" where
  "opts_arg_taking = [''-C'', ''-c'', ''--namespace'', ''--git-dir'', ''--work-tree'', ''--super-prefix'', ''--config-env'']"

definition opts_no_arg :: "string list" where
  "opts_no_arg = [''--no-pager'', ''--paginate'', ''-p'', ''--bare'', ''--literal-pathspecs'', ''--no-literal-pathspecs'',
     ''--glob-pathspecs'', ''--noglob-pathspecs'', ''--icase-pathspecs'', ''--no-replace-objects'', ''--no-optional-locks'',
     ''--exec-path'', ''--html-path'', ''--man-path'', ''--info-path'', ''--version'', ''--help'', ''-v'']"

text \<open>The tokens from the subcommand on; \<open>None\<close> when an option is unknown.\<close>

fun skip_options :: "string list \<Rightarrow> string list option" where
  "skip_options [] = Some []"
| "skip_options (token # rest) =
     (if token = ''--'' then Some rest
      else if \<not> starts_with ''-'' token then Some (token # rest)
      else if CHR ''='' \<in> set token then skip_options rest
      else if token \<in> set opts_arg_taking then (case rest of [] \<Rightarrow> Some [] | _ # rest' \<Rightarrow> skip_options rest')
      else if token \<in> set opts_no_arg then skip_options rest
      else None)"

definition advancing_subcommand :: "string list \<Rightarrow> bool" where
  "advancing_subcommand tokens = (case tokens of [] \<Rightarrow> False | t # _ \<Rightarrow> t = ''commit'' \<or> t = ''push'')"

definition evaluate_git_tokens :: "string list \<Rightarrow> bool" where
  "evaluate_git_tokens tokens =
     (case dropWhile is_env_assignment (if tokens \<noteq> [] \<and> hd tokens = ''env'' then tl tokens else tokens) of
        [] \<Rightarrow> False
      | executable # args \<Rightarrow>
          if basename executable \<noteq> ''git'' then False
          else (case skip_options args of None \<Rightarrow> True | Some rest \<Rightarrow> advancing_subcommand rest))"

definition evaluate_git_segment :: "gate_libs \<Rightarrow> string \<Rightarrow> bool" where
  "evaluate_git_segment libs segment =
     (case gl_words libs segment of None \<Rightarrow> True | Some tokens \<Rightarrow> evaluate_git_tokens tokens)"

definition is_git_commit_or_push :: "gate_libs \<Rightarrow> string \<Rightarrow> bool" where
  "is_git_commit_or_push libs command =
     list_ex (\<lambda>s. trim s \<noteq> [] \<and> evaluate_git_segment libs (trim s)) (split_shell_segments command)"

section \<open>The hook\<close>

definition block_report :: "string \<Rightarrow> string \<Rightarrow> string \<Rightarrow> string \<Rightarrow> json" where
  "block_report plugin_name artifact cause trace_id =
     (let q = [CHR 0x27] in JObj
       [(''blocked_by'', JStr ''validate-unvalidated-mutation-marker''),
        (''marker_plugin_name'', JStr plugin_name), (''marker_artifact_path'', JStr artifact),
        (''marker_cause'', JStr cause), (''marker_trace_id'', JStr trace_id),
        (''recovery'', JObj
          [(''tier_1_revalidate'', JStr (''Edit or re-write the artifact at '' @ q @ artifact @ q @ '' so that '' @ q @
              plugin_name @ q @ '' produces exit_code=0 on the next dispatch; this clears the quarantine via the REVALIDATED path'')),
           (''tier_2_ttl_expiry'', JStr ''If immediate re-validation is not possible, the quarantine auto-expires after 24 h via TTL_EXPIRED auto-clear''),
           (''tier_3_operator_break_glass'', JStr (''Human operator only: rm .factory/unvalidated-mutation.marker '' @ em_dash @
              '' this agent MUST NOT perform rm operations to bypass the gate''))])])"

definition on_pre_tool_use_impl :: "gate_libs \<Rightarrow> hook_payload \<Rightarrow> path \<Rightarrow> world \<Rightarrow> hook_result \<times> world" where
  "on_pre_tool_use_impl libs payload marker_path w =
     (if hp_tool_name payload = ''Bash'' \<and>
         \<not> is_git_commit_or_push libs (unwrap_or (jget_str ''command'' (hp_tool_input payload)) []) then (HookContinue, w)
      else (case evaluate_gate libs marker_path w of
          (GateAllow, w) \<Rightarrow> (HookContinue, w)
        | (GateBlocked plugin_name artifact cause trace_id, w) \<Rightarrow>
            (HookBlock (gl_print libs (block_report plugin_name artifact cause trace_id)), w)))"

definition on_pre_tool_use :: "gate_libs \<Rightarrow> path \<Rightarrow> hook_payload \<Rightarrow> world \<Rightarrow> hook_result \<times> world" where
  "on_pre_tool_use libs cwd payload w = on_pre_tool_use_impl libs payload (marker_path_in cwd) w"

section \<open>The segments of a command\<close>

text \<open>A command is its segments with operators between them, and no segment holds an operator.\<close>

definition shell_operators :: "string set" where
  "shell_operators = {''&&'', ''||'', ''&'', ''|'', '';'', [nl]}"

fun interleave :: "string list \<Rightarrow> string list \<Rightarrow> string" where
  "interleave [] ops = []"
| "interleave [s] ops = s"
| "interleave (s # ss) [] = s"
| "interleave (s # ss) (op # ops) = s @ op @ interleave ss ops"

definition operator_free :: "string \<Rightarrow> bool" where
  "operator_free s \<longleftrightarrow> set s \<inter> {CHR ''&'', CHR ''|'', CHR '';'', nl} = {}"

lemma split_from_nonempty: "split_from cur s \<noteq> []"
  by (induction cur s rule: split_from.induct) auto

lemma interleave_Cons: "ss \<noteq> [] \<Longrightarrow> interleave (s # ss) (op # ops) = s @ op @ interleave ss ops"
  by (cases ss) auto

lemma split_from_spec:
  "operator_free cur \<Longrightarrow> (\<forall>seg\<in>set (split_from cur s). operator_free seg) \<and>
   (\<exists>ops. set ops \<subseteq> shell_operators \<and> length (split_from cur s) = Suc (length ops) \<and>
      interleave (split_from cur s) ops = cur @ s)"
proof (induction cur s rule: split_from.induct)
  case (1 cur)
  then show ?case by (auto intro: exI[of _ "[]"])
next
  case (2 cur c s)
  have add: "\<exists>ops. set ops \<subseteq> shell_operators \<and> length (cur # split_from [] t) = Suc (length ops) \<and>
      interleave (cur # split_from [] t) ops = cur @ op @ t"
    if "\<exists>ops. set ops \<subseteq> shell_operators \<and> length (split_from [] t) = Suc (length ops) \<and> interleave (split_from [] t) ops = [] @ t"
      "op \<in> shell_operators" for op t
  proof -
    from that(1) obtain ops where "set ops \<subseteq> shell_operators" "length (split_from [] t) = Suc (length ops)"
      "interleave (split_from [] t) ops = t" unfolding append_Nil by blast
    then show ?thesis
      using that(2) split_from_nonempty by (intro exI[of _ "op # ops"]) (simp add: interleave_Cons)
  qed
  have free: "operator_free []" by (simp add: operator_free_def)
  consider (and2) t where "c = CHR ''&''" "s = CHR ''&'' # t" | (or2) t where "c = CHR ''|''" "s = CHR ''|'' # t"
    | (one) "c \<in> {CHR ''&'', CHR ''|'', CHR '';'', nl}" "\<not> (c = CHR ''&'' \<and> s \<noteq> [] \<and> hd s = CHR ''&'')"
        "\<not> (c = CHR ''|'' \<and> s \<noteq> [] \<and> hd s = CHR ''|'')"
    | (plain) "c \<notin> {CHR ''&'', CHR ''|'', CHR '';'', nl}"
    by (cases s) auto
  then show ?case
  proof cases
    case and2
    then show ?thesis using 2(1)[OF _ free] add[of "tl s" "''&&''"] 2(5) by (auto simp: shell_operators_def)
  next
    case or2
    then show ?thesis using 2(2)[OF _ _ free] add[of "tl s" "''||''"] 2(5) by (auto simp: shell_operators_def)
  next
    case one
    then have "[c] \<in> shell_operators" by (auto simp: shell_operators_def)
    then show ?thesis using 2(3)[OF one(2,3,1) free] add[of s "[c]"] 2(5) one by auto
  next
    case plain
    then have "operator_free (cur @ [c])" using 2(5) by (auto simp: operator_free_def)
    then show ?thesis using 2(4) plain by auto
  qed
qed

lemma segments_spec:
  "(\<forall>seg\<in>set (split_shell_segments s). operator_free seg) \<and>
   (\<exists>ops. set ops \<subseteq> shell_operators \<and> length (split_shell_segments s) = Suc (length ops) \<and>
      interleave (split_shell_segments s) ops = s)"
  using split_from_spec[of "[]" s] by (simp add: split_shell_segments_def operator_free_def)

section \<open>The grammar of the filter\<close>

text \<open>The options the filter knows, with their arguments.\<close>

inductive option_run :: "string list \<Rightarrow> bool" where
  no_options: "option_run []"
| inline_option: "starts_with ''-'' opt \<Longrightarrow> CHR ''='' \<in> set opt \<Longrightarrow> option_run opts \<Longrightarrow> option_run (opt # opts)"
| argument_option: "opt \<in> set opts_arg_taking \<Longrightarrow> option_run opts \<Longrightarrow> option_run (opt # arg # opts)"
| flag_option: "opt \<in> set opts_no_arg \<Longrightarrow> option_run opts \<Longrightarrow> option_run (opt # opts)"

inductive_simps option_run_simps: "option_run []" "option_run (opt # opts)"

definition unknown_option :: "string \<Rightarrow> bool" where
  "unknown_option t \<longleftrightarrow> starts_with ''-'' t \<and> t \<noteq> ''--'' \<and> CHR ''='' \<notin> set t \<and> t \<notin> set opts_arg_taking \<and> t \<notin> set opts_no_arg"

text \<open>What makes the filter answer after the options: a commit or push, plain or after the end of the options, or
  an option of unknown arity.\<close>

definition reaches_advance :: "string list \<Rightarrow> bool" where
  "reaches_advance rest \<longleftrightarrow> advancing_subcommand rest \<or>
     (\<exists>t ts. rest = t # ts \<and> (t = ''--'' \<and> advancing_subcommand ts \<or> unknown_option t))"

lemma known_options:
  "t \<in> set opts_arg_taking \<Longrightarrow> starts_with ''-'' t \<and> t \<noteq> ''--'' \<and> CHR ''='' \<notin> set t \<and> t \<noteq> ''commit'' \<and> t \<noteq> ''push''"
  "t \<in> set opts_no_arg \<Longrightarrow> starts_with ''-'' t \<and> t \<noteq> ''--'' \<and> CHR ''='' \<notin> set t \<and> t \<notin> set opts_arg_taking \<and>
     t \<noteq> ''commit'' \<and> t \<noteq> ''push''"
  by (auto simp: opts_arg_taking_def opts_no_arg_def)

definition filter_args :: "string list \<Rightarrow> bool" where
  "filter_args args \<longleftrightarrow> (case skip_options args of None \<Rightarrow> True | Some rest \<Rightarrow> advancing_subcommand rest)"

lemma advancing_Cons [simp]: "\<not> advancing_subcommand []" "advancing_subcommand (t # ts) \<longleftrightarrow> t = ''commit'' \<or> t = ''push''"
  by (simp_all add: advancing_subcommand_def)

lemma reaches_skip: "reaches_advance rest \<Longrightarrow> filter_args rest"
proof (cases rest)
  case (Cons t ts)
  assume r: "reaches_advance rest"
  consider "t = ''commit'' \<or> t = ''push''" | "t = ''--''" "advancing_subcommand ts" | "unknown_option t"
    using r Cons by (auto simp: reaches_advance_def)
  then show ?thesis
  proof cases
    case 1
    then have "t \<noteq> ''--''" "\<not> starts_with ''-'' t" by auto
    then show ?thesis using 1 Cons by (simp add: filter_args_def)
  qed (simp_all add: Cons filter_args_def unknown_option_def)
qed (simp add: reaches_advance_def)

lemma option_run_skip: "option_run opts \<Longrightarrow> filter_args rest \<Longrightarrow> filter_args (opts @ rest)"
  by (induction rule: option_run.induct) (auto simp: filter_args_def dest: known_options)

lemma skip_option_run:
  "filter_args args \<Longrightarrow> \<exists>opts rest. args = opts @ rest \<and> option_run opts \<and> reaches_advance rest"
proof (induction args rule: skip_options.induct)
  case 1
  then show ?case by (simp add: filter_args_def)
next
  case (2 token rest)
  have here: "reaches_advance (token # rest) \<Longrightarrow> ?case" using no_options by (metis append_Nil)
  have more: ?case if "\<exists>opts ts. args = opts @ ts \<and> option_run opts \<and> reaches_advance ts" "token # rest = pre @ args"
    "\<And>opts. option_run opts \<Longrightarrow> option_run (pre @ opts)" for pre args
    using that by (metis append.assoc)
  consider (rest) "token = ''--''" | (positional) "\<not> starts_with ''-'' token"
    | (inline) "token \<noteq> ''--''" "starts_with ''-'' token" "CHR ''='' \<in> set token"
    | (arg) "token \<in> set opts_arg_taking" | (flag) "token \<in> set opts_no_arg" | (unknown) "unknown_option token"
    by (auto simp: unknown_option_def)
  then show ?case
  proof cases
    case rest
    then show ?thesis using 2(4) here by (simp add: filter_args_def reaches_advance_def)
  next
    case positional
    then have "token \<noteq> ''--''" by auto
    then show ?thesis using 2(4) here positional by (simp add: filter_args_def reaches_advance_def)
  next
    case inline
    then have "filter_args rest" using 2(4) by (simp add: filter_args_def)
    then show ?thesis using 2(1) inline more[of rest "[token]"] inline_option by simp
  next
    case arg
    note k = known_options(1)[OF arg]
    then obtain a rest' where r: "rest = a # rest'" "filter_args rest'"
      using 2(4) arg by (auto simp: filter_args_def split: list.splits)
    then show ?thesis using 2(2)[OF _ _ _ arg r(1,2)] k more[of rest' "[token, a]"] argument_option[OF arg] by simp
  next
    case flag
    note k = known_options(2)[OF flag]
    then have "filter_args rest" using 2(4) flag by (simp add: filter_args_def)
    then show ?thesis using 2(3) k flag more[of rest "[token]"] flag_option by simp
  next
    case unknown
    then show ?thesis using here by (auto simp: reaches_advance_def)
  qed
qed

lemma filter_args_iff: "filter_args args \<longleftrightarrow> (\<exists>opts rest. args = opts @ rest \<and> option_run opts \<and> reaches_advance rest)"
  using skip_option_run option_run_skip reaches_skip by blast

text \<open>A command line of the shell that runs git: \<open>env\<close> or nothing, assignments, the program, its options.\<close>

definition advancing_line :: "string list \<Rightarrow> bool" where
  "advancing_line tokens \<longleftrightarrow> (\<exists>env assigns executable opts rest. tokens = env @ assigns @ executable # opts @ rest \<and>
     env \<in> {[], [''env'']} \<and> list_all is_env_assignment assigns \<and> \<not> is_env_assignment executable \<and>
     basename executable = ''git'' \<and> option_run opts \<and> reaches_advance rest)"

lemma drop_assignments:
  "dropWhile is_env_assignment ts = exe # args \<longleftrightarrow>
   (\<exists>assigns. ts = assigns @ exe # args \<and> list_all is_env_assignment assigns \<and> \<not> is_env_assignment exe)"
proof
  assume d: "dropWhile is_env_assignment ts = exe # args"
  then have "\<not> is_env_assignment exe" by (metis hd_dropWhile list.sel(1) list.simps(3))
  moreover have "list_all is_env_assignment (takeWhile is_env_assignment ts)"
    by (auto simp: list_all_iff dest: set_takeWhileD)
  ultimately show "\<exists>assigns. ts = assigns @ exe # args \<and> list_all is_env_assignment assigns \<and> \<not> is_env_assignment exe"
    using d by (metis takeWhile_dropWhile_id)
qed (auto simp: list_all_iff)

lemma env_token: "\<not> is_env_assignment ''env''" "basename ''env'' = ''env''" by code_simp+

lemma line_cases:
  "(case ts of [] \<Rightarrow> False | executable # args \<Rightarrow> if basename executable \<noteq> ''git'' then False
      else (case skip_options args of None \<Rightarrow> True | Some rest \<Rightarrow> advancing_subcommand rest)) \<longleftrightarrow>
   (\<exists>exe args. ts = exe # args \<and> basename exe = ''git'' \<and> filter_args args)"
  by (cases ts) (simp_all add: filter_args_def)

lemma tokens_iff: "evaluate_git_tokens tokens \<longleftrightarrow> advancing_line tokens"
proof -
  let ?ts = "if tokens \<noteq> [] \<and> hd tokens = ''env'' then tl tokens else tokens"
  have "evaluate_git_tokens tokens \<longleftrightarrow>
      (\<exists>exe args. dropWhile is_env_assignment ?ts = exe # args \<and> basename exe = ''git'' \<and> filter_args args)"
    unfolding evaluate_git_tokens_def by (rule line_cases)
  also have "\<dots> \<longleftrightarrow> (\<exists>assigns exe args. ?ts = assigns @ exe # args \<and> list_all is_env_assignment assigns \<and>
      \<not> is_env_assignment exe \<and> basename exe = ''git'' \<and> filter_args args)"
    unfolding drop_assignments by blast
  also have "\<dots> \<longleftrightarrow> (\<exists>env assigns exe args. tokens = env @ assigns @ exe # args \<and> env \<in> {[], [''env'']} \<and>
      list_all is_env_assignment assigns \<and> \<not> is_env_assignment exe \<and> basename exe = ''git'' \<and> filter_args args)"
    (is "?l \<longleftrightarrow> ?r")
  proof
    assume ?l
    then show ?r by (cases tokens) (auto split: if_splits, (metis append_Nil append_Cons)+)
  next
    assume ?r
    then obtain env assigns exe args where r: "tokens = env @ assigns @ exe # args" "env \<in> {[], [''env'']}"
      "list_all is_env_assignment assigns" "\<not> is_env_assignment exe" "basename exe = ''git''" "filter_args args" by blast
    have "?ts = assigns @ exe # args"
    proof (cases "env = []")
      case True
      then have "hd tokens \<noteq> ''env''" using r env_token by (cases assigns) auto
      then show ?thesis using r True by simp
    qed (use r in auto)
    then show ?l using r by blast
  qed
  also have "\<dots> \<longleftrightarrow> advancing_line tokens"
    unfolding advancing_line_def filter_args_iff by blast
  finally show ?thesis .
qed

text \<open>
  Claim C24.  The filter accepts exactly the language it documents: a command is gated when one of its segments does
  not split into words, or splits into a line that runs git, by any path, after assignments and known options, with
  the subcommand commit or push or with an option of unknown arity.  The segments are the operator-free parts of
  the command between shell operators.
\<close>

theorem git_filter_exact:
  "(is_git_commit_or_push libs command \<longleftrightarrow> (\<exists>s. s \<in> set (split_shell_segments command) \<and> trim s \<noteq> [] \<and>
     (gl_words libs (trim s) = None \<or> (\<exists>tokens. gl_words libs (trim s) = Some tokens \<and> advancing_line tokens)))) \<and>
   list_all operator_free (split_shell_segments command) \<and>
   (\<exists>ops. set ops \<subseteq> shell_operators \<and> length (split_shell_segments command) = Suc (length ops) \<and>
      interleave (split_shell_segments command) ops = command)"
proof -
  have "is_git_commit_or_push libs command \<longleftrightarrow> (\<exists>s. s \<in> set (split_shell_segments command) \<and> trim s \<noteq> [] \<and>
     (gl_words libs (trim s) = None \<or> (\<exists>tokens. gl_words libs (trim s) = Some tokens \<and> advancing_line tokens)))"
    by (auto simp: is_git_commit_or_push_def list_ex_iff evaluate_git_segment_def tokens_iff split: option.splits)
  then show ?thesis using segments_spec[of command] by (simp add: list_all_iff)
qed

text \<open>Operators inside quotes cut a segment in the middle of the quote, so a harmless command does not split into
  words and is gated; \<open>env\<close> with an option hides the program.\<close>

lemma quoted_operator_is_gated:
  assumes "gl_words libs (''echo '' @ [quote] @ ''a'') = None"
  shows "is_git_commit_or_push libs (''echo '' @ [quote] @ ''a; b'' @ [quote])"
proof -
  have "split_shell_segments (''echo '' @ [quote] @ ''a; b'' @ [quote]) = [''echo '' @ [quote] @ ''a'', '' b'' @ [quote]]"
    "trim (''echo '' @ [quote] @ ''a'') = ''echo '' @ [quote] @ ''a''"
    by code_simp+
  then show ?thesis using assms by (simp add: is_git_commit_or_push_def evaluate_git_segment_def quote_def)
qed

lemma env_option_passes: "\<not> evaluate_git_tokens [''env'', ''-i'', ''git'', ''commit'']"
  by code_simp

section \<open>The gate during a quarantine\<close>

lemma evaluate_gate_calm:
  assumes "faults w = []" "look w p = Some (File c)" "utf8_valid c"
  shows "evaluate_gate libs p w = ((case gl_decode libs c of
      None \<Rightarrow> GateBlocked ''<unparseable-marker>'' [] ''<unknown>'' [] | Some table \<Rightarrow> decision_of_table table), w)"
proof -
  have "fs_read_to_string p w = (Inr c, w)"
    using assms by (simp add: fs_read_to_string_def fs_read_def get_node_follow_plain get_node_def)
  then show ?thesis by (simp add: evaluate_gate_def)
qed

lemma evaluate_gate_absent:
  assumes "faults w = []" "look w p = None"
  shows "evaluate_gate libs p w = (GateAllow, w)"
proof -
  obtain k where "fs_read_to_string p w = (Inl k, w)"
    using assms by (simp add: fs_read_to_string_def fs_read_def get_node_follow_plain get_node_def)
  then show ?thesis by (cases k) (simp_all add: evaluate_gate_def)
qed

lemma decision_of_fields:
  "fields_of_table table = Some mf \<Longrightarrow> decision_of_table table =
   GateBlocked (mf_plugin_name mf) (mf_artifact_path mf) (mf_cause mf) (mf_trace_id mf)"
  by (auto simp: fields_of_table_def decision_of_table_def unwrap_or_def split: option.splits)

definition gated_call :: "gate_libs \<Rightarrow> hook_payload \<Rightarrow> bool" where
  "gated_call libs payload \<longleftrightarrow> hp_tool_name payload = ''Bash'' \<longrightarrow>
     is_git_commit_or_push libs (unwrap_or (jget_str ''command'' (hp_tool_input payload)) [])"

lemma marker_read_calm:
  assumes "faults w = []" "look w (marker_path_in cwd) = Some (File c)" "utf8_valid c"
    and "Option.bind (me_decode env c) fields_of_table = Some mf"
  shows "read_all_marker_fields env (marker_path_in cwd) w = (Inr (Some mf), w)"
  using assms by (simp add: read_all_marker_fields_def fs_read_to_string_def fs_read_def get_node_follow_plain get_node_def)

lemma precheck_calm:
  assumes "faults w = []" "look w (marker_path_in (xc_cwd x)) = Some (File c)" "utf8_valid c"
    and "Option.bind (me_decode (xc_env x) c) fields_of_table = Some mf" "me_rfc3339 (xc_env x) (mf_expires_at mf) = Some t"
    and "entry_on_error (xc_defaults x) e = BlockIfMarker"
  shows "snd (precheck_marker x e now w) = (if now < t then w else del (marker_path_in (xc_cwd x)) w)"
proof -
  let ?p = "marker_path_in (xc_cwd x)"
  have "fs_remove_file ?p w = (Inr (), del ?p w)" using assms(1,2) by (simp add: fs_remove_file_def)
  moreover have "fs_metadata ?p w = (Inr (File c), w)"
    using assms(1,2) by (simp add: fs_metadata_def get_node_follow_plain get_node_def)
  ultimately show ?thesis
    using marker_read_calm[OF assms(1-4)] assms(5,6)
    by (simp add: precheck_marker_def check_and_clear_expired_marker_def reconcile_raw_delete_def Let_def)
qed


definition unary_libs :: gate_libs where
  "unary_libs = \<lparr>gl_decode = me_decode unary_marker_env, gl_words = (\<lambda>s. Some [s]), gl_print = (\<lambda>_. ''report'')\<rparr>"


text \<open>A marker that lacks a field is never cleared by the pre-check: after its expiry the dispatcher no longer counts it,
  but the plugin still blocks.\<close>

lemma incomplete_marker_outlives_expiry:
  assumes "faults w = []" "look w (marker_path_in (xc_cwd x)) = Some (File c)" "utf8_valid c"
    and "me_decode (xc_env x) c = Some table" "fields_of_table table = None"
    and "table_str table ''expires_at'' = Some e_at" "me_rfc3339 (xc_env x) e_at = Some t" "t \<le> now"
    and "gl_decode libs = me_decode (xc_env x)" "gated_call libs payload"
  shows "\<not> fst (block_if_marker_check (xc_env x) (xc_cwd x) now w)"
    "snd (precheck_marker x e now w) = w"
    "\<exists>report. on_pre_tool_use libs (xc_cwd x) payload w = (HookBlock report, w)"
proof -
  let ?p = "marker_path_in (xc_cwd x)"
  have read: "fs_read_to_string ?p w = (Inr c, w)"
    using assms(1-3) by (simp add: fs_read_to_string_def fs_read_def get_node_follow_plain get_node_def)
  show "\<not> fst (block_if_marker_check (xc_env x) (xc_cwd x) now w)"
    using read assms(4,6-8) by (simp add: block_if_marker_check_def parse_expires_at_def)
  have "fs_metadata ?p w = (Inr (File c), w)"
    using assms(1,2) by (simp add: fs_metadata_def get_node_follow_plain get_node_def)
  then show "snd (precheck_marker x e now w) = w"
    using read assms(4,5)
    by (simp add: precheck_marker_def check_and_clear_expired_marker_def read_all_marker_fields_def reconcile_raw_delete_def Let_def)
  show "\<exists>report. on_pre_tool_use libs (xc_cwd x) payload w = (HookBlock report, w)"
    using evaluate_gate_calm[OF assms(1-3), of libs] assms(4,9,10)
    by (auto simp: on_pre_tool_use_def on_pre_tool_use_impl_def gated_call_def decision_of_table_def)
qed

end
