(* ===== verification/LockGuard.thy ===== *)
theory LockGuard
  imports FactoryLockClaims ShardGate "HOL-Library.Sublist"
begin

text \<open>
  The hook plugin \<^verbatim>\<open>verify-factory-lock\<close>: it reads the lock of \<^verbatim>\<open>STATE.md\<close> before a mutating call and blocks
  everyone but the holder while the lock has not expired.  The host calls are parameters, as in the source; the
  result comes with the warnings in their order.  The wrappers that rename the errors of \<^verbatim>\<open>factory-lock-parse\<close> are
  identities here.
\<close>

section \<open>The filter for shell commands\<close>

definition is_ascii_whitespace :: "char \<Rightarrow> bool" where
  "is_ascii_whitespace c \<longleftrightarrow> c \<in> {CHR 0x09, CHR 0x0A, CHR 0x0C, CHR 0x0D, CHR 0x20}"

fun tokens_from :: "string \<Rightarrow> string \<Rightarrow> string list" where
  "tokens_from current [] = (if current = [] then [] else [current])"
| "tokens_from current (c # s) =
     (if is_ascii_whitespace c then (if current = [] then tokens_from [] s else current # tokens_from [] s)
      else tokens_from (current @ [c]) s)"

definition split_ascii_whitespace :: "string \<Rightarrow> string list" where
  "split_ascii_whitespace s = tokens_from [] s"

text \<open>\<open>iter().position\<close> and the tail after it.\<close>

fun word_position :: "string \<Rightarrow> string list \<Rightarrow> nat option" where
  "word_position t [] = None"
| "word_position t (x # xs) = (if x = t then Some 0 else map_option Suc (word_position t xs))"

definition matches_factory_artifacts_push :: "string \<Rightarrow> bool" where
  "matches_factory_artifacts_push command =
     (let tokens = split_ascii_whitespace command in
      case word_position ''git'' tokens of
        None \<Rightarrow> False
      | Some git_idx \<Rightarrow>
     (case word_position ''push'' (drop (git_idx + 1) tokens) of
        None \<Rightarrow> False
      | Some i \<Rightarrow> (let push_idx = git_idx + 1 + i in ''factory-artifacts'' \<in> set (drop (push_idx + 1) tokens))))"

section \<open>The guard\<close>

definition state_md_prefix_bytes :: u32 where "state_md_prefix_bytes = 262144"
definition read_timeout_ms :: u32 where "read_timeout_ms = 5000"

record guard_callbacks =
  gc_read_prefix :: "string \<Rightarrow> u32 \<Rightarrow> u32 \<Rightarrow> string + bytes"
  gc_exec_subprocess :: "string list \<Rightarrow> string + (int \<times> string)"

record guard_libs =
  gd_lock :: lock_env
  gd_utf8_error :: "bytes \<Rightarrow> string"  \<comment> \<open>the text of a failed UTF-8 check\<close>

definition format_time_remaining :: "int \<Rightarrow> int \<Rightarrow> string" where
  "format_time_remaining expires now =
     (let total_seconds = max ((expires - now) div nanos) 0; minutes = total_seconds div 60 in
      show_nat (nat minutes) @ '' min remaining'')"

definition build_block_message :: "string \<Rightarrow> string \<Rightarrow> string \<Rightarrow> string \<Rightarrow> string" where
  "build_block_message lock_holder locked expires time_remaining =
     ''BLOCKED by verify-factory-lock: factory-artifacts branch is locked by '' @ lock_holder @ ''.'' @ [nl] @
     ''locked_at: '' @ locked @ [nl] @ ''expires_at: '' @ expires @ '' ('' @ time_remaining @ '')'' @ [nl] @
     ''To break the lock: /factory-unlock --force''"

definition is_expired :: "int \<Rightarrow> int \<Rightarrow> bool" where
  "is_expired now expires \<longleftrightarrow> now \<ge> expires"

text \<open>The text for the parser: the front matter with a delimiter of its own, or all of it.\<close>

definition guard_content :: "guard_libs \<Rightarrow> bytes \<Rightarrow> string + string" where
  "guard_content libs state_bytes =
     (let frontmatter = extract_frontmatter state_bytes in
      if length frontmatter < length state_bytes then
        (let parse_input = frontmatter @ [nl] @ dashes @ [nl] in
         if utf8_valid parse_input then Inr parse_input
         else Inl (''StateReadError: STATE.md frontmatter is not valid UTF-8: '' @ gd_utf8_error libs parse_input))
      else if utf8_valid state_bytes then Inr state_bytes
      else Inl (''StateReadError: STATE.md is not valid UTF-8: '' @ gd_utf8_error libs state_bytes))"

text \<open>Who calls, or the warning that says why nobody knows.\<close>

definition guard_identity :: "guard_libs \<Rightarrow> guard_callbacks \<Rightarrow> string + string" where
  "guard_identity libs callbacks =
     (case gc_exec_subprocess callbacks [''git'', ''config'', ''user.email''] of
        Inl e \<Rightarrow> Inl (if contains ''CapabilityDenied'' e then ''capability_denied: exec_subprocess ('' @ e @ '')''
                   else ''IdentityResolutionFailed: exec_subprocess error: '' @ e)
      | Inr (exit_code, stdout) \<Rightarrow>
          if exit_code \<noteq> 0 \<or> trim stdout = [] then
            Inl (''IdentityResolutionFailed: git config user.email returned exit_code='' @ le_show (gd_lock libs) exit_code @
              '' output='' @ [CHR 0x27] @ trim stdout @ [CHR 0x27])
          else Inr (trim_git_email stdout))"

definition guard_logic :: "guard_libs \<Rightarrow> guard_callbacks \<Rightarrow> int \<Rightarrow> hook_payload \<Rightarrow> hook_result \<times> string list" where
  "guard_logic libs callbacks now payload =
     (if hp_tool_name payload = ''Bash'' \<and>
         \<not> matches_factory_artifacts_push (unwrap_or (jget_str ''command'' (hp_tool_input payload)) [])
      then (HookContinue, [])
      else case gc_read_prefix callbacks ''.factory/STATE.md'' state_md_prefix_bytes read_timeout_ms of
        Inl e \<Rightarrow> (HookContinue, [if contains ''CapabilityDenied'' e then ''capability_denied: read_prefix ('' @ e @ '')''
                    else ''StateReadError: '' @ e])
      | Inr state_bytes \<Rightarrow>
     (case guard_content libs state_bytes of
        Inl warning \<Rightarrow> (HookContinue, [warning])
      | Inr content \<Rightarrow>
     (case parse_factory_lock content of
        Inr None \<Rightarrow> (HookContinue, [])
      | Inl (MalformedLockBlock detail) \<Rightarrow> (HookContinue, [''MalformedLockBlock: '' @ detail])
      | Inr (Some lock) \<Rightarrow>
     (case parse_iso8601 (gd_lock libs) (expires_at lock) of
        Inl (MalformedLockBlock detail) \<Rightarrow> (HookContinue, [''MalformedLockBlock: '' @ detail])
      | Inr expires \<Rightarrow>
      if is_expired now expires then (HookContinue, [])
      else (case guard_identity libs callbacks of
          Inl warning \<Rightarrow> (HookContinue, [warning])
        | Inr caller_email \<Rightarrow>
            if holder lock = caller_email then (HookContinue, [])
            else (HookBlock (build_block_message (holder lock) (locked_at lock) (expires_at lock)
                (format_time_remaining expires now)), []))))))"

section \<open>The shell filter\<close>

text \<open>The filter looks for the three words in this order, anything between them.\<close>

lemma word_position_subseq:
  "subseq (t # ps) xs \<longleftrightarrow> (case word_position t xs of None \<Rightarrow> False | Some i \<Rightarrow> subseq ps (drop (i + 1) xs))"
proof (induction xs)
  case (Cons x xs)
  then show ?case by (cases "x = t"; cases "word_position t xs") auto
qed simp

lemma push_filter_exact:
  "matches_factory_artifacts_push command \<longleftrightarrow>
   subseq [''git'', ''push'', ''factory-artifacts''] (split_ascii_whitespace command)"
proof -
  let ?ts = "split_ascii_whitespace command"
  have "subseq [''git'', ''push'', ''factory-artifacts''] ?ts \<longleftrightarrow> (case word_position ''git'' ?ts of None \<Rightarrow> False
      | Some i \<Rightarrow> subseq [''push'', ''factory-artifacts''] (drop (i + 1) ?ts))"
    by (rule word_position_subseq)
  moreover have "subseq [''push'', ''factory-artifacts''] ts \<longleftrightarrow> (case word_position ''push'' ts of None \<Rightarrow> False
      | Some i \<Rightarrow> ''factory-artifacts'' \<in> set (drop (i + 1) ts))" for ts
    by (subst word_position_subseq) (simp add: subseq_singleton_left split: option.splits)
  ultimately show ?thesis
    by (simp add: matches_factory_artifacts_push_def Let_def drop_drop ac_simps split: option.splits)
qed

text \<open>A push through a reference specification is not recognised.\<close>

lemma refspec_push_passes:
  "\<not> matches_factory_artifacts_push ''git push origin HEAD:factory-artifacts''"
  by code_simp

section \<open>The prefix the guard reads\<close>

text \<open>The front matter of the lock file, as the guard hands it to the parser, whatever follows it in the file.\<close>

definition lock_prefix :: "string list \<Rightarrow> lock_state \<Rightarrow> string list \<Rightarrow> string" where
  "lock_prefix pre lock post = lock_file pre lock post []"

lemma guard_content_lock:
  assumes "layout_ok pre post []" "plain_lock lock" "utf8_valid (lock_prefix pre lock post)"
    and "length (lock_prefix pre lock post) \<le> n"
  shows "guard_content libs (take n (lock_file pre lock post body)) = Inr (lock_prefix pre lock post)"
proof -
  have c: "\<forall>l\<in>set (lock_lines pre lock post). nl \<notin> set l \<and> l \<noteq> dashes"
    using lock_lines_clean[OF assms(1,2)] by (simp add: clean_def)
  have "lock_file pre lock post body = lock_prefix pre lock post @ body" by (simp add: lock_file_def lock_prefix_def)
  then have "take n (lock_file pre lock post body) =
      lock_prefix pre lock post @ take (n - length (lock_prefix pre lock post)) body" using assms(4) by simp
  then have t: "take n (lock_file pre lock post body) =
      unlines (dashes # lock_lines pre lock post) @ dashes @ [nl] @ take (n - length (lock_prefix pre lock post)) body"
    by (simp add: lock_prefix_def lock_file_def)
  have p: "unlines (dashes # lock_lines pre lock post) @ dashes @ [nl] = lock_prefix pre lock post"
    by (simp add: lock_prefix_def lock_file_def)
  show ?thesis
    unfolding guard_content_def t Let_def if_P[OF front_matter_shorter[OF c]]
      front_matter_closed[OF c] p using assms(3) by simp
qed

section \<open>One writer\<close>

definition watched_call :: "hook_payload \<Rightarrow> bool" where
  "watched_call payload \<longleftrightarrow> hp_tool_name payload = ''Bash'' \<longrightarrow>
     matches_factory_artifacts_push (unwrap_or (jget_str ''command'' (hp_tool_input payload)) [])"

text \<open>The host serves the first bytes of this file, and git answers with this identity.\<close>

definition serves :: "guard_callbacks \<Rightarrow> bytes \<Rightarrow> string \<Rightarrow> bool" where
  "serves callbacks state_md email \<longleftrightarrow>
     gc_read_prefix callbacks ''.factory/STATE.md'' state_md_prefix_bytes read_timeout_ms =
       Inr (take (unat state_md_prefix_bytes) state_md) \<and>
     gc_exec_subprocess callbacks [''git'', ''config'', ''user.email''] = Inr (0, email) \<and> trim email \<noteq> []"

definition guard_message :: "lock_state \<Rightarrow> int \<Rightarrow> int \<Rightarrow> string" where
  "guard_message lock expires now = build_block_message (holder lock) (locked_at lock) (expires_at lock)
     (show_nat (nat ((expires - now) div nanos div 60)) @ '' min remaining'')"

lemma format_remaining: "now < expires \<Longrightarrow> format_time_remaining expires now =
    show_nat (nat ((expires - now) div nanos div 60)) @ '' min remaining''"
  by (simp add: format_time_remaining_def max_def nanos_def pos_imp_zdiv_nonneg_iff Let_def)

text \<open>A lock file with its front matter inside the prefix.\<close>

definition guarded_file :: "string list \<Rightarrow> lock_state \<Rightarrow> string list \<Rightarrow> bool" where
  "guarded_file pre lock post \<longleftrightarrow> layout_ok pre post [] \<and> plain_lock lock \<and> utf8_valid (lock_prefix pre lock post) \<and>
     length (lock_prefix pre lock post) \<le> unat state_md_prefix_bytes"

lemma guard_logic_lock:
  assumes "guarded_file pre lock post" "serves callbacks (lock_file pre lock post body) email"
    and "le_parse (gd_lock libs) (expires_at lock) = Inr t" "watched_call payload"
  shows "guard_logic libs callbacks now payload =
    (if now < t \<and> holder lock \<noteq> trim_git_email email then HookBlock (guard_message lock t now) else HookContinue, [])"
proof -
  note g = assms(1)[unfolded guarded_file_def]
  have "guard_content libs (take (unat state_md_prefix_bytes) (lock_file pre lock post body)) = Inr (lock_prefix pre lock post)"
    by (rule guard_content_lock) (use g in auto)
  moreover have "parse_factory_lock (lock_prefix pre lock post) = Inr (Some lock)"
    unfolding lock_prefix_def by (rule lock_file_parses) (use g in auto)
  ultimately show ?thesis
    using assms(2-4) by (simp add: guard_logic_def serves_def watched_call_def parse_iso8601_def is_expired_def guard_identity_def
        guard_message_def format_remaining not_le)
qed


definition sample_guard_libs :: guard_libs where
  "sample_guard_libs = \<lparr>gd_lock = sample_lock_env, gd_utf8_error = (\<lambda>_. ''e'')\<rparr>"

definition sample_callbacks :: "bytes \<Rightarrow> string \<Rightarrow> guard_callbacks" where
  "sample_callbacks state_md email = \<lparr>gc_read_prefix = (\<lambda>_ n _. Inr (take (unat n) state_md)),
     gc_exec_subprocess = (\<lambda>_. Inr (0, email))\<rparr>"

lemma sample_serves: "trim email \<noteq> [] \<Longrightarrow> serves (sample_callbacks state_md email) state_md email"
  by (simp add: serves_def sample_callbacks_def)

lemma sample_guarded: "guarded_file [''phase: build''] sample_lock [''updated: x'']"
proof -
  have "layout_ok [''phase: build''] [''updated: x''] []" by code_simp
  moreover have "utf8_valid (lock_prefix [''phase: build''] sample_lock [''updated: x''])" by code_simp
  moreover have "length (lock_prefix [''phase: build''] sample_lock [''updated: x'']) \<le> 100" by code_simp
  moreover have "unat state_md_prefix_bytes = 262144" by (simp add: state_md_prefix_bytes_def)
  ultimately show ?thesis using sample_layout(2) by (simp add: guarded_file_def)
qed

lemma sample_emails: "trim ''x@y.z'' = ''x@y.z''" "trim_git_email ''x@y.z'' = ''x@y.z''"
  by code_simp+




text \<open>The guard compares the holder as it stands in the file, the renewal trims it first: a holder with a trailing
  blank may renew but is blocked by the guard.\<close>

lemma untrimmed_holder_is_blocked:
  assumes "guarded_file pre lock post" "serves callbacks (lock_file pre lock post body) email"
    and "le_parse (gd_lock libs) (expires_at lock) = Inr t" "now < t" "watched_call payload"
    and "holder lock \<noteq> trim_git_email (holder lock)" "trim_git_email email = trim_git_email (holder lock)"
  shows "\<exists>message. guard_logic libs callbacks now payload = (HookBlock message, [])"
  using guard_logic_lock[OF assms(1-3,5)] assms(4,6,7) by simp

end
