(* ===== verification/Stamp.thy ===== *)
theory Stamp
  imports FactoryLockClaims Json
begin

text \<open>
  The hook plugin \<^verbatim>\<open>stamp-state-timestamp\<close>: after a successful edit of \<^verbatim>\<open>STATE.md\<close> it sets the timestamp line
  of the front matter and renews the expiry of a lock that the caller holds.  The host calls are parameters, as in
  the source; what the hook does comes as the list of its effects in order.
\<close>

section \<open>Data\<close>

datatype stamp_effect =
    StampWarn string
  | StampEvent string "(string \<times> string) list"
  | StampWrite string string

record stamp_callbacks =
  sc_read_file :: "string \<Rightarrow> u32 \<Rightarrow> u32 \<Rightarrow> string + bytes"
  sc_exec_subprocess :: "string list \<Rightarrow> string + (int \<times> string)"

definition state_md_path :: string where "state_md_path = ''.factory/STATE.md''"
definition state_md_max_bytes :: u32 where "state_md_max_bytes = 262144"

definition timestamp_key :: string where "timestamp_key = ''timestamp:''"

section \<open>The timestamp line\<close>

definition tool_succeeded :: "json option \<Rightarrow> bool" where
  "tool_succeeded tool_response = (case tool_response of None \<Rightarrow> False
     | Some v \<Rightarrow> (case jget ''error'' v of None \<Rightarrow> True | Some e \<Rightarrow> e = JNull))"

definition fence_len :: "string \<Rightarrow> nat" where
  "fence_len content = (if starts_with (dashes @ [cr, nl]) content then 5 else 4)"

definition front_body :: "string \<Rightarrow> nat \<Rightarrow> string" where
  "front_body content fm_len = take (fm_len - min (fence_len content) fm_len) (drop (min (fence_len content) fm_len) content)"

definition timestamp_position :: "string \<Rightarrow> nat option" where
  "timestamp_position fm_body =
     (if starts_with timestamp_key fm_body then Some 0
      else map_option (\<lambda>p. p + 1) (find_sub (nl # timestamp_key) fm_body))"

text \<open>The end of the line at this position, and whether the line ends with a carriage return.\<close>

definition timestamp_line_end :: "string \<Rightarrow> nat \<Rightarrow> nat" where
  "timestamp_line_end fm_body ts_pos =
     (case find_sub [nl] (drop ts_pos fm_body) of Some rel \<Rightarrow> ts_pos + rel | None \<Rightarrow> length fm_body)"

definition stamp_line :: "string \<Rightarrow> nat \<Rightarrow> nat \<Rightarrow> string \<Rightarrow> string" where
  "stamp_line content fm_len ts_pos now_str =
     (let fm_body = front_body content fm_len; ts_line_end = timestamp_line_end fm_body ts_pos;
          crlf = (ts_line_end > 0 \<and> ts_line_end - 1 < length fm_body \<and> fm_body ! (ts_line_end - 1) = cr) in
      take (fence_len content + ts_pos) content @ (''timestamp: '' @ now_str) @ (if crlf then [cr] else []) @
      drop (fence_len content + ts_line_end) content)"

definition stamp_timestamp :: "string \<Rightarrow> nat \<Rightarrow> string \<Rightarrow> string \<times> bool \<times> stamp_effect list" where
  "stamp_timestamp content fm_len now_str =
     (let fm_body = front_body content fm_len in
      case timestamp_position fm_body of
        Some ts_pos \<Rightarrow>
          (stamp_line content fm_len ts_pos now_str, True,
           if contains (nl # timestamp_key) (drop (ts_pos + length timestamp_key) fm_body)
           then [StampWarn ''stamp-state-timestamp: DuplicateTimestampKey: multiple `timestamp:` lines found in frontmatter (only the first will be rewritten)'']
           else [])
      | None \<Rightarrow>
          (content, False,
           [StampWarn (''stamp-state-timestamp: TimestampAnchorMissing: no `timestamp:` line found in frontmatter '' @
              [CHR 0xE2, CHR 0x80, CHR 0x94] @ '' PC1 skipped; lock renewal (PC2) will still run'')]))"

section \<open>The hook\<close>

text \<open>The content to write, and the effects before the write.\<close>

definition stamp_renewal ::
  "lock_env \<Rightarrow> stamp_callbacks \<Rightarrow> int \<Rightarrow> string \<Rightarrow> bool \<Rightarrow> string option \<times> stamp_effect list"
where
  "stamp_renewal env callbacks now content_after_pc1 has_timestamp =
     (let keep = (if has_timestamp then Some content_after_pc1 else None);
          identity = classify_identity_resolution env (sc_exec_subprocess callbacks [''git'', ''config'', ''user.email'']) in
      case renew_lock_if_holder env content_after_pc1 identity now of
        Inr (Renewed new_content, _) \<Rightarrow> (Some new_content, [])
      | Inr (NoOp, Some (IdentityResolutionFailed reason h l x)) \<Rightarrow>
          (keep, [StampEvent ''factory.lock.renewal_indeterminate''
             [(''plugin'', ''stamp-state-timestamp''), (''holder'', h), (''locked_at'', l), (''expires_at'', x), (''resolution_error'', reason)],
           StampWarn (''stamp-state-timestamp: renewal_indeterminate '' @ [CHR 0xE2, CHR 0x80, CHR 0x94] @ '' holder: '' @ h @ '', reason: '' @ reason)])
      | Inr (NoOp, _) \<Rightarrow> (keep, [])
      | Inl (Malformed msg) \<Rightarrow>
          (keep, [StampWarn (''stamp-state-timestamp: malformed factory_lock block (advisory): '' @ msg)]))"

definition stamp_skipped :: "string \<Rightarrow> stamp_effect" where
  "stamp_skipped why = StampWarn (''stamp-state-timestamp: StampingSkipped: '' @ why)"

definition stamp_content :: "lock_env \<Rightarrow> stamp_callbacks \<Rightarrow> int \<Rightarrow> bytes \<Rightarrow> stamp_effect list" where
  "stamp_content env callbacks now raw_bytes =
     (let fm_len = length (extract_frontmatter raw_bytes) in
      if fm_len = length raw_bytes then [stamp_skipped ''missing/invalid frontmatter delimiters'']
      else if \<not> utf8_valid raw_bytes then [stamp_skipped ''STATE.md not valid UTF-8'']
      else if \<not> starts_with (dashes @ [nl]) raw_bytes \<and> \<not> starts_with (dashes @ [cr, nl]) raw_bytes
      then [stamp_skipped ''missing/invalid frontmatter delimiters (opening fence absent)'']
      else (case stamp_timestamp raw_bytes fm_len (le_format env now) of
          (content_after_pc1, has_timestamp, warnings) \<Rightarrow>
            (case stamp_renewal env callbacks now content_after_pc1 has_timestamp of
               (content_to_write, effects) \<Rightarrow>
                 warnings @ effects @
                 (case content_to_write of None \<Rightarrow> [] | Some content_final \<Rightarrow> [StampWrite state_md_path content_final]))))"

definition stamp_guard_logic :: "lock_env \<Rightarrow> stamp_callbacks \<Rightarrow> int \<Rightarrow> json option \<Rightarrow> stamp_effect list" where
  "stamp_guard_logic env callbacks now tool_response =
     (if \<not> tool_succeeded tool_response then []
      else case sc_read_file callbacks state_md_path state_md_max_bytes 5000 of
        Inl e \<Rightarrow>
          [if contains ''OutputTooLarge'' e
           then StampWarn (''stamp-state-timestamp: StateReadError/StampingSkipped: OutputTooLarge '' @ [CHR 0xE2, CHR 0x80, CHR 0x94] @ '' '' @ e)
           else stamp_skipped (''read error: '' @ e)]
      | Inr raw_bytes \<Rightarrow>
          (if length raw_bytes > 200000 \<and> length raw_bytes \<le> 262144
           then [StampEvent ''state_md_approaching_cap'' [(''bytes_read'', show_nat (length raw_bytes)), (''cap_bytes'', ''262144'')]]
           else []) @ stamp_content env callbacks now raw_bytes)"

section \<open>Stamping a file made of lines\<close>

text \<open>The reference: the first line of the key gets the new value.\<close>

fun restamp :: "string \<Rightarrow> string list \<Rightarrow> string list" where
  "restamp now_str [] = []"
| "restamp now_str (l # ls) =
     (if starts_with timestamp_key l then (''timestamp: '' @ now_str) # ls else l # restamp now_str ls)"

definition has_timestamp_line :: "string list \<Rightarrow> bool" where
  "has_timestamp_line ls \<longleftrightarrow> list_ex (starts_with timestamp_key) ls"

lemma restamp_split:
  "has_timestamp_line ls \<Longrightarrow> \<exists>as t bs. ls = as @ t # bs \<and> (\<forall>l\<in>set as. \<not> starts_with timestamp_key l) \<and>
     starts_with timestamp_key t \<and> restamp now_str ls = as @ (''timestamp: '' @ now_str) # bs"
proof (induction ls)
  case (Cons l ls)
  show ?case
  proof (cases "starts_with timestamp_key l")
    case True
    then show ?thesis by (intro exI[of _ "[]"] exI[of _ l] exI[of _ ls]) simp
  next
    case False
    then obtain as t bs where "ls = as @ t # bs" "\<forall>k\<in>set as. \<not> starts_with timestamp_key k" "starts_with timestamp_key t"
      "restamp now_str ls = as @ (''timestamp: '' @ now_str) # bs"
      using Cons by (auto simp: has_timestamp_line_def)
    then show ?thesis using False by (intro exI[of _ "l # as"] exI[of _ t] exI[of _ bs]) simp
  qed
qed (simp add: has_timestamp_line_def)

lemma restamp_none: "\<not> has_timestamp_line ls \<Longrightarrow> restamp now_str ls = ls"
  by (induction ls) (simp_all add: has_timestamp_line_def)

lemma restamp_append: "restamp now_str (as @ bs) = (if has_timestamp_line as then restamp now_str as @ bs else as @ restamp now_str bs)"
  by (induction as) (simp_all add: has_timestamp_line_def)

lemma restamp_keeps_line [simp]: "has_timestamp_line (restamp now_str ls) \<longleftrightarrow> has_timestamp_line ls"
  by (induction ls) (simp_all add: has_timestamp_line_def timestamp_key_def)

lemma has_timestamp_append [simp]: "has_timestamp_line (as @ bs) \<longleftrightarrow> has_timestamp_line as \<or> has_timestamp_line bs"
  by (simp add: has_timestamp_line_def)

lemma restamp_idem: "restamp now_str (restamp now_str ls) = restamp now_str ls"
  by (induction ls) (simp_all add: timestamp_key_def)

lemma key_prefix_line:
  assumes "nl \<notin> set k"
  shows "starts_with k (l @ nl # s) \<longleftrightarrow> starts_with k l"
proof
  assume "starts_with k (l @ nl # s)"
  then obtain u where u: "l @ nl # s = k @ u" by (auto simp: starts_with_iff)
  show "starts_with k l"
  proof (cases "length k \<le> length l")
    case True
    then have "take (length k) l = k" using u by (metis append_eq_append_conv_if)
    then show ?thesis by (simp add: starts_with_def)
  next
    case False
    then have "take (Suc (length l)) (k @ u) = take (Suc (length l)) k" by simp
    then have "l @ [nl] = take (Suc (length l)) k" using u by (metis append.assoc append_Cons append_Nil append_eq_conv_conj length_append_singleton)
    then have "nl \<in> set k" by (metis in_set_conv_decomp in_set_takeD)
    then show ?thesis using assms by simp
  qed
qed (auto simp: starts_with_iff)

lemma find_line_start:
  assumes "\<forall>l\<in>set as. nl \<notin> set l \<and> \<not> starts_with k l" "as \<noteq> []" "nl \<notin> set k" "starts_with k s"
  shows "find_sub (nl # k) (unlines as @ s) = Some (length (unlines as) - 1)"
  using assms
proof (induction as)
  case (Cons a as)
  show ?case
  proof (cases as)
    case Nil
    then show ?thesis using Cons.prems find_in_line[of a k s] by simp
  next
    case (Cons b bs)
    have "\<not> starts_with k (unlines as @ s)"
      using Cons Cons.prems key_prefix_line[of k b] by simp
    then show ?thesis
      using Cons.IH Cons.prems Cons find_in_line[of a k "unlines as @ s"] by (simp add: Cons)
  qed
qed simp

lemma timestamp_chars: "nl \<notin> set timestamp_key" "timestamp_key \<noteq> []"
  by (simp_all add: timestamp_key_def)

lemma timestamp_found:
  assumes "\<forall>l\<in>set as. nl \<notin> set l \<and> \<not> starts_with timestamp_key l" "starts_with timestamp_key s"
  shows "timestamp_position (unlines as @ s) = Some (length (unlines as))"
proof (cases as)
  case (Cons a bs)
  have "\<not> starts_with timestamp_key (unlines as @ s)"
    using assms(1) Cons key_prefix_line[OF timestamp_chars(1)] by simp
  moreover have "length (unlines as) > 0" using Cons by simp
  ultimately show ?thesis
    using find_line_start[OF assms(1) _ timestamp_chars(1) assms(2)] Cons by (simp add: timestamp_position_def del: unlines_simps)
qed (use assms(2) in \<open>simp add: timestamp_position_def\<close>)

lemma stamped_lines:
  fixes body now_str :: string
  assumes clean: "\<forall>l\<in>set (as @ t # bs). nl \<notin> set l \<and> cr \<notin> set l \<and> l \<noteq> dashes"
    and first: "\<forall>l\<in>set as. \<not> starts_with timestamp_key l" and here: "starts_with timestamp_key t"
  defines "content \<equiv> unlines (dashes # as @ t # bs) @ dashes @ [nl] @ body"
  defines "fm_len \<equiv> length (extract_frontmatter content)"
  shows "\<exists>warnings. stamp_timestamp content fm_len now_str =
    (unlines (dashes # as @ (''timestamp: '' @ now_str) # bs) @ dashes @ [nl] @ body, True, warnings) \<and>
    (\<forall>e\<in>set warnings. \<exists>s. e = StampWarn s)"
proof -
  let ?ls = "as @ t # bs"
  let ?tail = "if bs = [] then [] else nl # butlast (unlines bs)"
  have fm: "extract_frontmatter content = butlast (unlines (dashes # ?ls))"
    unfolding content_def by (rule front_matter_of_lines) (use clean in auto)
  have len: "fm_len = 3 + length (unlines ?ls)" unfolding fm_len_def fm by (simp add: dashes_def)
  have fl: "fence_len content = 4" by (simp add: fence_len_def content_def dashes_def)
  have start: "content = dashes @ nl # unlines ?ls @ dashes @ [nl] @ body" by (simp add: content_def)
  have d: "length dashes = 3" by (simp add: dashes_def)
  have m: "min 4 fm_len = 4" unfolding len by simp
  have dr: "drop 4 content = unlines ?ls @ dashes @ [nl] @ body" unfolding start by (simp add: d del: unlines_simps)
  have "front_body content fm_len = take (length (unlines ?ls) - 1) (unlines ?ls @ dashes @ [nl] @ body)"
    unfolding front_body_def fl m dr unfolding len by simp
  then have "front_body content fm_len = butlast (unlines ?ls)"
    by (simp add: butlast_conv_take del: unlines_simps)
  also have "\<dots> = unlines as @ t @ ?tail"
    by (simp add: butlast_append)
  finally have fb: "front_body content fm_len = unlines as @ t @ ?tail" .
  have pos: "timestamp_position (front_body content fm_len) = Some (length (unlines as))"
    unfolding fb by (rule timestamp_found) (use clean first here in \<open>auto simp: starts_with_iff\<close>)
  have t: "nl \<notin> set t" "cr \<notin> set t" "t \<noteq> []" using clean here by (auto simp: timestamp_key_def)
  have "find_sub [nl] (t @ ?tail) = (if bs = [] then None else Some (length t))"
    using find_char_after[OF t(1)] find_char_none[OF t(1)] by simp
  then have le: "timestamp_line_end (front_body content fm_len) (length (unlines as)) = length (unlines as) + length t"
    by (simp add: timestamp_line_end_def fb)
  have "length (unlines as) + length t - 1 = length (unlines as) + (length t - 1)" "length t - 1 < length t"
    using t(3) length_greater_0_conv[of t] by linarith+
  then have "(unlines as @ t @ ?tail) ! (length (unlines as) + length t - 1) = last t"
    using t(3) by (simp only: nth_append_length_plus) (simp add: nth_append last_conv_nth)
  then have no_cr: "(unlines as @ t @ ?tail) ! (length (unlines as) + length t - 1) \<noteq> cr"
    using t(2,3) by (metis last_in_set)
  have tk: "take (4 + length (unlines as)) content = unlines (dashes # as)"
    "drop (4 + (length (unlines as) + length t)) content = nl # unlines bs @ dashes @ [nl] @ body"
    unfolding start by (simp_all add: d)
  have "stamp_line content fm_len (length (unlines as)) now_str =
      unlines (dashes # as @ (''timestamp: '' @ now_str) # bs) @ dashes @ [nl] @ body"
    unfolding stamp_line_def Let_def fl le tk using no_cr by (simp add: fb)
  then show ?thesis by (simp add: stamp_timestamp_def pos)
qed

section \<open>Stamping a lock file\<close>

definition stamp_writes :: "stamp_effect list \<Rightarrow> (string \<times> string) list" where
  "stamp_writes effects = concat (map (\<lambda>e. case e of StampWrite p c \<Rightarrow> [(p, c)] | _ \<Rightarrow> []) effects)"

lemma no_writes: "\<forall>e\<in>set effects. \<exists>s. e = StampWarn s \<Longrightarrow> stamp_writes effects = []"
  by (induction effects) (auto simp: stamp_writes_def)

lemma stamp_writes_append [simp]: "stamp_writes (as @ bs) = stamp_writes as @ stamp_writes bs"
  by (simp add: stamp_writes_def)

text \<open>The lines before and after the lock block with the first timestamp line of the front matter stamped.\<close>

definition stamped_pre :: "string \<Rightarrow> string list \<Rightarrow> string list" where
  "stamped_pre now_str pre = restamp now_str pre"

definition stamped_post :: "string \<Rightarrow> string list \<Rightarrow> string list \<Rightarrow> string list" where
  "stamped_post now_str pre post = (if has_timestamp_line pre then post else restamp now_str post)"

lemma restamp_lock_lines:
  "restamp now_str (lock_lines pre lock post) = lock_lines (stamped_pre now_str pre) lock (stamped_post now_str pre post)"
proof -
  have "\<not> has_timestamp_line [lock_key, ''  holder: '' @ holder lock, ''  locked_at: '' @ locked_at lock, ''  expires_at: '' @ expires_at lock]"
    by (simp add: has_timestamp_line_def timestamp_key_def lock_key_def)
  then show ?thesis
    unfolding lock_lines_def stamped_pre_def stamped_post_def restamp_append by (simp only: restamp_none if_False split: if_split) (auto simp: restamp_none)
qed

text \<open>A printed instant is plain text.\<close>

definition plain_time :: "string \<Rightarrow> bool" where
  "plain_time s \<longleftrightarrow> nl \<notin> set s \<and> cr \<notin> set s"

lemma stamped_plain: "plain_time s \<Longrightarrow> plain_line (''timestamp: '' @ s)"
  by (auto simp: plain_line_def plain_time_def dashes_def lock_key_def)

lemma restamp_plain: "plain_time s \<Longrightarrow> \<forall>l\<in>set ls. plain_line l \<Longrightarrow> \<forall>l\<in>set (restamp s ls). plain_line l"
  by (induction ls) (simp_all add: stamped_plain[simplified])

lemma stamped_layout:
  assumes "layout_ok pre post body" "plain_time s"
  shows "layout_ok (stamped_pre s pre) (stamped_post s pre post) body"
proof -
  have "case restamp s post of [] \<Rightarrow> True | l # _ \<Rightarrow> \<not> starts_with '' '' l"
    using assms(1) by (cases post) (auto simp: layout_ok_def)
  moreover have "\<forall>l\<in>set (restamp s pre). plain_line l" "\<forall>l\<in>set (restamp s post). plain_line l"
    using restamp_plain[OF assms(2)] assms(1) unfolding layout_ok_def by blast+
  ultimately show ?thesis
    using assms(1) by (simp add: layout_ok_def stamped_pre_def stamped_post_def)
qed

lemma stamped_idem:
  "stamped_pre s (stamped_pre s pre) = stamped_pre s pre"
  "stamped_post s (stamped_pre s pre) (stamped_post s pre post) = stamped_post s pre post"
proof -
  show "stamped_post s (stamped_pre s pre) (stamped_post s pre post) = stamped_post s pre post"
    by (simp add: stamped_pre_def stamped_post_def restamp_idem)
qed (simp add: stamped_pre_def restamp_idem)

lemma lock_file_stamped:
  assumes "layout_ok pre post body" "plain_lock lock" "has_timestamp_line (pre @ post)"
  shows "\<exists>warnings. stamp_timestamp (lock_file pre lock post body)
      (length (extract_frontmatter (lock_file pre lock post body))) s =
    (lock_file (stamped_pre s pre) lock (stamped_post s pre post) body, True, warnings) \<and> (\<forall>e\<in>set warnings. \<exists>s. e = StampWarn s)"
proof -
  have c: "\<forall>l\<in>set (lock_lines pre lock post). clean l" using lock_lines_clean[OF assms(1,2)] .
  have "has_timestamp_line (lock_lines pre lock post)"
    using assms(3) by (auto simp: lock_lines_def has_timestamp_line_def)
  from restamp_split[OF this, of s] obtain as t bs where sp: "lock_lines pre lock post = as @ t # bs"
    "\<forall>l\<in>set as. \<not> starts_with timestamp_key l" "starts_with timestamp_key t"
    "restamp s (lock_lines pre lock post) = as @ (''timestamp: '' @ s) # bs" by blast
  have "\<forall>l\<in>set (as @ t # bs). nl \<notin> set l \<and> cr \<notin> set l \<and> l \<noteq> dashes" using c sp(1) by (simp add: clean_def)
  from stamped_lines[OF this sp(2,3), of body s] show ?thesis
    using sp(1,4) unfolding lock_file_def restamp_lock_lines by simp
qed

definition fresh_expiry :: "lock_env \<Rightarrow> int \<Rightarrow> string" where
  "fresh_expiry env now = le_format env (now + ttl_seconds * nanos)"

text \<open>The lock after the hook: renewed for its holder while it has not expired at \<open>t\<close>.\<close>

definition kept_lock :: "lock_env \<Rightarrow> stamp_callbacks \<Rightarrow> int \<Rightarrow> int \<Rightarrow> lock_state \<Rightarrow> lock_state" where
  "kept_lock env callbacks t now lock =
     (if now < t \<and> classify_identity_resolution env (sc_exec_subprocess callbacks [''git'', ''config'', ''user.email'']) =
         Resolved (trim_git_email (holder lock))
      then lock\<lparr>expires_at := fresh_expiry env now\<rparr> else lock)"

lemma renew_laid_out:
  assumes "layout_ok pre post body" "plain_lock lock" "plain_value (fresh_expiry env now)"
  shows "renew_lock_with_now env (lock_file pre lock post body) now = Inr (if fresh_expiry env now = expires_at lock then NoOp
      else Renewed (lock_file pre (lock\<lparr>expires_at := fresh_expiry env now\<rparr>) post body))"
  using renewal_round_trip_core[OF assms(1,2), of env now] assms(3) lock_file_has_key[OF assms(1,2)] lock_file_parses[OF assms(1,2)]
  by (simp add: fresh_expiry_def renew_lock_with_now_def Let_def)

lemma stamp_renewal_lock:
  assumes "layout_ok pre post body" "plain_lock lock" "plain_value (fresh_expiry env now)"
    and "le_parse env (expires_at lock) = Inr t"
  shows "\<exists>effects. stamp_renewal env callbacks now (lock_file pre lock post body) True =
      (Some (lock_file pre (kept_lock env callbacks t now lock) post body), effects) \<and> stamp_writes effects = []"
proof -
  let ?id = "classify_identity_resolution env (sc_exec_subprocess callbacks [''git'', ''config'', ''user.email''])"
  have same: "lock\<lparr>expires_at := fresh_expiry env now\<rparr> = lock" if "fresh_expiry env now = expires_at lock" using that by simp
  show ?thesis
  proof (cases "now < t")
    case False
    then show ?thesis
      using lock_file_has_key[OF assms(1,2)] lock_file_parses[OF assms(1,2)] assms(4)
      by (simp add: stamp_renewal_def renew_lock_if_holder_def parse_iso8601_def kept_lock_def stamp_writes_def Let_def)
  next
    case True
    show ?thesis
    proof (cases ?id)
      case (Failed reason)
      then show ?thesis
        using lock_file_has_key[OF assms(1,2)] lock_file_parses[OF assms(1,2)] assms(4) True
        by (simp add: stamp_renewal_def renew_lock_if_holder_def parse_iso8601_def kept_lock_def stamp_writes_def Let_def)
    next
      case (Resolved email)
      then show ?thesis
        using lock_file_has_key[OF assms(1,2)] lock_file_parses[OF assms(1,2)] assms(4) True renew_laid_out[OF assms(1-3)] same
        by (auto simp: stamp_renewal_def renew_lock_if_holder_def parse_iso8601_def kept_lock_def stamp_writes_def Let_def)
    qed
  qed
qed

text \<open>What the hook needs of a file and of the clock.\<close>

definition stampable :: "lock_env \<Rightarrow> int \<Rightarrow> string list \<Rightarrow> lock_state \<Rightarrow> string list \<Rightarrow> string \<Rightarrow> bool" where
  "stampable env now pre lock post body \<longleftrightarrow> layout_ok pre post body \<and> plain_lock lock \<and> has_timestamp_line (pre @ post) \<and>
     utf8_valid (lock_file pre lock post body) \<and> plain_time (le_format env now) \<and> plain_value (fresh_expiry env now)"

definition stamped_file ::
  "lock_env \<Rightarrow> stamp_callbacks \<Rightarrow> int \<Rightarrow> int \<Rightarrow> string list \<Rightarrow> lock_state \<Rightarrow> string list \<Rightarrow> string \<Rightarrow> string"
where
  "stamped_file env callbacks t now pre lock post body = lock_file (stamped_pre (le_format env now) pre)
     (kept_lock env callbacks t now lock) (stamped_post (le_format env now) pre post) body"

lemma stamp_core:
  assumes "stampable env now pre lock post body" "le_parse env (expires_at lock) = Inr t" "tool_succeeded response"
    and "sc_read_file callbacks state_md_path state_md_max_bytes 5000 = Inr (lock_file pre lock post body)"
  shows "stamp_writes (stamp_guard_logic env callbacks now response) =
    [(state_md_path, stamped_file env callbacks t now pre lock post body)]"
proof -
  let ?f = "lock_file pre lock post body" and ?s = "le_format env now"
  have g: "layout_ok pre post body" "plain_lock lock" "has_timestamp_line (pre @ post)" "utf8_valid ?f" "plain_time ?s"
    "plain_value (fresh_expiry env now)" using assms(1) by (simp_all add: stampable_def)
  obtain warnings where w: "stamp_timestamp ?f (length (extract_frontmatter ?f)) ?s =
      (lock_file (stamped_pre ?s pre) lock (stamped_post ?s pre post) body, True, warnings)" "\<forall>e\<in>set warnings. \<exists>s. e = StampWarn s"
    using lock_file_stamped[OF g(1-3)] by blast
  obtain effects where e: "stamp_renewal env callbacks now (lock_file (stamped_pre ?s pre) lock (stamped_post ?s pre post) body) True =
      (Some (stamped_file env callbacks t now pre lock post body), effects)" "stamp_writes effects = []"
    using stamp_renewal_lock[OF stamped_layout[OF g(1,5)] g(2,6) assms(2)] by (auto simp: stamped_file_def)
  have "\<forall>l\<in>set (lock_lines pre lock post). nl \<notin> set l \<and> l \<noteq> dashes"
    using lock_lines_clean[OF g(1,2)] by (simp add: clean_def)
  then have "length (extract_frontmatter ?f) < length ?f"
    unfolding lock_file_def by (rule front_matter_shorter)
  moreover have "starts_with (dashes @ [nl]) ?f" by (simp add: lock_file_def starts_with_iff)
  ultimately have "stamp_writes (stamp_content env callbacks now ?f) = [(state_md_path, stamped_file env callbacks t now pre lock post body)]"
    using w e g(4) no_writes[OF w(2)] by (simp add: stamp_content_def stamp_writes_def)
  moreover have "stamp_writes (if big then [StampEvent a b] else []) = []" for big a b by (simp add: stamp_writes_def)
  ultimately show ?thesis
    using assms(3,4) by (simp add: stamp_guard_logic_def)
qed

lemma kept_lock_idem:
  assumes "sc_exec_subprocess callbacks' = sc_exec_subprocess callbacks" "le_parse env (expires_at lock) = Inr t"
    and "le_parse env (fresh_expiry env now) = Inr t'" "now < t'"
  shows "\<exists>u. le_parse env (expires_at (kept_lock env callbacks t now lock)) = Inr u \<and>
    kept_lock env callbacks' u now (kept_lock env callbacks t now lock) = kept_lock env callbacks t now lock"
  using assms by (auto simp: kept_lock_def)


definition stamping_callbacks :: "string \<Rightarrow> stamp_callbacks" where
  "stamping_callbacks content = \<lparr>sc_read_file = (\<lambda>_ _ _. Inr content), sc_exec_subprocess = (\<lambda>_. Inr (0, ''a@b.c''))\<rparr>"


end
