(* ===== verification/Flush.thy ===== *)
theory Flush
  imports Executor FactoryLockClaims
begin

text \<open>
  The hook plugin \<^verbatim>\<open>precompact-flush\<close>: before a compaction it renews the lock, commits the artifacts, records the
  commit in a log and pushes.  Git and the disk are an arbitrary environment: each answer depends on everything
  that happened before, and the run returns the trace of its calls with their answers.  Messages on standard
  error are left out.
\<close>

section \<open>Data\<close>

text \<open>Every subprocess is git; its answer is an error or exit code, output and error output.  A write answers
  with its error, if any.\<close>

datatype flush_step =
    FlushExec "string list" "string + (int \<times> string \<times> string)"
  | FlushRead string "string + string"
  | FlushWrite string string "string option"
  | FlushWarn string
  | FlushEvent string "(string \<times> string) list"

record flush_env =
  fl_exec :: "flush_step list \<Rightarrow> string list \<Rightarrow> string + (int \<times> string \<times> string)"
  fl_read :: "flush_step list \<Rightarrow> string \<Rightarrow> string + string"
  fl_write :: "flush_step list \<Rightarrow> string \<Rightarrow> string \<Rightarrow> string option"
  fl_now :: "flush_step list \<Rightarrow> int"
  fl_canonicalize :: "path \<Rightarrow> path option"
  fl_lock :: lock_env

record state_context =
  current_cycle :: string
  current_step :: string

datatype append_failure_action = ResetSafe string | NoResetHumanIntervention string string

definition flush_log_path :: string where "flush_log_path = ''.factory/hooks/precompact-flush-log''"
definition flush_state_path :: string where "flush_state_path = ''.factory/STATE.md''"
definition commit_prefix :: string where "commit_prefix = ''PreCompact flush ''"
definition factory_artifacts_branch :: string where "factory_artifacts_branch = ''refs/heads/factory-artifacts''"

section \<open>Text\<close>

fun worktree_scan :: "string list \<Rightarrow> string option \<Rightarrow> string option" where
  "worktree_scan [] current = None"
| "worktree_scan (line # rest) current =
     (case strip_prefix ''worktree '' line of
        Some p \<Rightarrow> worktree_scan rest (Some p)
      | None \<Rightarrow>
     (case strip_prefix ''branch '' line of
        Some branch \<Rightarrow> if branch = factory_artifacts_branch then current else worktree_scan rest current
      | None \<Rightarrow> worktree_scan rest (if line = [] then None else current)))"

definition parse_worktree_list :: "string \<Rightarrow> string option" where
  "parse_worktree_list porcelain_output = worktree_scan (str_lines porcelain_output) None"

text \<open>Newlines to blanks, no carriage returns, at most 512 characters.\<close>

definition sanitize :: "string \<Rightarrow> string" where
  "sanitize s = concat (take 512 (utf8_chars (filter (\<lambda>c. c \<noteq> cr) (map (\<lambda>c. if c = nl then CHR '' '' else c) s))))"

fun context_scan :: "string list \<Rightarrow> string option \<Rightarrow> string option \<Rightarrow> string option \<times> string option" where
  "context_scan [] cycle step = (cycle, step)"
| "context_scan (line # rest) cycle step =
     (case strip_prefix ''current_cycle: '' line of
        Some val \<Rightarrow> context_scan rest (Some (trim val)) step
      | None \<Rightarrow>
     (case strip_prefix ''current_step: '' line of
        Some val \<Rightarrow> context_scan rest cycle (Some (trim val))
      | None \<Rightarrow> context_scan rest cycle step))"

definition parse_state_context :: "string \<Rightarrow> state_context option" where
  "parse_state_context state_md_content =
     (case strip_prefix (dashes @ [nl]) (normalise state_md_content) of
        None \<Rightarrow> None
      | Some after_open \<Rightarrow>
          (let frontmatter = (case close_position after_open of Some e \<Rightarrow> take e after_open | None \<Rightarrow> after_open) in
           case context_scan (str_lines frontmatter) None None of
             (Some cycle, Some step) \<Rightarrow> Some \<lparr>current_cycle = sanitize cycle, current_step = sanitize step\<rparr>
           | _ \<Rightarrow> None))"

definition build_commit_message :: "state_context \<Rightarrow> string \<Rightarrow> string" where
  "build_commit_message ctx timestamp =
     commit_prefix @ current_cycle ctx @ ''/'' @ current_step ctx @ '' '' @ timestamp"

definition build_log_entry :: "string \<Rightarrow> string \<Rightarrow> state_context \<Rightarrow> string" where
  "build_log_entry timestamp sha_b ctx =
     timestamp @ '' '' @ sha_b @ '' '' @ current_cycle ctx @ ''/'' @ current_step ctx @ '' commit'' @ [nl]"

definition decide_append_failure_action :: "string \<Rightarrow> string \<Rightarrow> append_failure_action" where
  "decide_append_failure_action sha_b current_head =
     (if current_head = sha_b then ResetSafe sha_b else NoResetHumanIntervention sha_b current_head)"

definition is_diff_empty :: "string \<Rightarrow> bool" where
  "is_diff_empty output \<longleftrightarrow> output = []"

section \<open>Before the commit\<close>

definition find_worktree :: "string + (int \<times> string \<times> string) \<Rightarrow> string option" where
  "find_worktree answer = (case answer of Inl _ \<Rightarrow> None
     | Inr (exit_code, stdout, _) \<Rightarrow> if exit_code \<noteq> 0 then None else parse_worktree_list stdout)"

definition mount_ok :: "flush_env \<Rightarrow> string option \<Rightarrow> string \<Rightarrow> bool" where
  "mount_ok env cwd wt_path \<longleftrightarrow> ends_with ''/.factory'' wt_path \<and>
     (case cwd of None \<Rightarrow> True
      | Some cwd_str \<Rightarrow>
          (case (fl_canonicalize env (path_of wt_path), fl_canonicalize env (join_name (path_of cwd_str) ''.factory'')) of
             (Some disc, Some expd) \<Rightarrow> disc = expd
           | _ \<Rightarrow> wt_path = trim_end_char (CHR ''/'') cwd_str @ ''/.factory''))"

text \<open>The identity is asked for only when the lock is there, well formed and not expired.\<close>

definition identity_needed :: "lock_env \<Rightarrow> string \<Rightarrow> int \<Rightarrow> bool" where
  "identity_needed env content now \<longleftrightarrow> has_factory_lock_key content \<and>
     (case parse_factory_lock content of
        Inr (Some ls) \<Rightarrow> (case parse_iso8601 env (expires_at ls) of Inr expiry \<Rightarrow> now < expiry | Inl _ \<Rightarrow> False)
      | _ \<Rightarrow> False)"

definition step4_outcome ::
  "flush_env \<Rightarrow> string \<Rightarrow> lock_error + (renew_outcome \<times> skip_reason option) \<Rightarrow> flush_step list \<Rightarrow> string \<times> flush_step list"
where
  "step4_outcome env state_md_content renewal tr =
     (case renewal of
        Inr (Renewed new_content, None) \<Rightarrow>
          (case fl_write env tr flush_state_path new_content of
             Some e \<Rightarrow> (state_md_content, tr @ [FlushWrite flush_state_path new_content (Some e),
               FlushWarn (''precompact-flush: advisory: STATE.md renewal write failed: '' @ e @ ''; proceeding with flush commit using un-renewed content.'')])
           | None \<Rightarrow> (new_content, tr @ [FlushWrite flush_state_path new_content None]))
      | Inr (NoOp, Some (IdentityResolutionFailed reason h l x)) \<Rightarrow>
          (state_md_content, tr @ [FlushEvent ''factory.lock.renewal_indeterminate''
             [(''plugin'', ''precompact-flush''), (''holder'', h), (''locked_at'', l), (''expires_at'', x), (''resolution_error'', reason)],
           FlushWarn (''precompact-flush: factory_lock renewal indeterminate: identity resolution failed ('' @ reason @ ''); holder='' @ h @
             ''; lock expires '' @ x @ ''; flush proceeds with un-renewed content.'')])
      | Inl (Malformed msg) \<Rightarrow>
          (state_md_content, tr @ [FlushWarn (''precompact-flush: advisory: factory_lock block malformed: '' @ msg @ ''; proceeding with flush commit.'')])
      | Inr _ \<Rightarrow> (state_md_content, tr))"

definition step4_renewal_gate :: "flush_env \<Rightarrow> string \<Rightarrow> flush_step list \<Rightarrow> string \<times> flush_step list" where
  "step4_renewal_gate env state_md_content tr =
     (let now = fl_now env tr; config = [''config'', ''user.email'']; answer = fl_exec env tr config;
          identity = classify_identity_resolution (fl_lock env) (case answer of Inl e \<Rightarrow> Inl e | Inr (exit, stdout, _) \<Rightarrow> Inr (exit, stdout)) in
      step4_outcome env state_md_content (renew_lock_if_holder (fl_lock env) state_md_content identity now)
        (if identity_needed (fl_lock env) state_md_content now then tr @ [FlushExec config answer] else tr))"

section \<open>The commit and after it\<close>

definition git_failed :: "flush_env \<Rightarrow> string \<Rightarrow> string + (int \<times> string \<times> string) \<Rightarrow> hook_result option" where
  "git_failed env what answer =
     (case answer of
        Inr (exit_code, _, stderr) \<Rightarrow>
          if exit_code \<noteq> 0 then Some (HookBlock (''precompact-flush: '' @ what @ '' failed (exit '' @ le_show (fl_lock env) exit_code @ ''): '' @ stderr))
          else None
      | Inl e \<Rightarrow> Some (HookBlock (''precompact-flush: '' @ what @ '' failed: '' @ e)))"

text \<open>The log could not be written: the commit is taken back when nothing came after it.\<close>

definition append_failed :: "flush_env \<Rightarrow> string \<Rightarrow> string \<Rightarrow> flush_step list \<Rightarrow> hook_result \<times> flush_step list" where
  "append_failed env wt_path sha_b tr =
     (let head = fl_exec env tr [''-C'', wt_path, ''rev-parse'', ''HEAD''];
          tr = tr @ [FlushExec [''-C'', wt_path, ''rev-parse'', ''HEAD''] head];
          current_head = (case head of Inr (_, stdout, _) \<Rightarrow> trim stdout | Inl _ \<Rightarrow> []) in
      case decide_append_failure_action sha_b current_head of
        ResetSafe sb \<Rightarrow>
          (let args = [''-C'', wt_path, ''reset'', ''--soft'', sb @ ''^'']; answer = fl_exec env tr args; tr = tr @ [FlushExec args answer] in
           if (case answer of Inr (exit_code, _) \<Rightarrow> exit_code = 0 | Inl _ \<Rightarrow> False)
           then (HookBlock (''precompact-flush: SHA append to precompact-flush-log failed; orphan commit reverted (SHA_B='' @ sb @
                 ''); blocking compaction.''), tr)
           else (HookBlock (''precompact-flush: SHA append to precompact-flush-log failed AND orphan-commit reset failed (SHA_B='' @ sb @
                 ''); manual intervention required; compaction blocked.''), tr))
      | NoResetHumanIntervention sb ch \<Rightarrow>
          (HookBlock (''precompact-flush: append failed; concurrent commit advanced HEAD; SHA_B='' @ sb @ ''; current HEAD='' @ ch @
             ''; human intervention required.''), tr))"

definition push_flush :: "flush_env \<Rightarrow> string \<Rightarrow> string \<Rightarrow> flush_step list \<Rightarrow> hook_result \<times> flush_step list" where
  "push_flush env wt_path sha_b tr =
     (let args = [''-C'', wt_path, ''push'', ''origin'', ''factory-artifacts'']; answer = fl_exec env tr args; tr = tr @ [FlushExec args answer];
          blocked = HookBlock (''precompact-flush: git push failed; local commit '' @ sha_b @ '' and log entry intact; retry is push-only.'') in
      case answer of
        Inr (exit_code, _, _) \<Rightarrow> (if exit_code \<noteq> 0 then blocked else HookContinue, tr)
      | Inl _ \<Rightarrow> (blocked, tr))"

definition record_commit ::
  "flush_env \<Rightarrow> string \<Rightarrow> string \<Rightarrow> state_context \<Rightarrow> flush_step list \<Rightarrow> hook_result \<times> flush_step list"
where
  "record_commit env wt_path timestamp ctx tr =
     (let args = [''-C'', wt_path, ''rev-parse'', ''HEAD'']; answer = fl_exec env tr args; tr = tr @ [FlushExec args answer] in
      case git_failed env ''rev-parse HEAD'' answer of
        Some blocked \<Rightarrow> (blocked, tr)
      | None \<Rightarrow>
          (let sha_b = (case answer of Inr (_, stdout, _) \<Rightarrow> trim stdout | Inl _ \<Rightarrow> []);
               log_entry = build_log_entry timestamp sha_b ctx;
               existing = fl_read env tr flush_log_path; tr = tr @ [FlushRead flush_log_path existing];
               existing_log = (case existing of Inr s \<Rightarrow> s | Inl _ \<Rightarrow> []); new_log = existing_log @ log_entry;
               written = fl_write env tr flush_log_path new_log; tr = tr @ [FlushWrite flush_log_path new_log written] in
           case written of
             Some _ \<Rightarrow> append_failed env wt_path sha_b tr
           | None \<Rightarrow> push_flush env wt_path sha_b tr))"

definition commit_flush ::
  "flush_env \<Rightarrow> string \<Rightarrow> string \<Rightarrow> bool \<Rightarrow> flush_step list \<Rightarrow> hook_result \<times> flush_step list"
where
  "commit_flush env wt_path state_md_content was_renewed tr =
     (let add = [''-C'', wt_path, ''add'', ''-A'']; answer = fl_exec env tr add; tr = tr @ [FlushExec add answer] in
      case git_failed env ''git add -A'' answer of
        Some blocked \<Rightarrow> (blocked, tr)
      | None \<Rightarrow>
     (let diff = [''-C'', wt_path, ''diff'', ''--cached'']; answer = fl_exec env tr diff; tr = tr @ [FlushExec diff answer] in
      case answer of
        Inl _ \<Rightarrow> (HookContinue, tr)
      | Inr (_, diff_output, _) \<Rightarrow>
          if \<not> was_renewed \<and> is_diff_empty diff_output then (HookContinue, tr)
          else
           (let timestamp = le_format (fl_lock env) (fl_now env tr);
                ctx = unwrap_or (parse_state_context state_md_content) \<lparr>current_cycle = ''unknown-cycle'', current_step = ''unknown-step''\<rparr>;
                commit = [''-C'', wt_path, ''commit'', ''-m'', build_commit_message ctx timestamp];
                answer = fl_exec env tr commit; tr = tr @ [FlushExec commit answer] in
            case git_failed env ''git commit'' answer of
              Some blocked \<Rightarrow> (blocked, tr)
            | None \<Rightarrow> record_commit env wt_path timestamp ctx tr)))"

definition run_flush :: "flush_env \<Rightarrow> string option \<Rightarrow> hook_result \<times> flush_step list" where
  "run_flush env cwd =
     (let args = [''worktree'', ''list'', ''--porcelain'']; answer = fl_exec env [] args; tr = [FlushExec args answer] in
      case find_worktree answer of
        None \<Rightarrow> (HookContinue, tr)
      | Some wt_path \<Rightarrow>
          if \<not> mount_ok env cwd wt_path then (HookContinue, tr)
          else (let state = fl_read env tr flush_state_path; tr = tr @ [FlushRead flush_state_path state] in
            case state of
              Inl _ \<Rightarrow> (HookContinue, tr)
            | Inr state_md_content \<Rightarrow>
                (case step4_renewal_gate env state_md_content tr of
                   (flush_content, tr) \<Rightarrow>
                     commit_flush env wt_path state_md_content (flush_content \<noteq> state_md_content) tr)))"

section \<open>The protocol\<close>

text \<open>The calls that move a branch, here or on the remote.\<close>

fun history_call :: "flush_step \<Rightarrow> bool" where
  "history_call (FlushExec (_ # _ # command # _) _) \<longleftrightarrow> command \<in> {''commit'', ''push'', ''reset''}"
| "history_call _ \<longleftrightarrow> False"

definition succeeds :: "string + (int \<times> string \<times> string) \<Rightarrow> bool" where
  "succeeds answer = (case answer of Inr (exit_code, _) \<Rightarrow> exit_code = 0 | Inl _ \<Rightarrow> False)"

definition answered :: "string + (int \<times> string \<times> string) \<Rightarrow> string" where
  "answered answer = (case answer of Inr (_, stdout, _) \<Rightarrow> trim stdout | Inl _ \<Rightarrow> [])"

definition baseline :: "string + string \<Rightarrow> string" where
  "baseline answer = (case answer of Inr s \<Rightarrow> s | Inl _ \<Rightarrow> [])"

abbreviation head_call :: "string \<Rightarrow> string + (int \<times> string \<times> string) \<Rightarrow> flush_step" where
  "head_call wt h \<equiv> FlushExec [''-C'', wt, ''rev-parse'', ''HEAD''] h"

abbreviation commit_call :: "string \<Rightarrow> string \<Rightarrow> state_context \<Rightarrow> string + (int \<times> string \<times> string) \<Rightarrow> flush_step" where
  "commit_call wt ts ctx a \<equiv> FlushExec [''-C'', wt, ''commit'', ''-m'', build_commit_message ctx ts] a"

abbreviation log_call :: "string \<Rightarrow> state_context \<Rightarrow> string + (int \<times> string \<times> string) \<Rightarrow> string + string \<Rightarrow> string option \<Rightarrow> flush_step" where
  "log_call ts ctx h old e \<equiv> FlushWrite flush_log_path (baseline old @ build_log_entry ts (answered h) ctx) e"

definition blocks :: "hook_result \<Rightarrow> bool" where
  "blocks r \<longleftrightarrow> (case r of HookBlock _ \<Rightarrow> True | _ \<Rightarrow> False)"

text \<open>What may follow the preparation: nothing, or a commit; after it its name is asked for and logged; only then it is
  pushed, and it is taken back only when the log failed and the head has not moved.\<close>

inductive flush_tail :: "string \<Rightarrow> flush_step list \<Rightarrow> hook_result \<Rightarrow> bool" for wt where
  no_commit: "flush_tail wt [] r"
| commit_failed: "\<not> succeeds a \<Longrightarrow> blocks r \<Longrightarrow> flush_tail wt [commit_call wt ts ctx a] r"
| head_unknown: "succeeds a \<Longrightarrow> \<not> succeeds h \<Longrightarrow> blocks r \<Longrightarrow> flush_tail wt [commit_call wt ts ctx a, head_call wt h] r"
| pushed: "succeeds a \<Longrightarrow> succeeds h \<Longrightarrow> (if succeeds p then r = HookContinue else blocks r) \<Longrightarrow>
    flush_tail wt [commit_call wt ts ctx a, head_call wt h, FlushRead flush_log_path old, log_call ts ctx h old None,
      FlushExec [''-C'', wt, ''push'', ''origin'', ''factory-artifacts''] p] r"
| taken_back: "succeeds a \<Longrightarrow> succeeds h \<Longrightarrow> answered h' = answered h \<Longrightarrow> blocks r \<Longrightarrow>
    flush_tail wt [commit_call wt ts ctx a, head_call wt h, FlushRead flush_log_path old, log_call ts ctx h old (Some e),
      head_call wt h', FlushExec [''-C'', wt, ''reset'', ''--soft'', answered h @ ''^''] x] r"
| left_alone: "succeeds a \<Longrightarrow> succeeds h \<Longrightarrow> answered h' \<noteq> answered h \<Longrightarrow> blocks r \<Longrightarrow>
    flush_tail wt [commit_call wt ts ctx a, head_call wt h, FlushRead flush_log_path old, log_call ts ctx h old (Some e), head_call wt h'] r"

lemma git_failed_iff:
  "git_failed env what answer = None \<longleftrightarrow> succeeds answer" "git_failed env what answer = Some r \<Longrightarrow> \<not> succeeds answer \<and> blocks r"
  by (auto simp: git_failed_def succeeds_def blocks_def split: sum.splits if_splits)

lemma append_failed_spec:
  assumes "append_failed env wt sha tr = (r, tr')"
  shows "blocks r \<and> (\<exists>h'. (answered h' = sha \<and> (\<exists>x. tr' = tr @ [head_call wt h', FlushExec [''-C'', wt, ''reset'', ''--soft'', sha @ ''^''] x])) \<or>
    (answered h' \<noteq> sha \<and> tr' = tr @ [head_call wt h']))"
proof -
  let ?h = "fl_exec env tr [''-C'', wt, ''rev-parse'', ''HEAD'']"
  have o: "(case ?h of Inr (_, stdout, _) \<Rightarrow> trim stdout | Inl _ \<Rightarrow> []) = answered ?h" by (simp add: answered_def)
  show ?thesis
    by (rule conjI, (use assms in \<open>auto simp: append_failed_def Let_def o decide_append_failure_action_def blocks_def split: if_splits\<close>)[1],
        rule exI[of _ ?h]) (use assms in \<open>auto simp: append_failed_def Let_def o decide_append_failure_action_def split: if_splits\<close>)
qed

lemma push_flush_spec:
  assumes "push_flush env wt sha tr = (r, tr')"
  shows "\<exists>p. tr' = tr @ [FlushExec [''-C'', wt, ''push'', ''origin'', ''factory-artifacts''] p] \<and> (if succeeds p then r = HookContinue else blocks r)"
proof -
  let ?p = "fl_exec env tr [''-C'', wt, ''push'', ''origin'', ''factory-artifacts'']"
  show ?thesis
    using assms by (intro exI[of _ ?p], cases ?p) (auto simp: push_flush_def Let_def succeeds_def blocks_def split: if_splits)
qed

lemma record_commit_spec:
  assumes "record_commit env wt ts ctx tr = (r, tr')" "succeeds a"
  shows "\<exists>tail. tr' = tr @ tail \<and> flush_tail wt (commit_call wt ts ctx a # tail) r"
proof -
  let ?args = "[''-C'', wt, ''rev-parse'', ''HEAD'']"
  let ?h = "fl_exec env tr ?args"
  let ?t1 = "tr @ [FlushExec ?args ?h]"
  let ?old = "fl_read env ?t1 flush_log_path"
  let ?t2 = "?t1 @ [FlushRead flush_log_path ?old]"
  let ?new = "baseline ?old @ build_log_entry ts (answered ?h) ctx"
  let ?e = "fl_write env ?t2 flush_log_path ?new"
  let ?t3 = "?t2 @ [FlushWrite flush_log_path ?new ?e]"
  have run: "record_commit env wt ts ctx tr = (case git_failed env ''rev-parse HEAD'' ?h of Some b \<Rightarrow> (b, ?t1)
      | None \<Rightarrow> (case ?e of Some _ \<Rightarrow> append_failed env wt (answered ?h) ?t3 | None \<Rightarrow> push_flush env wt (answered ?h) ?t3))"
    unfolding record_commit_def Let_def answered_def[symmetric] baseline_def[symmetric] ..
  show ?thesis
  proof (cases "git_failed env ''rev-parse HEAD'' ?h")
    case (Some b)
    then show ?thesis
      using assms run git_failed_iff(2)[OF Some] by (intro exI[of _ "[head_call wt ?h]"]) (auto intro: head_unknown)
  next
    case None
    then have h: "succeeds ?h" using git_failed_iff(1) by blast
    show ?thesis
    proof (cases ?e)
      case e: None
      then obtain p where "tr' = ?t3 @ [FlushExec [''-C'', wt, ''push'', ''origin'', ''factory-artifacts''] p]"
        "if succeeds p then r = HookContinue else blocks r"
        using push_flush_spec assms(1) run None by fastforce
      then show ?thesis using pushed[OF assms(2) h, where p = p and r = r and ts = ts and ctx = ctx and old = ?old] e by simp
    next
      case (Some e)
      then have "append_failed env wt (answered ?h) ?t3 = (r, tr')" using assms(1) run None by simp
      from append_failed_spec[OF this] show ?thesis
        using taken_back[OF assms(2) h, where r = r and ts = ts and ctx = ctx and old = ?old and e = e]
          left_alone[OF assms(2) h, where r = r and ts = ts and ctx = ctx and old = ?old and e = e] Some
        by fastforce
    qed
  qed
qed

definition quiet :: "flush_step list \<Rightarrow> bool" where
  "quiet steps \<longleftrightarrow> list_all (\<lambda>s. \<not> history_call s) steps"

lemma quiet_simps [simp]:
  "quiet []" "quiet (s # ss) \<longleftrightarrow> \<not> history_call s \<and> quiet ss" "quiet (as @ bs) \<longleftrightarrow> quiet as \<and> quiet bs"
  by (simp_all add: quiet_def)

lemma commit_cases:
  assumes "x = (case g of Some b \<Rightarrow> (b, t1) | None \<Rightarrow> (case d of Inl _ \<Rightarrow> (HookContinue, t2) | Inr (_, diff, _) \<Rightarrow>
      if \<not> renewed \<and> is_diff_empty diff then (HookContinue, t2) else (case g' of Some b \<Rightarrow> (b, t3) | None \<Rightarrow> z)))" "x = (r, tr')"
  shows "tr' = t1 \<or> tr' = t2 \<or> (\<exists>b. g' = Some b \<and> r = b \<and> tr' = t3) \<or> g' = None \<and> z = (r, tr')"
  using assms by (cases g; cases d; cases g') (auto split: if_splits)

lemma commit_flush_spec:
  assumes "commit_flush env wt state renewed tr = (r, tr')"
  shows "\<exists>pre tail. tr' = tr @ pre @ tail \<and> quiet pre \<and> flush_tail wt tail r"
proof -
  let ?add = "[''-C'', wt, ''add'', ''-A'']"
  let ?a = "fl_exec env tr ?add"
  let ?t1 = "tr @ [FlushExec ?add ?a]"
  let ?diff = "[''-C'', wt, ''diff'', ''--cached'']"
  let ?d = "fl_exec env ?t1 ?diff"
  let ?t2 = "?t1 @ [FlushExec ?diff ?d]"
  let ?ts = "le_format (fl_lock env) (fl_now env ?t2)"
  let ?ctx = "unwrap_or (parse_state_context state) \<lparr>current_cycle = ''unknown-cycle'', current_step = ''unknown-step''\<rparr>"
  let ?commit = "[''-C'', wt, ''commit'', ''-m'', build_commit_message ?ctx ?ts]"
  let ?c = "fl_exec env ?t2 ?commit"
  let ?t3 = "?t2 @ [FlushExec ?commit ?c]"
  have run: "commit_flush env wt state renewed tr = (case git_failed env ''git add -A'' ?a of Some b \<Rightarrow> (b, ?t1)
      | None \<Rightarrow> (case ?d of Inl _ \<Rightarrow> (HookContinue, ?t2) | Inr (_, diff, _) \<Rightarrow>
          if \<not> renewed \<and> is_diff_empty diff then (HookContinue, ?t2)
          else (case git_failed env ''git commit'' ?c of Some b \<Rightarrow> (b, ?t3) | None \<Rightarrow> record_commit env wt ?ts ?ctx ?t3)))"
    unfolding commit_flush_def Let_def ..
  have early: "?thesis" if "tr' = ?t1"
    using that by (intro exI[of _ "[FlushExec ?add ?a]"] exI[of _ "[]"]) (simp add: no_commit)
  have skip: "?thesis" if "tr' = ?t2"
    using that by (intro exI[of _ "[FlushExec ?add ?a, FlushExec ?diff ?d]"] exI[of _ "[]"]) (simp add: no_commit)
  have failed: "?thesis" if "git_failed env ''git commit'' ?c = Some b" "r = b" "tr' = ?t3" for b
    using commit_failed[where a = ?c and r = r and wt = wt and ts = ?ts and ctx = ?ctx] git_failed_iff(2)[OF that(1)] that(2,3)
    by (intro exI[of _ "[FlushExec ?add ?a, FlushExec ?diff ?d]"] exI[of _ "[FlushExec ?commit ?c]"]) simp
  have made: "?thesis" if "git_failed env ''git commit'' ?c = None" "record_commit env wt ?ts ?ctx ?t3 = (r, tr')"
  proof -
    have "succeeds ?c" using that(1) git_failed_iff(1) by blast
    from record_commit_spec[OF that(2) this] obtain tail where "tr' = ?t3 @ tail" "flush_tail wt (FlushExec ?commit ?c # tail) r" by blast
    then show ?thesis
      by (intro exI[of _ "[FlushExec ?add ?a, FlushExec ?diff ?d]"] exI[of _ "FlushExec ?commit ?c # tail"]) simp
  qed
  from commit_cases[OF run assms] show ?thesis
    by (elim disjE exE conjE) (erule early, erule skip, erule (2) failed, erule (1) made)
qed

lemma step4_outcome_quiet: "\<exists>post. snd (step4_outcome env content renewal tr) = tr @ post \<and> quiet post"
  by (auto simp: step4_outcome_def split: sum.splits prod.splits option.splits renew_outcome.splits skip_reason.splits lock_error.splits)

lemma step4_quiet: "\<exists>pre. snd (step4_renewal_gate env content tr) = tr @ pre \<and> quiet pre"
proof -
  let ?q = "FlushExec [''config'', ''user.email''] (fl_exec env tr [''config'', ''user.email''])"
  obtain renewal where r: "step4_renewal_gate env content tr = step4_outcome env content renewal
      (if identity_needed (fl_lock env) content (fl_now env tr) then tr @ [?q] else tr)"
    unfolding step4_renewal_gate_def Let_def by blast
  obtain post where p: "snd (step4_renewal_gate env content tr) =
      (if identity_needed (fl_lock env) content (fl_now env tr) then tr @ [?q] else tr) @ post" "quiet post"
    using step4_outcome_quiet r by metis
  show ?thesis
    using p by (cases "identity_needed (fl_lock env) content (fl_now env tr)") (auto intro: exI[of _ "?q # post"])
qed

lemma guarded_cases:
  assumes "x = (case fw of None \<Rightarrow> a | Some wt \<Rightarrow> if \<not> m wt then a else (case s of Inl _ \<Rightarrow> b | Inr st \<Rightarrow> f wt st))"
  shows "x = a \<or> x = b \<or> (\<exists>wt st. x = f wt st)"
  using assms by (cases fw; cases s) auto

text \<open>
  Claim C29.  The flush follows its protocol against any git and any disk: a run prepares without touching a branch and then does one
  of six things: nothing, a failed commit, a commit whose name cannot be read, a commit that is logged under
  its name and then pushed, a commit that is taken back because its log entry could not be written and the
  head is still at it, or one that is left alone because the head has moved.  After a commit the compaction
  continues only when the push succeeded.
\<close>

theorem flush_protocol:
  "\<exists>wt pre tail. snd (run_flush env cwd) = pre @ tail \<and> quiet pre \<and> flush_tail wt tail (fst (run_flush env cwd))"
proof -
  let ?args = "[''worktree'', ''list'', ''--porcelain'']"
  let ?a = "fl_exec env [] ?args"
  let ?t1 = "[FlushExec ?args ?a]"
  let ?s = "fl_read env ?t1 flush_state_path"
  let ?t2 = "?t1 @ [FlushRead flush_state_path ?s]"
  have stop: "?thesis" if "run_flush env cwd = (HookContinue, t)" "quiet t" for t
    using that no_commit by (intro exI[of _ "[]"] exI[of _ t] exI[of _ "[]"]) simp
  have run: "run_flush env cwd = (case find_worktree ?a of None \<Rightarrow> (HookContinue, ?t1)
      | Some wt \<Rightarrow> if \<not> mount_ok env cwd wt then (HookContinue, ?t1)
          else (case ?s of Inl _ \<Rightarrow> (HookContinue, ?t2) | Inr state \<Rightarrow> (case step4_renewal_gate env state ?t2 of
            (content, tr) \<Rightarrow> commit_flush env wt state (content \<noteq> state) tr)))"
    unfolding run_flush_def Let_def ..
  consider "run_flush env cwd = (HookContinue, ?t1)" | "run_flush env cwd = (HookContinue, ?t2)"
    | (go) wt state where "run_flush env cwd = (case step4_renewal_gate env state ?t2 of
            (content, tr) \<Rightarrow> commit_flush env wt state (content \<noteq> state) tr)"
    using guarded_cases[OF run] by blast
  then show ?thesis
  proof cases
    case go
    obtain content tr where s4: "step4_renewal_gate env state ?t2 = (content, tr)" by fastforce
    obtain pre where pre: "tr = ?t2 @ pre" "quiet pre" using step4_quiet[of env state ?t2] s4 by auto
    obtain r tr' where cf: "commit_flush env wt state (content \<noteq> state) tr = (r, tr')" by fastforce
    from commit_flush_spec[OF cf] obtain pre' tail where t: "tr' = tr @ pre' @ tail" "quiet pre'" "flush_tail wt tail r" by blast
    have "run_flush env cwd = (r, tr')" using go s4 cf by simp
    then show ?thesis
      using t pre by (intro exI[of _ wt] exI[of _ "?t2 @ pre @ pre'"] exI[of _ tail]) simp
  qed (use stop in simp_all)
qed

text \<open>The log is read again and written whole, so a failed read loses what it held.\<close>

lemma unreadable_log_is_replaced:
  assumes "git_failed env ''rev-parse HEAD'' (fl_exec env tr [''-C'', wt, ''rev-parse'', ''HEAD'']) = None"
    and "\<And>t. fl_read env t flush_log_path = Inl e" "\<And>t c. fl_write env t flush_log_path c = None"
  shows "\<exists>sha. FlushWrite flush_log_path (build_log_entry ts sha ctx) None \<in> set (snd (record_commit env wt ts ctx tr))"
  using assms by (auto simp: record_commit_def push_flush_def Let_def split: sum.splits prod.splits)

text \<open>When git and the log work and something is staged, the run ends with a successful push.\<close>

lemma succeeds_not_failed: "succeeds answer \<Longrightarrow> git_failed env what answer = None"
  using git_failed_iff(1) by blast

lemma record_commit_completes:
  assumes "\<And>t args. succeeds (fl_exec env t args)" "\<And>t c. fl_write env t flush_log_path c = None"
  shows "\<exists>p. fst (record_commit env wt ts ctx tr) = HookContinue \<and>
    last (snd (record_commit env wt ts ctx tr)) = FlushExec [''-C'', wt, ''push'', ''origin'', ''factory-artifacts''] p \<and> succeeds p"
proof -
  have "\<exists>p. fst (push_flush env wt sha t) = HookContinue \<and>
      last (snd (push_flush env wt sha t)) = FlushExec [''-C'', wt, ''push'', ''origin'', ''factory-artifacts''] p \<and> succeeds p" for sha t
  proof -
    let ?p = "fl_exec env t [''-C'', wt, ''push'', ''origin'', ''factory-artifacts'']"
    have "succeeds ?p" by (rule assms(1))
    then show ?thesis
      by (intro exI[of _ ?p], cases ?p) (auto simp: push_flush_def succeeds_def Let_def)
  qed
  then show ?thesis by (simp add: record_commit_def Let_def succeeds_not_failed[OF assms(1)] assms(2))
qed

lemma flush_completes:
  assumes "\<And>t args. succeeds (fl_exec env t args)" "\<And>t c. fl_write env t flush_log_path c = None"
    and "find_worktree (fl_exec env [] [''worktree'', ''list'', ''--porcelain'']) = Some wt" "mount_ok env cwd wt"
    and "\<And>t. \<exists>c. fl_read env t flush_state_path = Inr c"
    and "\<And>t. \<exists>n out err. fl_exec env t [''-C'', wt, ''diff'', ''--cached''] = Inr (n, out, err) \<and> out \<noteq> []"
  shows "\<exists>p. fst (run_flush env cwd) = HookContinue \<and>
    last (snd (run_flush env cwd)) = FlushExec [''-C'', wt, ''push'', ''origin'', ''factory-artifacts''] p \<and> succeeds p"
proof -
  have commit: "\<exists>ts ctx t'. commit_flush env wt state renewed t = record_commit env wt ts ctx t'" for state renewed t
  proof -
    let ?t1 = "t @ [FlushExec [''-C'', wt, ''add'', ''-A''] (fl_exec env t [''-C'', wt, ''add'', ''-A''])]"
    obtain n out err where "fl_exec env ?t1 [''-C'', wt, ''diff'', ''--cached''] = Inr (n, out, err)" "out \<noteq> []"
      using assms(6) by blast
    then show ?thesis
      by (simp add: commit_flush_def Let_def succeeds_not_failed[OF assms(1)] is_diff_empty_def) blast
  qed
  obtain content where c: "fl_read env [FlushExec [''worktree'', ''list'', ''--porcelain''] (fl_exec env [] [''worktree'', ''list'', ''--porcelain''])]
      flush_state_path = Inr content" using assms(5) by blast
  obtain content' t where s4: "step4_renewal_gate env content
      [FlushExec [''worktree'', ''list'', ''--porcelain''] (fl_exec env [] [''worktree'', ''list'', ''--porcelain'']),
       FlushRead flush_state_path (Inr content)] = (content', t)" by fastforce
  have "run_flush env cwd = commit_flush env wt content (content' \<noteq> content) t"
    by (simp add: run_flush_def Let_def assms(3,4) c s4)
  then show ?thesis using commit record_commit_completes[OF assms(1,2)] by metis
qed

end
