(* ===== verification/BlockReport.thy ===== *)
theory BlockReport
  imports ExecutorClaims ShardGate
begin

text \<open>
  The last steps of a dispatch in \<^verbatim>\<open>main.rs\<close>: the exit code from the outcomes of the synchronous plugins, and the
  line that names who blocked and why (\<^verbatim>\<open>extract_block_info\<close>).  The JSON reader is a parameter.
\<close>

section \<open>Who blocks\<close>

definition outcome_blocks :: "plugin_outcome \<Rightarrow> bool" where
  "outcome_blocks o1 =
     (case po_result o1 of
        PluginOk exit_code stdout _ _ _ \<Rightarrow>
          contains (quoted ''outcome'' @ '':'' @ quoted ''block'') stdout \<or> (exit_code = 2 \<and> po_on_error o1 = Block)
      | _ \<Rightarrow> po_on_error o1 = Block \<or> (po_on_error o1 = BlockIfMarker \<and> po_block_if_marker_fired o1))"

section \<open>Why\<close>

definition format_block_if_marker_crash_reason :: "marker_fields option \<Rightarrow> string" where
  "format_block_if_marker_crash_reason mf =
     (let part = (\<lambda>sel. case mf of Some f \<Rightarrow> sel f | None \<Rightarrow> ''<unknown>'');
          artifact = quoted (part mf_artifact_path); expiry = quoted (part mf_expires_at) in
      ''fail-closed-recoverable: non-expired .factory/unvalidated-mutation.marker present (ADR-048 '' @ [CHR 0xC2, CHR 0xA7] @
      ''D1 block_if_marker on gate crash/timeout) '' @ em_dash @
      '' plugin_name='' @ quoted (part mf_plugin_name) @ '' artifact_path='' @ artifact @ '' cause='' @ quoted (part mf_cause) @
      '' expires_at='' @ expiry @ ''. Recovery, in order of sanctioned preference: (T1 '' @ em_dash @
      '' primary agent recovery, do this) re-run the Edit or Write that produced artifact_path '' @ artifact @
      ''; this dispatch type is permanently ungated by this gate and re-validates the artifact, clearing the marker on PASS; (T2 '' @
      em_dash @ '' passive) if immediate re-validation is not possible, the marker auto-clears once the 24h TTL elapses at '' @
      expiry @ ''; (T3 '' @ em_dash @ '' human operator only, NOT an agent action) the human operator may run '' @
      tick @ ''rm .factory/unvalidated-mutation.marker'' @ tick @
      '' out-of-band in their own terminal as a break-glass escape '' @ em_dash @ '' this agent MUST NOT perform that action.'')"

fun extract_reason_from_outcome :: "(string \<Rightarrow> json option) \<Rightarrow> plugin_result \<Rightarrow> string option" where
  "extract_reason_from_outcome parse (PluginOk _ stdout _ _ _) =
     (if contains (quoted ''outcome'' @ '':'' @ quoted ''block'') stdout then Option.bind (parse stdout) (jget_str ''reason'')
      else if contains (quoted ''outcome'' @ '':'' @ quoted ''error'') stdout then Option.bind (parse stdout) (jget_str ''message'')
      else None)"
| "extract_reason_from_outcome parse (PluginCrashed _ _ _ _) = Some ''fail-closed: plugin crashed''"
| "extract_reason_from_outcome parse (PluginTimeout TimeoutFuel _ _ _ fuel_cap) =
     Some (''fail-closed: FUEL_EXHAUSTED: fuel cap of '' @ show_nat (unat fuel_cap) @
       '' units exhausted; raise fuel_cap or reduce payload size'')"
| "extract_reason_from_outcome parse (PluginTimeout TimeoutEpoch _ _ _ _) = Some ''fail-closed: plugin timed out''"

definition outcome_reason :: "(string \<Rightarrow> json option) \<Rightarrow> plugin_outcome \<Rightarrow> string option" where
  "outcome_reason parse o1 =
     (if po_on_error o1 = BlockIfMarker \<and> po_block_if_marker_fired o1
      then Some (format_block_if_marker_crash_reason (po_block_if_marker_fields o1))
      else extract_reason_from_outcome parse (po_result o1))"

fun block_loop ::
  "(string \<Rightarrow> json option) \<Rightarrow> plugin_outcome list \<Rightarrow> string list \<Rightarrow> string option \<Rightarrow> string list \<times> string option"
where
  "block_loop parse [] names first_reason = (names, first_reason)"
| "block_loop parse (o1 # rest) names first_reason =
     (if outcome_blocks o1
      then block_loop parse rest (names @ [po_name o1])
             (case first_reason of None \<Rightarrow> outcome_reason parse o1 | Some r \<Rightarrow> Some r)
      else block_loop parse rest names first_reason)"

fun join_comma :: "string list \<Rightarrow> string" where
  "join_comma [] = []"
| "join_comma [s] = s"
| "join_comma (s # ss) = s @ '','' @ join_comma ss"

definition escape_newlines :: "string \<Rightarrow> string" where
  "escape_newlines s =
     concat (map (\<lambda>c. if c = nl then [CHR 0x5C, CHR ''n''] else if c = cr then [CHR 0x5C, CHR ''r''] else [c]) s)"

definition extract_block_info :: "(string \<Rightarrow> json option) \<Rightarrow> plugin_outcome list \<Rightarrow> string \<times> string" where
  "extract_block_info parse outcomes =
     (case block_loop parse outcomes [] None of
        (names, first_reason) \<Rightarrow> (join_comma names, escape_newlines (unwrap_or first_reason [])))"

section \<open>The exit code\<close>

definition is_advisory_only :: "hook_event \<Rightarrow> bool" where
  "is_advisory_only event \<longleftrightarrow> event = PostCompact"

text \<open>An exit code of 32 bits becomes one of eight.\<close>

definition sync_result_of :: "plugin_outcome \<Rightarrow> sync_result" where
  "sync_result_of o1 =
     \<lparr>sr_exit_code = (case po_result o1 of PluginOk exit_code _ _ _ _ \<Rightarrow> word_of_int exit_code | _ \<Rightarrow> 0),
      sr_on_error = po_on_error o1\<rparr>"

definition final_exit_code :: "string \<Rightarrow> tier_execution_summary \<Rightarrow> int" where
  "final_exit_code event summary =
     (if is_advisory_only (event_type_of event) then 0
      else if ts_exit_code summary = 2 \<or> aggregate_exit_code (map sync_result_of (ts_per_plugin_results summary)) = 2 then 2
      else 0)"

section \<open>The report names the votes\<close>

lemma block_loop_spec:
  "block_loop parse outs names r =
     (names @ map po_name (filter outcome_blocks outs),
      case r of Some t \<Rightarrow> Some t
      | None \<Rightarrow> List.find (\<lambda>_. True) (List.map_filter (outcome_reason parse) (filter outcome_blocks outs)))"
proof (induction outs arbitrary: names r)
  case Nil
  then show ?case by (simp add: List.map_filter_simps split: option.splits)
next
  case (Cons o1 outs)
  then show ?case by (cases r; cases "outcome_reason parse o1") (simp_all add: List.map_filter_simps)
qed

lemma block_names: "fst (extract_block_info parse outs) = join_comma (map po_name (filter outcome_blocks outs))"
  by (simp add: extract_block_info_def block_loop_spec)

lemma escape_newlines_one_line: "nl \<notin> set (escape_newlines s) \<and> cr \<notin> set (escape_newlines s)"
  by (auto simp: escape_newlines_def)

text \<open>A marker check fires only for a plugin under the marker policy that crashed or ran out.\<close>

definition marker_flag_ok :: "plugin_outcome \<Rightarrow> bool" where
  "marker_flag_ok o1 \<longleftrightarrow>
     (po_block_if_marker_fired o1 \<longrightarrow> po_on_error o1 = BlockIfMarker \<and> crashed_or_timed_out (po_result o1))"

lemma decided_flags: "decide_outcomes x clock ps w = (ds, block, w') \<Longrightarrow> \<forall>d\<in>set ds. marker_flag_ok d"
proof (induction x clock ps w arbitrary: ds block w' rule: decide_outcomes.induct)
  case (2 x clock p ps w)
  obtain bim w1 where c1: "plugin_block_if_marker (xc_env x) (po_result p) (po_on_error p) (xc_cwd x) (clock 0) w = (bim, w1)"
    by fastforce
  obtain mf w2 where c2: "(if bim then (case read_all_marker_fields (xc_env x) (marker_path_in (xc_cwd x)) w1 of
      (r, w) \<Rightarrow> (marker_fields_ok r, w)) else (None, w1)) = (mf, w2)" by fastforce
  obtain ds' b' w3 where c3: "decide_outcomes x (\<lambda>i. clock (Suc i)) ps w2 = (ds', b', w3)" by (metis prod_cases3)
  have ds: "ds = p\<lparr>po_block_if_marker_fired := bim, po_block_if_marker_fields := mf\<rparr> # ds'"
    using 2(2) c1 c2 c3 by simp
  have "bim \<longrightarrow> po_on_error p = BlockIfMarker \<and> crashed_or_timed_out (po_result p)"
    using c1 by (auto simp: plugin_block_if_marker_def split: if_splits)
  then show ?case using 2(1)[OF c1[symmetric] c2[symmetric] c3] by (simp add: ds marker_flag_ok_def)
qed simp

lemma tiers_flags: "run_tiers x run tiers w = (outs, block, evs, w') \<Longrightarrow> \<forall>d\<in>set outs. marker_flag_ok d"
proof (induction tiers arbitrary: outs block evs w w')
  case (Cons t tiers)
  obtain tier ss clock where t: "t = (tier, ss, clock)" by (metis prod_cases3)
  obtain evs1 w1 where c1: "run_steps x run tier ss w = (evs1, w1)" by fastforce
  obtain ds b1 w2 where c2: "decide_outcomes x clock (map (\<lambda>e. outcome_of_run x e (run e)) tier) w1 = (ds, b1, w2)"
    by (metis prod_cases3)
  obtain os b2 evs2 w3 where c3: "run_tiers x run tiers w2 = (os, b2, evs2, w3)" by (metis prod_cases4)
  have "outs = ds @ os" using Cons.prems t c1 c2 c3 by simp
  then show ?case using decided_flags[OF c2] Cons.IH[OF c3] by auto
qed simp

lemma votes_blocks: "marker_flag_ok o1 \<Longrightarrow> votes_block o1 \<Longrightarrow> outcome_blocks o1"
  by (cases "po_result o1")
    (auto simp: votes_block_def outcome_blocks_def marker_flag_ok_def plugin_requests_block_def plugin_fail_closed_def
      split: if_splits)

lemma blocks_votes: "outcome_blocks o1 \<Longrightarrow> votes_block o1 \<or> (\<exists>s e t f. po_result o1 = PluginOk 2 s e t f \<and> po_on_error o1 = Block)"
  by (cases "po_result o1")
    (auto simp: votes_block_def outcome_blocks_def plugin_requests_block_def plugin_fail_closed_def)

definition exit_in_byte :: "plugin_result \<Rightarrow> bool" where
  "exit_in_byte r \<longleftrightarrow> (case r of PluginOk c _ _ _ _ \<Rightarrow> 0 \<le> c \<and> c < 256 | _ \<Rightarrow> True)"

lemma byte_two: "0 \<le> c \<Longrightarrow> c < 256 \<Longrightarrow> (word_of_int c :: 8 word) = 2 \<longleftrightarrow> c = 2"
  by (simp add: word_uint_eq_iff uint_word_of_int)

lemma aggregate_two:
  assumes "\<forall>o1\<in>set outs. exit_in_byte (po_result o1)"
  shows "aggregate_exit_code (map sync_result_of outs) = 2 \<longleftrightarrow>
    (\<exists>o1\<in>set outs. \<exists>s e t f. po_result o1 = PluginOk 2 s e t f \<and> po_on_error o1 = Block)"
proof -
  have code: "sr_exit_code (sync_result_of o1) = 2 \<longleftrightarrow> (\<exists>s e t f. po_result o1 = PluginOk 2 s e t f)" if "o1 \<in> set outs" for o1
    using assms that by (cases "po_result o1") (auto simp: sync_result_of_def exit_in_byte_def byte_two)
  have policy: "sr_on_error (sync_result_of o1) = po_on_error o1" for o1 by (simp add: sync_result_of_def)
  have "aggregate_exit_code (map sync_result_of outs) = 2 \<longleftrightarrow>
      (\<exists>o1\<in>set outs. sr_exit_code (sync_result_of o1) = 2 \<and> po_on_error o1 = Block)"
    by (simp add: aggregate_exit_code_def list_ex_iff policy)
  also have "\<dots> \<longleftrightarrow> (\<exists>o1\<in>set outs. \<exists>s e t f. po_result o1 = PluginOk 2 s e t f \<and> po_on_error o1 = Block)"
    using code by blast
  finally show ?thesis .
qed

end
