(* ===== verification/Resolver.thy ===== *)
theory Resolver
  imports Executor
begin

text \<open>
  Context resolvers: the registry of \<^verbatim>\<open>resolver.rs\<close>, the classification of traps, the merge of their answers into
  an entry's configuration and its events (\<^verbatim>\<open>build_plugin_config\<close> of \<^verbatim>\<open>executor.rs\<close>), and the asynchronous run of
  a plugin.  What a resolver answers, and what that does to the world, is the resolver's own function.
\<close>

section \<open>Data\<close>

record resolver_input =
  ri_event_type :: string
  ri_hook_event_name :: string
  ri_agent_type :: "string option"
  ri_project_dir :: string
  ri_plugin_config :: json

record resolver_output =
  ro_key :: string
  ro_value :: "json option"

datatype resolver_error =
    ResolverNotFound string
  | ResolverTrap string string
  | ResolverAbiViolation string string
  | ResolverTimeout string
  | ResolverCapabilityDenied string string
  | ResolverMalformed string string
  | ResolverDuplicateName string

text \<open>The serde tag and the \<open>Display\<close> text of an error.\<close>

fun error_kind :: "resolver_error \<Rightarrow> string" where
  "error_kind (ResolverNotFound _) = ''not_found''"
| "error_kind (ResolverTrap _ _) = ''trap''"
| "error_kind (ResolverAbiViolation _ _) = ''abi_violation''"
| "error_kind (ResolverTimeout _) = ''timeout''"
| "error_kind (ResolverCapabilityDenied _ _) = ''capability_denied''"
| "error_kind (ResolverMalformed _ _) = ''malformed''"
| "error_kind (ResolverDuplicateName _) = ''duplicate_name''"

definition in_ticks :: "string \<Rightarrow> string" where
  "in_ticks s = [CHR 0x27] @ s @ [CHR 0x27]"

fun error_detail :: "resolver_error \<Rightarrow> string" where
  "error_detail (ResolverNotFound n) = ''resolver not found: '' @ n"
| "error_detail (ResolverTrap n d) = ''resolver '' @ in_ticks n @ '' trapped: '' @ d"
| "error_detail (ResolverAbiViolation n d) = ''resolver '' @ in_ticks n @ '' ABI violation: '' @ d"
| "error_detail (ResolverTimeout n) = ''resolver '' @ in_ticks n @ '' timed out''"
| "error_detail (ResolverCapabilityDenied n p) = ''resolver '' @ in_ticks n @ '' capability denied: '' @ p"
| "error_detail (ResolverMalformed n d) = ''malformed source data for resolver '' @ in_ticks n @ '': '' @ d"
| "error_detail (ResolverDuplicateName n) =
     ''duplicate resolver name '' @ in_ticks n @ '' '' @ [CHR 0xE2, CHR 0x80, CHR 0x94] @
     '' each resolver name must be unique (BC-4.12.005 PC6 / EC-005); first registration preserved''"

text \<open>The traps of wasmtime that the code tells apart; the others come with their text.\<close>

datatype trap = TrapInterrupt | TrapOutOfFuel | OtherTrap string

definition classify_resolver_trap :: "string \<Rightarrow> trap \<Rightarrow> resolver_error" where
  "classify_resolver_trap name t = (case t of
     TrapInterrupt \<Rightarrow> ResolverTimeout name
   | TrapOutOfFuel \<Rightarrow> ResolverTimeout name
   | OtherTrap detail \<Rightarrow> ResolverTrap name detail)"

section \<open>Registry\<close>

type_synonym resolver_answer = "resolver_error + resolver_output option"

record resolver =
  rs_name :: string
  rs_context_key :: string
  rs_resolve :: "resolver_input \<Rightarrow> world \<Rightarrow> resolver_answer \<times> world"

definition find_resolver :: "resolver list \<Rightarrow> string \<Rightarrow> resolver option" where
  "find_resolver rs name = find (\<lambda>r. rs_name r = name) rs"

definition register_resolver :: "resolver \<Rightarrow> resolver list \<Rightarrow> (resolver_error + unit) \<times> resolver list" where
  "register_resolver r rs =
     (if list_ex (\<lambda>r'. rs_name r' = rs_name r) rs then (Inl (ResolverDuplicateName (rs_name r)), rs)
      else (Inr (), rs @ [r]))"

text \<open>What the callbacks of a dispatch are told.\<close>

datatype resolver_note = NoteNotFound string | NoteError string resolver_error

definition invoke_resolver ::
  "resolver list \<Rightarrow> string \<Rightarrow> resolver_input \<Rightarrow> world \<Rightarrow>
   (resolver_error + resolver_output) option \<times> resolver_note list \<times> world"
where
  "invoke_resolver rs name input w = (case find_resolver rs name of
     None \<Rightarrow> (None, [NoteNotFound name], w)
   | Some r \<Rightarrow> (case rs_resolve r input w of
        (Inr (Some out), w) \<Rightarrow> (Some (Inr out), [], w)
      | (Inr None, w) \<Rightarrow> (None, [], w)
      | (Inl e, w) \<Rightarrow> (Some (Inl e), [], w)))"

record resolved_context =
  rc_context_key :: string
  rc_resolver_name :: string
  rc_output :: resolver_output

fun resolve_context_for_entry ::
  "resolver list \<Rightarrow> string list \<Rightarrow> resolver_input \<Rightarrow> world \<Rightarrow>
   resolved_context list \<times> resolver_note list \<times> world"
where
  "resolve_context_for_entry rs [] input w = ([], [], w)"
| "resolve_context_for_entry rs (name # names) input w =
     (case find_resolver rs name of
        None \<Rightarrow>
          (case resolve_context_for_entry rs names input w of
             (outputs, notes, w) \<Rightarrow> (outputs, NoteNotFound name # notes, w))
      | Some r \<Rightarrow>
          (case rs_resolve r input w of (answer, w) \<Rightarrow>
            (case resolve_context_for_entry rs names input w of (outputs, notes, w) \<Rightarrow>
              (case answer of
                 Inr (Some out) \<Rightarrow>
                   if ro_value out \<noteq> None then
                     (\<lparr>rc_context_key = rs_context_key r, rc_resolver_name = rs_name r, rc_output = out\<rparr> # outputs,
                      notes, w)
                   else (outputs, notes, w)
               | Inr None \<Rightarrow> (outputs, notes, w)
               | Inl err \<Rightarrow> (outputs, NoteError name err # notes, w)))))"

section \<open>Merge\<close>

record collision_info =
  ci_key :: string
  ci_resolver_name :: string
  ci_old_value :: json
  ci_new_value :: json

fun merge_resolver_outputs ::
  "(string \<times> json) list \<Rightarrow> resolved_context list \<Rightarrow> (string \<times> json) list \<times> collision_info list"
where
  "merge_resolver_outputs m [] = (m, [])"
| "merge_resolver_outputs m (c # cs) =
     (case ro_value (rc_output c) of
        None \<Rightarrow> merge_resolver_outputs m cs
      | Some v \<Rightarrow>
          (case merge_resolver_outputs (jinsert (rc_context_key c) v m) cs of (m', collisions) \<Rightarrow>
            (m', (case map_of m (rc_context_key c) of
                    Some old \<Rightarrow> [\<lparr>ci_key = rc_context_key c, ci_resolver_name = rc_resolver_name c,
                                  ci_old_value = old, ci_new_value = v\<rparr>]
                  | None \<Rightarrow> []) @ collisions)))"

section \<open>The configuration of a plugin\<close>

definition resolver_event ::
  "exec_ctx \<Rightarrow> registry_entry \<Rightarrow> string \<Rightarrow> string \<Rightarrow> (string \<times> json) list \<Rightarrow> internal_event"
where
  "resolver_event x e trace_id type_name fields_list =
     \<lparr>ev_type = type_name, ev_ts = me_now_ts (xc_env x), ev_trace_id = trace_id,
      ev_session_id = xc_session x, ev_plugin_name = re_name e, ev_fields = fields_list\<rparr>"

definition envelope_event_type :: "json \<Rightarrow> string" where
  "envelope_event_type payload =
     unwrap_or (Option.bind (case jget ''event_name'' payload of Some v \<Rightarrow> Some v
                             | None \<Rightarrow> jget ''hook_event_name'' payload) jstr) []"

fun note_event :: "exec_ctx \<Rightarrow> registry_entry \<Rightarrow> string \<Rightarrow> string \<Rightarrow> resolver_note \<Rightarrow> internal_event" where
  "note_event x e trace_id event_type (NoteNotFound n) =
     resolver_event x e trace_id ''resolver.not_found'' [(''resolver_name'', JStr n)]"
| "note_event x e trace_id event_type (NoteError n err) =
     resolver_event x e trace_id ''resolver.error''
       [(''resolver_name'', JStr n), (''error_kind'', JStr (error_kind err)),
        (''error_detail'', JStr (error_detail err)), (''event_type'', JStr event_type)]"

definition collision_event :: "exec_ctx \<Rightarrow> registry_entry \<Rightarrow> string \<Rightarrow> collision_info \<Rightarrow> internal_event" where
  "collision_event x e trace_id c =
     resolver_event x e trace_id ''resolver.merge_collision''
       [(''key'', JStr (ci_key c)), (''resolver_name'', JStr (ci_resolver_name c)),
        (''static_value'', ci_old_value c), (''resolver_value'', ci_new_value c)]"

fun object_map :: "json \<Rightarrow> (string \<times> json) list" where
  "object_map (JObj m) = m"
| "object_map _ = []"

text \<open>\<open>cwd\<close> is the text of the project directory; a path that is not UTF-8 counts as empty.\<close>

definition resolver_input_of :: "registry_entry \<Rightarrow> json \<Rightarrow> string \<Rightarrow> resolver_input" where
  "resolver_input_of e payload cwd =
     \<lparr>ri_event_type = envelope_event_type payload, ri_hook_event_name = re_name e,
      ri_agent_type = jget_str ''agent_type'' payload,
      ri_project_dir = (if utf8_valid cwd then cwd else []), ri_plugin_config = config_as_json e\<rparr>"

definition build_plugin_config ::
  "exec_ctx \<Rightarrow> registry_entry \<Rightarrow> json \<Rightarrow> string \<Rightarrow> resolver list \<Rightarrow> string \<Rightarrow> world \<Rightarrow>
   json \<times> internal_event list \<times> world"
where
  "build_plugin_config x e payload cwd rs trace_id w =
     (if re_needs_context e = [] then (config_as_json e, [], w)
      else (case resolve_context_for_entry rs (re_needs_context e) (resolver_input_of e payload cwd) w of
              (outputs, notes, w) \<Rightarrow>
           (case merge_resolver_outputs (object_map (config_as_json e)) outputs of (merged, collisions) \<Rightarrow>
             (JObj merged,
              map (note_event x e trace_id (envelope_event_type payload)) notes @
              map (collision_event x e trace_id) collisions, w))))"

text \<open>The configuration goes into a copy of the envelope; a payload that is not an object stays as it is.\<close>

fun splice_config :: "json \<Rightarrow> json \<Rightarrow> json" where
  "splice_config (JObj m) config = JObj (jinsert ''plugin_config'' config m)"
| "splice_config payload config = payload"

definition entry_payload ::
  "exec_ctx \<Rightarrow> json \<Rightarrow> string \<Rightarrow> resolver list \<Rightarrow> registry_entry \<Rightarrow> world \<Rightarrow> json \<times> internal_event list \<times> world"
where
  "entry_payload x payload cwd rs e w =
     (case build_plugin_config x e payload cwd rs (unwrap_or (jget_str ''dispatcher_trace_id'' payload) []) w of
        (config, evs, w) \<Rightarrow> (splice_config payload config, evs, w))"

section \<open>Asynchronous plugins\<close>

text \<open>
  \<^verbatim>\<open>spawn_async_plugin\<close>: the same marker update as in a tier, no vote on the dispatch.  Unlike in a tier a task that
  dies keeps its entry's name and policy and counts as a crash.
\<close>

definition async_result :: "plugin_run \<Rightarrow> plugin_result \<times> bool" where
  "async_result run = (case run of
     NotStarted text \<Rightarrow> (PluginCrashed text [] 0 0, False)
   | Ran result big \<Rightarrow> (result, big)
   | JoinFailed err \<Rightarrow> (PluginCrashed (''spawn_blocking join error: '' @ err) [] 0 0, False))"

definition spawn_async_plugin ::
  "exec_ctx \<Rightarrow> json \<Rightarrow> string \<Rightarrow> resolver list \<Rightarrow> (registry_entry \<Rightarrow> json \<Rightarrow> plugin_run) \<Rightarrow> registry_entry \<Rightarrow>
   int \<Rightarrow> u64 \<Rightarrow> world \<Rightarrow> plugin_outcome \<times> internal_event list \<times> world"
where
  "spawn_async_plugin x payload cwd rs run e now nonce w =
     (case entry_payload x payload cwd rs e w of (own_payload, evs, w) \<Rightarrow>
       (case async_result (run e own_payload) of (result, output_too_large) \<Rightarrow>
         (let outcome = \<lparr>po_name = re_name e, po_version = xc_version x,
              po_on_error = entry_on_error (xc_defaults x) e, po_result = result,
              po_block_if_marker_fired = False, po_block_if_marker_fields = None\<rparr> in
          case run e own_payload of
            NotStarted _ \<Rightarrow> (outcome, evs, w)
          | _ \<Rightarrow> (case settle_marker x e result output_too_large now nonce w of
                    (evs', w) \<Rightarrow> (outcome, evs @ evs', w)))))"

section \<open>What the requested resolvers answered\<close>

text \<open>The answers in the order of the request, and what they come to: values under their keys, and complaints.\<close>

fun answers ::
  "resolver list \<Rightarrow> string list \<Rightarrow> resolver_input \<Rightarrow> world \<Rightarrow>
   (string \<times> (resolver \<times> resolver_answer) option) list \<times> world"
where
  "answers rs [] input w = ([], w)"
| "answers rs (name # names) input w =
     (case find_resolver rs name of
        None \<Rightarrow> (case answers rs names input w of (as, w) \<Rightarrow> ((name, None) # as, w))
      | Some r \<Rightarrow> (case rs_resolve r input w of (a, w) \<Rightarrow>
          (case answers rs names input w of (as, w) \<Rightarrow> ((name, Some (r, a)) # as, w))))"

fun provided1 :: "string \<times> (resolver \<times> resolver_answer) option \<Rightarrow> (string \<times> string \<times> json) list" where
  "provided1 (_, Some (r, Inr (Some out))) =
     (case ro_value out of Some v \<Rightarrow> [(rs_context_key r, rs_name r, v)] | None \<Rightarrow> [])"
| "provided1 _ = []"

fun complaint1 :: "string \<times> (resolver \<times> resolver_answer) option \<Rightarrow> resolver_note list" where
  "complaint1 (name, None) = [NoteNotFound name]"
| "complaint1 (name, Some (_, Inl err)) = [NoteError name err]"
| "complaint1 _ = []"

definition provided :: "(string \<times> (resolver \<times> resolver_answer) option) list \<Rightarrow> (string \<times> string \<times> json) list" where
  "provided as = concat (map provided1 as)"

definition complaints :: "(string \<times> (resolver \<times> resolver_answer) option) list \<Rightarrow> resolver_note list" where
  "complaints as = concat (map complaint1 as)"

lemma answer_sums [simp]:
  "provided [] = []" "provided (a # as) = provided1 a @ provided as"
  "complaints [] = []" "complaints (a # as) = complaint1 a @ complaints as"
  by (simp_all add: provided_def complaints_def)

definition binding :: "string \<times> string \<times> json \<Rightarrow> string \<times> json" where
  "binding p = (case p of (k, n, v) \<Rightarrow> (k, v))"

fun context_of :: "string \<times> string \<times> json \<Rightarrow> resolved_context \<Rightarrow> bool" where
  "context_of (k, n, v) c \<longleftrightarrow>
     rc_context_key c = k \<and> rc_resolver_name c = n \<and> ro_value (rc_output c) = Some v"

text \<open>The collisions of a list of values with the static configuration.\<close>

definition overridden :: "(string \<times> json) list \<Rightarrow> string \<times> string \<times> json \<Rightarrow> collision_info list" where
  "overridden m p = (case p of (k, n, v) \<Rightarrow> (case map_of m k of
     Some old \<Rightarrow> [\<lparr>ci_key = k, ci_resolver_name = n, ci_old_value = old, ci_new_value = v\<rparr>] | None \<Rightarrow> []))"

lemma resolve_context_answers:
  assumes "answers rs names input w = (as, w')"
  shows "\<exists>outs. resolve_context_for_entry rs names input w = (outs, complaints as, w') \<and>
    list_all2 context_of (provided as) outs"
  using assms
proof (induction names arbitrary: w as)
  case (Cons name names)
  show ?case
  proof (cases "find_resolver rs name")
    case None
    then obtain as' where as: "answers rs names input w = (as', w')" "as = (name, None) # as'"
      using Cons.prems by (auto split: prod.splits)
    show ?thesis using Cons.IH[OF as(1)] None as(2) by auto
  next
    case (Some r)
    obtain a w1 where a: "rs_resolve r input w = (a, w1)" by (cases "rs_resolve r input w")
    then obtain as' where as: "answers rs names input w1 = (as', w')" "as = (name, Some (r, a)) # as'"
      using Cons.prems Some by (auto split: prod.splits)
    obtain outs where outs: "resolve_context_for_entry rs names input w1 = (outs, complaints as', w')"
      "list_all2 context_of (provided as') outs"
      using Cons.IH[OF as(1)] by blast
    show ?thesis
    proof (cases a)
      case (Inl err)
      then show ?thesis using Some a as(2) outs by simp
    next
      case (Inr produced)
      then show ?thesis using Some a as(2) outs by (cases produced) (auto split: option.splits)
    qed
  qed
qed simp

lemma map_of_jinsert: "map_of (jinsert k v m) = (map_of m)(k \<mapsto> v)"
  by (simp add: jinsert_def update_conv')

lemma upd_map_add: "m(k \<mapsto> v) ++ f = m ++ ([k \<mapsto> v] ++ f)"
  by (auto simp: map_add_def fun_eq_iff split: option.splits)

lemma merge_map:
  assumes "list_all2 context_of ps outs"
  shows "map_of (fst (merge_resolver_outputs m outs)) = map_of m ++ map_of (rev (map binding ps))"
  using assms
proof (induction ps outs arbitrary: m rule: list_all2_induct)
  case (Cons p ps c cs)
  obtain k n v where p: "p = (k, n, v)" by (cases p)
  then have c: "rc_context_key c = k" "ro_value (rc_output c) = Some v" using Cons by auto
  have "map_of (fst (merge_resolver_outputs m (c # cs))) = map_of (fst (merge_resolver_outputs (jinsert k v m) cs))"
    by (simp add: c split_beta)
  also have "\<dots> = (map_of m)(k \<mapsto> v) ++ map_of (rev (map binding ps))" by (simp add: Cons.IH map_of_jinsert del: fun_upd_apply)
  also have "\<dots> = map_of m ++ map_of (rev (map binding (p # ps)))"
    by (subst upd_map_add) (simp only: p binding_def list.map rev.simps map_of_append prod.case map_of.simps fst_conv snd_conv)
  finally show ?case .
qed simp

lemma overridden_jinsert: "fst p \<noteq> k \<Longrightarrow> overridden (jinsert k v m) p = overridden m p"
  by (cases p) (simp add: overridden_def map_of_jinsert)

lemma merge_collisions:
  assumes "list_all2 context_of ps outs" "distinct (map fst ps)"
  shows "snd (merge_resolver_outputs m outs) = concat (map (overridden m) ps)"
  using assms
proof (induction ps outs arbitrary: m rule: list_all2_induct)
  case (Cons p ps c cs)
  obtain k n v where p: "p = (k, n, v)" by (cases p)
  have same: "map (overridden (jinsert k v m)) ps = map (overridden m) ps"
    using Cons.prems p by (intro map_cong refl overridden_jinsert) force
  have c: "rc_context_key c = k" "rc_resolver_name c = n" "ro_value (rc_output c) = Some v" using Cons.hyps p by auto
  have "snd (merge_resolver_outputs (jinsert k v m) cs) = concat (map (overridden m) ps)"
    using Cons.IH[of "jinsert k v m"] Cons.prems same by simp
  then show ?case by (auto simp: p c overridden_def[of m "(k, n, v)"] split_beta split: option.splits)
qed simp

lemma find_resolver_Some: "find_resolver rs name = Some r \<Longrightarrow> r \<in> set rs \<and> rs_name r = name"
  by (auto simp: find_resolver_def find_Some_iff)

lemma provided_keys:
  assumes "answers rs names input w = (as, w')"
  shows "fst ` set (provided as) \<subseteq> rs_context_key ` {r \<in> set rs. rs_name r \<in> set names}"
  using assms
proof (induction names arbitrary: w as)
  case (Cons name names)
  show ?case
  proof (cases "find_resolver rs name")
    case None
    then obtain as' where as: "answers rs names input w = (as', w')" "as = (name, None) # as'"
      using Cons.prems by (auto split: prod.splits)
    then show ?thesis using Cons.IH[OF as(1)] by auto
  next
    case (Some r)
    obtain a w1 where a: "rs_resolve r input w = (a, w1)" by (cases "rs_resolve r input w")
    then obtain as' where as: "answers rs names input w1 = (as', w')" "as = (name, Some (r, a)) # as'"
      using Cons.prems Some by (auto split: prod.splits)
    have "fst ` set (provided1 (name, Some (r, a))) \<subseteq> {rs_context_key r}"
      by (cases "(name, Some (r, a))" rule: provided1.cases) (auto split: option.splits)
    moreover have "fst ` set (provided as') \<subseteq> rs_context_key ` {r \<in> set rs. rs_name r \<in> set (name # names)}"
      using Cons.IH[OF as(1)] by auto
    ultimately show ?thesis using as(2) find_resolver_Some[OF Some] by (auto simp: image_Un)
  qed
qed simp

lemma provided_distinct:
  assumes "answers rs names input w = (as, w')" "distinct (map rs_context_key rs)" "distinct names"
  shows "distinct (map fst (provided as))"
  using assms
proof (induction names arbitrary: w as)
  case (Cons name names)
  show ?case
  proof (cases "find_resolver rs name")
    case None
    then obtain as' where as: "answers rs names input w = (as', w')" "as = (name, None) # as'"
      using Cons.prems by (auto split: prod.splits)
    then show ?thesis using Cons.IH[OF as(1)] Cons.prems by auto
  next
    case (Some r)
    obtain a w1 where a: "rs_resolve r input w = (a, w1)" by (cases "rs_resolve r input w")
    then obtain as' where as: "answers rs names input w1 = (as', w')" "as = (name, Some (r, a)) # as'"
      using Cons.prems Some by (auto split: prod.splits)
    have r: "r \<in> set rs" "rs_name r = name" using find_resolver_Some[OF Some] by auto
    have "rs_context_key r \<notin> fst ` set (provided as')"
      using provided_keys[OF as(1)] r Cons.prems(2,3) by (auto simp: distinct_map dest: inj_onD)
    moreover have "provided1 (name, Some (r, a)) = [] \<or> (\<exists>n v. provided1 (name, Some (r, a)) = [(rs_context_key r, n, v)])"
      by (cases "(name, Some (r, a))" rule: provided1.cases) (auto split: option.splits)
    moreover have "distinct (map fst (provided as'))" using Cons.IH[OF as(1)] Cons.prems(2,3) by simp
    ultimately show ?thesis unfolding as(2) by (force simp: image_iff)
  qed
qed simp

section \<open>Resolvers that write nothing\<close>

text \<open>
  The contract a provider of resolvers keeps: no answer changes the tree, and without faults the world stays as it
  is.  Then building a configuration has no effect either.
\<close>

locale quiet_resolvers =
  fixes make :: "'m \<Rightarrow> resolver"
  assumes quiet: "frame {} w (snd (rs_resolve (make m) input w))"
    and calm: "faults w = [] \<Longrightarrow> snd (rs_resolve (make m) input w) = w"
begin

lemma found_made: "find_resolver (map make ms) name = Some r \<Longrightarrow> \<exists>m. r = make m"
  using find_resolver_Some[of "map make ms" name r] by auto

lemma answers_quiet: "frame {} w (snd (answers (map make ms) names input w))"
proof (induction names arbitrary: w)
  case (Cons name names)
  show ?case
  proof (cases "find_resolver (map make ms) name")
    case (Some r)
    then obtain m where r: "r = make m" using found_made by blast
    obtain a w1 where a: "rs_resolve (make m) input w = (a, w1)" by (cases "rs_resolve (make m) input w")
    have "frame {} w w1" using quiet[of w m input] a by simp
    then show ?thesis using Cons[of w1] Some r a by (auto intro: frame_trans split: prod.splits)
  qed (use Cons[of w] in \<open>auto split: prod.splits\<close>)
qed simp

lemma answers_calm: "faults w = [] \<Longrightarrow> snd (answers (map make ms) names input w) = w"
proof (induction names)
  case (Cons name names)
  show ?case
  proof (cases "find_resolver (map make ms) name")
    case (Some r)
    then obtain m where r: "r = make m" using found_made by blast
    show ?thesis using Cons Some r calm[OF Cons.prems, of m input]
      by (cases "rs_resolve (make m) input w") (auto split: prod.splits)
  qed (use Cons in \<open>auto split: prod.splits\<close>)
qed simp

lemma config_world:
  "snd (snd (build_plugin_config x e payload cwd (map make ms) trace_id w)) =
   (if re_needs_context e = [] then w
    else snd (answers (map make ms) (re_needs_context e) (resolver_input_of e payload cwd) w))"
proof -
  obtain as w' where as: "answers (map make ms) (re_needs_context e) (resolver_input_of e payload cwd) w = (as, w')"
    by (cases "answers (map make ms) (re_needs_context e) (resolver_input_of e payload cwd) w")
  then show ?thesis using resolve_context_answers[OF as]
    by (auto simp: build_plugin_config_def split: prod.splits)
qed

lemma payload_world: "snd (snd (entry_payload x payload cwd (map make ms) e w)) =
   (if re_needs_context e = [] then w
    else snd (answers (map make ms) (re_needs_context e) (resolver_input_of e payload cwd) w))"
  unfolding entry_payload_def split_beta by (simp only: snd_conv config_world)

lemma payload_quiet: "frame {} w (snd (snd (entry_payload x payload cwd (map make ms) e w)))"
  by (simp add: payload_world answers_quiet)

lemma payload_calm: "faults w = [] \<Longrightarrow> snd (snd (entry_payload x payload cwd (map make ms) e w)) = w"
  by (simp add: payload_world answers_calm)

end

section \<open>The context a plugin sees\<close>

lemma build_plugin_config_answers:
  assumes "re_needs_context e \<noteq> []" "distinct (re_needs_context e)" "distinct (map rs_context_key rs)"
    and as: "answers rs (re_needs_context e) (resolver_input_of e payload cwd) w = (as, w')"
  defines "static \<equiv> object_map (config_as_json e)" and "vals \<equiv> provided as"
  shows "\<exists>m. build_plugin_config x e payload cwd rs trace_id w = (JObj m,
      map (note_event x e trace_id (envelope_event_type payload)) (complaints as) @
      map (collision_event x e trace_id) (concat (map (overridden static) vals)), w') \<and>
    map_of m = map_of static ++ map_of (map binding vals)"
proof -
  obtain outs where outs: "resolve_context_for_entry rs (re_needs_context e) (resolver_input_of e payload cwd) w =
      (outs, complaints as, w')" "list_all2 context_of vals outs"
    using resolve_context_answers[OF as] by (auto simp: vals_def)
  have d: "distinct (map fst vals)" using provided_distinct[OF as] assms(2,3) by (simp add: vals_def)
  then have db: "distinct (map fst (map binding vals))"
    by (simp add: binding_def comp_def split_beta)
  have "map_of (rev (map binding vals)) = map_of (map binding vals)"
    using db by (subst map_of_inject_set) (auto simp: rev_map[symmetric])
  then have "map_of (fst (merge_resolver_outputs static outs)) = map_of static ++ map_of (map binding vals)"
    using merge_map[OF outs(2)] by simp
  moreover have "snd (merge_resolver_outputs static outs) = concat (map (overridden static) vals)"
    by (rule merge_collisions[OF outs(2) d])
  ultimately show ?thesis
    by (simp add: build_plugin_config_def assms(1) outs(1) static_def split_beta)
qed

section \<open>Resolvers that leave the world alone\<close>

fun value_of :: "resolver_answer \<Rightarrow> json option" where
  "value_of (Inr (Some out)) = ro_value out"
| "value_of _ = None"

definition asked :: "resolver list \<Rightarrow> (resolver \<Rightarrow> resolver_answer) \<Rightarrow> string \<Rightarrow> string \<times> (resolver \<times> resolver_answer) option" where
  "asked rs ans n = (n, map_option (\<lambda>r. (r, ans r)) (find_resolver rs n))"

lemma find_resolver_None: "find_resolver rs n = None \<longleftrightarrow> n \<notin> rs_name ` set rs"
  by (auto simp: find_resolver_def find_None_iff)

lemma find_resolver_iff:
  "distinct (map rs_name rs) \<Longrightarrow> find_resolver rs n = Some r \<longleftrightarrow> r \<in> set rs \<and> rs_name r = n"
  using find_resolver_Some[of rs n] find_resolver_None[of rs n]
  by (cases "find_resolver rs n") (auto simp: distinct_map dest: inj_onD)

lemma found_only:
  assumes "distinct (map rs_name rs)" "find_resolver rs m = Some r"
  shows "(\<exists>r'\<in>set rs. rs_name r' = m \<and> P r') \<longleftrightarrow> P r"
proof -
  have "r' \<in> set rs \<and> rs_name r' = m \<longleftrightarrow> r' = r" for r'
    using assms(2) find_resolver_iff[OF assms(1), of m r'] by auto
  then have "(\<exists>r'. (r' \<in> set rs \<and> rs_name r' = m) \<and> P r') \<longleftrightarrow> P r" by simp
  then show ?thesis by (simp add: Bex_def conj_assoc)
qed

lemma calm_answers:
  assumes "\<And>r. r \<in> set rs \<Longrightarrow> rs_resolve r input w = (ans r, w)"
  shows "answers rs names input w = (map (asked rs ans) names, w)"
  by (induction names) (auto simp: asked_def assms dest: find_resolver_Some split: option.splits)

lemma provided1_asked: "provided1 (asked rs ans n) = (case find_resolver rs n of None \<Rightarrow> []
   | Some r \<Rightarrow> (case value_of (ans r) of Some v \<Rightarrow> [(rs_context_key r, rs_name r, v)] | None \<Rightarrow> []))"
proof (cases "find_resolver rs n")
  case (Some r)
  then show ?thesis by (cases "ans r" rule: value_of.cases) (auto simp: asked_def split: option.splits)
qed (simp add: asked_def)

lemma complaint1_asked: "complaint1 (asked rs ans n) = (case find_resolver rs n of None \<Rightarrow> [NoteNotFound n]
   | Some r \<Rightarrow> (case ans r of Inl err \<Rightarrow> [NoteError n err] | Inr _ \<Rightarrow> []))"
proof (cases "find_resolver rs n")
  case (Some r)
  then show ?thesis by (cases "ans r") (auto simp: asked_def)
qed (simp add: asked_def)

lemma provided_set:
  assumes "distinct (map rs_name rs)"
  shows "(k, n, v) \<in> set (provided (map (asked rs ans) names)) \<longleftrightarrow>
    (\<exists>r\<in>set rs. rs_name r \<in> set names \<and> rs_context_key r = k \<and> rs_name r = n \<and> value_of (ans r) = Some v)"
proof -
  have "(k, n, v) \<in> set (provided1 (asked rs ans m)) \<longleftrightarrow>
      (\<exists>r\<in>set rs. rs_name r = m \<and> rs_context_key r = k \<and> rs_name r = n \<and> value_of (ans r) = Some v)" for m
  proof (cases "find_resolver rs m")
    case None
    then have "m \<notin> rs_name ` set rs" by (simp add: find_resolver_None)
    with None show ?thesis by (auto simp: provided1_asked)
  next
    case (Some r)
    note found_only[OF assms Some, simp] find_resolver_Some[OF Some, simp]
    show ?thesis using Some by (auto simp: provided1_asked split: option.splits)
  qed
  then show ?thesis by (induction names) auto
qed

lemma complaints_set:
  assumes "distinct (map rs_name rs)"
  shows "c \<in> set (complaints (map (asked rs ans) names)) \<longleftrightarrow>
    (\<exists>n\<in>set names. n \<notin> rs_name ` set rs \<and> c = NoteNotFound n) \<or>
    (\<exists>r\<in>set rs. \<exists>err. rs_name r \<in> set names \<and> ans r = Inl err \<and> c = NoteError (rs_name r) err)"
proof -
  have "c \<in> set (complaint1 (asked rs ans m)) \<longleftrightarrow> (m \<notin> rs_name ` set rs \<and> c = NoteNotFound m) \<or>
      (\<exists>r\<in>set rs. \<exists>err. rs_name r = m \<and> ans r = Inl err \<and> c = NoteError (rs_name r) err)" for m
  proof (cases "find_resolver rs m")
    case None
    then have "m \<notin> rs_name ` set rs" by (simp add: find_resolver_None)
    with None show ?thesis by (auto simp: complaint1_asked)
  next
    case (Some r)
    note found_only[OF assms Some, simp] find_resolver_Some[OF Some, simp]
    have "m \<in> rs_name ` set rs" using find_resolver_None[of rs m] Some by simp
    then show ?thesis using Some by (auto simp: complaint1_asked split: sum.splits)
  qed
  then show ?thesis by (induction names) auto
qed

lemma binding_set: "(k, v) \<in> set (map binding ps) \<longleftrightarrow> (\<exists>n. (k, n, v) \<in> set ps)"
  by (force simp: binding_def)

lemma overridden_set: "c \<in> set (concat (map (overridden m) ps)) \<longleftrightarrow>
    (\<exists>k n v old. (k, n, v) \<in> set ps \<and> map_of m k = Some old \<and>
       c = \<lparr>ci_key = k, ci_resolver_name = n, ci_old_value = old, ci_new_value = v\<rparr>)"
  by (force simp: overridden_def split: option.splits)

section \<open>Context injection\<close>

text \<open>The entry asks for a resolver of the registry that supplies a value under a key.\<close>

definition supplies ::
  "resolver list \<Rightarrow> (resolver \<Rightarrow> resolver_answer) \<Rightarrow> registry_entry \<Rightarrow> string \<Rightarrow> json \<Rightarrow> bool" where
  "supplies rs ans e k v \<longleftrightarrow>
     (\<exists>r\<in>set rs. rs_name r \<in> set (re_needs_context e) \<and> rs_context_key r = k \<and> value_of (ans r) = Some v)"

text \<open>
  Over a registry with distinct names and distinct context keys, whose resolvers leave the world as it is, an entry
  that asks for distinct contexts gets its static configuration overlaid with what they supply, in any order, and
  the events report the names that are missing, the resolvers that failed and the static values overridden.
\<close>

lemma context_injection:
  assumes needs: "re_needs_context e \<noteq> []" "distinct (re_needs_context e)"
    and registry: "distinct (map rs_name rs)" "distinct (map rs_context_key rs)"
    and config: "re_config e = TTable t"
    and calm: "\<And>r. r \<in> set rs \<Longrightarrow> rs_resolve r (resolver_input_of e payload cwd) w = (ans r, w)"
    and built: "build_plugin_config x e payload cwd rs trace_id w = (cfg, evs, w')"
  shows "w' = w \<and>
    (\<forall>k v. jget k cfg = Some v \<longleftrightarrow> supplies rs ans e k v \<or>
       (\<nexists>v'. supplies rs ans e k v') \<and> jget k (config_as_json e) = Some v) \<and>
    (\<forall>ev. ev \<in> set evs \<longleftrightarrow>
       (\<exists>n\<in>set (re_needs_context e). n \<notin> rs_name ` set rs \<and>
          ev = note_event x e trace_id (envelope_event_type payload) (NoteNotFound n)) \<or>
       (\<exists>r\<in>set rs. \<exists>err. rs_name r \<in> set (re_needs_context e) \<and> ans r = Inl err \<and>
          ev = note_event x e trace_id (envelope_event_type payload) (NoteError (rs_name r) err)) \<or>
       (\<exists>r\<in>set rs. \<exists>v old. rs_name r \<in> set (re_needs_context e) \<and> value_of (ans r) = Some v \<and>
          jget (rs_context_key r) (config_as_json e) = Some old \<and>
          ev = collision_event x e trace_id \<lparr>ci_key = rs_context_key r, ci_resolver_name = rs_name r,
                 ci_old_value = old, ci_new_value = v\<rparr>))"
proof -
  let ?as = "map (asked rs ans) (re_needs_context e)" and ?static = "object_map (config_as_json e)"
  have as: "answers rs (re_needs_context e) (resolver_input_of e payload cwd) w = (?as, w)"
    by (rule calm_answers) (rule calm)
  obtain m where m: "build_plugin_config x e payload cwd rs trace_id w = (JObj m,
      map (note_event x e trace_id (envelope_event_type payload)) (complaints ?as) @
      map (collision_event x e trace_id) (concat (map (overridden ?static) (provided ?as))), w)"
    "map_of m = map_of ?static ++ map_of (map binding (provided ?as))"
    using build_plugin_config_answers[OF needs registry(2) as] by blast
  have cfg: "cfg = JObj m" "w' = w" using built m(1) by simp_all
  have evs: "evs = map (note_event x e trace_id (envelope_event_type payload)) (complaints ?as) @
      map (collision_event x e trace_id) (concat (map (overridden ?static) (provided ?as)))"
    using built m(1) by simp
  have static: "map_of ?static k = jget k (config_as_json e)" for k by (simp add: config_as_json_def config)
  have "distinct (map fst (map binding (provided ?as)))"
    using provided_distinct[OF as registry(2) needs(2)] by (simp add: binding_def comp_def split_beta)
  then have vals: "map_of (map binding (provided ?as)) k = Some v \<longleftrightarrow> supplies rs ans e k v" for k v
    by (subst map_of_eq_Some_iff) (auto simp: binding_set supplies_def provided_set[OF registry(1)] simp del: set_map)
  have lookup: "jget k cfg = Some v \<longleftrightarrow> supplies rs ans e k v \<or>
       (\<nexists>v'. supplies rs ans e k v') \<and> jget k (config_as_json e) = Some v" for k v
    by (auto simp: cfg m(2) map_add_Some_iff static vals[symmetric])
  have events: "ev \<in> set evs \<longleftrightarrow>
      (\<exists>c\<in>set (complaints ?as). ev = note_event x e trace_id (envelope_event_type payload) c) \<or>
      (\<exists>c\<in>set (concat (map (overridden ?static) (provided ?as))). ev = collision_event x e trace_id c)" for ev
    unfolding evs by (simp add: image_iff Bex_def del: set_concat set_map) (auto simp: image_iff)
  show ?thesis
    by (intro conjI allI, rule cfg, rule lookup, unfold events Bex_def complaints_set[OF registry(1)] overridden_set provided_set[OF registry(1)] static) blast
qed

text \<open>A registry of one, and an entry with a static value under its key.\<close>

definition demo_resolver :: "string \<Rightarrow> string \<Rightarrow> resolver_answer \<Rightarrow> resolver" where
  "demo_resolver name key a = \<lparr>rs_name = name, rs_context_key = key, rs_resolve = \<lambda>_ w. (a, w)\<rparr>"

definition demo_answer :: resolver_answer where
  "demo_answer = Inr (Some \<lparr>ro_key = ''ignored'', ro_value = Some (JStr ''new'')\<rparr>)"

definition demo_resolvers :: "resolver list" where
  "demo_resolvers = [demo_resolver ''wave'' ''wave_key'' demo_answer]"

definition demo_entry :: "string list \<Rightarrow> registry_entry" where
  "demo_entry needs = sample_registry_entry\<lparr>re_config := TTable [(''wave_key'', TStr ''old''), (''level'', TStr ''strict'')],
     re_needs_context := needs\<rparr>"

definition demo_marker_env :: marker_env where
  "demo_marker_env = \<lparr>me_encode = \<lambda>_. None, me_decode = \<lambda>_. None, me_rfc3339 = \<lambda>_. None, me_format = \<lambda>_. [],
     me_json = \<lambda>_. None, me_alnum = \<lambda>_. True, me_now_ts = ''now''\<rparr>"

definition demo_exec_ctx :: exec_ctx where
  "demo_exec_ctx = \<lparr>xc_env = demo_marker_env, xc_session = ''s'', xc_cwd = [], xc_trace = ''t'', xc_version = ''1'',
     xc_log_path = None, xc_defaults = default_registry_defaults, xc_artifact = []\<rparr>"

definition demo_plain_world :: world where
  "demo_plain_world = \<lparr>nodes = [], faults = [], nonces = [], pid = 1\<rparr>"

text \<open>An entry that names a resolver twice: the second answer is reported as overriding a static value, which is the first.\<close>

lemma repeated_context_collides:
  "fst (snd (build_plugin_config demo_exec_ctx (sample_registry_entry\<lparr>re_needs_context := [''wave'', ''wave'']\<rparr>) (JObj []) ''/w''
      demo_resolvers ''t'' demo_plain_world)) =
   [collision_event demo_exec_ctx sample_registry_entry ''t''
      \<lparr>ci_key = ''wave_key'', ci_resolver_name = ''wave'', ci_old_value = JStr ''new'', ci_new_value = JStr ''new''\<rparr>]"
  by code_simp

text \<open>A payload gets its own configuration and keeps everything else, so no entry sees the configuration of another.\<close>

lemma splice_config_spec:
  "jget k (splice_config (JObj m) config) = (if k = ''plugin_config'' then Some config else jget k (JObj m))"
  by (simp add: map_of_jinsert)

lemma payload_keeps_envelope:
  assumes "entry_payload x (JObj m) cwd rs e w = (payload, evs, w')" "k \<noteq> ''plugin_config''"
  shows "jget k payload = jget k (JObj m)"
  using assms by (auto simp: entry_payload_def map_of_jinsert split: prod.splits)

text \<open>An asynchronous plugin never votes, and its marker update is the one of a tier.\<close>

lemma async_marker_update:
  assumes "entry_payload x payload cwd rs e w = (own, evs, w1)" "run e own = Ran result big"
  shows "snd (spawn_async_plugin x payload cwd rs run e now nonce w) =
    (case settle_marker x e result big now nonce w1 of (evs', w2) \<Rightarrow> (evs @ evs', w2))"
  by (simp add: spawn_async_plugin_def assms async_result_def Let_def split: prod.splits)

end
