(* ===== verification/Envelope.thy ===== *)
theory Envelope
  imports ShardGate FactoryLock Resolver HostWire
begin

text \<open>
  The envelope of a hook event: how \<^verbatim>\<open>payload.rs\<close> reads it from standard input, what \<^verbatim>\<open>main.rs\<close> and the git context
  of \<^verbatim>\<open>invoke.rs\<close> add before a plugin sees it.  The JSON reader is a parameter, and so are the answers of git, one for
  each argument list: the code asks each question once.
\<close>

section \<open>Reading\<close>

record envelope = hook_payload +
  en_session_id :: string
  en_tool_response :: "json option"
  en_extra :: "(string \<times> json) list"

datatype payload_error = PayloadIo io_kind | PayloadJson | PayloadMissingField string

definition envelope_keys :: "string list" where
  "envelope_keys = [''event_name'', ''hook_event_name'', ''tool_name'', ''session_id'', ''tool_input'', ''tool_response'']"

text \<open>The derived \<^verbatim>\<open>Deserialize\<close>: an alias for the event, three defaults, and the rest of the keys as they are.\<close>

definition event_field :: "(string \<times> json) list \<Rightarrow> json option" where
  "event_field m = (case (map_of m ''event_name'', map_of m ''hook_event_name'') of
     (Some _, Some _) \<Rightarrow> None | (Some v, None) \<Rightarrow> Some v | (None, r) \<Rightarrow> r)"

definition deserialize_envelope :: "(string \<times> json) list \<Rightarrow> envelope option" where
  "deserialize_envelope m =
     (case Option.bind (event_field m) jstr of
        None \<Rightarrow> None
      | Some event \<Rightarrow>
     (case jstr (unwrap_or (map_of m ''tool_name'') (JStr [])) of
        None \<Rightarrow> None
      | Some tool \<Rightarrow>
     (case Option.bind (map_of m ''session_id'') jstr of
        None \<Rightarrow> None
      | Some session \<Rightarrow>
          Some \<lparr>hp_event_name = event, hp_tool_name = tool, hp_tool_input = unwrap_or (map_of m ''tool_input'') JNull,
            en_session_id = session,
            en_tool_response = (case map_of m ''tool_response'' of Some JNull \<Rightarrow> None | r \<Rightarrow> r),
            en_extra = filter (\<lambda>(k, v). k \<notin> set envelope_keys) m\<rparr>)))"

definition validate_envelope :: "envelope \<Rightarrow> payload_error option" where
  "validate_envelope p =
     (if hp_event_name p = [] then Some (PayloadMissingField ''event_name'')
      else if en_session_id p = [] then Some (PayloadMissingField ''session_id'')
      else None)"

text \<open>Where both spellings of the event are there, the alias goes.\<close>

definition drop_alias :: "(string \<times> json) list \<Rightarrow> (string \<times> json) list" where
  "drop_alias m =
     (if map_of m ''event_name'' \<noteq> None \<and> map_of m ''hook_event_name'' \<noteq> None then AList.delete ''hook_event_name'' m
      else m)"

definition payload_from_bytes :: "(bytes \<Rightarrow> json option) \<Rightarrow> bytes \<Rightarrow> payload_error + envelope" where
  "payload_from_bytes parse raw =
     (case parse raw of
        Some (JObj m) \<Rightarrow>
          (case deserialize_envelope (drop_alias m) of
             None \<Rightarrow> Inl PayloadJson
           | Some p \<Rightarrow> (case validate_envelope p of Some err \<Rightarrow> Inl err | None \<Rightarrow> Inr p))
      | _ \<Rightarrow> Inl PayloadJson)"

definition payload_from_reader ::
  "(bytes \<Rightarrow> json option) \<Rightarrow> io_kind + bytes \<Rightarrow> payload_error + envelope"
where
  "payload_from_reader parse stdin =
     (case stdin of Inl k \<Rightarrow> Inl (PayloadIo k) | Inr raw \<Rightarrow> payload_from_bytes parse raw)"

text \<open>The derived \<^verbatim>\<open>Serialize\<close>.\<close>

definition payload_to_map :: "envelope \<Rightarrow> (string \<times> json) list" where
  "payload_to_map p = fold (\<lambda>(k, v) m. jinsert k v m) (en_extra p)
     [(''event_name'', JStr (hp_event_name p)), (''tool_name'', JStr (hp_tool_name p)),
      (''session_id'', JStr (en_session_id p)), (''tool_input'', hp_tool_input p),
      (''tool_response'', unwrap_or (en_tool_response p) JNull)]"

section \<open>The git context\<close>

text \<open>The run of a git command: an error to start it, or whether it succeeded and what it printed.\<close>

type_synonym git = "string list \<Rightarrow> string + (bool \<times> bytes)"

definition run_git :: "git \<Rightarrow> string list \<Rightarrow> string option" where
  "run_git git args =
     (case git args of Inr (True, out) \<Rightarrow> Some (trim (from_utf8_lossy out)) | _ \<Rightarrow> None)"

record git_context =
  head_subject :: string
  head_sha :: string
  head_parent_subject :: string
  head_parent_sha :: string
  head_state_timestamp :: string
  head_parent_state_timestamp :: string
  state_md_in_commit :: string

definition empty_git_context :: git_context where
  "empty_git_context = \<lparr>head_subject = [], head_sha = [], head_parent_subject = [], head_parent_sha = [],
     head_state_timestamp = [], head_parent_state_timestamp = [], state_md_in_commit = []\<rparr>"

definition git_context_json :: "git_context \<Rightarrow> json" where
  "git_context_json g = JObj
     [(''head_subject'', JStr (head_subject g)), (''head_sha'', JStr (head_sha g)),
      (''head_parent_subject'', JStr (head_parent_subject g)), (''head_parent_sha'', JStr (head_parent_sha g)),
      (''head_state_timestamp'', JStr (head_state_timestamp g)),
      (''head_parent_state_timestamp'', JStr (head_parent_state_timestamp g)),
      (''state_md_in_commit'', JStr (state_md_in_commit g))]"

definition detect_git_commit_event :: "'a hook_payload_scheme \<Rightarrow> bool" where
  "detect_git_commit_event p =
     (if hp_event_name p \<noteq> ''PostToolUse'' then False
      else if hp_tool_name p \<noteq> ''Bash'' then False
      else (case jget_str ''command'' (hp_tool_input p) of
          None \<Rightarrow> False
        | Some command \<Rightarrow> contains ''git'' command \<and> contains '' commit'' command \<and> contains ''.factory'' command))"

fun find_timestamp :: "string list \<Rightarrow> string option" where
  "find_timestamp [] = None"
| "find_timestamp (line # rest) =
     (case extract_yaml_string_value line ''timestamp'' of Some v \<Rightarrow> Some v | None \<Rightarrow> find_timestamp rest)"

definition state_timestamp :: "git \<Rightarrow> string \<Rightarrow> string" where
  "state_timestamp git commit =
     (case run_git git [''show'', commit @ '':STATE.md''] of
        Some content \<Rightarrow> unwrap_or (find_timestamp (str_lines content)) []
      | None \<Rightarrow> [])"

definition build_git_context :: "git \<Rightarrow> git_context" where
  "build_git_context git =
     (case run_git git [''log'', ''--format=%s'', ''-1'', ''HEAD''] of
        None \<Rightarrow> empty_git_context
      | Some subject \<Rightarrow>
     (case run_git git [''rev-parse'', ''HEAD''] of
        None \<Rightarrow> empty_git_context
      | Some sha \<Rightarrow>
          \<lparr>head_subject = subject, head_sha = sha,
            head_parent_subject = unwrap_or (run_git git [''log'', ''--format=%s'', ''-1'', ''HEAD^'']) [],
            head_parent_sha = unwrap_or (run_git git [''rev-parse'', ''HEAD^'']) [],
            head_state_timestamp = state_timestamp git ''HEAD'',
            head_parent_state_timestamp = state_timestamp git ''HEAD^'',
            state_md_in_commit =
              (case run_git git [''diff'', ''--name-only'', ''HEAD^'', ''HEAD''] of
                 Some changed \<Rightarrow> if list_ex (\<lambda>f. trim f = ''STATE.md'') (str_lines changed) then ''true'' else ''false''
               | None \<Rightarrow> [])\<rparr>))"

definition inject_git_context_if_qualifying :: "'a hook_payload_scheme \<Rightarrow> git \<Rightarrow> json \<Rightarrow> json" where
  "inject_git_context_if_qualifying p git payload =
     (if \<not> detect_git_commit_event p
      then (case payload of JObj m \<Rightarrow> JObj (AList.delete ''git_context'' m) | v \<Rightarrow> v)
      else (case payload of JObj m \<Rightarrow> JObj (jinsert ''git_context'' (git_context_json (build_git_context git)) m) | v \<Rightarrow> v))"

text \<open>What \<^verbatim>\<open>run\<close> hands to the executor.\<close>

definition dispatch_payload :: "envelope \<Rightarrow> string \<Rightarrow> git \<Rightarrow> json" where
  "dispatch_payload p trace git =
     inject_git_context_if_qualifying p git (JObj (jinsert ''dispatcher_trace_id'' (JStr trace) (payload_to_map p)))"

section \<open>What a plugin is told\<close>

lemma map_of_fold_jinsert:
  "distinct (map fst xs) \<Longrightarrow>
   map_of (fold (\<lambda>(k, v) m. jinsert k v m) xs m) q = (case map_of xs q of Some v \<Rightarrow> Some v | None \<Rightarrow> map_of m q)"
proof (induction xs arbitrary: m)
  case (Cons x xs)
  obtain k v where x: "x = (k, v)" by fastforce
  have "map_of xs k = None" using Cons.prems x by (auto simp: map_of_eq_None_iff)
  then show ?case using Cons.IH[of "jinsert k v m"] Cons.prems by (auto simp: x map_of_jinsert split: option.splits)
qed simp

lemma filter_keys_distinct: "distinct (map fst m) \<Longrightarrow> distinct (map fst (filter P m))"
  by (simp add: distinct_map_filter)

lemma map_of_filter_keys: "map_of (filter (\<lambda>(q, v). P q) m) k = (if P k then map_of m k else None)"
  by (induction m) auto

lemma drop_alias_map:
  "map_of (drop_alias m) k = (if k = ''hook_event_name'' \<and> map_of m ''event_name'' \<noteq> None then None else map_of m k)"
  by (auto simp: drop_alias_def delete_conv')

lemma drop_alias_distinct: "distinct (map fst m) \<Longrightarrow> distinct (map fst (drop_alias m))"
  by (simp add: drop_alias_def distinct_delete)

lemma deserialize_envelope_Some:
  assumes "deserialize_envelope m = Some p"
  shows "\<exists>event tool session. event_field m = Some (JStr event) \<and>
    unwrap_or (map_of m ''tool_name'') (JStr []) = JStr tool \<and> map_of m ''session_id'' = Some (JStr session) \<and>
    p = \<lparr>hp_event_name = event, hp_tool_name = tool, hp_tool_input = unwrap_or (map_of m ''tool_input'') JNull,
      en_session_id = session,
      en_tool_response = (case map_of m ''tool_response'' of Some JNull \<Rightarrow> None | r \<Rightarrow> r),
      en_extra = filter (\<lambda>(k, v). k \<notin> set envelope_keys) m\<rparr>"
proof -
  have str: "jstr v = Some s \<longleftrightarrow> v = JStr s" for v s by (cases v) auto
  show ?thesis using assms by (auto simp: deserialize_envelope_def str split: option.splits bind_splits)
qed

text \<open>The value of a key of standard input as it is passed on.\<close>

definition told :: "(string \<times> json) list \<Rightarrow> string \<Rightarrow> json option" where
  "told m k =
     (if k = ''event_name'' then (case map_of m ''event_name'' of Some v \<Rightarrow> Some v | None \<Rightarrow> map_of m ''hook_event_name'')
      else if k = ''hook_event_name'' then None
      else if k = ''tool_name'' then Some (unwrap_or (map_of m ''tool_name'') (JStr []))
      else if k = ''tool_input'' then Some (unwrap_or (map_of m ''tool_input'') JNull)
      else if k = ''tool_response'' then Some (unwrap_or (map_of m ''tool_response'') JNull)
      else map_of m k)"

lemma payload_from_bytes_Inr:
  assumes "payload_from_bytes parse raw = Inr p"
  shows "\<exists>m. parse raw = Some (JObj m) \<and> deserialize_envelope (drop_alias m) = Some p \<and> validate_envelope p = None"
  using assms by (auto simp: payload_from_bytes_def split: option.splits json.splits)

lemma event_field_drop_alias:
  "event_field (drop_alias m) = (case map_of m ''event_name'' of Some v \<Rightarrow> Some v | None \<Rightarrow> map_of m ''hook_event_name'')"
  by (auto simp: event_field_def drop_alias_map split: option.splits)

lemma payload_to_map_told:
  assumes read: "deserialize_envelope (drop_alias m) = Some p" and keys: "distinct (map fst m)"
  shows "map_of (payload_to_map p) k = told m k"
proof -
  let ?d = "drop_alias m"
  obtain event tool session where f: "event_field ?d = Some (JStr event)"
    "unwrap_or (map_of ?d ''tool_name'') (JStr []) = JStr tool" "map_of ?d ''session_id'' = Some (JStr session)"
    and p: "p = \<lparr>hp_event_name = event, hp_tool_name = tool, hp_tool_input = unwrap_or (map_of ?d ''tool_input'') JNull,
      en_session_id = session, en_tool_response = (case map_of ?d ''tool_response'' of Some JNull \<Rightarrow> None | r \<Rightarrow> r),
      en_extra = filter (\<lambda>(k, v). k \<notin> set envelope_keys) ?d\<rparr>"
    using deserialize_envelope_Some[OF read] by blast
  have extra: "map_of (en_extra p) q = (if q \<in> set envelope_keys then None else map_of m q)" for q
    by (simp add: p map_of_filter_keys drop_alias_map del: set_simps) (simp add: envelope_keys_def)
  have "distinct (map fst (en_extra p))" unfolding p by (simp add: filter_keys_distinct drop_alias_distinct keys)
  note out = map_of_fold_jinsert[OF this]
  have response: "unwrap_or (en_tool_response p) JNull = unwrap_or (map_of m ''tool_response'') JNull"
    unfolding p by (simp add: drop_alias_map unwrap_or_def split: option.splits json.splits)
  have event: "(case map_of m ''event_name'' of Some v \<Rightarrow> Some v | None \<Rightarrow> map_of m ''hook_event_name'') = Some (JStr event)"
    using f(1) by (simp add: event_field_drop_alias)
  have parts: "hp_event_name p = event" "hp_tool_name p = tool" "en_session_id p = session"
    "hp_tool_input p = unwrap_or (map_of m ''tool_input'') JNull"
    by (simp_all add: p drop_alias_map)
  have m: "unwrap_or (map_of m ''tool_name'') (JStr []) = JStr tool" "map_of m ''session_id'' = Some (JStr session)"
    using f(2,3) by (simp_all add: drop_alias_map)
  show ?thesis
    unfolding payload_to_map_def out extra parts response
    by (auto simp: told_def envelope_keys_def event m split: option.splits)
qed

lemma jget_dispatch_payload:
  "jget k (dispatch_payload p trace git) =
     (if k = ''git_context'' then
        (if detect_git_commit_event p then Some (git_context_json (build_git_context git)) else None)
      else if k = ''dispatcher_trace_id'' then Some (JStr trace)
      else map_of (payload_to_map p) k)"
  by (auto simp: dispatch_payload_def inject_git_context_if_qualifying_def map_of_jinsert delete_conv')

lemma dispatch_payload_object: "\<exists>m. dispatch_payload p trace git = JObj m"
  by (simp add: dispatch_payload_def inject_git_context_if_qualifying_def)

text \<open>Which input is accepted.\<close>

lemma payload_accepted_iff:
  assumes "parse raw = Some (JObj m)"
  shows "(\<exists>p. payload_from_bytes parse raw = Inr p) \<longleftrightarrow>
    (\<exists>s. s \<noteq> [] \<and> told m ''event_name'' = Some (JStr s)) \<and> (\<exists>s. s \<noteq> [] \<and> map_of m ''session_id'' = Some (JStr s)) \<and>
    (\<exists>s. told m ''tool_name'' = Some (JStr s))"
proof -
  have str: "jstr v = Some s \<longleftrightarrow> v = JStr s" for v s by (cases v) auto
  show ?thesis
    by (cases "deserialize_envelope (drop_alias m)")
      (auto simp: payload_from_bytes_def assms deserialize_envelope_def validate_envelope_def event_field_drop_alias
        drop_alias_map told_def unwrap_or_def str split: option.splits bind_splits)
qed

text \<open>
  Claim C15.  What a plugin is told is what came in, and what the dispatcher vouches for cannot be forged: for every accepted
  input, a key of the plugin's payload has the value it had on standard input (the event under its canonical name,
  the tool fields defaulted), except that the trace id is the dispatcher's, the configuration is the plugin's
  own, and the git context is what git answered on a commit to the artifacts and absent on every other event,
  whatever the input claims.
\<close>

theorem payload_told_and_vouched:
  assumes "payload_from_bytes parse raw = Inr p" "parse raw = Some (JObj m)" "distinct (map fst m)"
    and "entry_payload x (dispatch_payload p trace git) cwd rs e w = (sent, evs, w')"
  shows "jget k sent =
    (if k = ''plugin_config'' then Some (fst (build_plugin_config x e (dispatch_payload p trace git) cwd rs trace w))
     else if k = ''git_context'' then
       (if detect_git_commit_event p then Some (git_context_json (build_git_context git)) else None)
     else if k = ''dispatcher_trace_id'' then Some (JStr trace)
     else told m k)"
proof -
  have read: "deserialize_envelope (drop_alias m) = Some p" using payload_from_bytes_Inr[OF assms(1)] assms(2) by simp
  note told = payload_to_map_told[OF read assms(3)]
  obtain pm where pm: "dispatch_payload p trace git = JObj pm" using dispatch_payload_object by blast
  have trace: "unwrap_or (jget_str ''dispatcher_trace_id'' (JObj pm)) [] = trace"
    using jget_dispatch_payload[of "''dispatcher_trace_id''" p trace git] by (simp add: pm jget_str_def unwrap_or_def)
  show ?thesis
  proof (cases "k = ''plugin_config''")
    case True
    then show ?thesis using assms(4) unfolding pm
      by (auto simp: entry_payload_def trace map_of_jinsert split: prod.splits)
  next
    case False
    have "jget k sent = jget k (dispatch_payload p trace git)"
      using payload_keeps_envelope[OF assms(4)[unfolded pm] False] by (simp add: pm)
    also have "\<dots> = (if k = ''git_context'' then
        (if detect_git_commit_event p then Some (git_context_json (build_git_context git)) else None)
      else if k = ''dispatcher_trace_id'' then Some (JStr trace) else told m k)"
      unfolding jget_dispatch_payload told ..
    finally show ?thesis using False by simp
  qed
qed

definition forged_input :: "(string \<times> json) list" where
  "forged_input = [(''hook_event_name'', JStr ''PostToolUse''), (''tool_name'', JStr ''Bash''), (''session_id'', JStr ''s''),
     (''tool_input'', JObj [(''command'', JStr ''ls'')]), (''git_context'', JStr ''forged''),
     (''dispatcher_trace_id'', JStr ''forged''), (''agent_type'', JStr ''reviewer'')]"

definition forged_envelope :: envelope where
  "forged_envelope = \<lparr>hp_event_name = ''PostToolUse'', hp_tool_name = ''Bash'',
     hp_tool_input = JObj [(''command'', JStr ''ls'')], en_session_id = ''s'', en_tool_response = None,
     en_extra = [(''git_context'', JStr ''forged''), (''dispatcher_trace_id'', JStr ''forged''), (''agent_type'', JStr ''reviewer'')]\<rparr>"

lemma forged_read: "payload_from_bytes (\<lambda>_. Some (JObj forged_input)) raw = Inr forged_envelope"
  by (simp add: payload_from_bytes_def forged_input_def drop_alias_def deserialize_envelope_def event_field_def unwrap_or_def
      validate_envelope_def envelope_keys_def forged_envelope_def)

theorem payload_told_and_vouched_witness:
  "\<exists>sent evs w'. entry_payload demo_exec_ctx (dispatch_payload forged_envelope ''t'' (\<lambda>_. Inl [])) ''/'' [] (demo_entry [])
       demo_plain_world = (sent, evs, w') \<and>
     jget ''git_context'' sent = None \<and> jget ''dispatcher_trace_id'' sent = Some (JStr ''t'') \<and>
     jget ''agent_type'' sent = Some (JStr ''reviewer'') \<and> jget ''event_name'' sent = Some (JStr ''PostToolUse'')"
proof -
  obtain sent evs w' where sent: "entry_payload demo_exec_ctx (dispatch_payload forged_envelope ''t'' (\<lambda>_. Inl [])) ''/'' []
      (demo_entry []) demo_plain_world = (sent, evs, w')" by (rule prod_cases3)
  have keys: "distinct (map fst forged_input)" by (simp add: forged_input_def)
  note claim = payload_told_and_vouched[where m = forged_input, OF forged_read refl keys sent]
  have "\<not> detect_git_commit_event forged_envelope" by code_simp
  then have "jget ''git_context'' sent = None" using claim[of "''git_context''"] by simp
  moreover have "jget ''dispatcher_trace_id'' sent = Some (JStr ''t'')" using claim[of "''dispatcher_trace_id''"] by simp
  moreover have "jget ''agent_type'' sent = Some (JStr ''reviewer'')"
    using claim[of "''agent_type''"] by (simp add: told_def forged_input_def)
  moreover have "jget ''event_name'' sent = Some (JStr ''PostToolUse'')"
    using claim[of "''event_name''"] by (simp add: told_def forged_input_def)
  ultimately show ?thesis using sent by blast
qed

text \<open>Git that fails on the head leaves every field empty; a missing parent only its own.\<close>

lemma git_context_fails_open:
  "run_git git [''log'', ''--format=%s'', ''-1'', ''HEAD''] = None \<or> run_git git [''rev-parse'', ''HEAD''] = None \<Longrightarrow>
   build_git_context git = empty_git_context"
  by (auto simp: build_git_context_def split: option.splits)

lemma git_context_initial_commit:
  assumes "run_git git [''log'', ''--format=%s'', ''-1'', ''HEAD''] = Some s" "run_git git [''rev-parse'', ''HEAD''] = Some h"
    and "\<forall>args. (\<exists>a \<in> set args. starts_with ''HEAD^'' a) \<longrightarrow> run_git git args = None"
  shows "build_git_context git = \<lparr>head_subject = s, head_sha = h, head_parent_subject = [], head_parent_sha = [],
    head_state_timestamp = state_timestamp git ''HEAD'', head_parent_state_timestamp = [], state_md_in_commit = []\<rparr>"
  using assms(1,2) assms(3)[rule_format, of "[''log'', ''--format=%s'', ''-1'', ''HEAD^'']"]
    assms(3)[rule_format, of "[''rev-parse'', ''HEAD^'']"] assms(3)[rule_format, of "[''show'', ''HEAD^:STATE.md'']"]
    assms(3)[rule_format, of "[''diff'', ''--name-only'', ''HEAD^'', ''HEAD'']"]
  by (simp add: build_git_context_def state_timestamp_def unwrap_or_def starts_with_def)

text \<open>The timestamp is taken from the first line that reads like one, in the front matter or below it.\<close>

lemma timestamp_below_front_matter:
  "state_timestamp (\<lambda>_. Inr (True, ''---'' @ [nl] @ ''phase: build'' @ [nl] @ ''---'' @ [nl] @ ''timestamp: body''))
     ''HEAD'' = ''body''"
  by code_simp

end
