(* ===== verification/ResolverCall.thy ===== *)
theory ResolverCall
  imports Resolver HostClaims
begin

text \<open>
  The call of a compiled resolver (\<^verbatim>\<open>CompiledWasmResolver::resolve\<close> of \<^verbatim>\<open>resolver_loader.rs\<close>): its host context, the
  two host functions it may import, the packed result, and the decoding of its output.  The module is a parameter:
  what wasmtime makes of it, and a program that chooses its next action from what it has seen so far.  The JSON
  codec of input and output is a parameter as well.
\<close>

unbundle bit_operations_syntax

section \<open>Modules\<close>

datatype resolver_op =
    ResolverCompute bytes
  | ResolverLog u32 u32 u32
  | ResolverReadFile u32 u32 u32 u32 u32

text \<open>How a call ends: with a packed result, or with an error text and the trap behind it, if there is one.\<close>

datatype call_end = Returned i64 | CallFailed string "trap option"

datatype guest_action = Do resolver_op | Finish call_end

text \<open>
  A program sees the length of its input and, for every step so far, the code the host returned and its memory.
  \<open>wm_start\<close> is the start function, which runs during instantiation.
\<close>

record wasm_module =
  wm_linker_error :: "string option"
  wm_fuel_error :: "string option"
  wm_memory :: "bytes option"
  wm_limit :: nat
  wm_start :: "(i32 \<times> bytes option) list \<Rightarrow> resolver_op option"
  wm_instantiate_error :: "string option"
  wm_resolve_error :: "string option"
  wm_program :: "i32 \<Rightarrow> (i32 \<times> bytes option) list \<Rightarrow> guest_action"

record resolver_codec =
  rcd_encode :: "resolver_input \<Rightarrow> string + bytes"
  rcd_decode :: "bytes \<Rightarrow> string + resolver_output"

record wasm_resolver =
  wr_name :: string
  wr_context_key :: string
  wr_module :: wasm_module
  wr_path_allow :: "string list"

section \<open>Host side\<close>

definition resolver_read_file ::
  "host_env \<Rightarrow> host_context \<Rightarrow> u32 \<Rightarrow> u32 \<Rightarrow> u32 \<Rightarrow> u32 \<Rightarrow> u32 \<Rightarrow> store_data \<Rightarrow> i32 \<times> store_data"
where
  "resolver_read_file env ctx path_ptr path_len max_bytes out_ptr_out out_len_out st =
     (case read_wasm_string st path_ptr path_len of Inl _ \<Rightarrow> (code_invalid_argument, st)
      | Inr path \<Rightarrow>
     (case read_file_prepare env ctx path max_bytes (sd_world st) of
        (Inl code, evs, w) \<Rightarrow> (code, absorb evs w st)
      | (Inr body, evs, w) \<Rightarrow> deliver body out_ptr_out out_len_out (absorb evs w st)))"

fun resolver_step :: "host_env \<Rightarrow> host_context \<Rightarrow> resolver_op \<Rightarrow> store_data \<Rightarrow> i32 \<times> store_data" where
  "resolver_step env ctx (ResolverCompute m) st = (0, compute m st)"
| "resolver_step env ctx (ResolverLog level ptr n) st = (0, host_log level ptr n st)"
| "resolver_step env ctx (ResolverReadFile a b c d e) st = resolver_read_file env ctx a b c d e st"

text \<open>Every action costs fuel; without any left the call fails with the text of wasmtime.\<close>

definition fuel_text :: string where "fuel_text = ''all fuel consumed by WebAssembly''"

fun run_program ::
  "host_env \<Rightarrow> host_context \<Rightarrow> ((i32 \<times> bytes option) list \<Rightarrow> guest_action) \<Rightarrow> nat \<Rightarrow> (i32 \<times> bytes option) list \<Rightarrow>
   store_data \<Rightarrow> call_end \<times> nat \<times> store_data"
where
  "run_program env ctx prog 0 seen st = (CallFailed fuel_text (Some TrapOutOfFuel), 0, st)"
| "run_program env ctx prog (Suc fuel) seen st = (case prog seen of
     Finish ending \<Rightarrow> (ending, fuel, st)
   | Do opn \<Rightarrow> (case resolver_step env ctx opn st of (code, st) \<Rightarrow>
        run_program env ctx prog fuel (seen @ [(code, sd_memory st)]) st))"

definition resolver_fuel :: nat where "resolver_fuel = 1000000000"

section \<open>Resolve\<close>

definition resolver_context :: "wasm_resolver \<Rightarrow> resolver_input \<Rightarrow> host_context" where
  "resolver_context r input =
     \<lparr>hc_plugin_name = wr_name r, hc_plugin_version = ''0.0.0'', hc_plugin_root = [], hc_session_id = [],
      hc_trace_id = [], hc_cwd = ri_project_dir input,
      hc_capabilities = \<lparr>cap_exec_subprocess = None, cap_read_file = Some (wr_path_allow r), cap_write_file = None,
        cap_read_prefix = None, cap_env_allow = []\<rparr>,
      hc_env_view = []\<rparr>"

definition unpack_result :: "i64 \<Rightarrow> u32 \<times> u32" where
  "unpack_result packed =
     (ucast (signed_drop_bit 32 packed AND 0xFFFFFFFF), ucast (packed AND 0xFFFFFFFF))"

definition take_output :: "resolver_codec \<Rightarrow> string \<Rightarrow> i64 \<Rightarrow> bytes \<Rightarrow> resolver_answer" where
  "take_output codec name packed data =
     (case unpack_result packed of (ptr32, len32) \<Rightarrow>
      (let output_ptr = ucast ptr32 :: u64; output_len = ucast len32 :: u64;
           violation = (\<lambda>detail. Inl (ResolverAbiViolation name detail)) in
       if output_len = 0 then Inr None
       else (case checked_add output_ptr output_len of
          None \<Rightarrow> violation (''output ptr+len overflow: ptr='' @ show_nat (unat output_ptr) @ '' len='' @ show_nat (unat output_len))
        | Some out_end \<Rightarrow>
       if length data < unat out_end then
         violation (''output out-of-bounds: ptr='' @ show_nat (unat output_ptr) @ '' len='' @ show_nat (unat output_len) @
           '' memory_size='' @ show_nat (length data))
       else (case rcd_decode codec (seg (unat output_ptr) (unat out_end) data) of
          Inl e \<Rightarrow> violation (''failed to deserialize ResolverOutput JSON: '' @ e)
        | Inr out \<Rightarrow> if ro_value out = None then Inr None else Inr (Some out)))))"

definition call_error :: "string \<Rightarrow> string \<Rightarrow> trap option \<Rightarrow> resolver_error" where
  "call_error name e t =
     (if contains ''all fuel consumed'' e then ResolverTimeout name
      else (case t of Some t \<Rightarrow> classify_resolver_trap name t | None \<Rightarrow> ResolverTrap name e))"

text \<open>From a store with the instance in it: the input goes to the start of the memory.\<close>

definition call_resolve ::
  "host_env \<Rightarrow> resolver_codec \<Rightarrow> wasm_resolver \<Rightarrow> resolver_input \<Rightarrow> nat \<Rightarrow> store_data \<Rightarrow>
   resolver_answer \<times> store_data"
where
  "call_resolve env codec r input fuel st =
     (let violation = (\<lambda>detail. Inl (ResolverAbiViolation (wr_name r) detail)) in
      case sd_memory st of
        None \<Rightarrow> (violation (''resolver does not export '' @ in_ticks ''memory''), st)
      | Some data \<Rightarrow>
     (case rcd_encode codec input of
        Inl e \<Rightarrow> (violation (''failed to serialize ResolverInput: '' @ e), st)
      | Inr input_bytes \<Rightarrow>
      if length data < length input_bytes then
        (violation (''ResolverInput ('' @ show_nat (length input_bytes) @ '' bytes) exceeds WASM memory ('' @
           show_nat (length data) @ '' bytes)''), st)
      else (case run_program env (resolver_context r input) (wm_program (wr_module r) (of_nat (length input_bytes)))
              fuel [] (st\<lparr>sd_memory := Some (overwrite 0 input_bytes data)\<rparr>) of
           (CallFailed e t, _, st) \<Rightarrow> (Inl (call_error (wr_name r) e t), st)
         | (Returned packed, _, st) \<Rightarrow> (take_output codec (wr_name r) packed (unwrap_or (sd_memory st) []), st))))"

text \<open>The start function: a program without input whose end is no action.\<close>

definition start_program :: "wasm_module \<Rightarrow> (i32 \<times> bytes option) list \<Rightarrow> guest_action" where
  "start_program m seen = (case wm_start m seen of None \<Rightarrow> Finish (Returned 0) | Some opn \<Rightarrow> Do opn)"

definition resolve_wasm ::
  "host_env \<Rightarrow> resolver_codec \<Rightarrow> wasm_resolver \<Rightarrow> resolver_input \<Rightarrow> world \<Rightarrow> resolver_answer \<times> world"
where
  "resolve_wasm env codec r input w =
     (let violation = (\<lambda>detail. Inl (ResolverAbiViolation (wr_name r) detail)); m = wr_module r in
      if ri_project_dir input = [] then
        (violation ''ResolverInput.project_dir must not be empty (BC-4.12.003 INV4 requires project-relative path resolution)'', w)
      else (case wm_linker_error m of
        Some e \<Rightarrow> (violation (''resolver linker construction failed: '' @ e), w)
      | None \<Rightarrow>
     (case wm_fuel_error m of
        Some e \<Rightarrow> (violation (''failed to set fuel on resolver store: '' @ e), w)
      | None \<Rightarrow>
     (case run_program env (resolver_context r input) (start_program m) resolver_fuel []
             \<lparr>sd_memory = wm_memory m, sd_limit = wm_limit m, sd_events = [], sd_otl = False, sd_world = w\<rparr> of
        (CallFailed e _, _, st) \<Rightarrow> (violation (''resolver instantiation failed: '' @ e), sd_world st)
      | (Returned _, fuel, st) \<Rightarrow>
     (case wm_instantiate_error m of
        Some e \<Rightarrow> (violation (''resolver instantiation failed: '' @ e), sd_world st)
      | None \<Rightarrow>
     (case wm_resolve_error m of
        Some e \<Rightarrow> (violation (''resolver does not export '' @ in_ticks ''resolve(i32,i32)->i64'' @ '': '' @ e), sd_world st)
      | None \<Rightarrow> (case call_resolve env codec r input fuel st of (answer, st) \<Rightarrow> (answer, sd_world st))))))))"

definition compiled_resolver :: "host_env \<Rightarrow> resolver_codec \<Rightarrow> wasm_resolver \<Rightarrow> resolver" where
  "compiled_resolver env codec r =
     \<lparr>rs_name = wr_name r, rs_context_key = wr_context_key r, rs_resolve = resolve_wasm env codec r\<rparr>"

section \<open>A resolver writes nothing\<close>

lemma resolver_step_quiet:
  "frame {} (sd_world st) (sd_world (snd (resolver_step env ctx opn st)))"
proof (cases opn)
  case (ResolverReadFile a b c d e)
  have "frame {} (sd_world st) (sd_world (snd (resolver_read_file env ctx a b c d e st)))"
    by (auto simp: resolver_read_file_def split: sum.splits prod.splits dest!: read_file_prepare_frame)
  then show ?thesis by (simp add: ResolverReadFile)
qed simp_all

lemma resolver_step_calm:
  assumes "faults (sd_world st) = []"
  shows "sd_world (snd (resolver_step env ctx opn st)) = sd_world st"
proof (cases opn)
  case (ResolverReadFile a b c d e)
  have "sd_world (snd (resolver_read_file env ctx a b c d e st)) = sd_world st"
    using calm_read_file_world[OF assms]
    by (auto simp: resolver_read_file_def split: sum.splits prod.splits) (metis snd_conv)+
  then show ?thesis by (simp add: ResolverReadFile)
qed simp_all

lemma run_program_quiet: "frame {} (sd_world st) (sd_world (snd (snd (run_program env ctx prog fuel seen st))))"
proof (induction fuel arbitrary: seen st)
  case (Suc fuel)
  show ?case
  proof (cases "prog seen")
    case (Do opn)
    obtain code st1 where step: "resolver_step env ctx opn st = (code, st1)" by (cases "resolver_step env ctx opn st")
    then have "frame {} (sd_world st) (sd_world st1)" using resolver_step_quiet[of st env ctx opn] by simp
    then show ?thesis using Do step Suc[where st = st1] by (auto intro: frame_trans)
  qed simp
qed simp

lemma run_program_calm:
  "faults (sd_world st) = [] \<Longrightarrow> sd_world (snd (snd (run_program env ctx prog fuel seen st))) = sd_world st"
proof (induction fuel arbitrary: seen st)
  case (Suc fuel)
  show ?case
  proof (cases "prog seen")
    case (Do opn)
    obtain code st1 where step: "resolver_step env ctx opn st = (code, st1)" by (cases "resolver_step env ctx opn st")
    then have "sd_world st1 = sd_world st" using resolver_step_calm[OF Suc.prems, of env ctx opn] by simp
    then show ?thesis using Do step Suc.IH[of st1] Suc.prems by simp
  qed simp
qed simp

text \<open>What holds of the worlds before and after every run holds of a call.\<close>

lemma call_resolve_world:
  assumes run: "\<And>prog fuel st ending fuel' st'. run_program env (resolver_context r input) prog fuel [] st = (ending, fuel', st') \<Longrightarrow>
      P (sd_world st) (sd_world st')"
    and stay: "\<And>w. P w w"
  shows "P (sd_world st) (sd_world (snd (call_resolve env codec r input fuel st)))"
  by (auto simp: call_resolve_def Let_def stay split: option.splits sum.splits prod.splits call_end.splits dest!: run)

lemma resolve_wasm_world:
  assumes run: "\<And>prog fuel st ending fuel' st'. run_program env (resolver_context r input) prog fuel [] st = (ending, fuel', st') \<Longrightarrow>
      P (sd_world st) (sd_world st')"
    and stay: "\<And>w. P w w" and chain: "\<And>u v w. P u v \<Longrightarrow> P v w \<Longrightarrow> P u w"
  shows "P w (snd (resolve_wasm env codec r input w))"
proof -
  obtain ending fuel st where start: "run_program env (resolver_context r input) (start_program (wr_module r)) resolver_fuel []
      \<lparr>sd_memory = wm_memory (wr_module r), sd_limit = wm_limit (wr_module r), sd_events = [], sd_otl = False, sd_world = w\<rparr> =
      (ending, fuel, st)" by (rule prod_cases3)
  have first: "P w (sd_world st)" using run[OF start] by simp
  obtain a st' where call: "call_resolve env codec r input fuel st = (a, st')" by (cases "call_resolve env codec r input fuel st")
  have "P (sd_world st) (sd_world st')"
    using call_resolve_world[of env r input P st codec fuel, OF run stay] call by simp
  then have second: "P w (sd_world st')" using first chain by blast
  show ?thesis
    by (simp add: resolve_wasm_def Let_def start call stay first second split: option.split call_end.split)
qed

lemma resolve_wasm_quiet: "frame {} w (snd (resolve_wasm env codec r input w))"
  using resolve_wasm_world[of env r input "frame {}" w codec] run_program_quiet frame_trans
  by (metis frame_refl snd_conv)

lemma resolve_wasm_calm: "faults w = [] \<Longrightarrow> snd (resolve_wasm env codec r input w) = w"
  using resolve_wasm_world[of env r input "\<lambda>w w'. faults w = [] \<longrightarrow> w' = w" w codec] run_program_calm
  by (metis snd_conv)

interpretation wasm: quiet_resolvers "compiled_resolver env codec" for env codec
  by unfold_locales (simp_all add: compiled_resolver_def resolve_wasm_quiet resolve_wasm_calm)

section \<open>The packed result\<close>

definition pack_result :: "u32 \<Rightarrow> u32 \<Rightarrow> i64" where
  "pack_result p n = push_bit 32 (ucast p) OR ucast n"

lemma low_mask: "(0xFFFFFFFF :: i64) = mask 32"
  by (simp add: mask_eq_exp_minus_1)

lemma unpack_pack: "unpack_result (pack_result p n) = (p, n)"
proof -
  have "ucast (signed_drop_bit 32 (pack_result p n) AND mask 32) = p"
    by (rule bit_word_eqI) (auto simp: pack_result_def bit_simps dest: bit_imp_le_length)
  moreover have "ucast (pack_result p n AND mask 32) = n"
    by (rule bit_word_eqI) (auto simp: pack_result_def bit_simps)
  ultimately show ?thesis by (simp add: unpack_result_def low_mask)
qed

end
