(* ===== verification/ResolverView.thy ===== *)
theory ResolverView
  imports ResolverCall
begin

text \<open>
  What a resolver can learn: two trees that differ only in the content of files outside its allow list give the
  same answer.  The walk and the allow-list check depend on the shape of the tree alone, which the first part shows.
\<close>

section \<open>Shape\<close>

definition same_shape :: "world \<Rightarrow> world \<Rightarrow> bool" where
  "same_shape w v \<longleftrightarrow> (\<forall>q. look v q = look w q \<or> (\<exists>c d. look w q = Some (File c) \<and> look v q = Some (File d)))"

lemma same_shape_cases:
  assumes "same_shape w v"
  obtains (same) "look v q = look w q" | (files) c d where "look w q = Some (File c)" "look v q = Some (File d)"
  using assms unfolding same_shape_def by blast

lemma shape_is_dir: "same_shape w v \<Longrightarrow> is_dir v p = is_dir w p"
  by (rule same_shape_cases[of w v p]) (auto simp: is_dir_def)

lemma namei_shape:
  assumes s: "same_shape w v"
  shows "namei k v cur cs = namei k w cur cs"
proof (induction k cur cs rule: namei_walk_induct[where w = w])
  case (missing k cur n cs)
  have "look v (cur @ [Normal n]) = None"
    by (rule same_shape_cases[OF s, of "cur @ [Normal n]"]) (use missing in auto)
  then show ?case using missing by (simp add: shape_is_dir[OF s])
next
  case (too_deep cur n cs t)
  have "look v (cur @ [Normal n]) = Some (Symlink t)"
    by (rule same_shape_cases[OF s, of "cur @ [Normal n]"]) (use too_deep in auto)
  then show ?case using too_deep by (simp add: shape_is_dir[OF s])
next
  case (link k cur n cs t)
  have "look v (cur @ [Normal n]) = Some (Symlink t)"
    by (rule same_shape_cases[OF s, of "cur @ [Normal n]"]) (use link in auto)
  then show ?case using link by (simp add: shape_is_dir[OF s])
next
  case (node k cur n cs m)
  obtain m' where m': "look v (cur @ [Normal n]) = Some m'" "\<And>t. m' \<noteq> Symlink t"
    by (rule same_shape_cases[OF s, of "cur @ [Normal n]"]) (use node in auto)
  show ?case
    unfolding namei_steps(5)[OF node(1,2,3)] namei_steps(5)[OF node(1)[folded shape_is_dir[OF s]] m'] by (rule node(4))
qed (auto simp: shape_is_dir[OF s])

lemma walk_shape: "same_shape w v \<Longrightarrow> walk v here p = walk w here p"
  by (simp add: walk_def namei_shape)

lemma canonical_shape: "same_shape w v \<Longrightarrow> canonical_of v here p = canonical_of w here p"
  by (simp add: canonical_of_def walk_shape)

section \<open>The check\<close>

text \<open>Two calm trees of one shape.\<close>

definition calm_twins :: "world \<Rightarrow> world \<Rightarrow> bool" where
  "calm_twins w v \<longleftrightarrow> same_shape w v \<and> faults w = [] \<and> faults v = []"

lemma ancestor_shape:
  "calm_twins w v \<Longrightarrow> fst (resolve_ancestor here tail cur v) = fst (resolve_ancestor here tail cur w)"
proof (induction here tail cur w rule: resolve_ancestor.induct)
  case (1 here tail cur w)
  then have t: "faults w = []" "faults v = []" "same_shape w v" by (auto simp: calm_twins_def)
  show ?case
  proof (cases "file_name cur")
    case None
    then show ?thesis by (simp add: resolve_ancestor.simps[of here tail cur])
  next
    case (Some name)
    show ?thesis
    proof (cases "parent cur")
      case None
      then show ?thesis using Some by (simp add: resolve_ancestor.simps[of here tail cur])
    next
      case up: (Some up)
      show ?thesis
      proof (cases "canonical_of w here (up, False)")
        case (Inl e)
        then have ih: "fst (resolve_ancestor here (tail @ [name]) up v) = fst (resolve_ancestor here (tail @ [name]) up w)"
          using 1 Some up by (simp add: calm_canonicalize t)
        show ?thesis
          by (simp add: resolve_ancestor.simps[of here tail cur] Some up calm_canonicalize t canonical_shape[OF t(3)] Inl ih)
      next
        case (Inr canon)
        then show ?thesis
          by (simp add: resolve_ancestor.simps[of here tail cur] Some up calm_canonicalize t canonical_shape[OF t(3)])
      qed
    qed
  qed
qed

lemma resolved_shape: "calm_twins w v \<Longrightarrow> resolved v here p = resolved w here p"
  unfolding resolved_def resolve_path_for_allowlist_def calm_twins_def
  by (auto simp: calm_canonicalize canonical_shape ancestor_shape[unfolded calm_twins_def] split: sum.split)

lemma granted_shape: "calm_twins w v \<Longrightarrow> granted v here base allow q = granted w here base allow q"
  by (simp add: granted_def resolved_shape)

lemma gate_shape:
  assumes "calm_twins w v"
  shows "fst (path_gate env ctx call path caps v) = fst (path_gate env ctx call path caps w)"
    and "fst (snd (path_gate env ctx call path caps v)) = fst (snd (path_gate env ctx call path caps w))"
  using assms
  by (auto simp: path_gate_def Let_def calm_check_path_allowed calm_twins_def resolved_shape[OF assms] granted_shape[OF assms]
      split: option.split)

section \<open>Reads\<close>

text \<open>Trees that an allow list cannot tell apart: one shape, and one content for every file on the list.\<close>

definition alike :: "host_env \<Rightarrow> path \<Rightarrow> string list \<Rightarrow> world \<Rightarrow> world \<Rightarrow> bool" where
  "alike env base allow w v \<longleftrightarrow> calm_twins w v \<and>
     (\<forall>q. granted w (he_here env) base allow q \<longrightarrow> look v q = look w q)"

text \<open>The same for the read capability of a context.\<close>

definition alike_for :: "host_env \<Rightarrow> host_context \<Rightarrow> world \<Rightarrow> world \<Rightarrow> bool" where
  "alike_for env ctx w v \<longleftrightarrow>
     (\<exists>allow. cap_read_file (hc_capabilities ctx) = Some allow \<and> alike env (hc_base ctx) allow w v)"

lemma alike_forD: "alike_for env ctx w v \<Longrightarrow> calm_twins w v"
  by (auto simp: alike_for_def alike_def)

lemma resolver_alike_for:
  "alike_for env (resolver_context r input) w v \<longleftrightarrow> alike env (path_of (ri_project_dir input)) (wr_path_allow r) w v"
  by (simp add: alike_for_def resolver_context_def hc_base_def)

lemma read_bounded_alike:
  assumes t: "calm_twins w v" and same: "\<And>q. walk w (he_here env) p = Found q \<Longrightarrow> look v q = look w q"
  shows "fst (read_bounded env p n v) = fst (read_bounded env p n w)"
proof -
  have c: "faults w = []" "faults v = []" "same_shape w v" using t by (auto simp: calm_twins_def)
  show ?thesis
  proof (cases "walk w (he_here env) p")
    case (Found q)
    then have "look v q = look w q" by (rule same)
    then show ?thesis
      by (simp add: read_bounded_def fs_open_def fs_opened_len_def opened_len_def fs_read_open_def c walk_shape[OF c(3)]
          Found shape_is_dir[OF c(3)] split: option.split node.split)
  qed (simp_all add: read_bounded_def fs_open_def c walk_shape[OF c(3)])
qed

lemma read_file_alike:
  assumes a: "alike_for env ctx w v" and run: "read_file_prepare env ctx path n w = (r, evs, w1)"
  shows "w1 = w \<and> read_file_prepare env ctx path n v = (r, evs, v)"
proof -
  have t: "calm_twins w v" and c: "faults w = []" "faults v = []" using alike_forD[OF a] by (auto simp: calm_twins_def)
  obtain g gevs where gate: "path_gate env ctx ''read_file'' path (cap_read_file (hc_capabilities ctx)) w = (g, gevs, w)"
    using c(1) by (rule calm_gate_step)
  moreover obtain g' gevs' where gate': "path_gate env ctx ''read_file'' path (cap_read_file (hc_capabilities ctx)) v = (g', gevs', v)"
    using c(2) by (rule calm_gate_step)
  ultimately have g': "g' = g" "gevs' = gevs"
    using gate_shape[OF t, of env ctx "''read_file''" path "cap_read_file (hc_capabilities ctx)"] by simp_all
  show ?thesis
  proof (cases g)
    case (Inl code)
    then show ?thesis using run gate gate' g' by (auto simp: read_file_prepare_def)
  next
    case (Inr p)
    obtain allow where allow: "cap_read_file (hc_capabilities ctx) = Some allow"
      "\<And>q. granted w (he_here env) (hc_base ctx) allow q \<Longrightarrow> look v q = look w q"
      using a by (auto simp: alike_for_def alike_def)
    have "look v q = look w q" if found: "walk w (he_here env) p = Found q" for q
      by (rule gate_found[OF gate[unfolded Inr] c(1) found]) (use allow in simp)
    then have same: "fst (read_bounded env p (unat n) v) = fst (read_bounded env p (unat n) w)"
      by (intro read_bounded_alike[OF t]) auto
    obtain b where b: "read_bounded env p (unat n) w = (b, w)"
      using calm_read_bounded_world[OF c(1), of env p "unat n"] by (metis prod.collapse)
    have b': "read_bounded env p (unat n) v = (b, v)"
      using calm_read_bounded_world[OF c(2), of env p "unat n"] same b by (metis fst_conv prod.collapse)
    show ?thesis using run gate gate' b b'
      by (auto simp: read_file_prepare_def Inr g' split: sum.splits read_err.splits)
  qed
qed

section \<open>Calls\<close>

text \<open>Everything but the file calls works on the memory alone.\<close>

abbreviation over :: "world \<Rightarrow> 'a \<times> store_data \<Rightarrow> 'a \<times> store_data" where
  "over v \<equiv> map_prod id (\<lambda>st. st\<lparr>sd_world := v\<rparr>)"

lemma read_string_over [simp]: "read_wasm_string (st\<lparr>sd_world := v\<rparr>) p n = read_wasm_string st p n"
  by (simp add: read_wasm_string_def read_wasm_bytes_def)

lemma write_bytes_over [simp]: "write_wasm_bytes p c s (st\<lparr>sd_world := v\<rparr>) = over v (write_wasm_bytes p c s st)"
  by (simp add: write_wasm_bytes_def Let_def split: option.split)

lemma write_u32_over [simp]: "write_wasm_u32 p x (st\<lparr>sd_world := v\<rparr>) = over v (write_wasm_u32 p x st)"
  by (simp add: write_wasm_u32_def split: prod.split sum.split)

lemma grow_over [simp]: "grow_memory n data (st\<lparr>sd_world := v\<rparr>) = map_option (\<lambda>st. st\<lparr>sd_world := v\<rparr>) (grow_memory n data st)"
  by (simp add: grow_memory_def)

lemma deliver_over [simp]: "deliver body a b (st\<lparr>sd_world := v\<rparr>) = over v (deliver body a b st)"
  by (auto simp: deliver_def Let_def split: option.split prod.split sum.split)

lemma absorb_over: "absorb evs v (st\<lparr>sd_world := u\<rparr>) = (absorb evs w st)\<lparr>sd_world := v\<rparr>"
  by (simp add: absorb_def emit_internal_def)

lemma resolver_step_alike:
  assumes "alike_for env ctx (sd_world st) v"
  shows "resolver_step env ctx opn (st\<lparr>sd_world := v\<rparr>) = over v (resolver_step env ctx opn st)"
proof (cases opn)
  case (ResolverCompute m)
  then show ?thesis by (simp add: compute_def split: option.split)
next
  case (ResolverLog a b c)
  then show ?thesis by (simp add: host_log_def emit_internal_def split: sum.split)
next
  case (ResolverReadFile a b c d e)
  show ?thesis
  proof (cases "read_wasm_string st a b")
    case (Inr path)
    obtain r evs w1 where run: "read_file_prepare env ctx path c (sd_world st) = (r, evs, w1)" by (rule prod_cases3)
    then have "w1 = sd_world st" "read_file_prepare env ctx path c v = (r, evs, v)"
      using read_file_alike[OF assms] by blast+
    then show ?thesis
      by (simp add: ResolverReadFile resolver_read_file_def Inr run absorb_over[where w = w1] split: sum.split)
  qed (simp add: ResolverReadFile resolver_read_file_def)
qed

lemma run_program_alike:
  assumes "alike_for env ctx (sd_world st) v"
  shows "run_program env ctx prog fuel seen (st\<lparr>sd_world := v\<rparr>) =
    map_prod id (over v) (run_program env ctx prog fuel seen st)"
  using assms
proof (induction fuel arbitrary: seen st)
  case (Suc fuel)
  show ?case
  proof (cases "prog seen")
    case (Do opn)
    obtain code st1 where step: "resolver_step env ctx opn st = (code, st1)" by (cases "resolver_step env ctx opn st")
    have "sd_world st1 = sd_world st"
      using resolver_step_calm[of st env ctx opn] alike_forD[OF Suc.prems] step by (simp add: calm_twins_def)
    then have "run_program env ctx prog fuel seen' (st1\<lparr>sd_world := v\<rparr>) = map_prod id (over v) (run_program env ctx prog fuel seen' st1)"
      for seen' using Suc.prems by (intro Suc.IH) simp
    then show ?thesis using Do step resolver_step_alike[OF Suc.prems, of opn] by (simp add: id_def)
  qed simp
qed simp

lemma call_resolve_alike:
  assumes "alike_for env (resolver_context r input) (sd_world st) v"
  shows "fst (call_resolve env codec r input fuel (st\<lparr>sd_world := v\<rparr>)) = fst (call_resolve env codec r input fuel st)"
proof (cases "sd_memory st")
  case (Some data)
  have "run_program env (resolver_context r input) prog fuel [] (st\<lparr>sd_world := v, sd_memory := m\<rparr>) =
      map_prod id (over v) (run_program env (resolver_context r input) prog fuel [] (st\<lparr>sd_memory := m\<rparr>))" for prog m
  proof -
    have "st\<lparr>sd_world := v, sd_memory := m\<rparr> = st\<lparr>sd_memory := m, sd_world := v\<rparr>" by simp
    moreover have "alike_for env (resolver_context r input) (sd_world (st\<lparr>sd_memory := m\<rparr>)) v" using assms by simp
    ultimately show ?thesis by (simp only: run_program_alike)
  qed
  then show ?thesis using Some
    by (simp add: call_resolve_def Let_def split_beta split: sum.split call_end.split)
qed (simp add: call_resolve_def)

text \<open>
  Claim C21.  A resolver sees only its allow list and touches nothing: on two trees without pending faults that
  agree on everything but the content of files outside the list, as it resolves under the project directory, it gives the same answer, whatever
  the module does within its fuel; and under every fault schedule the tree is the same after the call.
\<close>

theorem resolver_sees_allowed_only:
  assumes agree: "alike env (path_of (ri_project_dir input)) (wr_path_allow r) w v"
  shows "fst (resolve_wasm env codec r input v) = fst (resolve_wasm env codec r input w) \<and>
    frame {} u (snd (resolve_wasm env codec r input u))"
proof -
  have assms: "alike_for env (resolver_context r input) w v" using agree by (simp add: resolver_alike_for)
  let ?st = "\<lambda>w. \<lparr>sd_memory = wm_memory (wr_module r), sd_limit = wm_limit (wr_module r), sd_events = [], sd_otl = False, sd_world = w\<rparr>"
  obtain ending fuel st where start: "run_program env (resolver_context r input) (start_program (wr_module r)) resolver_fuel []
      (?st w) = (ending, fuel, st)" by (rule prod_cases3)
  then have start': "run_program env (resolver_context r input) (start_program (wr_module r)) resolver_fuel [] (?st v) =
      (ending, fuel, st\<lparr>sd_world := v\<rparr>)"
    using run_program_alike[of env "resolver_context r input" "?st w" v] assms by simp
  have "sd_world st = w"
    using run_program_calm[of "?st w" env "resolver_context r input" "start_program (wr_module r)" resolver_fuel "[]"] start alike_forD[OF assms]
    by (simp add: calm_twins_def)
  then have "fst (call_resolve env codec r input fuel (st\<lparr>sd_world := v\<rparr>)) = fst (call_resolve env codec r input fuel st)"
    using call_resolve_alike assms by simp
  then have "fst (resolve_wasm env codec r input v) = fst (resolve_wasm env codec r input w)"
    by (simp add: resolve_wasm_def Let_def start start' split_beta split: option.split call_end.split)
  then show ?thesis by (simp add: resolve_wasm_quiet)
qed

definition secret_world :: "bytes \<Rightarrow> world" where
  "secret_world c = demo_world\<lparr>nodes := [([RootDir, Normal ''w''], Directory), ([RootDir, Normal ''k''], Directory),
     ([RootDir, Normal ''w'', Normal ''f''], File ''open''), ([RootDir, Normal ''k'', Normal ''s''], File c)]\<rparr>"

text \<open>A module that puts the name of a file into its memory, asks for the file and returns what it got.\<close>

definition curious_module :: "string \<Rightarrow> wasm_module" where
  "curious_module s = \<lparr>wm_linker_error = None, wm_fuel_error = None, wm_memory = Some (replicate 65536 (CHR 0x00)),
     wm_limit = 131072, wm_start = \<lambda>_. None, wm_instantiate_error = None, wm_resolve_error = None,
     wm_program = \<lambda>_ seen. (case seen of
        [] \<Rightarrow> Do (ResolverCompute (s @ replicate (65536 - length s) (CHR 0x00)))
      | [_] \<Rightarrow> Do (ResolverReadFile 0 (of_nat (length s)) 100 200 204)
      | _ \<Rightarrow> Finish (Returned (pack_result 65536 4)))\<rparr>"

definition curious_resolver :: "string \<Rightarrow> wasm_resolver" where
  "curious_resolver s = \<lparr>wr_name = ''curious'', wr_context_key = ''k'', wr_module = curious_module s, wr_path_allow = [''w'']\<rparr>"

definition demo_codec :: resolver_codec where
  "demo_codec = \<lparr>rcd_encode = \<lambda>_. Inr ''input'', rcd_decode = \<lambda>s. Inr \<lparr>ro_key = [], ro_value = Some (JStr s)\<rparr>\<rparr>"

definition demo_input :: resolver_input where
  "demo_input = \<lparr>ri_event_type = [], ri_hook_event_name = [], ri_agent_type = None, ri_project_dir = ''/'',
     ri_plugin_config = JObj []\<rparr>"

lemma secret_alike: "alike demo_host (path_of (ri_project_dir demo_input)) (wr_path_allow (curious_resolver s))
    (secret_world c) (secret_world d)"
proof -
  let ?w = "secret_world c"
  have twins: "calm_twins ?w (secret_world d)"
    by (auto simp: calm_twins_def same_shape_def secret_world_def demo_world_def look_def)
  have "resolved ?w [RootDir] (resolve_under (path_of ''/'') ''w'') = Some [RootDir, Normal ''w'']"
    unfolding secret_world_def by code_simp
  then have "\<not> granted ?w [RootDir] (path_of ''/'') [''w''] [RootDir, Normal ''k'', Normal ''s'']"
    by (simp add: granted_def path_starts_with_def)
  moreover have "look (secret_world d) q = look ?w q" if "q \<noteq> [RootDir, Normal ''k'', Normal ''s'']" for q
    using that by (simp add: secret_world_def demo_world_def look_def)
  ultimately have "granted ?w [RootDir] (path_of ''/'') [''w''] q \<Longrightarrow> look (secret_world d) q = look ?w q" for q by metis
  then show ?thesis
    using twins
    by (simp add: alike_def demo_host_def demo_input_def curious_resolver_def)
qed

theorem resolver_sees_allowed_only_witness:
  "fst (resolve_wasm demo_host demo_codec (curious_resolver ''k/s'') demo_input (secret_world ''two'')) =
   fst (resolve_wasm demo_host demo_codec (curious_resolver ''k/s'') demo_input (secret_world ''one''))"
  using resolver_sees_allowed_only[OF secret_alike[of "''k/s''"]] by simp

text \<open>An output region within the memory is decoded exactly as the module packed it.\<close>

lemma take_output_packed:
  assumes "0 < n" "unat p + unat n \<le> length data" "rcd_decode codec (seg (unat p) (unat p + unat n) data) = Inr out"
  shows "take_output codec name (pack_result p n) data = Inr (if ro_value out = None then None else Some out)"
proof -
  have b: "unat p < 2 ^ 32" "unat n < 2 ^ 32" using unsigned_less[of p] unsigned_less[of n] by simp_all
  have u: "unat (ucast p :: u64) = unat p" "unat (ucast n :: u64) = unat n"
    by (simp_all add: unsigned_ucast_eq take_bit_nat_eq_self b order_less_trans[OF b(1)] order_less_trans[OF b(2)])
  have "checked_add (ucast p :: u64) (ucast n) = Some (ucast p + ucast n)" using b by (simp add: checked_add_def u)
  moreover from this have "unat (ucast p + ucast n :: u64) = unat p + unat n" using checked_add_unat u by metis
  moreover have "(ucast n :: u64) \<noteq> 0" using assms(1) u(2) by (metis unat_0 unat_eq_zero word_neq_0_conv)
  ultimately show ?thesis using assms(2,3) by (simp add: take_output_def unpack_pack Let_def u)
qed

end
