(* ===== verification/ResolverLoad.thy ===== *)
theory ResolverLoad
  imports ResolverView RustText
begin

text \<open>
  Loading of \<^verbatim>\<open>resolvers-registry.toml\<close> (\<^verbatim>\<open>ResolverLoader\<close> of \<^verbatim>\<open>resolver_loader.rs\<close>): the module cache and the
  checks on the entries.  Parameters: the TOML reader, the compiler, modification times, and the texts of paths
  and I/O errors.
\<close>

section \<open>Data\<close>

record load_warning =
  lw_resolver_name :: string
  lw_detail :: string

datatype resolver_load_error = LoadParseError string | LoadIoError string | LoadCompileError string

record resolver_entry_toml =
  rt_name :: string
  rt_plugin :: string
  rt_context_key :: string
  rt_path_allow :: "string list"
  rt_fail_closed :: "bool option"

record resolvers_registry_toml =
  rr_schema_version :: u32
  rr_resolvers :: "resolver_entry_toml list"

type_synonym module_cache = "(path \<times> nat \<times> wasm_module) list"

text \<open>\<open>le_mtime\<close> is \<open>None\<close> where the file system keeps no time.\<close>

record load_env =
  le_host :: host_env
  le_codec :: resolver_codec
  le_toml :: "string \<Rightarrow> string + resolvers_registry_toml"
  le_compile :: "bytes \<Rightarrow> string + wasm_module"
  le_mtime :: "world \<Rightarrow> path \<Rightarrow> nat option"
  le_show :: "os_path \<Rightarrow> string"
  le_io :: "io_kind \<Rightarrow> string"

fun load_error_text :: "resolver_load_error \<Rightarrow> string" where
  "load_error_text (LoadParseError d) = ''resolver registry parse error: '' @ d"
| "load_error_text (LoadIoError d) = ''resolver I/O error: '' @ d"
| "load_error_text (LoadCompileError d) = ''resolver WASM compilation error: '' @ d"

section \<open>Modules\<close>

text \<open>The modification time of a file that was just found by \<open>metadata\<close>; the epoch is 0.\<close>

definition file_mtime :: "load_env \<Rightarrow> path \<Rightarrow> world \<Rightarrow> (io_kind + nat) \<times> world" where
  "file_mtime le p w = (case fs_metadata p w of
     (Inl e, w) \<Rightarrow> (Inl e, w) | (Inr _, w) \<Rightarrow> (Inr (unwrap_or (le_mtime le w p) 0), w))"

definition get_or_compile ::
  "load_env \<Rightarrow> os_path \<Rightarrow> module_cache \<Rightarrow> world \<Rightarrow> (resolver_load_error + wasm_module) \<times> module_cache \<times> world"
where
  "get_or_compile le p cache w =
     (case fs_canonicalize (he_here (le_host le)) p w of
        (Inl e, w) \<Rightarrow> (Inl (LoadIoError (''cannot canonicalize '' @ le_show le p @ '': '' @ le_io le e)), cache, w)
      | (Inr canon, w) \<Rightarrow>
     (case file_mtime le canon w of
        (Inl e, w) \<Rightarrow> (Inl (LoadIoError (''cannot stat '' @ le_show le (canon, False) @ '': '' @ le_io le e)), cache, w)
      | (Inr mtime, w) \<Rightarrow>
     (case Option.bind (map_of cache canon) (\<lambda>(t, m). if t = mtime then Some m else None) of
        Some m \<Rightarrow> (Inr m, cache, w)
      | None \<Rightarrow>
     (case fs_read canon w of
        (Inl e, w) \<Rightarrow> (Inl (LoadIoError (''cannot read '' @ le_show le (canon, False) @ '': '' @ le_io le e)), cache, w)
      | (Inr code, w) \<Rightarrow>
     (case le_compile le code of
        Inl e \<Rightarrow> (Inl (LoadCompileError (''wasmtime compile failed for '' @ le_show le (canon, False) @ '': '' @ e)), cache, w)
      | Inr m \<Rightarrow> (Inr m, AList.update canon (mtime, m) cache, w))))))"

section \<open>Entries\<close>

text \<open>The checks of an entry before its module is compiled; \<open>seen\<close> holds the context keys so far.\<close>

definition check_entry :: "load_env \<Rightarrow> path \<Rightarrow> string list \<Rightarrow> resolver_entry_toml \<Rightarrow> resolver_load_error option" where
  "check_entry le p seen e =
     (let shown = le_show le (p, False) in
      if trim (rt_name e) = [] then
        Some (LoadParseError (''resolver entry in '' @ shown @ '' has an empty '' @ in_ticks ''name'' @
          '' field; name must be a non-empty string (BC-4.12.001 PC2)''))
      else if trim (rt_context_key e) = [] then
        Some (LoadParseError (''resolver entry '' @ in_ticks (rt_name e) @ '' in '' @ shown @ '' has an empty '' @
          in_ticks ''context_key'' @ '' field; context_key must be a non-empty string (BC-4.12.005 PC6)''))
      else if rt_context_key e \<in> set seen then
        Some (LoadParseError (''duplicate context_key '' @ in_ticks (rt_context_key e) @ '' in '' @ shown @ '' (resolver '' @
          in_ticks (rt_name e) @ '') '' @ [CHR 0xE2, CHR 0x80, CHR 0x94] @
          '' each resolver context_key must be unique (BC-4.12.005 PC6)''))
      else None)"

definition plugin_path :: "path \<Rightarrow> string \<Rightarrow> os_path" where
  "plugin_path p plugin = (case parent p of
     Some base \<Rightarrow> if is_absolute (path_of plugin) then os_path_of plugin else join_os base plugin
   | None \<Rightarrow> os_path_of plugin)"

definition blame_entry :: "resolver_entry_toml \<Rightarrow> resolver_load_error \<Rightarrow> string" where
  "blame_entry e err = ''resolver '' @ in_ticks (rt_name e) @ '' '' @ [CHR 0xE2, CHR 0x80, CHR 0x94] @ '' '' @
     (case err of LoadIoError d \<Rightarrow> d | _ \<Rightarrow> load_error_text err)"

definition entry_resolver :: "load_env \<Rightarrow> resolver_entry_toml \<Rightarrow> wasm_module \<Rightarrow> resolver" where
  "entry_resolver le e m = compiled_resolver (le_host le) (le_codec le)
     \<lparr>wr_name = rt_name e, wr_context_key = rt_context_key e, wr_module = m, wr_path_allow = rt_path_allow e\<rparr>"

fun load_entries ::
  "load_env \<Rightarrow> path \<Rightarrow> resolver_entry_toml list \<Rightarrow> string list \<Rightarrow> resolver list \<Rightarrow> load_warning list \<Rightarrow> module_cache \<Rightarrow>
   world \<Rightarrow> (resolver_load_error + resolver list \<times> load_warning list) \<times> module_cache \<times> world"
where
  "load_entries le p [] seen rs warnings cache w = (Inr (rs, warnings), cache, w)"
| "load_entries le p (e # es) seen rs warnings cache w =
     (case check_entry le p seen e of
        Some err \<Rightarrow> (Inl err, cache, w)
      | None \<Rightarrow>
     (case get_or_compile le (plugin_path p (rt_plugin e)) cache w of
        (Inl err, cache, w) \<Rightarrow>
          if unwrap_or (rt_fail_closed e) True then
            (Inl (case err of LoadIoError _ \<Rightarrow> LoadIoError (blame_entry e err) | _ \<Rightarrow> err), cache, w)
          else load_entries le p es (rt_context_key e # seen) rs
                 (warnings @ [\<lparr>lw_resolver_name = rt_name e, lw_detail = blame_entry e err\<rparr>]) cache w
      | (Inr m, cache, w) \<Rightarrow>
          (case register_resolver (entry_resolver le e m) rs of
             (Inl err, _) \<Rightarrow>
               (Inl (LoadParseError (''resolver registration failed for '' @ in_ticks (rt_name e) @ '': '' @ error_detail err)), cache, w)
           | (Inr _, rs) \<Rightarrow> load_entries le p es (rt_context_key e # seen) rs warnings cache w)))"

text \<open>\<open>Path::exists\<close> is false on any error of the stat.\<close>

definition load_resolver_registry ::
  "load_env \<Rightarrow> path \<Rightarrow> module_cache \<Rightarrow> world \<Rightarrow>
   (resolver_load_error + resolver list \<times> load_warning list) \<times> module_cache \<times> world"
where
  "load_resolver_registry le p cache w =
     (case fs_metadata p w of
        (Inl _, w) \<Rightarrow> (Inr ([], []), cache, w)
      | (Inr _, w) \<Rightarrow>
     (case fs_read_to_string p w of
        (Inl e, w) \<Rightarrow> (Inl (LoadIoError (''cannot read '' @ le_show le (p, False) @ '': '' @ le_io le e)), cache, w)
      | (Inr s, w) \<Rightarrow>
     (case le_toml le s of
        Inl e \<Rightarrow> (Inl (LoadParseError (''TOML parse error in '' @ le_show le (p, False) @ '': '' @ e)), cache, w)
      | Inr parsed \<Rightarrow>
      if rr_schema_version parsed \<noteq> 1 then
        (Inl (LoadParseError (''unsupported schema_version '' @ show_nat (unat (rr_schema_version parsed)) @ '' in '' @
           le_show le (p, False) @ '' (expected 1)'')), cache, w)
      else load_entries le p (rr_resolvers parsed) [] [] [] cache w)))"

section \<open>What a loaded registry holds\<close>

definition sound_registry :: "resolver list \<Rightarrow> bool" where
  "sound_registry rs \<longleftrightarrow> distinct (map rs_name rs) \<and> distinct (map rs_context_key rs) \<and>
     (\<forall>r\<in>set rs. trim (rs_name r) \<noteq> [] \<and> trim (rs_context_key r) \<noteq> [])"

lemma entry_resolver_keys [simp]:
  "rs_name (entry_resolver le e m) = rt_name e" "rs_context_key (entry_resolver le e m) = rt_context_key e"
  by (simp_all add: entry_resolver_def compiled_resolver_def)

lemma check_entry_None:
  "check_entry le p seen e = None \<longleftrightarrow> trim (rt_name e) \<noteq> [] \<and> trim (rt_context_key e) \<noteq> [] \<and> rt_context_key e \<notin> set seen"
  by (simp add: check_entry_def Let_def)

text \<open>One entry at a time: it becomes a resolver, or a warning when it may.\<close>

lemma load_entries_step:
  assumes "load_entries le p (e # es) seen rs warnings cache w = (Inr result, cache', w')"
  obtains (loaded) m c v where "get_or_compile le (plugin_path p (rt_plugin e)) cache w = (Inr m, c, v)"
      "check_entry le p seen e = None" "rt_name e \<notin> rs_name ` set rs"
      "load_entries le p es (rt_context_key e # seen) (rs @ [entry_resolver le e m]) warnings c v = (Inr result, cache', w')"
  | (skipped) err c v where "get_or_compile le (plugin_path p (rt_plugin e)) cache w = (Inl err, c, v)"
      "check_entry le p seen e = None" "rt_fail_closed e = Some False"
      "load_entries le p es (rt_context_key e # seen) rs
         (warnings @ [\<lparr>lw_resolver_name = rt_name e, lw_detail = blame_entry e err\<rparr>]) c v = (Inr result, cache', w')"
proof -
  obtain r c v where got: "get_or_compile le (plugin_path p (rt_plugin e)) cache w = (r, c, v)" by (rule prod_cases3)
  have ok: "check_entry le p seen e = None" using assms by (auto split: option.splits)
  show ?thesis
  proof (cases r)
    case (Inl err)
    then show ?thesis using skipped[OF got[unfolded Inl] ok] assms got ok
      by (auto simp: unwrap_or_def split: option.splits if_splits)
  next
    case (Inr m)
    have new: "rt_name e \<notin> rs_name ` set rs"
      using assms got ok Inr by (auto simp: register_resolver_def list_ex_iff split: if_splits)
    then show ?thesis using loaded[OF got[unfolded Inr] ok new] assms got ok Inr
      by (auto simp: register_resolver_def list_ex_iff split: if_splits)
  qed
qed

lemma load_entries_sound:
  assumes "load_entries le p es seen rs warnings cache w = (Inr (rs', warnings'), cache', w')"
    and "sound_registry rs" "rs_context_key ` set rs \<subseteq> set seen"
  shows "sound_registry rs' \<and> (\<exists>new. rs' = rs @ new)"
  using assms
proof (induction es arbitrary: seen rs warnings cache w)
  case (Cons e es)
  from Cons.prems(1) show ?case
  proof (cases rule: load_entries_step)
    case (loaded m c v)
    have "sound_registry (rs @ [entry_resolver le e m])"
      using Cons.prems(2,3) loaded(2,3) by (auto simp: sound_registry_def check_entry_None)
    then show ?thesis using Cons.IH[OF loaded(4)] Cons.prems(3) by auto
  next
    case (skipped err c v)
    then show ?thesis using Cons.IH[OF skipped(4) Cons.prems(2)] Cons.prems(3) by auto
  qed
qed simp

text \<open>Every entry is accounted for, and nothing else is in the registry or among the warnings.\<close>

fun accounted :: "load_env \<Rightarrow> resolver_entry_toml list \<Rightarrow> resolver list \<Rightarrow> load_warning list \<Rightarrow> bool" where
  "accounted le [] rs ws \<longleftrightarrow> rs = [] \<and> ws = []"
| "accounted le (e # es) rs ws \<longleftrightarrow>
     (\<exists>m rs'. rs = entry_resolver le e m # rs' \<and> accounted le es rs' ws) \<or>
     (rt_fail_closed e = Some False \<and>
       (\<exists>d ws'. ws = \<lparr>lw_resolver_name = rt_name e, lw_detail = d\<rparr> # ws' \<and> accounted le es rs ws'))"

lemma load_entries_accounted:
  assumes "load_entries le p es seen rs warnings cache w = (Inr (rs', warnings'), cache', w')"
  shows "\<exists>new ws. rs' = rs @ new \<and> warnings' = warnings @ ws \<and> accounted le es new ws"
  using assms
proof (induction es arbitrary: seen rs warnings cache w)
  case (Cons e es)
  from Cons.prems show ?case
  proof (cases rule: load_entries_step)
    case (loaded m c v)
    from Cons.IH[OF loaded(4)] show ?thesis by auto
  next
    case (skipped err c v)
    from Cons.IH[OF skipped(4)] skipped(3) show ?thesis by auto
  qed
qed simp

lemma accounted_compiled:
  "accounted le es rs ws \<Longrightarrow> \<exists>ms. rs = map (compiled_resolver (le_host le) (le_codec le)) ms"
proof (induction es arbitrary: rs ws)
  case (Cons e es)
  from Cons.prems consider (loaded) m rs' where "rs = entry_resolver le e m # rs'" "accounted le es rs' ws"
    | (skipped) ws' where "accounted le es rs ws'" by auto
  then show ?case
  proof cases
    case loaded
    then obtain ms where "rs' = map (compiled_resolver (le_host le) (le_codec le)) ms" using Cons.IH by blast
    then have "rs = map (compiled_resolver (le_host le) (le_codec le))
        (\<lparr>wr_name = rt_name e, wr_context_key = rt_context_key e, wr_module = m, wr_path_allow = rt_path_allow e\<rparr> # ms)"
      using loaded(1) by (simp add: entry_resolver_def)
    then show ?thesis by blast
  qed (rule Cons.IH)
qed simp

lemma load_registry_cases:
  assumes "load_resolver_registry le p cache w = (Inr (rs, warnings), cache', w')"
  shows "sound_registry rs \<and> (\<exists>ms. rs = map (compiled_resolver (le_host le) (le_codec le)) ms) \<and>
    (rs = [] \<and> warnings = [] \<or> (\<exists>s parsed u v. fs_read_to_string p u = (Inr s, v) \<and> le_toml le s = Inr parsed \<and>
       rr_schema_version parsed = 1 \<and> accounted le (rr_resolvers parsed) rs warnings))"
proof -
  obtain q u where meta: "fs_metadata p w = (q, u)" by fastforce
  show ?thesis
  proof (cases q)
    case (Inl e)
    then show ?thesis using assms meta by (simp add: load_resolver_registry_def sound_registry_def)
  next
    case (Inr n)
    obtain t v where read: "fs_read_to_string p u = (t, v)" by fastforce
    obtain s parsed where ok: "t = Inr s" "le_toml le s = Inr parsed" "rr_schema_version parsed = 1"
      "load_entries le p (rr_resolvers parsed) [] [] [] cache v = (Inr (rs, warnings), cache', w')"
      using assms meta read Inr by (auto simp: load_resolver_registry_def split: sum.splits if_splits)
    have sound: "sound_registry rs" using load_entries_sound[OF ok(4)] by (simp add: sound_registry_def)
    have acc: "accounted le (rr_resolvers parsed) rs warnings" using load_entries_accounted[OF ok(4)] by simp
    show ?thesis using sound acc accounted_compiled[OF acc] read ok by blast
  qed
qed

section \<open>Context injection\<close>

text \<open>
  Claim C22.  With the registry that loading produced, and no I/O faults pending, an entry that asks for distinct
  contexts runs with exactly its static configuration overlaid with what the requested resolvers supply for this
  event: a key that one of them supplies has that value, every other key its static one, whatever the order of the
  request; building it leaves the world as it is.  The events report exactly the requested names that are not
  registered, the requested resolvers that failed, and the static values that were overridden.  The registry never
  holds two resolvers of one name or one context key.
\<close>

theorem loaded_context_injection:
  assumes load: "load_resolver_registry le p cache u = (Inr (rs, warnings), cache', u')"
    and needs: "re_needs_context e \<noteq> []" "distinct (re_needs_context e)" and config: "re_config e = TTable t"
    and calm: "faults w = []" and built: "build_plugin_config x e payload cwd rs trace_id w = (cfg, evs, w')"
  defines "ans \<equiv> \<lambda>r. fst (rs_resolve r (resolver_input_of e payload cwd) w)"
  shows "sound_registry rs \<and> w' = w \<and>
    (\<forall>k v. jget k cfg = Some v \<longleftrightarrow> supplies rs ans e k v \<or>
       (\<nexists>v'. supplies rs ans e k v') \<and> jget k (config_as_json e) = Some v) \<and>
    (\<forall>ev. ev \<in> set evs \<longleftrightarrow>
       (\<exists>n\<in>set (re_needs_context e). n \<notin> rs_name ` set rs \<and>
          ev = note_event x e trace_id (envelope_event_type payload) (NoteNotFound n)) \<or>
       (\<exists>r\<in>set rs. \<exists>err. rs_name r \<in> set (re_needs_context e) \<and> ans r = Inl err \<and>
          ev = note_event x e trace_id (envelope_event_type payload) (NoteError (rs_name r) err)) \<or>
       (\<exists>r\<in>set rs. \<exists>v old. rs_name r \<in> set (re_needs_context e) \<and> value_of (ans r) = Some v \<and>
          jget (rs_context_key r) (config_as_json e) = Some old \<and>
          ev = collision_event x e trace_id \<lparr>ci_key = rs_context_key r, ci_resolver_name = rs_name r,
                 ci_old_value = old, ci_new_value = v\<rparr>))"
proof -
  obtain ms where rs: "sound_registry rs" "rs = map (compiled_resolver (le_host le) (le_codec le)) ms"
    using load_registry_cases[OF load] by blast
  have quiet: "rs_resolve r (resolver_input_of e payload cwd) w = (ans r, w)" if "r \<in> set rs" for r
    using that wasm.calm[OF calm] by (auto simp: rs(2) ans_def prod_eq_iff)
  have distinct: "distinct (map rs_name rs)" "distinct (map rs_context_key rs)" using rs(1) by (simp_all add: sound_registry_def)
  show ?thesis using context_injection[OF needs distinct config quiet built] rs(1) by blast
qed

definition demo_toml :: resolvers_registry_toml where
  "demo_toml = \<lparr>rr_schema_version = 1, rr_resolvers =
     [\<lparr>rt_name = ''curious'', rt_plugin = ''c.wasm'', rt_context_key = ''wave_key'', rt_path_allow = [''w''], rt_fail_closed = None\<rparr>,
      \<lparr>rt_name = ''absent'', rt_plugin = ''a.wasm'', rt_context_key = ''other'', rt_path_allow = [], rt_fail_closed = Some False\<rparr>]\<rparr>"

definition demo_load_env :: load_env where
  "demo_load_env = \<lparr>le_host = demo_host, le_codec = demo_codec, le_toml = \<lambda>_. Inr demo_toml,
     le_compile = \<lambda>_. Inr (curious_module ''w/f''), le_mtime = \<lambda>_ _. None, le_show = \<lambda>_. ''path'', le_io = \<lambda>_. ''error''\<rparr>"

definition demo_registry_world :: world where
  "demo_registry_world = demo_world\<lparr>nodes := [([RootDir, Normal ''w''], Directory),
     ([RootDir, Normal ''w'', Normal ''r.toml''], File ''toml''), ([RootDir, Normal ''w'', Normal ''c.wasm''], File ''code'')]\<rparr>"

abbreviation demo_toml_path :: path where
  "demo_toml_path \<equiv> [RootDir, Normal ''w'', Normal ''r.toml'']"

lemma demo_files:
  "fs_metadata demo_toml_path demo_registry_world = (Inr (File ''toml''), demo_registry_world)"
  "fs_read_to_string demo_toml_path demo_registry_world = (Inr ''toml'', demo_registry_world)"
  "fs_canonicalize [RootDir] (plugin_path demo_toml_path ''c.wasm'') demo_registry_world =
     (Inr [RootDir, Normal ''w'', Normal ''c.wasm''], demo_registry_world)"
  "fs_metadata [RootDir, Normal ''w'', Normal ''c.wasm''] demo_registry_world = (Inr (File ''code''), demo_registry_world)"
  "fs_read [RootDir, Normal ''w'', Normal ''c.wasm''] demo_registry_world = (Inr ''code'', demo_registry_world)"
  "fs_canonicalize [RootDir] (plugin_path demo_toml_path ''a.wasm'') demo_registry_world = (Inl NotFound, demo_registry_world)"
  by code_simp+

lemma demo_names: "trim ''curious'' \<noteq> []" "trim ''wave_key'' \<noteq> []" "trim ''absent'' \<noteq> []" "trim ''other'' \<noteq> []"
  by code_simp+

text \<open>The first entry is registered, the second has no module and may be skipped, so it leaves a warning.\<close>

lemma demo_load:
  "\<exists>cache. load_resolver_registry demo_load_env demo_toml_path [] demo_registry_world =
    (Inr ([entry_resolver demo_load_env (hd (rr_resolvers demo_toml)) (curious_module ''w/f'')],
      [\<lparr>lw_resolver_name = ''absent'', lw_detail = blame_entry (hd (tl (rr_resolvers demo_toml)))
          (LoadIoError (''cannot canonicalize path: error''))\<rparr>]), cache, demo_registry_world)"
proof -
  let ?w = demo_registry_world and ?e = "hd (rr_resolvers demo_toml)" and ?f = "hd (tl (rr_resolvers demo_toml))"
  have es: "rr_resolvers demo_toml = [?e, ?f]" by (simp add: demo_toml_def)
  have names: "rt_name ?e = ''curious''" "rt_name ?f = ''absent''" "rt_context_key ?e = ''wave_key''"
    "rt_context_key ?f = ''other''" "rt_fail_closed ?f = Some False" "rt_plugin ?e = ''c.wasm''" "rt_plugin ?f = ''a.wasm''"
    by (simp_all add: demo_toml_def)
  have checks: "check_entry demo_load_env demo_toml_path [] ?e = None"
    "check_entry demo_load_env demo_toml_path [''wave_key''] ?f = None"
    by (simp_all add: check_entry_None names demo_names)
  obtain cache where first: "get_or_compile demo_load_env (plugin_path demo_toml_path ''c.wasm'') [] ?w =
      (Inr (curious_module ''w/f''), cache, ?w)"
    using demo_files by (simp add: get_or_compile_def file_mtime_def demo_load_env_def demo_host_def)
  have second: "get_or_compile demo_load_env (plugin_path demo_toml_path ''a.wasm'') cache ?w =
      (Inl (LoadIoError ''cannot canonicalize path: error''), cache, ?w)"
    using demo_files by (simp add: get_or_compile_def demo_load_env_def demo_host_def)
  have "load_entries demo_load_env demo_toml_path (rr_resolvers demo_toml) [] [] [] [] ?w =
      (Inr ([entry_resolver demo_load_env ?e (curious_module ''w/f'')],
        [\<lparr>lw_resolver_name = ''absent'', lw_detail = blame_entry ?f (LoadIoError ''cannot canonicalize path: error'')\<rparr>]), cache, ?w)"
    by (subst es) (simp add: checks names first second register_resolver_def unwrap_or_def)
  moreover have "le_toml demo_load_env ''toml'' = Inr demo_toml" "rr_schema_version demo_toml = 1"
    by (simp_all add: demo_load_env_def demo_toml_def)
  ultimately show ?thesis using demo_files(1,2) by (simp add: load_resolver_registry_def)
qed

theorem loaded_context_injection_witness:
  "\<exists>rs warnings cache cfg evs.
     load_resolver_registry demo_load_env demo_toml_path [] demo_registry_world = (Inr (rs, warnings), cache, demo_registry_world) \<and>
     build_plugin_config demo_exec_ctx (demo_entry [''curious'', ''gone'']) (JObj []) ''/'' rs ''t'' demo_registry_world =
       (cfg, evs, demo_registry_world) \<and> jget ''level'' cfg = Some (JStr ''strict'')"
proof -
  obtain rs warnings cache where load: "load_resolver_registry demo_load_env demo_toml_path [] demo_registry_world =
      (Inr (rs, warnings), cache, demo_registry_world)" "map rs_context_key rs = [''wave_key'']"
    using demo_load by (auto simp: demo_toml_def)
  obtain cfg evs v where built: "build_plugin_config demo_exec_ctx (demo_entry [''curious'', ''gone'']) (JObj []) ''/'' rs ''t''
      demo_registry_world = (cfg, evs, v)" by (rule prod_cases3)
  have hyps: "re_needs_context (demo_entry [''curious'', ''gone'']) \<noteq> []" "distinct (re_needs_context (demo_entry [''curious'', ''gone'']))"
    "re_config (demo_entry [''curious'', ''gone'']) = TTable [(''wave_key'', TStr ''old''), (''level'', TStr ''strict'')]"
    "faults demo_registry_world = []"
    by (simp_all add: demo_entry_def demo_registry_world_def demo_world_def)
  have other: "\<not> supplies rs ans (demo_entry [''curious'', ''gone'']) ''level'' v'" for ans v'
    using load(2) by (auto simp: supplies_def map_eq_Cons_conv)
  have static: "jget ''level'' (config_as_json (demo_entry [''curious'', ''gone''])) = Some (JStr ''strict'')"
    by (simp add: demo_entry_def config_as_json_def)
  note claim = loaded_context_injection[OF load(1) hyps built]
  have "v = demo_registry_world" by (rule claim[THEN conjunct2, THEN conjunct1])
  moreover have "jget ''level'' cfg = Some (JStr ''strict'')"
    unfolding claim[THEN conjunct2, THEN conjunct2, THEN conjunct1, rule_format] using other static by simp
  ultimately show ?thesis using load(1) built by blast
qed

text \<open>
  A stat error on the registry file counts as its absence: one fault, and the dispatch runs without resolvers and
  without a report, although the file is there.
\<close>

lemma stat_error_drops_registry:
  "fst (load_resolver_registry le demo_toml_path [] (demo_registry_world\<lparr>faults := [Some (Fault 0)]\<rparr>)) = Inr ([], [])"
proof -
  have "fst (fs_metadata demo_toml_path (demo_registry_world\<lparr>faults := [Some (Fault 0)]\<rparr>)) = Inl OtherIo" by code_simp
  then show ?thesis by (simp add: load_resolver_registry_def split_beta)
qed

end
