(* ===== verification/Dispatch.thy ===== *)
theory Dispatch
  imports BlockReport Envelope ResolverLoad
begin

text \<open>
  A whole dispatch: \<^verbatim>\<open>run\<close> and \<^verbatim>\<open>main\<close> of \<^verbatim>\<open>main.rs\<close>, from the bytes on standard input to the exit code, over the
  modelled registry, routing, shard gate, resolvers, executor and asynchronous plugins.  The environment of the process
  and the libraries are one record of parameters, what the plugins do and when is another.
\<close>

section \<open>Parameters\<close>

record dispatch_env =
  dv_parse :: "bytes \<Rightarrow> json option"
  dv_stdout_json :: "string \<Rightarrow> json option"
  dv_trace :: string
  dv_version :: string
  dv_plugin_root :: string  \<comment> \<open>empty when it is not set\<close>
  dv_project_dir :: "string option"
  dv_current_dir :: "path option"
  dv_log_path :: "path option"
  dv_regex :: regex
  dv_registry :: "string \<Rightarrow> registry option"
  dv_gate :: gate_env
  dv_gate_text :: "gate_error \<Rightarrow> string"
  dv_git :: "path \<Rightarrow> git"
  dv_engine :: bool  \<comment> \<open>whether \<^verbatim>\<open>build_engine\<close> succeeds\<close>
  dv_load :: load_env
  dv_marker :: marker_env

text \<open>
  The plugins of this dispatch.  A synchronous one is a function of its entry, the payload and the resolvers; a tier has
  its schedule and clock.  The asynchronous ones end in some order, each with a time and a nonce, and the first
  \<open>dn_drained\<close> of them inside the drain window.
\<close>

record dispatch_plugins =
  dn_sync :: "json \<Rightarrow> resolver list \<Rightarrow> registry_entry \<Rightarrow> plugin_run"
  dn_tier_times :: "nat \<Rightarrow> tier_step list \<times> (nat \<Rightarrow> int)"
  dn_async :: "registry_entry \<Rightarrow> json \<Rightarrow> plugin_run"
  dn_async_order :: "(nat \<times> int \<times> u64) list"
  dn_drained :: nat

section \<open>Before the plugins\<close>

definition registry_exit_code :: "registry_error \<Rightarrow> int" where
  "registry_exit_code err =
     (case err of SchemaVersion _ _ \<Rightarrow> 2 | AsyncBlockConflict _ _ \<Rightarrow> 2 | DuplicateEntry _ _ _ \<Rightarrow> 2 | _ \<Rightarrow> 0)"

text \<open>Without a plugin root the registry is empty.\<close>

definition load_dispatch_registry :: "dispatch_env \<Rightarrow> world \<Rightarrow> (registry_error + registry) \<times> world" where
  "load_dispatch_registry env w =
     (if dv_plugin_root env = [] then
        (Inr \<lparr>reg_schema_version = registry_schema_version, reg_defaults = default_registry_defaults, reg_hooks = []\<rparr>, w)
      else registry_load (dv_regex env) (dv_registry env) (join_name (path_of (dv_plugin_root env)) ''hooks-registry.toml'') w)"

definition resolve_project_cwd :: "dispatch_env \<Rightarrow> world \<Rightarrow> path \<times> world" where
  "resolve_project_cwd env w =
     (case dv_project_dir env of
        Some (c # s) \<Rightarrow>
          (case fs_canonicalize (he_here (le_host (dv_load env))) (os_path_of (c # s)) w of
             (Inr p, w) \<Rightarrow> (p, w) | (Inl _, w) \<Rightarrow> (path_of (c # s), w))
      | _ \<Rightarrow> (unwrap_or (dv_current_dir env) [CurDir], w))"

section \<open>Asynchronous plugins\<close>

datatype async_note =
    AsyncBlockDiscarded string
  | AsyncCompleted string nat int u64 u64
  | AsyncTimeout string u32
  | AsyncAbandoned string nat

fun run_async ::
  "exec_ctx \<Rightarrow> json \<Rightarrow> string \<Rightarrow> resolver list \<Rightarrow> (registry_entry \<Rightarrow> json \<Rightarrow> plugin_run) \<Rightarrow> registry_entry list \<Rightarrow>
   (nat \<times> int \<times> u64) list \<Rightarrow> world \<Rightarrow> plugin_outcome list \<times> internal_event list \<times> world"
where
  "run_async x payload cwd rs run pending [] w = ([], [], w)"
| "run_async x payload cwd rs run pending ((i, now, nonce) # order) w =
     (if i < length pending then
        (case spawn_async_plugin x payload cwd rs run (pending ! i) now nonce w of (out, evs, w) \<Rightarrow>
          (case run_async x payload cwd rs run pending order w of (outs, evs', w) \<Rightarrow> (out # outs, evs @ evs', w)))
      else run_async x payload cwd rs run pending order w)"

text \<open>Both look-ups go by the name of the plugin.\<close>

definition async_index :: "(string \<times> nat) list \<Rightarrow> string \<Rightarrow> nat" where
  "async_index spawned name = (case find (\<lambda>(n, i). n = name) spawned of Some (_, i) \<Rightarrow> i | None \<Rightarrow> 0)"

definition async_timeout_ms :: "registry \<Rightarrow> string \<Rightarrow> u32" where
  "async_timeout_ms r name =
     unwrap_or (Option.bind (find (\<lambda>e. re_name e = name) (reg_hooks r)) re_timeout_ms) (def_timeout_ms (reg_defaults r))"

definition async_note_of :: "registry \<Rightarrow> (string \<times> nat) list \<Rightarrow> plugin_outcome \<Rightarrow> async_note list" where
  "async_note_of r spawned out =
     (case po_result out of
        PluginOk code stdout _ elapsed fuel \<Rightarrow>
          if contains (quoted ''outcome'' @ '':'' @ quoted ''block'') stdout \<or> code = 2
          then [AsyncBlockDiscarded (po_name out)]
          else [AsyncCompleted (po_name out) (async_index spawned (po_name out)) code elapsed fuel]
      | PluginTimeout _ _ _ _ _ \<Rightarrow> [AsyncTimeout (po_name out) (async_timeout_ms r (po_name out))]
      | PluginCrashed _ _ _ _ \<Rightarrow> [])"

definition spawned_entries :: "registry_entry list \<Rightarrow> (string \<times> nat) list" where
  "spawned_entries pending = map (\<lambda>(i, e). (re_name e, i)) (enumerate 0 pending)"

definition async_notes :: "registry \<Rightarrow> registry_entry list \<Rightarrow> plugin_outcome list \<Rightarrow> async_note list" where
  "async_notes r pending collected =
     concat (map (async_note_of r (spawned_entries pending)) collected) @
     map (\<lambda>(n, i). AsyncAbandoned n i) (filter (\<lambda>(n, i). n \<notin> po_name ` set collected) (spawned_entries pending))"

section \<open>The dispatch\<close>

datatype dispatch_error = DispatchPayload payload_error | DispatchResolvers resolver_load_error

record dispatch_report =
  dp_code :: int
  dp_registry_error :: "registry_error option"
  dp_outcomes :: "plugin_outcome list"
  dp_block :: "(string \<times> string) option"
  dp_async :: "async_note list"
  dp_events :: "internal_event list"

text \<open>A return before any plugin, and the end of a dispatch with its summary line.\<close>

definition early_report :: "int \<Rightarrow> registry_error option \<Rightarrow> dispatch_report" where
  "early_report code err = \<lparr>dp_code = code, dp_registry_error = err, dp_outcomes = [], dp_block = None,
     dp_async = [], dp_events = []\<rparr>"

definition final_report :: "dispatch_env \<Rightarrow> int \<Rightarrow> plugin_outcome list \<Rightarrow> async_note list \<Rightarrow> internal_event list \<Rightarrow> dispatch_report" where
  "final_report env code outs notes evs =
     \<lparr>dp_code = code, dp_registry_error = None, dp_outcomes = outs,
       dp_block = (if code = 2 then Some (extract_block_info (dv_stdout_json env) outs) else None),
       dp_async = notes, dp_events = evs\<rparr>"

definition gate_only_report :: "dispatch_env \<Rightarrow> envelope \<Rightarrow> hook_result option \<Rightarrow> dispatch_report" where
  "gate_only_report env p verdict =
     (if verdict = None then early_report 0 None
      else case shard_gate_verdict_outcomes verdict (dv_version env) of (outs, block_intent) \<Rightarrow>
        final_report env
          (if is_advisory_only (event_type_of (hp_event_name p)) then 0 else if block_intent then 2 else 0) outs [] [])"

definition dispatch_ctx :: "dispatch_env \<Rightarrow> envelope \<Rightarrow> registry \<Rightarrow> path \<Rightarrow> json \<Rightarrow> exec_ctx" where
  "dispatch_ctx env p r cwd payload =
     \<lparr>xc_env = dv_marker env, xc_session = en_session_id p, xc_cwd = cwd, xc_trace = dv_trace env,
       xc_version = dv_version env, xc_log_path = dv_log_path env, xc_defaults = reg_defaults r,
       xc_artifact = unwrap_or (Option.bind (jget ''tool_input'' payload) (jget_str ''file_path'')) []\<rparr>"

definition timed_tiers :: "dispatch_plugins \<Rightarrow> registry_entry list list \<Rightarrow> timed_tier list" where
  "timed_tiers nd tiers = map (\<lambda>(i, tier). (tier, dn_tier_times nd i)) (enumerate 0 tiers)"

definition run_plugins ::
  "dispatch_env \<Rightarrow> dispatch_plugins \<Rightarrow> envelope \<Rightarrow> registry \<Rightarrow> registry_entry list list \<Rightarrow> registry_entry list \<Rightarrow> path \<Rightarrow>
   hook_result option \<Rightarrow> world \<Rightarrow> (dispatch_error + dispatch_report) \<times> world"
where
  "run_plugins env nd p r tiers pending cwd verdict w =
     (let payload = dispatch_payload p (dv_trace env) (dv_git env (join_name cwd ''.factory''));
          x = dispatch_ctx env p r cwd payload in
      case load_resolver_registry (dv_load env) (join_name (path_of (dv_plugin_root env)) ''resolvers-registry.toml'') [] w of
        (Inl err, _, w) \<Rightarrow> (Inl (DispatchResolvers err), w)
      | (Inr (rs, warnings), _, w) \<Rightarrow>
     (case execute_tiers x (dn_sync nd payload rs) verdict (timed_tiers nd tiers) w of (summary, evs, w) \<Rightarrow>
     (case run_async x payload (path_display cwd) rs (dn_async nd) pending (dn_async_order nd) w of (async_outs, evs', w) \<Rightarrow>
        (Inr (final_report env (final_exit_code (hp_event_name p) summary) (ts_per_plugin_results summary)
           (async_notes r pending (take (dn_drained nd) async_outs)) (evs @ evs')), w))))"

definition run_routed ::
  "dispatch_env \<Rightarrow> dispatch_plugins \<Rightarrow> envelope \<Rightarrow> registry \<Rightarrow> world \<Rightarrow> (dispatch_error + dispatch_report) \<times> world"
where
  "run_routed env nd p r w =
     (let part = partition_plugins (match_plugins (dv_regex env) r (hp_event_name p) (hp_tool_name p));
          tiers = group_by_priority r (sync_group part); call = hook_payload.truncate p in
      case resolve_project_cwd env w of (cwd, w) \<Rightarrow>
     (case shard_cap_precheck (dv_gate env) call cwd
             (reconcile_replace_all_overcap_if_qualifying (dv_gate env) call cwd w) of (precheck, w) \<Rightarrow>
       (let verdict = map_option (hook_result_of (dv_gate_text env)) precheck in
        if tiers = [] \<and> async_group part = [] then (Inr (gate_only_report env p verdict), w)
        else if \<not> dv_engine env then (Inr (early_report 0 None), w)
        else run_plugins env nd p r tiers (async_group part) cwd verdict w)))"

definition run_dispatch ::
  "dispatch_env \<Rightarrow> dispatch_plugins \<Rightarrow> io_kind + bytes \<Rightarrow> world \<Rightarrow> (dispatch_error + dispatch_report) \<times> world"
where
  "run_dispatch env nd stdin w =
     (case payload_from_reader (dv_parse env) stdin of
        Inl err \<Rightarrow> (Inl (DispatchPayload err), w)
      | Inr p \<Rightarrow>
          (case load_dispatch_registry env w of
             (Inl err, w) \<Rightarrow> (Inr (early_report (registry_exit_code err) (Some err)), w)
           | (Inr r, w) \<Rightarrow> run_routed env nd p r w))"

text \<open>\<^verbatim>\<open>main\<close>: an error of \<^verbatim>\<open>run\<close> is logged and lets the tool call pass.\<close>

definition main_exit_code :: "dispatch_env \<Rightarrow> dispatch_plugins \<Rightarrow> io_kind + bytes \<Rightarrow> world \<Rightarrow> int \<times> world" where
  "main_exit_code env nd stdin w =
     (case run_dispatch env nd stdin w of (Inr rep, w) \<Rightarrow> (dp_code rep, w) | (Inl _, w) \<Rightarrow> (0, w))"

end
