(* ===== verification/DispatchClaims.thy ===== *)
theory DispatchClaims
  imports Dispatch
begin

text \<open>
  What a dispatch guarantees from end to end: when the process exits with 2 and whom it then names, when a verdict of
  the shard gate reaches the exit code, and that asynchronous plugins have no say.
\<close>

section \<open>Routing\<close>

lemma group_by_priority_empty: "group_by_priority r es = [] \<longleftrightarrow> es = []"
proof
  assume "group_by_priority r es = []"
  then have "sort_key (entry_priority (reg_defaults r)) es = []" using group_by_priority_core[of r es] by simp
  then have "set es = {}" using set_sort[of "entry_priority (reg_defaults r)" es] by simp
  then show "es = []" by simp
qed (simp add: group_by_priority_def)

lemma partition_groups:
  "sync_group (partition_plugins es) = filter (\<lambda>e. \<not> re_async e) es" "async_group (partition_plugins es) = filter re_async es"
  by (simp_all add: partition_plugins_def partition_loop_filter)

lemma nothing_matched:
  "group_by_priority r (sync_group (partition_plugins es)) = [] \<and> async_group (partition_plugins es) = [] \<longleftrightarrow> es = []"
  unfolding group_by_priority_empty partition_groups by (auto simp: filter_empty_conv)

text \<open>The synchronous entries of an event, in the order of their priorities.\<close>

definition sync_entries :: "dispatch_env \<Rightarrow> envelope \<Rightarrow> registry \<Rightarrow> registry_entry list" where
  "sync_entries env p r = sort_key (entry_priority (reg_defaults r))
     (filter (\<lambda>e. \<not> re_async e) (match_plugins (dv_regex env) r (hp_event_name p) (hp_tool_name p)))"

lemma concat_timed:
  "concat (map (\<lambda>(tier, times). map f tier) (map (\<lambda>(i, tier). (tier, g i)) (enumerate n tiers))) = map f (concat tiers)"
  by (induction tiers arbitrary: n) auto

section \<open>One run of the executor\<close>

lemma execute_tiers_run:
  assumes "execute_tiers x run verdict tiers w = (s, evs, w')"
  obtains outs block w1 where "run_tiers x run tiers w = (outs, block, evs, w1)"
    "ts_per_plugin_results s = fst (shard_gate_verdict_outcomes verdict (xc_version x)) @ outs"
    "ts_exit_code s = (if snd (shard_gate_verdict_outcomes verdict (xc_version x)) \<or> block then 2 else 0)"
  using assms by (auto simp: execute_tiers_def Let_def split: prod.splits)

lemma gate_outcomes:
  "g \<in> set (fst (shard_gate_verdict_outcomes verdict v)) \<Longrightarrow>
   undecided g = g \<and> marker_flag_ok g \<and> exit_in_byte (po_result g) \<and> outcome_blocks g"
  by (auto simp: shard_gate_verdict_outcomes_def shard_gate_block_outcome_def shard_gate_error_outcome_def gate_outcome_def
      undecided_def marker_flag_ok_def exit_in_byte_def outcome_blocks_def split: option.splits hook_result.splits)

lemma gate_votes: "snd (shard_gate_verdict_outcomes verdict v) \<longleftrightarrow> fst (shard_gate_verdict_outcomes verdict v) \<noteq> []"
  by (auto simp: shard_gate_verdict_outcomes_def split: option.splits hook_result.splits)

lemma gate_undecided: "map undecided (fst (shard_gate_verdict_outcomes verdict v)) = fst (shard_gate_verdict_outcomes verdict v)"
  by (rule map_idI) (simp add: gate_outcomes)

lemma undecided_result: "po_result (undecided o1) = po_result o1"
  by (simp add: undecided_def)

lemma outcome_of_run_byte:
  "(\<And>res big. run = Ran res big \<Longrightarrow> exit_in_byte res) \<Longrightarrow> exit_in_byte (po_result (outcome_of_run x e run))"
  by (cases run) (auto simp: outcome_of_run_def Let_def exit_in_byte_def)

lemma exit_two_blocks: "po_result o1 = PluginOk 2 s e t f \<Longrightarrow> po_on_error o1 = Block \<Longrightarrow> outcome_blocks o1"
  by (simp add: outcome_blocks_def)

lemma final_exit_code_meaning:
  assumes run: "execute_tiers x run verdict tiers w = (s, evs, w')"
    and bytes: "\<And>e res big. run e = Ran res big \<Longrightarrow> exit_in_byte res"
  shows "final_exit_code event s =
    (if event_type_of event \<noteq> PostCompact \<and> (\<exists>o1\<in>set (ts_per_plugin_results s). outcome_blocks o1) then 2 else 0)"
proof -
  obtain outs block w1 where r: "run_tiers x run tiers w = (outs, block, evs, w1)"
    and res: "ts_per_plugin_results s = fst (shard_gate_verdict_outcomes verdict (xc_version x)) @ outs" (is "_ = ?gate @ _")
    and code: "ts_exit_code s = (if snd (shard_gate_verdict_outcomes verdict (xc_version x)) \<or> block then 2 else 0)"
    by (rule execute_tiers_run[OF run])
  note m = run_tiers_meaning[OF r] and flags = tiers_flags[OF r]
  have byte: "exit_in_byte (po_result o1)" if "o1 \<in> set outs" for o1
  proof -
    have "undecided o1 \<in> set (concat (map (\<lambda>(tier, _). map (\<lambda>e. outcome_of_run x e (run e)) tier) tiers))"
      using that m by (metis imageI list.set_map)
    then obtain e where "undecided o1 = outcome_of_run x e (run e)" by auto
    then have "exit_in_byte (po_result (undecided o1))" using outcome_of_run_byte bytes by metis
    then show ?thesis by (simp only: undecided_result)
  qed
  have all: "\<forall>o1\<in>set (?gate @ outs). exit_in_byte (po_result o1)" using byte gate_outcomes by auto
  have "ts_exit_code s = 2 \<longleftrightarrow> ?gate \<noteq> [] \<or> (\<exists>o1\<in>set outs. votes_block o1)"
    using m by (simp add: code gate_votes)
  moreover have "(\<exists>o1\<in>set (?gate @ outs). outcome_blocks o1) \<longleftrightarrow>
      (?gate \<noteq> [] \<or> (\<exists>o1\<in>set outs. votes_block o1)) \<or>
      (\<exists>o1\<in>set (?gate @ outs). \<exists>s e t f. po_result o1 = PluginOk 2 s e t f \<and> po_on_error o1 = Block)" (is "?b \<longleftrightarrow> ?v \<or> ?a")
  proof
    assume ?b
    then show "?v \<or> ?a" using blocks_votes by fastforce
  next
    assume "?v \<or> ?a"
    then consider (gate) "?gate \<noteq> []" | (vote) o1 where "o1 \<in> set outs" "votes_block o1" | (agg) "?a" by blast
    then show ?b
    proof cases
      case gate
      then have "hd ?gate \<in> set ?gate" by (rule hd_in_set)
      then show ?thesis using gate_outcomes by (metis UnCI set_append)
    next
      case vote
      then show ?thesis using votes_blocks flags by auto
    next
      case agg
      then show ?thesis using exit_two_blocks by blast
    qed
  qed
  ultimately have "(ts_exit_code s = 2 \<or> aggregate_exit_code (map sync_result_of (ts_per_plugin_results s)) = 2) \<longleftrightarrow>
      (\<exists>o1\<in>set (ts_per_plugin_results s). outcome_blocks o1)"
    unfolding res aggregate_two[OF all] by blast
  then show ?thesis by (simp add: final_exit_code_def is_advisory_only_def)
qed

section \<open>Stages\<close>

lemma run_dispatch_read:
  assumes "payload_from_reader (dv_parse env) stdin = Inr p" "load_dispatch_registry env w = (Inr r, v)"
  shows "run_dispatch env nd stdin w = run_routed env nd p r v"
  by (simp add: run_dispatch_def assms)

lemma registry_error_decides:
  assumes "payload_from_reader (dv_parse env) stdin = Inr p" "load_dispatch_registry env w = (Inl err, v)"
  shows "main_exit_code env nd stdin w = (registry_exit_code err, v)"
  by (simp add: main_exit_code_def run_dispatch_def assms early_report_def)

text \<open>The three ends of a routed dispatch.\<close>

definition matched_entries :: "dispatch_env \<Rightarrow> envelope \<Rightarrow> registry \<Rightarrow> registry_entry list" where
  "matched_entries env p r = match_plugins (dv_regex env) r (hp_event_name p) (hp_tool_name p)"

definition precheck_of :: "dispatch_env \<Rightarrow> envelope \<Rightarrow> world \<Rightarrow> path \<times> gate_verdict option \<times> world" where
  "precheck_of env p w = (case resolve_project_cwd env w of (cwd, w) \<Rightarrow>
     (cwd, shard_cap_precheck (dv_gate env) (hook_payload.truncate p) cwd
       (reconcile_replace_all_overcap_if_qualifying (dv_gate env) (hook_payload.truncate p) cwd w)))"

lemma run_routed_cases:
  assumes "precheck_of env p w = (cwd, precheck, v)"
  shows "run_routed env nd p r w =
    (let verdict = map_option (hook_result_of (dv_gate_text env)) precheck in
     if matched_entries env p r = [] then (Inr (gate_only_report env p verdict), v)
     else if \<not> dv_engine env then (Inr (early_report 0 None), v)
     else run_plugins env nd p r (group_by_priority r (sync_group (partition_plugins (matched_entries env p r))))
       (filter re_async (matched_entries env p r)) cwd verdict v)"
proof -
  obtain u where u: "resolve_project_cwd env w = (cwd, u)" and
    gate: "shard_cap_precheck (dv_gate env) (hook_payload.truncate p) cwd
      (reconcile_replace_all_overcap_if_qualifying (dv_gate env) (hook_payload.truncate p) cwd u) = (precheck, v)"
    using assms by (auto simp: precheck_of_def split: prod.splits)
  show ?thesis
    unfolding run_routed_def u gate prod.case Let_def matched_entries_def[symmetric] nothing_matched
    unfolding partition_groups(2) ..
qed

lemma run_plugins_Inr:
  assumes "run_plugins env nd p r tiers waiting cwd verdict w = (Inr rep, w')"
  obtains payload x rs s evs u u' nts evs' where
    "xc_version x = dv_version env"
    "execute_tiers x (dn_sync nd payload rs) verdict (timed_tiers nd tiers) u = (s, evs, u')"
    "rep = final_report env (final_exit_code (hp_event_name p) s) (ts_per_plugin_results s) nts evs'"
proof -
  let ?payload = "dispatch_payload p (dv_trace env) (dv_git env (join_name cwd ''.factory''))"
  let ?x = "dispatch_ctx env p r cwd ?payload"
  obtain l c u where l: "load_resolver_registry (dv_load env)
      (join_name (path_of (dv_plugin_root env)) ''resolvers-registry.toml'') [] w = (l, c, u)" by (rule prod_cases3)
  obtain rs ws where rs: "l = Inr (rs, ws)" using assms l by (auto simp: run_plugins_def Let_def split: sum.splits)
  obtain s evs u' where s: "execute_tiers ?x (dn_sync nd ?payload rs) verdict (timed_tiers nd tiers) u = (s, evs, u')"
    by (rule prod_cases3)
  have "xc_version ?x = dv_version env" by (simp add: dispatch_ctx_def)
  then show thesis
    using that s assms l rs by (auto simp: run_plugins_def Let_def split: prod.splits)
qed

section \<open>When the process blocks\<close>

lemma executed_outcomes:
  assumes "execute_tiers x run verdict (timed_tiers nd tiers) w = (s, evs, w')"
  shows "map undecided (ts_per_plugin_results s) =
    fst (shard_gate_verdict_outcomes verdict (xc_version x)) @ map (\<lambda>e. outcome_of_run x e (run e)) (concat tiers)"
proof -
  obtain outs block w1 where r: "run_tiers x run (timed_tiers nd tiers) w = (outs, block, evs, w1)"
    and res: "ts_per_plugin_results s = fst (shard_gate_verdict_outcomes verdict (xc_version x)) @ outs"
    by (rule execute_tiers_run[OF assms])
  have "map undecided outs = map (\<lambda>e. outcome_of_run x e (run e)) (concat tiers)"
    using run_tiers_meaning[OF r] concat_timed[of "\<lambda>e. outcome_of_run x e (run e)" "dn_tier_times nd" 0 tiers]
    by (simp add: timed_tiers_def)
  then show ?thesis by (simp add: res gate_undecided)
qed

text \<open>The outcomes a dispatch may have: none, the gate's alone, or the gate's and one for every synchronous entry.\<close>

definition outcomes_accounted :: "dispatch_env \<Rightarrow> dispatch_plugins \<Rightarrow> envelope \<Rightarrow> registry \<Rightarrow> plugin_outcome list \<Rightarrow> bool" where
  "outcomes_accounted env nd p r outs \<longleftrightarrow> outs = [] \<or>
     (\<exists>verdict x payload rs. (verdict \<noteq> None \<longrightarrow> event_type_of (hp_event_name p) = PreToolUse) \<and>
        map undecided outs = fst (shard_gate_verdict_outcomes verdict (dv_version env)) @
          map (\<lambda>e. outcome_of_run x e (dn_sync nd payload rs e)) (sync_entries env p r))"

lemma precheck_event:
  assumes "shard_cap_precheck env call cwd w = (Some v, w')"
  shows "event_type_of (hp_event_name call) = PreToolUse"
  using assms by (auto simp: shard_cap_precheck_def Let_def split: if_splits)

lemma truncate_event: "hp_event_name (hook_payload.truncate p) = hp_event_name p" "hp_tool_name (hook_payload.truncate p) = hp_tool_name p"
  by (simp_all add: hook_payload.truncate_def)

lemma precheck_of_event:
  "precheck_of env p w = (cwd, Some v, w') \<Longrightarrow> event_type_of (hp_event_name p) = PreToolUse"
  using precheck_event[of "dv_gate env" "hook_payload.truncate p"]
  by (auto simp: precheck_of_def truncate_event split: prod.splits)

text \<open>The code of a report, and the names on its summary line.\<close>

definition report_sound :: "string \<Rightarrow> dispatch_report \<Rightarrow> bool" where
  "report_sound event rep \<longleftrightarrow>
     dp_code rep = (if event_type_of event \<noteq> PostCompact \<and> (\<exists>o1\<in>set (dp_outcomes rep). outcome_blocks o1) then 2 else 0) \<and>
     map_option fst (dp_block rep) =
       (if dp_code rep = 2 then Some (join_comma (map po_name (filter outcome_blocks (dp_outcomes rep)))) else None)"

lemma final_report_sound:
  "code = (if event_type_of event \<noteq> PostCompact \<and> (\<exists>o1\<in>set outs. outcome_blocks o1) then 2 else 0) \<Longrightarrow>
   report_sound event (final_report env code outs nts evs)"
  unfolding report_sound_def final_report_def
  by (simp only: dispatch_report.simps) (auto simp: block_names)

lemma early_report_sound: "report_sound event (early_report 0 None)"
  by (simp add: report_sound_def early_report_def)

lemma gate_only_sound: "report_sound (hp_event_name p) (gate_only_report env p verdict)"
proof (cases verdict)
  case None
  then show ?thesis by (simp add: gate_only_report_def early_report_sound)
next
  case (Some v)
  obtain outs b where o: "shard_gate_verdict_outcomes verdict (dv_version env) = (outs, b)" by fastforce
  have b: "b \<longleftrightarrow> (\<exists>o1\<in>set outs. outcome_blocks o1)"
    using gate_outcomes[of _ verdict "dv_version env"] gate_votes[of verdict "dv_version env"] o
    by (cases outs) auto
  then show ?thesis
    using o Some by (auto simp: gate_only_report_def is_advisory_only_def intro!: final_report_sound)
qed

lemma concat_sync_tiers:
  "concat (group_by_priority r (sync_group (partition_plugins (matched_entries env p r)))) = sync_entries env p r"
  unfolding group_by_priority_core[THEN conjunct1] partition_groups sync_entries_def matched_entries_def ..


section \<open>The verdict of the gate\<close>

lemma reconcile_needs_post:
  "event_type_of (hp_event_name call) = PreToolUse \<Longrightarrow> reconcile_replace_all_overcap_if_qualifying env call cwd w = w"
  by (auto simp: reconcile_replace_all_overcap_if_qualifying_def detect_replace_all_overcap_candidate_def event_type_of_def
      split: if_splits)

lemma run_plugins_loads:
  "isl (fst (run_plugins env nd p r tiers waiting cwd verdict w)) =
   isl (fst (load_resolver_registry (dv_load env) (join_name (path_of (dv_plugin_root env)) ''resolvers-registry.toml'') [] w))"
proof (cases "load_resolver_registry (dv_load env) (join_name (path_of (dv_plugin_root env)) ''resolvers-registry.toml'') [] w"
    rule: prod_cases3)
  case (fields l c u)
  then show ?thesis by (cases l) (auto simp: run_plugins_def Let_def split_beta)
qed

lemma gate_verdict_outcomes_block:
  "verdict \<noteq> GateContinue \<Longrightarrow> snd (shard_gate_verdict_outcomes (Some (hook_result_of show verdict)) v)"
  by (cases verdict) (simp_all add: hook_result_of_def shard_gate_verdict_outcomes_def)

text \<open>
  Claim C14.  A fired shard gate, which has already rolled the file, decides the dispatch unless the plugins behind it cannot be
  set up: on a PreToolUse call the process exits with 2 exactly when no entry matches, or the engine is built and
  the resolver registry loads.  In the other cases the verdict is dropped and the call passes.
\<close>

theorem gate_verdict_reaches_exit:
  assumes "payload_from_reader (dv_parse env) stdin = Inr p" "load_dispatch_registry env w = (Inr r, v)"
    and "resolve_project_cwd env v = (cwd, v1)"
    and gate: "shard_cap_precheck (dv_gate env) (hook_payload.truncate p) cwd v1 = (Some verdict, v2)" "verdict \<noteq> GateContinue"
  shows "fst (main_exit_code env nd stdin w) =
    (if match_plugins (dv_regex env) r (hp_event_name p) (hp_tool_name p) = [] \<or>
        dv_engine env \<and> \<not> isl (fst (load_resolver_registry (dv_load env)
          (join_name (path_of (dv_plugin_root env)) ''resolvers-registry.toml'') [] v2))
     then 2 else 0)"
proof -
  let ?verdict = "Some (hook_result_of (dv_gate_text env) verdict)"
  have event: "event_type_of (hp_event_name p) = PreToolUse" using precheck_event[OF gate(1)] by (simp add: truncate_event)
  have pre: "precheck_of env p v = (cwd, Some verdict, v2)"
    using gate(1) by (simp add: precheck_of_def assms(3) reconcile_needs_post truncate_event event)
  have main: "fst (main_exit_code env nd stdin w) =
      (case run_routed env nd p r v of (Inr rep, _) \<Rightarrow> dp_code rep | (Inl _, _) \<Rightarrow> 0)"
    by (simp add: main_exit_code_def run_dispatch_read[OF assms(1,2)] split: prod.splits sum.splits)
  have blocks: "snd (shard_gate_verdict_outcomes ?verdict n)" for n using gate_verdict_outcomes_block[OF gate(2)] .
  show ?thesis
  proof (cases "matched_entries env p r = []")
    case True
    have "dp_code (gate_only_report env p ?verdict) = 2"
      using blocks event by (simp add: gate_only_report_def final_report_def is_advisory_only_def split_beta)
    then show ?thesis using True by (simp add: main run_routed_cases[OF pre] matched_entries_def)
  next
    case matched: False
    show ?thesis
    proof (cases "dv_engine env")
      case False
      then show ?thesis using matched by (simp add: main run_routed_cases[OF pre] matched_entries_def early_report_def)
    next
      case True
      let ?tiers = "group_by_priority r (sync_group (partition_plugins (matched_entries env p r)))"
      let ?run = "run_plugins env nd p r ?tiers (filter re_async (matched_entries env p r)) cwd ?verdict v2"
      let ?load = "load_resolver_registry (dv_load env)
          (join_name (path_of (dv_plugin_root env)) ''resolvers-registry.toml'') [] v2"
      have code: "fst (main_exit_code env nd stdin w) = (case ?run of (Inr rep, _) \<Rightarrow> dp_code rep | (Inl _, _) \<Rightarrow> 0)"
        using matched True by (simp add: main run_routed_cases[OF pre])
      show ?thesis
      proof (cases "isl (fst ?load)")
        case True
        then obtain err y where "?run = (Inl err, y)"
          using run_plugins_loads[of env nd p r ?tiers "filter re_async (matched_entries env p r)" cwd ?verdict v2]
          by (metis isl_def prod.collapse)
        then show ?thesis using code True matched by (simp add: matched_entries_def)
      next
        case False
        then obtain rep y where rep: "?run = (Inr rep, y)"
          using run_plugins_loads[of env nd p r ?tiers "filter re_async (matched_entries env p r)" cwd ?verdict v2]
          by (metis prod.collapse sum.collapse(2))
        obtain payload x rs s evs z z' nts evs' where
          s: "execute_tiers x (dn_sync nd payload rs) ?verdict (timed_tiers nd ?tiers) z = (s, evs, z')"
          and out: "rep = final_report env (final_exit_code (hp_event_name p) s) (ts_per_plugin_results s) nts evs'"
          by (rule run_plugins_Inr[OF rep])
        have "ts_exit_code s = 2" by (rule execute_tiers_run[OF s]) (simp add: blocks)
        then have "dp_code rep = 2"
          using event by (simp add: out final_report_def final_exit_code_def is_advisory_only_def)
        then show ?thesis using code rep False True by simp
      qed
    qed
  qed
qed

section \<open>Asynchronous plugins have no say\<close>

text \<open>What a dispatch tells the harness: its error, or its code, its outcomes and its summary line.\<close>

definition verdict_part :: "dispatch_error + dispatch_report \<Rightarrow> dispatch_error + (int \<times> plugin_outcome list \<times> (string \<times> string) option)" where
  "verdict_part = map_sum id (\<lambda>rep. (dp_code rep, dp_outcomes rep, dp_block rep))"

lemma verdict_final: "verdict_part (Inr (final_report env code outs nts evs)) =
    verdict_part (Inr (final_report env code outs [] []))"
  by (simp add: verdict_part_def final_report_def)

lemma run_plugins_verdict:
  assumes "dn_sync nd' = dn_sync nd" "dn_tier_times nd' = dn_tier_times nd"
  shows "verdict_part (fst (run_plugins env nd' p r tiers waiting cwd verdict w)) =
    verdict_part (fst (run_plugins env nd p r tiers waiting cwd verdict w))"
proof (cases "load_resolver_registry (dv_load env) (join_name (path_of (dv_plugin_root env)) ''resolvers-registry.toml'') [] w"
    rule: prod_cases3)
  case (fields l c u)
  have timed: "timed_tiers nd' tiers = timed_tiers nd tiers" by (simp add: timed_tiers_def assms(2))
  show ?thesis
    by (cases l)
      (simp_all add: run_plugins_def Let_def split_beta fields timed assms(1)
        verdict_final[of env _ _ "async_notes _ _ _" _] verdict_final[where evs = "_ @ _"])
qed

text \<open>
  Claim C16.  Asynchronous plugins have no say: whatever they answer, in whatever order and time they end, and however many of
  them end inside the drain window, the dispatch has the same exit code, outcomes and summary line.
\<close>

theorem async_plugins_have_no_say:
  assumes "dn_sync nd' = dn_sync nd" "dn_tier_times nd' = dn_tier_times nd"
  shows "verdict_part (fst (run_dispatch env nd' stdin w)) = verdict_part (fst (run_dispatch env nd stdin w)) \<and>
    fst (main_exit_code env nd' stdin w) = fst (main_exit_code env nd stdin w)"
proof -
  have routed: "verdict_part (fst (run_routed env nd' p r v)) = verdict_part (fst (run_routed env nd p r v))" for p r v
  proof (cases "precheck_of env p v" rule: prod_cases3)
    case (fields cwd precheck u)
    show ?thesis unfolding run_routed_cases[OF fields] Let_def using run_plugins_verdict[OF assms] by simp
  qed
  have same: "verdict_part (fst (run_dispatch env nd' stdin w)) = verdict_part (fst (run_dispatch env nd stdin w))"
    by (simp add: run_dispatch_def routed split: sum.splits prod.splits)
  have code: "fst (main_exit_code env n stdin w) =
      (case verdict_part (fst (run_dispatch env n stdin w)) of Inr (c, _) \<Rightarrow> c | Inl _ \<Rightarrow> 0)" for n
    by (simp add: main_exit_code_def verdict_part_def split: sum.splits prod.splits)
  show ?thesis unfolding code same by simp
qed

section \<open>Every asynchronous plugin is accounted for\<close>

lemma spawned_outcome_name: "po_name (fst (spawn_async_plugin x payload cwd rs run e now nonce w)) = re_name e"
  by (auto simp: spawn_async_plugin_def Let_def split: prod.splits plugin_run.splits)

lemma run_async_names:
  "\<forall>(i, now, nonce)\<in>set order. i < length waiting \<Longrightarrow>
   map po_name (fst (run_async x payload cwd rs run waiting order w)) = map (\<lambda>(i, now, nonce). re_name (waiting ! i)) order"
proof (induction order arbitrary: w)
  case (Cons o1 order)
  obtain i now nonce where o1: "o1 = (i, now, nonce)" by (rule prod_cases3)
  obtain out evs v where s: "spawn_async_plugin x payload cwd rs run (waiting ! i) now nonce w = (out, evs, v)" by (rule prod_cases3)
  show ?case using Cons.IH[of v] Cons.prems spawned_outcome_name[of x payload cwd rs run "waiting ! i" now nonce w]
    by (simp add: o1 s split_beta)
qed simp

text \<open>With one entry per name, the abandoned plugins are exactly those that did not end in the window.\<close>

lemma abandoned_exactly:
  assumes "\<forall>(i, now, nonce)\<in>set order. i < length waiting" "distinct (map re_name waiting)"
    and collected_def: "collected = take k (fst (run_async x payload cwd rs run waiting order w))"
  shows "AsyncAbandoned n i \<in> set (async_notes r waiting collected) \<longleftrightarrow>
    i < length waiting \<and> n = re_name (waiting ! i) \<and> i \<notin> set (take k (map fst order))"
proof -
  have names: "map po_name collected = map (\<lambda>i. re_name (waiting ! i)) (take k (map fst order))"
    unfolding collected_def take_map[symmetric] run_async_names[OF assms(1)] by (simp add: take_map case_prod_unfold)
  have other: "AsyncAbandoned n i \<notin> set (async_note_of r sp out)" for sp out
    by (auto simp: async_note_of_def split: plugin_result.splits)
  have spawned: "(n, i) \<in> set (spawned_entries waiting) \<longleftrightarrow> i < length waiting \<and> n = re_name (waiting ! i)"
    by (auto simp: spawned_entries_def in_set_enumerate_eq image_iff intro!: bexI[of _ "(i, waiting ! i)"])
  have idx: "\<forall>j\<in>set (take k (map fst order)). j < length waiting" using assms(1) by (fastforce dest: in_set_takeD)
  have mem: "re_name (waiting ! i) \<in> po_name ` set collected \<longleftrightarrow> i \<in> set (take k (map fst order))" if i: "i < length waiting"
  proof -
    have "po_name ` set collected = (\<lambda>i. re_name (waiting ! i)) ` set (take k (map fst order))"
      using arg_cong[OF names, of set] by simp
    then show ?thesis using assms(2) i idx by (auto simp: distinct_conv_nth)
  qed
  show ?thesis using other spawned mem by (auto simp: async_notes_def)
qed

text \<open>Two entries of one name share a fate in the log: one that ended hides the other, which is neither completed nor abandoned.\<close>

lemma namesakes_hide:
  "po_name out = n \<Longrightarrow> out \<in> set collected \<Longrightarrow> AsyncAbandoned n i \<notin> set (async_notes r waiting collected)"
  by (auto simp: async_notes_def async_note_of_def split: plugin_result.splits)

section \<open>A dispatch\<close>

text \<open>A write in a project whose shard registry is not readable as TOML, in front of one plugin that votes to block.\<close>

definition drill_entry :: registry_entry where
  "drill_entry = sample_registry_entry\<lparr>re_async := False\<rparr>"

definition drill_registry :: registry where
  "drill_registry = \<lparr>reg_schema_version = 2, reg_defaults = default_registry_defaults, reg_hooks = [drill_entry]\<rparr>"

definition drill_world :: world where
  "drill_world = \<lparr>nodes = [([RootDir, Normal ''h''], Directory),
       ([RootDir, Normal ''h'', Normal ''hooks-registry.toml''], File ''hooks''),
       ([RootDir, Normal ''p''], Directory), ([RootDir, Normal ''p'', Normal ''.factory''], Directory),
       ([RootDir, Normal ''p'', Normal ''.factory'', Normal ''shard-config.toml''], File ''?'')],
     faults = [], nonces = [], pid = 7\<rparr>"

definition drill_gate :: gate_env where
  "drill_gate = \<lparr>ge_shard = \<lparr>toml_to = \<lambda>_. None, toml_from = \<lambda>_. None, utc_now = ''now''\<rparr>,
     ge_migrate = \<lparr>my_frontmatter = \<lambda>_. Inl [], my_changelog = \<lambda>_. Inl []\<rparr>,
     ge_changelog_items = \<lambda>_. None, ge_registry = \<lambda>_. None\<rparr>"

definition drill_input :: "(string \<times> json) list" where
  "drill_input = [(''event_name'', JStr ''PreToolUse''), (''tool_name'', JStr ''Write''), (''session_id'', JStr ''s''),
     (''tool_input'', JObj [(''file_path'', JStr ''a.md''), (''content'', JStr ''x'')])]"

definition drill_envelope :: envelope where
  "drill_envelope = \<lparr>hp_event_name = ''PreToolUse'', hp_tool_name = ''Write'',
     hp_tool_input = JObj [(''file_path'', JStr ''a.md''), (''content'', JStr ''x'')], en_session_id = ''s'',
     en_tool_response = None, en_extra = []\<rparr>"

definition drill_env :: "bool \<Rightarrow> dispatch_env" where
  "drill_env engine = \<lparr>dv_parse = \<lambda>_. Some (JObj drill_input), dv_stdout_json = \<lambda>_. None, dv_trace = ''t'', dv_version = ''1'',
     dv_plugin_root = ''/h'', dv_project_dir = None, dv_current_dir = Some [RootDir, Normal ''p''], dv_log_path = None,
     dv_regex = \<lambda>_. None, dv_registry = \<lambda>_. Some drill_registry, dv_gate = drill_gate, dv_gate_text = \<lambda>_. ''gate'',
     dv_git = \<lambda>_ _. Inl [], dv_engine = engine, dv_load = demo_load_env, dv_marker = demo_marker_env\<rparr>"

definition drill_plugins :: dispatch_plugins where
  "drill_plugins = \<lparr>dn_sync = \<lambda>_ _ _. Ran (PluginOk 2 [] [] 0 0) False, dn_tier_times = \<lambda>_. ([PreCheck 0 0, Settle 0 0 0], \<lambda>_. 0),
     dn_async = \<lambda>_ _. NotStarted [], dn_async_order = [], dn_drained = 0\<rparr>"

lemma drill_read: "payload_from_reader (dv_parse (drill_env b)) (Inr []) = Inr drill_envelope"
  by (simp add: payload_from_reader_def payload_from_bytes_def drill_env_def drill_input_def drill_envelope_def drop_alias_def
      deserialize_envelope_def event_field_def unwrap_or_def validate_envelope_def envelope_keys_def)

definition drill_loaded :: registry where
  "drill_loaded = drill_registry\<lparr>reg_hooks := [drill_entry\<lparr>re_plugin := [RootDir, Normal ''h'', Normal ''guard.wasm'']\<rparr>]\<rparr>"

lemma drill_files:
  "fs_metadata (join_name (path_of ''/h'') ''hooks-registry.toml'') drill_world = (Inr (File ''hooks''), drill_world)"
  "fs_read_to_string (join_name (path_of ''/h'') ''hooks-registry.toml'') drill_world = (Inr ''hooks'', drill_world)"
  "isl (fst (fs_metadata (join_name (path_of ''/h'') ''resolvers-registry.toml'') drill_world))"
  "path_exists (join_name [RootDir, Normal ''p''] shard_config_relative_path) drill_world = (True, drill_world)"
  "fs_read_to_string (join_name [RootDir, Normal ''p''] shard_config_relative_path) drill_world = (Inr ''?'', drill_world)"
  "resolve_plugin_paths (path_of ''/h'') drill_registry = drill_loaded"
  "parent (join_name (path_of ''/h'') ''hooks-registry.toml'') = Some (path_of ''/h'')"
  by code_simp+

lemma drill_validate: "validate_registry (\<lambda>_. None) drill_registry = Inr ()"
  by (simp add: validate_registry_def drill_registry_def drill_entry_def sample_registry_entry_def registry_schema_version_def
      validate_name_event_tool_uniqueness_def)

lemma drill_stages:
  "load_dispatch_registry (drill_env b) drill_world = (Inr drill_loaded, drill_world)"
  "match_plugins (dv_regex (drill_env b)) drill_loaded ''PreToolUse'' ''Write'' = reg_hooks drill_loaded"
  "resolve_project_cwd (drill_env b) drill_world = ([RootDir, Normal ''p''], drill_world)"
  "shard_cap_precheck (dv_gate (drill_env b)) (hook_payload.truncate drill_envelope) [RootDir, Normal ''p''] drill_world =
     (Some (GateFail (GateConfig ConfigToml)), drill_world)"
  "fst (load_resolver_registry (dv_load (drill_env b))
     (join_name (path_of (dv_plugin_root (drill_env b))) ''resolvers-registry.toml'') [] drill_world) = Inr ([], [])"
  subgoal by (simp add: load_dispatch_registry_def drill_env_def registry_load_def drill_files registry_parse_str_def drill_validate)
  subgoal by (simp add: match_plugins_def drill_loaded_def drill_registry_def drill_entry_def sample_registry_entry_def tool_matches_def)
  subgoal by (simp add: resolve_project_cwd_def drill_env_def unwrap_or_def)
  subgoal by (simp add: shard_cap_precheck_def truncate_event drill_envelope_def event_type_of_def drill_env_def drill_files
      load_registry_def drill_gate_def)
  subgoal using drill_files(3) by (auto simp: load_resolver_registry_def drill_env_def isl_def split: prod.splits sum.splits)
  done

theorem gate_verdict_reaches_exit_witness:
  "fst (main_exit_code (drill_env True) drill_plugins (Inr []) drill_world) = 2 \<and>
   fst (main_exit_code (drill_env False) drill_plugins (Inr []) drill_world) = 0"
proof -
  have event: "hp_event_name drill_envelope = ''PreToolUse''" "hp_tool_name drill_envelope = ''Write''"
    by (simp_all add: drill_envelope_def)
  have hooks: "reg_hooks drill_loaded \<noteq> []" by (simp add: drill_loaded_def)
  have engine: "dv_engine (drill_env b) = b" for b by (simp add: drill_env_def)
  show ?thesis
    by (simp only: gate_verdict_reaches_exit[OF drill_read drill_stages(1,3,4) gate_verdict.distinct(4)]
        event drill_stages(2,5) hooks engine) simp
qed

lemma drill_runs:
  "\<exists>rep w' x. run_dispatch (drill_env True) drill_plugins (Inr []) drill_world = (Inr rep, w') \<and>
     map undecided (dp_outcomes rep) = [shard_gate_error_outcome ''gate'' ''1'',
       outcome_of_run x (hd (reg_hooks drill_loaded)) (Ran (PluginOk 2 [] [] 0 0) False)]"
proof -
  let ?env = "drill_env True" and ?p = drill_envelope and ?r = drill_loaded
  have event: "hp_event_name ?p = ''PreToolUse''" "hp_tool_name ?p = ''Write''" by (simp_all add: drill_envelope_def)
  have pre: "precheck_of ?env ?p drill_world = ([RootDir, Normal ''p''], Some (GateFail (GateConfig ConfigToml)), drill_world)"
    by (simp add: precheck_of_def drill_stages reconcile_needs_post truncate_event event event_type_of_def)
  have matched: "matched_entries ?env ?p ?r = reg_hooks ?r" "reg_hooks ?r = [hd (reg_hooks ?r)]" "\<not> re_async (hd (reg_hooks ?r))"
    by (simp_all add: matched_entries_def event drill_stages) (simp_all add: drill_loaded_def drill_entry_def)
  have matched_some: "(matched_entries ?env ?p ?r = []) = False" using matched(1,2) by (metis list.distinct(1))
  have engine: "dv_engine ?env = True" by (simp add: drill_env_def)
  let ?tiers = "group_by_priority ?r (sync_group (partition_plugins (matched_entries ?env ?p ?r)))"
  let ?verdict = "Some (HookError ''gate'')"
  have verdict: "hook_result_of (dv_gate_text ?env) (GateFail (GateConfig ConfigToml)) = HookError ''gate''"
    by (simp add: hook_result_of_def drill_env_def)
  have "run_dispatch ?env drill_plugins (Inr []) drill_world =
      run_plugins ?env drill_plugins ?p ?r ?tiers (filter re_async (matched_entries ?env ?p ?r)) [RootDir, Normal ''p''] ?verdict drill_world"
    (is "_ = ?run")
    unfolding run_dispatch_read[OF drill_read drill_stages(1)] run_routed_cases[OF pre] Let_def
    by (simp only: matched_some engine verdict option.map if_False not_True_eq_False)
  moreover obtain rep w' where run: "?run = (Inr rep, w')"
    using run_plugins_loads[of ?env drill_plugins ?p ?r ?tiers "filter re_async (matched_entries ?env ?p ?r)"
        "[RootDir, Normal ''p'']" ?verdict drill_world] drill_stages(5)[of True]
    by (metis prod.collapse sum.collapse(2) sum.disc(2))
  obtain payload x rs s evs y y' nts evs' where x: "xc_version x = dv_version ?env"
    and s: "execute_tiers x (dn_sync drill_plugins payload rs) ?verdict (timed_tiers drill_plugins ?tiers) y = (s, evs, y')"
    and rep: "rep = final_report ?env (final_exit_code (hp_event_name ?p) s) (ts_per_plugin_results s) nts evs'"
    by (rule run_plugins_Inr[OF run])
  have "sync_entries ?env ?p ?r = [hd (reg_hooks ?r)]"
    using matched by (simp add: sync_entries_def matched_entries_def[symmetric]) (metis filter.simps sort_key_simps(1) insort_key.simps(1) sort_key_simps(2))
  then have "map undecided (dp_outcomes rep) = [shard_gate_error_outcome ''gate'' ''1'',
      outcome_of_run x (hd (reg_hooks ?r)) (Ran (PluginOk 2 [] [] 0 0) False)]"
    using executed_outcomes[OF s] unfolding concat_sync_tiers x
    by (simp add: rep final_report_def shard_gate_verdict_outcomes_def) (simp add: drill_env_def drill_plugins_def)
  ultimately show ?thesis using run by metis
qed


theorem async_plugins_have_no_say_witness:
  "fst (main_exit_code (drill_env True) (drill_plugins\<lparr>dn_async_order := [(0, 1, 2)], dn_drained := 1\<rparr>) (Inr []) drill_world) =
   fst (main_exit_code (drill_env True) drill_plugins (Inr []) drill_world)"
proof -
  let ?nd = "drill_plugins\<lparr>dn_async_order := [(0, 1, 2)], dn_drained := 1\<rparr>"
  have "dn_sync ?nd = dn_sync drill_plugins" "dn_tier_times ?nd = dn_tier_times drill_plugins" by simp_all
  from async_plugins_have_no_say[OF this] show ?thesis by (rule conjunct2)
qed

end
