(* ===== verification/Spec2Isabelle.thy ===== *)
theory Spec2Isabelle
  imports ShardPartition ShardBoundary ShardTriggers ShardRollClaims ShardHealClaims ExecutorClaims
    FactoryLockClaims SinkResilience SinkDlq MigrateClaims ShardGateClaims
    ShardRetentionClaims ShardBackfillHeal HostLimits
    MutationGate LockGuard Stamp Flush DispatchClaims
begin

text \<open>
  Verification library for vsdd-factory: a dispatcher that runs WASM hook plugins around the tool calls of a
  coding agent, and the tools that keep its artifact files.

  \<^bold>\<open>The program.\<close>  A hook event reaches the dispatcher (\<^verbatim>\<open>factory-dispatcher/src\<close>).  The registry gives the
  matching entries, routing puts them into priority tiers, the shard-cap gate looks at the pending edit, the
  executor runs each tier, and the aggregated outcome decides whether the tool call is blocked.  A plugin that
  cannot decide leaves the tree under quarantine through the unvalidated-mutation marker.  Plugins reach files,
  the environment and subprocesses through host functions with allow lists.  Artifacts that grow past their cap
  are sealed into shards by the roll, repaired by self-heal and reconciliation, archived by retention, and split
  once by the backfill.  Beside the dispatcher stand the factory lock of \<^verbatim>\<open>STATE.md\<close>, the event sinks, and the
  migration tool for amendment fields.

  \<^bold>\<open>Theories and sources.\<close>
    \<^item> \<open>Prelude\<close>, \<open>RustStr\<close>, \<open>RustText\<close>, \<open>RustPath\<close>, \<open>F64\<close>, \<open>Json\<close>: the parts of the Rust standard library,
      of IEEE arithmetic and of JSON that the sources use, on machine words and byte strings.
    \<^item> \<open>RustFs\<close>: \<^verbatim>\<open>std::fs\<close> on an explicit world (tree, fault schedule, nonces, process id).  \<open>RustWalk\<close>: path
      resolution through symbolic links.  \<open>AtomicReplace\<close>: the contract of an atomic replace as a locale, with
      its two writers as interpretations.
    \<^item> \<open>ShardConfig\<close>, \<open>ShardTriggers\<close>, \<open>ShardBoundary\<close>, \<open>ShardPartition\<close>: the pure parts of \<^verbatim>\<open>shard_manager.rs\<close>:
      configuration, roll triggers, the record-boundary oracle, the greedy partition.
    \<^item> \<open>ShardIo\<close>, \<open>ShardNames\<close>, \<open>ShardCodec\<close>, \<open>ShardRoll\<close>: the writers, the file names, the index and the roll;
      guarantees in \<open>ShardRollSafety\<close>, \<open>ShardRollOutcome\<close>, \<open>ShardRollLive\<close>, \<open>ShardRollClaims\<close>.
    \<^item> \<open>ShardHeal\<close>, \<open>ShardHealSafety\<close>, \<open>ShardHealReconcile\<close>, \<open>ShardHealClaims\<close>: recovery after an interrupted roll.
    \<^item> \<open>ShardGate\<close>, \<open>ShardTame\<close>, \<open>ShardGateClaims\<close>: the gate on a pending edit (\<^verbatim>\<open>shard_cap_gate_check\<close>, its adapter
      in \<^verbatim>\<open>executor.rs\<close>, the reconciliation after an edit in \<^verbatim>\<open>invoke.rs\<close>).
    \<^item> \<open>ShardRetention\<close>, \<open>ShardRetentionClaims\<close>: archiving.  \<open>ShardBackfill\<close>, \<open>ShardBackfillSteps\<close>,
      \<open>ShardBackfillClaims\<close>, \<open>ShardBackfillHeal\<close>: the one-time split and its recovery.
    \<^item> \<open>Registry\<close>, \<open>Routing\<close>: \<^verbatim>\<open>registry.rs\<close>, \<^verbatim>\<open>routing.rs\<close>, \<^verbatim>\<open>partition.rs\<close>, \<^verbatim>\<open>aggregator.rs\<close>.  \<open>Marker\<close>,
      \<open>MarkerSafety\<close>: \<^verbatim>\<open>indeterminate_marker.rs\<close>.  \<open>Executor\<close>, \<open>ExecutorClaims\<close>: \<^verbatim>\<open>executor.rs\<close> and the
      classification of \<^verbatim>\<open>invoke.rs\<close>; a tier is a list of steps in any interleaving.
    \<^item> \<open>Resolver\<close>, \<open>ResolverCall\<close>, \<open>ResolverView\<close>, \<open>ResolverLoad\<close>: the context resolvers (\<^verbatim>\<open>resolver.rs\<close>, \<^verbatim>\<open>resolver_loader.rs\<close>,
      \<^verbatim>\<open>resolver_classify_trap.rs\<close>), the configuration they are merged into and the asynchronous plugins of \<^verbatim>\<open>executor.rs\<close>.
    \<^item> \<open>HostWire\<close>, \<open>HostPath\<close>, \<open>HostExec\<close>, \<open>HostCalls\<close>: the host functions (\<^verbatim>\<open>host/*.rs\<close>, the production linker of
      \<^verbatim>\<open>invoke.rs\<close>) and the SDK's side of their formats (\<^verbatim>\<open>hook-sdk/src/host.rs\<close>); guarantees in \<open>HostConfine\<close>,
      \<open>HostClaims\<close>, \<open>HostMemory\<close>, divergences in \<open>HostLimits\<close>.
    \<^item> \<open>FactoryLock\<close>, \<open>FactoryLockClaims\<close>: \<^verbatim>\<open>factory-lock-parse\<close> and \<^verbatim>\<open>factory-lock\<close>.
    \<^item> \<open>SinkResilience\<close>, \<open>SinkRouting\<close>, \<open>SinkDlq\<close>: retry, circuit breaker, filters, path templates and the
      dead-letter writer of \<^verbatim>\<open>sink-core\<close> and \<^verbatim>\<open>sink-http\<close>.
    \<^item> \<open>MigrateText\<close>, \<open>MigrateRotate\<close>, \<open>MigrateClaims\<close>: \<^verbatim>\<open>last-amended-migrate\<close>.
    \<^item> \<open>MutationGate\<close>, \<open>LockGuard\<close>, \<open>Stamp\<close>, \<open>Flush\<close>: the hook plugins that stand between the agent and the tree
      (\<^verbatim>\<open>hook-plugins/validate-unvalidated-mutation-marker\<close>, \<^verbatim>\<open>verify-factory-lock\<close>, \<^verbatim>\<open>stamp-state-timestamp\<close>,
      \<^verbatim>\<open>precompact-flush\<close>).
    \<^item> \<open>Envelope\<close>, \<open>BlockReport\<close>, \<open>Dispatch\<close>, \<open>DispatchClaims\<close>: \<^verbatim>\<open>payload.rs\<close>, the git context of \<^verbatim>\<open>invoke.rs\<close> and \<^verbatim>\<open>main.rs\<close>, which
      compose the parts above into one run from standard input to the exit code.

  \<^bold>\<open>State and operations.\<close>  A struct is a record, an enum a datatype with the source's constructors, an integer a
  word of its width, a string the list of its bytes.  An operation that touches the disk takes the world and
  returns it with its result; an error is the left part of a sum, with the values its message interpolates.
  Every call of the system takes the next entry of the fault schedule: an entry makes it fail, a failing write may
  leave a prefix.  A crash is a schedule that fails every later call, so a statement over all schedules covers
  crashes and I/O errors at any point.  Concurrency of plugins is a list of steps in any order.

  \<^bold>\<open>What the lemmas show.\<close>
    \<^item> Safety under every schedule: roll, recovery, gate, retention, backfill and changelog rotation lose no byte,
      shard or item; sealed shards are written once; a live quarantine is lifted by revalidation only.
    \<^item> Liveness without faults: a roll succeeds where it can, an interrupted roll or backfill is completed by the
      next run.
    \<^item> Functional behaviour: what an error says about the tree, what the partition, routing, filters and templates
      compute, when a dispatch blocks.
    \<^item> The sandbox: whatever calls a plugin makes, it stays in its allow lists and output windows; what a call hands
      over is what the file or child held.
    \<^item> Context resolvers: with the registry that was loaded, the configuration of an entry is its static one overlaid
      with the answers; a resolver learns no file outside its allow list and changes nothing.
    \<^item> The plugins: the gate on the next edit follows the marker and lets exactly the read-only git commands pass; an
      edit under a live lock passes for its holder only and extends the lock; the timestamp stamp renews the lock
      of its holder and touches nothing else; the flush before a compaction follows its git protocol whatever git
      answers.
    \<^item> The whole dispatch: the process blocks exactly when the gate or a synchronous plugin does, and names who did; a
      fired gate decides unless the plugins cannot be set up; asynchronous plugins have no say; a plugin is told what
      came in, and what the dispatcher vouches for cannot be forged.
    \<^item> Round trips (lock file, escapes, wire formats, subprocess results), bounds (cap, fuel, part sizes), the
      refinement of the circuit breaker to its history, the equivalence of the back-off with its closed form.

  \<^bold>\<open>Bounds and fuel.\<close>  Links in a last component are followed 41 times by \<open>resolve_link\<close> and links of a whole path
  40 times by \<open>namei\<close>, as the kernel does; more is an error in the code as in the model.  The polling loop of a
  subprocess ends because each poll comes five milliseconds after the one before it.  The memory of a plugin stays
  below 4 GiB.  The program of a resolver runs on the fuel of the code, a thousand million.  All other recursions are structural or have a termination proof; no statement depends on fuel.

  \<^bold>\<open>Parameters.\<close>  What is not under \<^verbatim>\<open>src/\<close> enters as an argument: the TOML, YAML and JSON codecs, the regex
  compiler, the SHA-256 digest, the clock and calendar, random draws, the Unicode alphanumeric test, the run of a
  plugin and of a subprocess, the answers of git, the environment of the process and whether the engine is built.  Where a property relies on one, it says so as a hypothesis, with a witness.

  \<^bold>\<open>Not modelled.\<close>  The WASM engine and the loading of plugin modules (calls of wasmtime), telemetry (nothing
  reads it back), the network drivers of the sinks (clients outside \<^verbatim>\<open>src/\<close>), the sink file, the relay of plugin output,
  command lines (process glue), the attestation gate (git and Markdown, apart from the dispatcher), and the text rules of the other
  hook plugins, which the executor's statements cover as arbitrary answers.  File permissions and directory fsync have
  no effect in the model.
\<close>

end
